(* ===== verification/Prelude.thy ===== *)
theory Prelude
  imports Main "HOL-Library.Char_ord" "HOL-Library.List_Lexorder"
begin

text \<open>
  Shared vocabulary of the development: the type synonyms that name the model's identifiers and
  times, the Go and SQL idioms every component uses (nullable columns, \<open>MAX\<close> over a column,
  single-row queries, set comparison of slices), and the generic lemmas about them.

  Strings are char lists ordered byte by byte (SQLite's BINARY collation, Go's string order).
  Go's \<open>int\<close> and SQLite's 64-bit integers are unbounded \<open>int\<close> here: versions and
  revisions grow by one per write, so the 64-bit bound is never reached by the operations
  modelled. A \<open>time.Time\<close> is its number of nanoseconds since the epoch, a timestamp column the
  whole second its text denotes.
\<close>

named_theorems repo_defs \<open>definitions of the operations, unfolded to expose their branches\<close>
named_theorems schema_defs \<open>definitions of the statement-level table operations\<close>
named_theorems frame_simps \<open>which tables an operation leaves alone\<close>

type_synonym uuid = string
type_synonym time = int
type_synonym stamp = int

section \<open>Nullable values and single-row queries\<close>

text \<open>\<open>sql.NullString.String\<close>: the text of a nullable column, empty when it is NULL.\<close>

definition null_str :: "string option \<Rightarrow> string" where
  "null_str v = (case v of None \<Rightarrow> [] | Some s \<Rightarrow> s)"

definition nullIfEmpty :: "string \<Rightarrow> string option" where
  "nullIfEmpty s = (if s = [] then None else Some s)"

lemma null_str_simps [simp]: "null_str None = []" "null_str (Some s) = s"
  by (simp_all add: null_str_def)

lemma null_str_nullIfEmpty [simp]: "null_str (nullIfEmpty s) = s"
  by (simp add: nullIfEmpty_def)

lemma nullIfEmpty_inj [simp]: "nullIfEmpty s = nullIfEmpty t \<longleftrightarrow> s = t"
  by (auto simp: nullIfEmpty_def)

lemma nullIfEmpty_eq_Some [simp]: "nullIfEmpty s = Some t \<longleftrightarrow> s = t \<and> t \<noteq> []"
  by (auto simp: nullIfEmpty_def)

text \<open>A query for at most one row: the first row of the table that satisfies the condition.\<close>

abbreviation find_row :: "('r \<Rightarrow> bool) \<Rightarrow> 'r list \<Rightarrow> 'r option" where
  "find_row \<equiv> List.find"

definition has_row :: "('r \<Rightarrow> bool) \<Rightarrow> 'r list \<Rightarrow> bool" where
  "has_row P rows = list_ex P rows"

lemma has_row_iff [simp]: "has_row P rows \<longleftrightarrow> (\<exists>r \<in> set rows. P r)"
  by (simp add: has_row_def list_ex_iff)

lemma has_row_simps [code, simp]:
  "has_row P [] = False"
  "has_row P (r # rows) = (P r \<or> has_row P rows)"
  by auto

lemma find_row_append:
  "find_row P (xs @ ys) = (case find_row P xs of None \<Rightarrow> find_row P ys | Some r \<Rightarrow> Some r)"
  by (induction xs) auto

lemma find_row_None: "find_row P rows = None \<longleftrightarrow> (\<forall>r \<in> set rows. \<not> P r)"
  by (auto simp: find_None_iff)

lemma find_row_SomeD: "find_row P rows = Some r \<Longrightarrow> r \<in> set rows \<and> P r"
  by (induction rows) (auto split: if_splits)

lemma find_row_cong: "(\<And>r. r \<in> set rows \<Longrightarrow> P r = Q r) \<Longrightarrow> find_row P rows = find_row Q rows"
  by (induction rows) auto

lemma find_row_map:
  "(\<And>r. P (f r) = P r) \<Longrightarrow> find_row P (map f rows) = map_option f (find_row P rows)"
  by (induction rows) auto

lemma find_row_filter_same:
  "(\<And>r. P r \<Longrightarrow> Q r) \<Longrightarrow> find_row P (filter Q rows) = find_row P rows"
  by (induction rows) auto

text \<open>SQL's \<open>=\<close> between nullable values: not true when either side is NULL.\<close>

definition sql_eq :: "'a option \<Rightarrow> 'a option \<Rightarrow> bool" where
  "sql_eq a b = (case a of None \<Rightarrow> False | Some x \<Rightarrow> (case b of None \<Rightarrow> False | Some y \<Rightarrow> x = y))"

lemma sql_eq_iff [simp]: "sql_eq a b \<longleftrightarrow> a = b \<and> b \<noteq> None"
  by (auto simp: sql_eq_def split: option.splits)

text \<open>\<open>UPDATE ... WHERE\<close> and \<open>DELETE ... WHERE\<close> on a table.\<close>

definition update_rows :: "('r \<Rightarrow> bool) \<Rightarrow> ('r \<Rightarrow> 'r) \<Rightarrow> 'r list \<Rightarrow> 'r list" where
  "update_rows P f rows = map (\<lambda>r. if P r then f r else r) rows"

definition delete_rows :: "('r \<Rightarrow> bool) \<Rightarrow> 'r list \<Rightarrow> 'r list" where
  "delete_rows P rows = filter (\<lambda>r. \<not> P r) rows"

lemma update_rows_simps [simp]:
  "update_rows P f [] = []"
  "update_rows P f (r # rows) = (if P r then f r else r) # update_rows P f rows"
  by (simp_all add: update_rows_def)

lemma length_update_rows [simp]: "length (update_rows P f rows) = length rows"
  by (simp add: update_rows_def)

lemma set_update_rows: "set (update_rows P f rows) = f ` {r \<in> set rows. P r} \<union> {r \<in> set rows. \<not> P r}"
  by (auto simp: update_rows_def)

lemma map_update_rows [simp]:
  "(\<And>r. key (f r) = key r) \<Longrightarrow> map key (update_rows P f rows) = map key rows"
  by (simp add: update_rows_def)

lemma find_row_update_rows:
  assumes "\<And>r. Q (f r) = Q r"
  shows "find_row Q (update_rows P f rows) = map_option (\<lambda>r. if P r then f r else r) (find_row Q rows)"
  unfolding update_rows_def using assms by (intro find_row_map) auto

lemma filter_update_rows:
  assumes "\<And>r. Q (f r) = Q r"
  shows "filter Q (update_rows P f rows) = update_rows P f (filter Q rows)"
  using assms by (induction rows) auto

lemma update_rows_none: "(\<And>r. r \<in> set rows \<Longrightarrow> \<not> P r) \<Longrightarrow> update_rows P f rows = rows"
  by (induction rows) auto

lemma set_delete_rows [simp]: "set (delete_rows P rows) = {r \<in> set rows. \<not> P r}"
  by (auto simp: delete_rows_def)

lemma delete_rows_simps [simp]:
  "delete_rows P [] = []"
  "delete_rows P (r # rows) = (if P r then delete_rows P rows else r # delete_rows P rows)"
  by (simp_all add: delete_rows_def)

lemma distinct_delete_rows [simp]: "distinct (map key rows) \<Longrightarrow> distinct (map key (delete_rows P rows))"
  by (simp add: delete_rows_def distinct_map_filter)

lemma filter_delete_rows: "filter Q (delete_rows P rows) = filter (\<lambda>r. Q r \<and> \<not> P r) rows"
  by (simp add: delete_rows_def conj_commute)

text \<open>A row of a table with distinct keys is what a query for its key finds.\<close>

lemma find_row_key:
  assumes "distinct (map key rows)" and "r \<in> set rows"
  shows "find_row (\<lambda>x. key x = key r) rows = Some r"
  using assms by (induction rows) (auto simp: image_iff)

text \<open>A loop that collects results and returns at the first error.\<close>

fun mapE :: "('a \<Rightarrow> 'e + 'b) \<Rightarrow> 'a list \<Rightarrow> 'e + 'b list" where
  "mapE f [] = Inr []"
| "mapE f (x # xs) =
     (case f x of
        Inl e \<Rightarrow> Inl e
      | Inr y \<Rightarrow> (case mapE f xs of Inl e \<Rightarrow> Inl e | Inr ys \<Rightarrow> Inr (y # ys)))"

lemma mapE_Inr: "mapE f xs = Inr ys \<longleftrightarrow> list_all2 (\<lambda>x y. f x = Inr y) xs ys"
proof (induction xs arbitrary: ys)
  case (Cons x xs)
  show ?case
  proof (cases "f x")
    case (Inr y)
    have "mapE f (x # xs) = Inr ys \<longleftrightarrow> (\<exists>zs. mapE f xs = Inr zs \<and> ys = y # zs)"
      using Inr by (auto split: sum.splits)
    then show ?thesis using Inr by (simp add: Cons.IH list_all2_Cons1) blast
  qed (auto simp: list_all2_Cons1)
qed auto

lemma mapE_total: "(\<And>x. x \<in> set xs \<Longrightarrow> f x = Inr (g x)) \<Longrightarrow> mapE f xs = Inr (map g xs)"
  by (induction xs) auto

lemma mapE_cong [fundef_cong]: "xs = ys \<Longrightarrow> (\<And>x. x \<in> set ys \<Longrightarrow> f x = g x) \<Longrightarrow> mapE f xs = mapE g ys"
proof (induction xs arbitrary: ys)
  case (Cons x xs)
  have "mapE f xs = mapE g xs" using Cons.prems by (intro Cons.IH) auto
  moreover have "f x = g x" using Cons.prems by auto
  ultimately show ?case using Cons.prems(1) by (auto split: sum.splits)
qed simp

lemma mapE_Inl: "mapE f xs = Inl e \<Longrightarrow> \<exists>x \<in> set xs. f x = Inl e"
  by (induction xs) (auto split: sum.splits)

text \<open>\<open>SELECT MAX(column)\<close>: NULL on no rows.\<close>

definition sql_max :: "'a::linorder list \<Rightarrow> 'a option" where
  "sql_max xs = (case xs of [] \<Rightarrow> None | x # ys \<Rightarrow> Some (foldl max x ys))"

lemma foldl_max_ge: "x \<le> foldl max x ys" for x :: "'a::linorder"
  by (induction ys arbitrary: x) (auto intro: order_trans [OF max.cobounded1])

lemma foldl_max_in: "foldl max x ys \<in> insert x (set ys)" for x :: "'a::linorder"
proof (induction ys arbitrary: x)
  case Nil
  then show ?case by simp
next
  case (Cons y ys)
  have "foldl max (max x y) ys \<in> insert (max x y) (set ys)" by (rule Cons.IH)
  moreover have "max x y = x \<or> max x y = y" by (simp add: max_def)
  ultimately show ?case by auto
qed

lemma foldl_max_bound: "y \<in> set ys \<Longrightarrow> y \<le> foldl max x ys" for x :: "'a::linorder"
proof (induction ys arbitrary: x)
  case Nil
  then show ?case by simp
next
  case (Cons z ys)
  show ?case
  proof (cases "y = z")
    case True
    have "z \<le> max x z" by simp
    also have "\<dots> \<le> foldl max (max x z) ys" by (rule foldl_max_ge)
    finally show ?thesis using True by simp
  next
    case False
    with Cons show ?thesis by simp
  qed
qed

lemma sql_max_None [simp]: "sql_max xs = None \<longleftrightarrow> xs = []"
  by (simp add: sql_max_def split: list.splits)

lemma sql_max_in: "sql_max xs = Some m \<Longrightarrow> m \<in> set xs"
  using foldl_max_in by (fastforce simp: sql_max_def split: list.splits)

lemma sql_max_ge: "sql_max xs = Some m \<Longrightarrow> x \<in> set xs \<Longrightarrow> x \<le> m"
  by (auto simp: sql_max_def foldl_max_ge foldl_max_bound split: list.splits)

lemma sql_max_eqI: "m \<in> set xs \<Longrightarrow> (\<And>x. x \<in> set xs \<Longrightarrow> x \<le> m) \<Longrightarrow> sql_max xs = Some m"
proof -
  assume m: "m \<in> set xs" and ub: "\<And>x. x \<in> set xs \<Longrightarrow> x \<le> m"
  from m have "xs \<noteq> []" by auto
  then obtain k where k: "sql_max xs = Some k" by (cases "sql_max xs") auto
  with m ub [of k] sql_max_in [OF k] sql_max_ge [OF k m] show ?thesis by simp
qed

lemma sql_max_snoc: "(\<And>x. x \<in> set xs \<Longrightarrow> x \<le> m) \<Longrightarrow> sql_max (xs @ [m]) = Some m"
  by (rule sql_max_eqI) auto

text \<open>The next number after the highest one in use, 1 when there is none.\<close>

definition next_number :: "int list \<Rightarrow> int" where
  "next_number xs = (case sql_max xs of None \<Rightarrow> 1 | Some m \<Rightarrow> m + 1)"

lemma next_number_fresh: "next_number xs \<notin> set xs"
  using sql_max_ge [of xs] by (force simp: next_number_def split: option.splits)

lemma next_number_gt: "x \<in> set xs \<Longrightarrow> x < next_number xs"
  using sql_max_ge [of xs] by (force simp: next_number_def split: option.splits)

lemma sql_max_next_number: "sql_max (xs @ [next_number xs]) = Some (next_number xs)"
  by (rule sql_max_snoc) (simp add: next_number_gt less_imp_le)

section \<open>Comparing slices as sets and pointers by value (\<open>identity.go\<close>)\<close>

definition setEqual :: "'a list \<Rightarrow> 'a list \<Rightarrow> bool" where
  "setEqual a b = (let sa = remdups a; sb = remdups b
                   in length sa = length sb \<and> list_all (\<lambda>v. List.member sb v) sa)"

lemma setEqual_iff [simp]: "setEqual a b \<longleftrightarrow> set a = set b"
proof
  assume "setEqual a b"
  then have len: "card (set a) = card (set b)" and sub: "set a \<subseteq> set b"
    by (auto simp: setEqual_def Let_def list_all_iff length_remdups_card_conv)
  then show "set a = set b" by (simp add: card_subset_eq)
qed (auto simp: setEqual_def Let_def list_all_iff length_remdups_card_conv)

definition ptrEqual :: "'a option \<Rightarrow> 'a option \<Rightarrow> bool" where
  "ptrEqual a b = (if a = None \<or> b = None then a = None \<and> b = None else the a = the b)"

lemma ptrEqual_iff [simp]: "ptrEqual a b \<longleftrightarrow> a = b"
  by (cases a; cases b) (auto simp: ptrEqual_def)

definition timePtrEqual :: "time option \<Rightarrow> time option \<Rightarrow> bool" where
  "timePtrEqual a b = (if a = None \<or> b = None then a = None \<and> b = None else the a = the b)"

lemma timePtrEqual_iff [simp]: "timePtrEqual a b \<longleftrightarrow> a = b"
  by (cases a; cases b) (auto simp: timePtrEqual_def)

section \<open>Time columns (\<open>timeutil.go\<close>)\<close>

text \<open>
  \<open>formatTime\<close> writes UTC with no fractional seconds, so it drops everything below the second;
  \<open>parseTime\<close> reads the second back. The text of four-digit years orders as the seconds do.
\<close>

definition formatTime :: "time \<Rightarrow> stamp" where
  "formatTime t = t div 1000000000"

definition parseTime :: "stamp \<Rightarrow> time" where
  "parseTime s = s * 1000000000"

definition formatTimePtr :: "time option \<Rightarrow> stamp option" where
  "formatTimePtr t = map_option formatTime t"

definition parseNullTime :: "stamp option \<Rightarrow> time option" where
  "parseNullTime s = map_option parseTime s"

lemma formatTime_parseTime [simp]: "formatTime (parseTime s) = s"
  by (simp add: formatTime_def parseTime_def)

lemma parseTime_inj [simp]: "parseTime s = parseTime t \<longleftrightarrow> s = t"
  by (simp add: parseTime_def)

lemma parse_format_le: "parseTime (formatTime t) \<le> t"
  by (simp add: formatTime_def parseTime_def mult.commute)

lemma parse_format_gt: "t < parseTime (formatTime t) + 1000000000"
  by (simp add: formatTime_def parseTime_def)

lemma parseNullTime_simps [simp]: "parseNullTime None = None" "parseNullTime (Some s) = Some (parseTime s)"
  by (simp_all add: parseNullTime_def)

section \<open>Strings\<close>

text \<open>
  The functions of package \<open>strings\<close> in use: \<open>Split\<close> and \<open>Cut\<close> (before, after, found) at a one-character
  separator, \<open>TrimSpace\<close> (ASCII white space), \<open>TrimPrefix\<close>, and \<open>Replace\<close> of the first occurrence;
  and \<open>hex.EncodeToString\<close>. A byte is a character.
\<close>

fun split_at :: "char \<Rightarrow> string \<Rightarrow> string list" where
  "split_at sep [] = [[]]"
| "split_at sep (c # cs) =
     (case split_at sep cs of
        [] \<Rightarrow> [[c]]
      | p # ps \<Rightarrow> if c = sep then [] # p # ps else (c # p) # ps)"

fun cut :: "char \<Rightarrow> string \<Rightarrow> string \<times> string \<times> bool" where
  "cut sep [] = ([], [], False)"
| "cut sep (c # cs) = (if c = sep then ([], cs, True) else (let (a, b, f) = cut sep cs in (c # a, b, f)))"

definition is_space :: "char \<Rightarrow> bool" where
  "is_space c \<longleftrightarrow> (let n = of_char c :: nat in n = 32 \<or> (9 \<le> n \<and> n \<le> 13))"

definition trimSpace :: "string \<Rightarrow> string" where
  "trimSpace s = rev (dropWhile is_space (rev (dropWhile is_space s)))"

definition trimPrefix :: "string \<Rightarrow> string \<Rightarrow> string" where
  "trimPrefix s p = (if take (length p) s = p then drop (length p) s else s)"

fun replace_first :: "string \<Rightarrow> string \<Rightarrow> string \<Rightarrow> string" where
  "replace_first [] old new = (if old = [] then new else [])"
| "replace_first (c # cs) old new =
     (if take (length old) (c # cs) = old then new @ drop (length old) (c # cs) else c # replace_first cs old new)"

lemma split_at_free: "c \<notin> set xs \<Longrightarrow> split_at c xs = [xs]"
  by (induction xs) auto

lemma split_at_not_Nil: "split_at c xs \<noteq> []"
  by (induction xs) (auto split: list.splits)

lemma split_at_append: "split_at c (xs @ c # ys) = split_at c xs @ split_at c ys"
proof (induction xs)
  case Nil
  then show ?case by (simp add: split_at_not_Nil split: list.splits)
next
  case (Cons x xs)
  then show ?case by (auto simp: split_at_not_Nil split: list.splits)
qed

definition is_hex :: "char \<Rightarrow> bool" where
  "is_hex c \<longleftrightarrow> List.member ''0123456789abcdef'' c"

definition hex_digit :: "nat \<Rightarrow> char" where
  "hex_digit n = ''0123456789abcdef'' ! (n mod 16)"

definition hexEncode :: "string \<Rightarrow> string" where
  "hexEncode bs = concat (map (\<lambda>b. [hex_digit (of_char b div 16), hex_digit (of_char b)]) bs)"

lemma is_hex_digit [simp]: "is_hex (hex_digit n)"
proof -
  have "hex_digit n \<in> set ''0123456789abcdef''" unfolding hex_digit_def by (rule nth_mem) simp
  then show ?thesis by (simp add: is_hex_def)
qed

lemma hexEncode_hex: "list_all is_hex (hexEncode bs)"
  by (induction bs) (simp_all add: hexEncode_def)

lemma length_hexEncode [simp]: "length (hexEncode bs) = 2 * length bs"
  by (induction bs) (simp_all add: hexEncode_def)

end
