(* ===== verification/Wire.thy ===== *)
theory Wire
  imports Prelude
begin

text \<open>
  The JSON-facing wire types of \<open>pkg/tea\<close> (\<open>types.go\<close>, \<open>trust.go\<close>) and of the publisher delta
  \<open>pkg/teapublisher\<close>, one record per Go struct with the struct's fields in its order, and the
  closed vocabularies of \<open>enums.go\<close>. A pointer field is an option, a slice a list.
\<close>

section \<open>Catalogue types\<close>

record Identifier =
  IDType :: string
  IDValue :: string

record Product =
  prod_UUID :: uuid
  prod_Name :: string
  prod_Identifiers :: "Identifier list"

record ComponentRef =
  ref_UUID :: uuid
  ref_Release :: "uuid option"

record ProductRelease =
  prel_UUID :: uuid
  prel_Product :: uuid
  prel_ProductName :: string
  prel_Version :: string
  prel_CreatedDate :: time
  prel_ReleaseDate :: "time option"
  prel_PreRelease :: "bool option"
  prel_Identifiers :: "Identifier list"
  prel_Components :: "ComponentRef list"

record Component =
  comp_UUID :: uuid
  comp_Name :: string
  comp_Identifiers :: "Identifier list"

record Checksum =
  AlgType :: string
  AlgValue :: string

record ReleaseDistribution =
  dist_DistributionID :: uuid
  dist_Description :: string
  dist_Identifiers :: "Identifier list"
  dist_URL :: string
  dist_SignatureURL :: string
  dist_Checksums :: "Checksum list"

record ComponentRelease =
  crel_UUID :: uuid
  crel_Component :: uuid
  crel_ComponentName :: string
  crel_Version :: string
  crel_CreatedDate :: time
  crel_ReleaseDate :: "time option"
  crel_PreRelease :: "bool option"
  crel_Identifiers :: "Identifier list"
  crel_Distributions :: "ReleaseDistribution list"

section \<open>Evidence bundles of the trust architecture\<close>

record EvidenceDigest =
  dig_Algorithm :: string
  dig_Value :: string

record EvidenceObjectRef =
  obj_ObjectType :: string
  obj_MediaType :: string
  obj_Location :: string
  obj_Digest :: EvidenceDigest

record EvidenceSignature =
  sig_Format :: string
  sig_Value :: string
  sig_SignatureDigest :: "EvidenceDigest option"

record EvidenceCertificate =
  cert_Format :: string
  cert_Certificate :: string
  cert_Chain :: "string list"
  cert_Fingerprint :: "EvidenceDigest option"

record EvidenceTimestamp =
  tst_Format :: string
  tst_TSASubjectDN :: string
  tst_TSAPubkeyFingerprint :: string
  tst_TSAURI :: string
  tst_Token :: string
  tst_MessageImprintValue :: string

record EvidenceTransparency =
  tlog_System :: string
  tlog_EvidenceType :: string
  tlog_BindingType :: string
  tlog_BindingDigestValue :: string
  tlog_VerificationJSON :: string

record EvidenceBundle =
  eb_UUID :: uuid
  eb_BundleVersion :: string
  eb_OwnerType :: string
  eb_OwnerUUID :: uuid
  eb_OwnerVersion :: int
  eb_Status :: string
  eb_Object :: EvidenceObjectRef
  eb_Signature :: EvidenceSignature
  eb_Certificate :: EvidenceCertificate
  eb_Timestamps :: "EvidenceTimestamp list"
  eb_Transparency :: "EvidenceTransparency list"

record EvidenceBundleRef =
  ebr_URI :: string
  ebr_Digest :: EvidenceDigest

section \<open>Artifacts and collections\<close>

record ArtifactFormat =
  fmt_MediaType :: string
  fmt_Description :: string
  fmt_URL :: string
  fmt_SignatureURL :: string
  fmt_Checksums :: "Checksum list"
  fmt_EvidenceBundle :: "EvidenceBundle option"
  fmt_EvidenceBundleRef :: "EvidenceBundleRef option"

record Artifact =
  art_UUID :: uuid
  art_Version :: int
  art_Name :: string
  art_Type :: string
  art_CreatedDate :: "time option"
  art_DistributionIDs :: "uuid list"
  art_Formats :: "ArtifactFormat list"

record UpdateReason =
  reason_Type :: string
  reason_Comment :: string

record Collection =
  coll_UUID :: uuid
  coll_Version :: int
  coll_CreatedDate :: time
  coll_BelongsTo :: string
  coll_UpdateReason :: "UpdateReason option"
  coll_Artifacts :: "Artifact list"
  coll_EvidenceBundle :: "EvidenceBundle option"
  coll_EvidenceBundleRef :: "EvidenceBundleRef option"

section \<open>Lifecycle events\<close>

record CLEVersionSpecifier =
  vs_Version :: string
  vs_Range :: string

record CLEEvent =
  ev_ID :: int
  ev_Type :: string
  ev_Effective :: time
  ev_Published :: time
  ev_Version :: string
  ev_Versions :: "CLEVersionSpecifier list"
  ev_SupportID :: string
  ev_License :: string
  ev_SupersededByVersion :: string
  ev_Identifiers :: "Identifier list"
  ev_EventID :: "int option"
  ev_Reason :: string
  ev_Description :: string
  ev_References :: "string list"

record CLESupportDefinition =
  sd_ID :: string
  sd_Description :: string
  sd_URL :: string

record CLE =
  cle_Events :: "CLEEvent list"
  cle_Definitions :: "CLESupportDefinition list option"

section \<open>Collection drafts of the publisher API\<close>

record ArtifactRef =
  aref_UUID :: uuid
  aref_Version :: int

record CollectionDraftDiff =
  diff_Added :: "uuid list"
  diff_Removed :: "uuid list"

record CollectionDraftApproval =
  appr_Status :: string
  appr_DecidedBy :: string
  appr_DecidedAt :: "time option"
  appr_DecidedAtRevision :: int
  appr_ExpiresAt :: "time option"
  appr_Comment :: string

record CollectionDraft =
  draft_OwnerType :: string
  draft_OwnerUUID :: uuid
  draft_CreatedAt :: "time option"
  draft_ExpiresAt :: "time option"
  draft_LockExpiresAt :: "time option"
  draft_Artifacts :: "ArtifactRef list"
  draft_UpdateReason :: "UpdateReason option"
  draft_DiffAgainstCurrent :: "CollectionDraftDiff option"
  draft_DraftedBy :: string
  draft_Revision :: int
  draft_Approval :: "CollectionDraftApproval option"

section \<open>Closed vocabularies (\<open>enums.go\<close>)\<close>

definition identifierTypes :: "string list" where
  "identifierTypes = [''CPE'', ''TEI'', ''PURL'', ''COMPLIANCE_DOCUMENT'']"

definition validComplianceDocumentTypes :: "string list" where
  "validComplianceDocumentTypes =
     [''SOC_2_TYPE_I'', ''SOC_2_TYPE_II'', ''SOC_3'', ''ISO_27001'', ''ISO_27017'', ''ISO_27018'',
      ''ISO_27701'', ''ISO_42001'', ''PCI_DSS'', ''HIPAA'', ''FEDRAMP'', ''GDPR'', ''CSA_STAR'',
      ''NIST_800_53'', ''NIST_800_171'', ''CMMC'', ''HITRUST'', ''TISAX'', ''CYBER_ESSENTIALS'',
      ''CYBER_ESSENTIALS_PLUS'', ''EU_DECLARATION_OF_CONFORMITY'']"

definition artifactTypes :: "string list" where
  "artifactTypes =
     [''ATTESTATION'', ''BOM'', ''BUILD_META'', ''CERTIFICATION'', ''FORMULATION'', ''LICENSE'',
      ''RELEASE_NOTES'', ''SECURITY_TXT'', ''THREAT_MODEL'', ''VULNERABILITIES'', ''OTHER'']"

definition checksumTypes :: "string list" where
  "checksumTypes =
     [''MD5'', ''SHA-1'', ''SHA-256'', ''SHA-384'', ''SHA-512'', ''SHA3-256'', ''SHA3-384'',
      ''SHA3-512'', ''BLAKE2b-256'', ''BLAKE2b-384'', ''BLAKE2b-512'', ''BLAKE3'']"

definition collectionUpdateReasons :: "string list" where
  "collectionUpdateReasons =
     [''INITIAL_RELEASE'', ''VEX_UPDATED'', ''ARTIFACT_UPDATED'', ''ARTIFACT_ADDED'',
      ''ARTIFACT_REMOVED'']"

definition cleEventTypes :: "string list" where
  "cleEventTypes =
     [''released'', ''endOfDevelopment'', ''endOfSupport'', ''endOfLife'', ''endOfDistribution'',
      ''endOfMarketing'', ''supersededBy'', ''componentRenamed'', ''withdrawn'']"

abbreviation BelongsToProductRelease :: string where
  "BelongsToProductRelease \<equiv> ''PRODUCT_RELEASE''"

abbreviation BelongsToComponentRelease :: string where
  "BelongsToComponentRelease \<equiv> ''COMPONENT_RELEASE''"

end
