(* ===== verification/Schema.thy ===== *)
theory Schema
  imports Wire
begin

text \<open>
  The database behind \<open>internal/repo\<close>: one record per table of \<open>internal/db/migrations\<close>, the
  tables as lists of rows in rowid order, and the record \<open>db\<close> of all of them. A repository
  operation is a function from a database to an outcome and a database; a statement that fails a
  constraint leaves the tables as they were, a failed operation inside a transaction may leave
  earlier writes behind until the transaction rolls them back (\<open>repo.go\<close>).
\<close>

section \<open>Rows\<close>

record user_row =
  u_uuid :: uuid
  u_username :: string
  u_password_hash :: string
  u_role :: string
  u_created_at :: stamp

record session_row =
  ss_token_hash :: string
  ss_user :: uuid
  ss_expires_at :: stamp

record api_key_row =
  ak_user :: uuid
  ak_key_id :: string
  ak_secret_hash :: string
  ak_created_at :: stamp

record access_token_row =
  at_token_hash :: string
  at_user :: uuid
  at_expires_at :: stamp

record blob_row =
  b_sha256 :: string
  b_size :: int
  b_media_type :: "string option"

record product_row =
  p_uuid :: uuid
  p_name :: string

record component_row =
  co_uuid :: uuid
  co_name :: string

text \<open>\<open>product_release\<close> and \<open>component_release\<close> have the same columns.\<close>

record release_row =
  rl_uuid :: uuid
  rl_parent :: uuid
  rl_parent_name :: "string option"
  rl_version :: string
  rl_created_date :: stamp
  rl_release_date :: "stamp option"
  rl_pre_release :: bool
  rl_revision :: int

record release_component_row =
  rc_release :: uuid
  rc_component :: uuid
  rc_pinned :: "uuid option"

record distribution_row =
  rd_id :: uuid
  rd_release :: uuid
  rd_description :: "string option"
  rd_url :: "string option"
  rd_signature_url :: "string option"

record identifier_row =
  idr_owner_type :: string
  idr_owner :: uuid
  idr_type :: string
  idr_value :: string

record artifact_row =
  a_uuid :: uuid
  a_version :: int
  a_name :: "string option"
  a_type :: string
  a_created_date :: "stamp option"
  a_revision :: int

record artifact_format_row =
  af_id :: uuid
  af_artifact :: uuid
  af_version :: int
  af_media_type :: string
  af_description :: "string option"
  af_url :: "string option"
  af_signature_url :: "string option"
  af_signature_sha256 :: "string option"

record checksum_row =
  ck_owner_type :: string
  ck_owner :: uuid
  ck_alg_type :: string
  ck_alg_value :: string

record artifact_distribution_row =
  ad_artifact :: uuid
  ad_version :: int
  ad_distribution :: uuid

record collection_row =
  c_uuid :: uuid
  c_version :: int
  c_date :: stamp
  c_belongs_to :: string
  c_reason_type :: "string option"
  c_reason_comment :: "string option"

record collection_artifact_row =
  ca_uuid :: uuid
  ca_version :: int
  ca_artifact :: uuid
  ca_artifact_version :: int

record cle_event_row =
  ce_owner_type :: string
  ce_owner :: uuid
  ce_id :: int
  ce_type :: string
  ce_effective :: stamp
  ce_published :: stamp
  ce_version :: "string option"
  ce_support_id :: "string option"
  ce_license :: "string option"
  ce_superseded :: "string option"
  ce_event_ref :: "int option"
  ce_reason :: "string option"
  ce_description :: "string option"

record cle_version_row =
  cv_owner_type :: string
  cv_owner :: uuid
  cv_event :: int
  cv_version :: "string option"
  cv_range :: "string option"

record cle_identifier_row =
  ci_owner_type :: string
  ci_owner :: uuid
  ci_event :: int
  ci_type :: string
  ci_value :: string

record cle_reference_row =
  cf_owner_type :: string
  cf_owner :: uuid
  cf_event :: int
  cf_uri :: string

record cle_support_row =
  cs_owner_type :: string
  cs_owner :: uuid
  cs_id :: string
  cs_description :: string
  cs_url :: "string option"

record template_row =
  t_uuid :: uuid
  t_name :: string
  t_description :: "string option"
  t_active_revision :: "int option"
  t_created_at :: stamp

record template_revision_row =
  tr_template :: uuid
  tr_revision :: int
  tr_created_at :: stamp
  tr_created_by :: "uuid option"
  tr_comment :: "string option"

record template_rule_row =
  tc_template :: uuid
  tc_revision :: int
  tc_capability :: string
  tc_artifact_type :: "string option"
  tc_decision :: string

text \<open>\<open>product_group\<close> and \<open>release_group\<close>, and a membership row of either: (group, member).\<close>

record group_row =
  g_uuid :: uuid
  g_name :: string
  g_description :: "string option"
  g_created_at :: stamp

record entitlement_row =
  e_uuid :: uuid
  e_subject_type :: string
  e_subject_id :: "uuid option"
  e_template :: uuid
  e_template_revision :: int
  e_resource_type :: string
  e_resource_id :: "uuid option"
  e_status :: string
  e_valid_from :: "stamp option"
  e_valid_until :: "stamp option"
  e_granting_authority :: string
  e_created_at :: stamp
  e_created_by :: "uuid option"
  e_revision :: int

record fingerprint_row =
  fp_fingerprint :: string
  fp_trust_domain :: string
  fp_bundle :: "uuid option"

record evidence_row =
  er_uuid :: uuid
  er_bundle_version :: string
  er_owner_type :: string
  er_owner :: uuid
  er_owner_version :: int
  er_object_type :: string
  er_object_media_type :: "string option"
  er_object_location :: "string option"
  er_object_digest :: string
  er_signature_format :: string
  er_signature_value :: string
  er_signature_digest :: "string option"
  er_certificate_format :: string
  er_certificate_value :: string
  er_fingerprint :: string
  er_status :: string

record timestamp_row =
  et_bundle :: uuid
  et_subject_dn :: "string option"
  et_pubkey_fingerprint :: "string option"
  et_uri :: "string option"
  et_token :: string
  et_imprint :: "string option"

record transparency_row =
  ex_bundle :: uuid
  ex_system :: string
  ex_evidence_type :: string
  ex_binding_type :: string
  ex_binding_digest :: string
  ex_verification_json :: string

record evidence_ref_row =
  ef_owner_type :: string
  ef_owner :: uuid
  ef_owner_version :: int
  ef_uri :: string
  ef_digest :: string

record draft_row =
  d_owner_type :: string
  d_owner :: uuid
  d_revision :: int
  d_drafted_by :: string
  d_drafted_by_credential :: "uuid option"
  d_reason_type :: "string option"
  d_reason_comment :: "string option"
  d_created_at :: stamp
  d_expires_at :: stamp
  d_lock_expires_at :: "stamp option"
  d_lock_date :: "stamp option"
  d_approval_status :: string
  d_decided_by :: "string option"
  d_decided_by_credential :: "uuid option"
  d_decided_at :: "stamp option"
  d_decided_at_revision :: "int option"
  d_approval_expires_at :: "stamp option"
  d_approval_comment :: "string option"

record draft_artifact_row =
  da_owner_type :: string
  da_owner :: uuid
  da_artifact :: uuid
  da_version :: int

record credential_row =
  cred_uuid :: uuid
  cred_label :: string
  cred_token_hash :: string
  cred_scope :: string
  cred_created_at :: stamp
  cred_revoked_at :: "stamp option"

section \<open>The database\<close>

record db =
  tbl_user :: "user_row list"
  tbl_session :: "session_row list"
  tbl_api_key :: "api_key_row list"
  tbl_access_token :: "access_token_row list"
  tbl_blob :: "blob_row list"
  tbl_product :: "product_row list"
  tbl_component :: "component_row list"
  tbl_product_release :: "release_row list"
  tbl_component_release :: "release_row list"
  tbl_release_component :: "release_component_row list"
  tbl_distribution :: "distribution_row list"
  tbl_identifier :: "identifier_row list"
  tbl_artifact :: "artifact_row list"
  tbl_artifact_format :: "artifact_format_row list"
  tbl_checksum :: "checksum_row list"
  tbl_artifact_distribution :: "artifact_distribution_row list"
  tbl_collection :: "collection_row list"
  tbl_collection_artifact :: "collection_artifact_row list"
  tbl_cle_event :: "cle_event_row list"
  tbl_cle_version :: "cle_version_row list"
  tbl_cle_identifier :: "cle_identifier_row list"
  tbl_cle_reference :: "cle_reference_row list"
  tbl_cle_support :: "cle_support_row list"
  tbl_cle_revision :: "string \<times> uuid \<Rightarrow> int option"
  tbl_watermark :: "string \<Rightarrow> int option"
  tbl_template :: "template_row list"
  tbl_template_revision :: "template_revision_row list"
  tbl_template_rule :: "template_rule_row list"
  tbl_product_group :: "group_row list"
  tbl_product_group_member :: "(uuid \<times> uuid) list"
  tbl_release_group :: "group_row list"
  tbl_release_group_member :: "(uuid \<times> uuid) list"
  tbl_entitlement :: "entitlement_row list"
  tbl_fingerprint :: "fingerprint_row list"
  tbl_evidence :: "evidence_row list"
  tbl_evidence_timestamp :: "timestamp_row list"
  tbl_evidence_transparency :: "transparency_row list"
  tbl_evidence_ref :: "evidence_ref_row list"
  tbl_draft :: "draft_row list"
  tbl_draft_artifact :: "draft_artifact_row list"
  tbl_credential :: "credential_row list"

definition empty_db :: db where
  "empty_db =
     \<lparr>tbl_user = [], tbl_session = [], tbl_api_key = [], tbl_access_token = [], tbl_blob = [],
      tbl_product = [], tbl_component = [], tbl_product_release = [],
      tbl_component_release = [], tbl_release_component = [], tbl_distribution = [],
      tbl_identifier = [], tbl_artifact = [], tbl_artifact_format = [], tbl_checksum = [],
      tbl_artifact_distribution = [], tbl_collection = [], tbl_collection_artifact = [],
      tbl_cle_event = [], tbl_cle_version = [], tbl_cle_identifier = [], tbl_cle_reference = [],
      tbl_cle_support = [], tbl_cle_revision = (\<lambda>_. None), tbl_watermark = (\<lambda>_. None),
      tbl_template = [], tbl_template_revision = [], tbl_template_rule = [],
      tbl_product_group = [], tbl_product_group_member = [], tbl_release_group = [],
      tbl_release_group_member = [], tbl_entitlement = [], tbl_fingerprint = [],
      tbl_evidence = [], tbl_evidence_timestamp = [], tbl_evidence_transparency = [],
      tbl_evidence_ref = [], tbl_draft = [], tbl_draft_artifact = [], tbl_credential = []\<rparr>"

section \<open>Operations, errors and transactions (\<open>repo.go\<close>)\<close>

datatype repo_error =
    ErrNotFound
  | ErrDraftLocked
  | ErrSelfApproval
  | ErrApprovalRequired
  | ErrLockNotHeld
  | ErrDraftRevisionConflict
  | ErrImportIdentityConflict
  | ErrCrossTypeUUIDReuse
  | ErrVersionConflict
  | ErrFingerprintReused
  | ErrEvidenceBundleIncomplete
  | ErrNoMatchingFormat
  | ErrSignatureNotFound
  | ErrComplianceDocumentWrongOwner
  | ErrInvalidComplianceDocumentType
  | ErrComponentIdentifierConflict
  | ErrTemplateInUse
  | ErrInvalidCredentials
  | ErrUsernameTaken
  | ErrPasswordTooShort
  | ErrLastAdmin
  | ErrCheckConstraint
  | ErrUniqueConstraint
  | ErrForeignKeyConstraint
  | ErrOther string

type_synonym 'a repo_op = "db \<Rightarrow> (repo_error + 'a) \<times> db"

definition returnR :: "'a \<Rightarrow> 'a repo_op" where
  "returnR x s = (Inr x, s)"

definition failR :: "repo_error \<Rightarrow> 'a repo_op" where
  "failR e s = (Inl e, s)"

definition bindR :: "'a repo_op \<Rightarrow> ('a \<Rightarrow> 'b repo_op) \<Rightarrow> 'b repo_op" where
  "bindR m k s = (case m s of (Inl e, s') \<Rightarrow> (Inl e, s') | (Inr x, s') \<Rightarrow> k x s')"

text \<open>A read of the current database, and a statement that cannot fail.\<close>

definition readR :: "(db \<Rightarrow> repo_error + 'a) \<Rightarrow> 'a repo_op" where
  "readR q s = (q s, s)"

definition execR :: "(db \<Rightarrow> db) \<Rightarrow> unit repo_op" where
  "execR f s = (Inr (), f s)"

text \<open>A loop over a slice that returns at the first error.\<close>

fun forR :: "('x \<Rightarrow> unit repo_op) \<Rightarrow> 'x list \<Rightarrow> unit repo_op" where
  "forR f [] s = (Inr (), s)"
| "forR f (x # xs) s = bindR (f x) (\<lambda>_. forR f xs) s"

text \<open>
  \<open>Repo.tx\<close>: whether the receiver is scoped inside a \<open>WithTx\<close> callback. \<open>runInTx\<close> reuses an outer
  transaction, and otherwise rolls back to the state before on an error; \<open>WithTx\<close> refuses to nest.
\<close>

datatype repo_conn = Pool | InTx

definition runInTx :: "repo_conn \<Rightarrow> 'a repo_op \<Rightarrow> 'a repo_op" where
  "runInTx c fn s =
     (case c of
        InTx \<Rightarrow> fn s
      | Pool \<Rightarrow> (case fn s of (Inl e, _) \<Rightarrow> (Inl e, s) | (Inr x, s') \<Rightarrow> (Inr x, s')))"

definition WithTx :: "repo_conn \<Rightarrow> (repo_conn \<Rightarrow> 'a repo_op) \<Rightarrow> 'a repo_op" where
  "WithTx c fn s =
     (if c = InTx
      then (Inl (ErrOther ''repo: WithTx called on a Repo that's already inside a transaction''), s)
      else (case fn InTx s of (Inl e, _) \<Rightarrow> (Inl e, s) | (Inr x, s') \<Rightarrow> (Inr x, s')))"

lemma bindR_Inr [simp]:
  "bindR m k s = (Inr y, s') \<longleftrightarrow> (\<exists>x s1. m s = (Inr x, s1) \<and> k x s1 = (Inr y, s'))"
  by (auto simp: bindR_def split: prod.splits sum.splits)

lemma bindR_Inl:
  "bindR m k s = (Inl e, s') \<longleftrightarrow>
     m s = (Inl e, s') \<or> (\<exists>x s1. m s = (Inr x, s1) \<and> k x s1 = (Inl e, s'))"
  by (auto simp: bindR_def split: prod.splits sum.splits)

lemma bindR_eval:
  "m s = (Inr x, s1) \<Longrightarrow> bindR m k s = k x s1"
  "m s = (Inl e, s1) \<Longrightarrow> bindR m k s = (Inl e, s1)"
  by (simp_all add: bindR_def)

lemma readR_simps [simp]:
  "readR q s = (Inr x, s') \<longleftrightarrow> q s = Inr x \<and> s' = s"
  "readR q s = (Inl e, s') \<longleftrightarrow> q s = Inl e \<and> s' = s"
  by (auto simp: readR_def)

lemma execR_simps [simp]:
  "execR f s = (Inr x, s') \<longleftrightarrow> s' = f s"
  "execR f s \<noteq> (Inl e, s')"
  by (auto simp: execR_def)

lemma returnR_simps [simp]:
  "returnR x s = (Inr y, s') \<longleftrightarrow> y = x \<and> s' = s"
  "returnR x s \<noteq> (Inl e, s')"
  by (auto simp: returnR_def)

lemma failR_simps [simp]:
  "failR e s \<noteq> (Inr y, s')"
  "failR e s = (Inl e', s') \<longleftrightarrow> e' = e \<and> s' = s"
  by (auto simp: failR_def)

lemma runInTx_Inr [simp]: "runInTx c fn s = (Inr x, s') \<longleftrightarrow> fn s = (Inr x, s')"
  by (auto simp: runInTx_def split: repo_conn.splits prod.splits sum.splits)

lemma runInTx_Pool_Inl: "runInTx Pool fn s = (Inl e, s') \<longleftrightarrow> s' = s \<and> (\<exists>s1. fn s = (Inl e, s1))"
  by (auto simp: runInTx_def split: prod.splits sum.splits)

lemma runInTx_InTx [simp]: "runInTx InTx fn = fn"
  by (simp add: runInTx_def fun_eq_iff)

lemma fst_runInTx [simp]: "fst (runInTx c fn s) = fst (fn s)"
  by (auto simp: runInTx_def split: repo_conn.splits prod.splits sum.splits)

lemma WithTx_Inr [simp]: "WithTx c fn s = (Inr x, s') \<longleftrightarrow> c = Pool \<and> fn InTx s = (Inr x, s')"
  by (cases c) (auto simp: WithTx_def split: prod.splits sum.splits)

lemma WithTx_Pool_Inl: "WithTx Pool fn s = (Inl e, s') \<longleftrightarrow> s' = s \<and> (\<exists>s1. fn InTx s = (Inl e, s1))"
  by (auto simp: WithTx_def split: prod.splits sum.splits)

lemma forR_append: "forR f (xs @ ys) s = bindR (forR f xs) (\<lambda>_. forR f ys) s"
  by (induction xs arbitrary: s) (auto simp: bindR_def split: prod.splits sum.splits)

text \<open>A loop keeps what each of its iterations keeps.\<close>

lemma forR_preserves:
  assumes "forR f xs s = (r, s')"
    and "\<And>x s s' r. x \<in> set xs \<Longrightarrow> f x s = (r, s') \<Longrightarrow> I s \<Longrightarrow> I s'"
    and "I s"
  shows "I s'"
  using assms
proof (induction xs arbitrary: s)
  case Nil
  then show ?case by simp
next
  case (Cons x xs)
  obtain r1 s1 where f: "f x s = (r1, s1)" by (cases "f x s")
  have I1: "I s1" using Cons.prems(2) [OF _ f] Cons.prems(3) by simp
  show ?case
  proof (cases r1)
    case (Inl e)
    with f Cons.prems(1) I1 show ?thesis by (simp add: bindR_def)
  next
    case (Inr u)
    with f Cons.prems(1) have "forR f xs s1 = (r, s')" by (simp add: bindR_def)
    then show ?thesis using Cons.IH Cons.prems(2) I1 by (meson list.set_intros(2))
  qed
qed

text \<open>A loop whose successful iterations each append a row appends them all in order.\<close>

lemma forR_appends:
  assumes "forR f xs s = (Inr (), s')"
    and step: "\<And>x s s'. f x s = (Inr (), s') \<Longrightarrow> s' = upd (\<lambda>rows. rows @ [row x]) s"
    and comp: "\<And>g h s. upd g (upd h s) = upd (g \<circ> h) s" and id: "\<And>s. upd (\<lambda>rows. rows) s = s"
  shows "s' = upd (\<lambda>rows. rows @ map row xs) s"
  using assms(1)
proof (induction xs arbitrary: s)
  case Nil
  then show ?case using id by simp
next
  case (Cons x xs)
  then obtain s1 where s1: "f x s = (Inr (), s1)" and r: "forR f xs s1 = (Inr (), s')" by auto
  from Cons.IH [OF r] step [OF s1] show ?case by (simp add: comp comp_def)
qed

section \<open>Atomic operations as an interface\<close>

text \<open>
  What every caller of the repository layer relies on: an operation that reports an error has
  changed nothing. Operations built on \<open>runInTx\<close> or \<open>WithTx\<close> at the pool, and single-statement
  operations, interpret the locale.
\<close>

locale atomic_op =
  fixes run :: "'a repo_op"
  assumes rollback: "run s = (Inl e, s') \<Longrightarrow> s' = s"
begin

lemma error_keeps_state: "fst (run s) = Inl e \<Longrightarrow> snd (run s) = s"
  using rollback [of s e "snd (run s)"] by (cases "run s") auto

lemma retry_same_error: "run s = (Inl e, s') \<Longrightarrow> run s' = (Inl e, s')"
  using rollback by blast

lemma invariant_from_success:
  assumes "\<And>x s'. run s = (Inr x, s') \<Longrightarrow> I s \<Longrightarrow> I s'" and "I s"
  shows "I (snd (run s))"
proof (cases "run s")
  case (Pair r s')
  with assms rollback show ?thesis by (cases r) auto
qed

end

interpretation tx: atomic_op "runInTx Pool fn" for fn
  by unfold_locales (simp add: runInTx_Pool_Inl)

interpretation with_tx: atomic_op "WithTx Pool fn" for fn
  by unfold_locales (simp add: WithTx_Pool_Inl)

section \<open>Version numbers as an interface\<close>

text \<open>
  Collections and artifacts number their versions in the server: one more than the highest in use. The
  interface is the list of numbers in use and the operation that takes the next one.
\<close>

definition contiguous :: "int list \<Rightarrow> bool" where
  "contiguous vs \<longleftrightarrow> vs = [1..int (length vs)]"

lemma next_number_upto: "0 \<le> n \<Longrightarrow> next_number [1..n] = n + 1"
proof (cases "n = 0")
  case False
  assume "0 \<le> n"
  with False have "sql_max [1..n] = Some n" by (intro sql_max_eqI) auto
  then show ?thesis by (simp add: next_number_def)
qed (simp add: next_number_def sql_max_def)

lemma contiguous_next: "contiguous vs \<Longrightarrow> contiguous (vs @ [next_number vs])"
proof -
  assume c: "contiguous vs"
  then have n: "next_number vs = int (length vs) + 1"
    by (metis contiguous_def next_number_upto of_nat_0_le_iff)
  have "[1..int (length vs) + 1] = [1..int (length vs)] @ [int (length vs) + 1]"
    by (simp add: upto_rec2)
  with c n show ?thesis by (simp add: contiguous_def algebra_simps)
qed

locale numbered =
  fixes versions :: "db \<Rightarrow> int list" and alloc :: "'v repo_op" and number :: "'v \<Rightarrow> int"
  assumes alloc_next: "alloc s = (Inr x, s') \<Longrightarrow>
            number x = next_number (versions s) \<and> versions s' = versions s @ [next_number (versions s)]"
    and alloc_fail: "alloc s = (Inl e, s') \<Longrightarrow> versions s' = versions s"
begin

lemma alloc_latest: "alloc s = (Inr x, s') \<Longrightarrow> sql_max (versions s') = Some (number x)"
  using alloc_next by (simp add: sql_max_next_number)

lemma alloc_above: "alloc s = (Inr x, s') \<Longrightarrow> v \<in> set (versions s) \<Longrightarrow> v < number x"
  using alloc_next by (simp add: next_number_gt)

lemma alloc_contiguous: "contiguous (versions s) \<Longrightarrow> contiguous (versions (snd (alloc s)))"
proof (cases "alloc s")
  case (Pair r s')
  assume c: "contiguous (versions s)"
  show ?thesis
  proof (cases r)
    case (Inl e)
    with Pair c alloc_fail show ?thesis by simp
  next
    case (Inr x)
    with Pair c alloc_next show ?thesis by (simp add: contiguous_next)
  qed
qed

end

section \<open>Watermarks (\<open>watermark.go\<close>)\<close>

definition getWatermark :: "db \<Rightarrow> string \<Rightarrow> int" where
  "getWatermark s family = (case tbl_watermark s family of None \<Rightarrow> 0 | Some w \<Rightarrow> w)"

definition bumpWatermark :: "string \<Rightarrow> db \<Rightarrow> db" where
  "bumpWatermark family s =
     s\<lparr>tbl_watermark := (tbl_watermark s)(family \<mapsto>
        (case tbl_watermark s family of None \<Rightarrow> 1 | Some w \<Rightarrow> w + 1))\<rparr>"

lemma getWatermark_bump [simp]:
  "getWatermark (bumpWatermark f s) g = (if g = f then getWatermark s g + 1 else getWatermark s g)"
  by (auto simp: getWatermark_def bumpWatermark_def split: option.splits)

abbreviation "WatermarkProducts \<equiv> ''products''"
abbreviation "WatermarkProductReleases \<equiv> ''productReleases''"
abbreviation "WatermarkComponents \<equiv> ''components''"
abbreviation "WatermarkComponentReleases \<equiv> ''componentReleases''"
abbreviation "WatermarkCollections \<equiv> ''collections''"
abbreviation "WatermarkEntitlements \<equiv> ''entitlements''"

section \<open>Operations that leave a view alone\<close>

text \<open>
  A view of the database, such as a few of its tables. That an operation leaves it alone is checked along its structure;
  extensions say which updates the view does not see.
\<close>

locale db_view =
  fixes view :: "db \<Rightarrow> 'v"
begin

definition leaves :: "'a repo_op \<Rightarrow> bool" where
  "leaves op \<longleftrightarrow> (\<forall>s. view (snd (op s)) = view s)"

lemma leavesI: "(\<And>s. view (snd (op s)) = view s) \<Longrightarrow> leaves op"
  by (simp add: leaves_def)

lemma leavesD: "leaves op \<Longrightarrow> view (snd (op s)) = view s"
  by (simp add: leaves_def)

lemma leaves_return: "leaves (returnR x)"
  by (simp add: leaves_def returnR_def)

lemma leaves_fail: "leaves (failR e)"
  by (simp add: leaves_def failR_def)

lemma leaves_read: "leaves (readR q)"
  by (simp add: leaves_def readR_def)

lemma leaves_exec: "(\<And>s. view (f s) = view s) \<Longrightarrow> leaves (execR f)"
  by (simp add: leaves_def execR_def)

lemma leaves_bind:
  assumes "leaves m" "\<And>x. leaves (k x)"
  shows "leaves (bindR m k)"
proof (rule leavesI)
  fix s
  obtain r s1 where m: "m s = (r, s1)" by force
  with leavesD [OF assms(1), of s] have "view s1 = view s" by simp
  with m show "view (snd (bindR m k s)) = view s"
    by (cases r) (simp_all add: bindR_def leavesD [OF assms(2)])
qed

lemma leaves_tx:
  assumes "\<And>s. view (snd (fn s)) = view s"
  shows "leaves (runInTx c fn)"
proof (rule leavesI)
  fix s
  obtain r s1 where "fn s = (r, s1)" by force
  with assms [of s] show "view (snd (runInTx c fn s)) = view s"
    by (cases c; cases r) (simp_all add: runInTx_def)
qed

lemma leaves_with_tx:
  assumes "\<And>tx. leaves (fn tx)"
  shows "leaves (WithTx c fn)"
proof (rule leavesI)
  fix s
  obtain r s1 where "fn InTx s = (r, s1)" by force
  with leavesD [OF assms [of InTx], of s] show "view (snd (WithTx c fn s)) = view s"
    by (cases c; cases r) (simp_all add: WithTx_def)
qed

lemma leaves_for: "(\<And>x. leaves (body x)) \<Longrightarrow> leaves (forR body xs)"
proof (induction xs)
  case (Cons x xs)
  have "leaves (bindR (body x) (\<lambda>_. forR body xs))" by (rule leaves_bind [OF Cons.prems Cons.IH [OF Cons.prems]])
  then show ?case by (simp add: leaves_def)
qed (simp add: leaves_def)

end

text \<open>The whole database as the view: what leaves it alone only reads.\<close>

interpretation read_only: db_view "\<lambda>s. s" .

end
