(* ===== verification/Identifiers.thy ===== *)
theory Identifiers
  imports Schema
begin

text \<open>
  The polymorphic tables every catalogue object shares: identifiers (\<open>identifier.go\<close>), checksums
  (\<open>checksum.go\<close>) and what \<open>deleteOwnerScoped\<close> of \<open>repo.go\<close> removes, with the CHECK constraints of
  the schema. A statement-level \<open>insert_\<close> operation fails on a violated constraint and then leaves
  the table as it was.
\<close>

abbreviation OwnerProduct :: string where "OwnerProduct \<equiv> ''PRODUCT''"
abbreviation OwnerProductRelease :: string where "OwnerProductRelease \<equiv> ''PRODUCT_RELEASE''"
abbreviation OwnerComponent :: string where "OwnerComponent \<equiv> ''COMPONENT''"
abbreviation OwnerComponentRelease :: string where "OwnerComponentRelease \<equiv> ''COMPONENT_RELEASE''"
abbreviation OwnerDistribution :: string where "OwnerDistribution \<equiv> ''DISTRIBUTION''"
abbreviation OwnerArtifactFormat :: string where "OwnerArtifactFormat \<equiv> ''ARTIFACT_FORMAT''"

section \<open>Identifiers\<close>

definition identifierOwnerTypes :: "string list" where
  "identifierOwnerTypes =
     [OwnerProduct, OwnerProductRelease, OwnerComponent, OwnerComponentRelease, OwnerDistribution]"

definition validateComplianceDocumentIdentifier :: "Identifier \<Rightarrow> bool \<Rightarrow> repo_error option" where
  "validateComplianceDocumentIdentifier i ownerTypeAllowed =
     (if IDType i \<noteq> ''COMPLIANCE_DOCUMENT'' then None
      else if \<not> ownerTypeAllowed then Some ErrComplianceDocumentWrongOwner
      else if \<not> List.member validComplianceDocumentTypes (IDValue i)
      then Some ErrInvalidComplianceDocumentType
      else None)"

definition insert_identifier :: "string \<Rightarrow> uuid \<Rightarrow> Identifier \<Rightarrow> unit repo_op" where
  "insert_identifier ownerType ownerUUID i s =
     (if List.member identifierOwnerTypes ownerType \<and> List.member identifierTypes (IDType i)
      then (Inr (), s\<lparr>tbl_identifier := tbl_identifier s @
              [\<lparr>idr_owner_type = ownerType, idr_owner = ownerUUID, idr_type = IDType i, idr_value = IDValue i\<rparr>]\<rparr>)
      else (Inl ErrCheckConstraint, s))"

definition insertIdentifiers :: "string \<Rightarrow> uuid \<Rightarrow> Identifier list \<Rightarrow> unit repo_op" where
  "insertIdentifiers ownerType ownerUUID ids =
     forR (\<lambda>i. case validateComplianceDocumentIdentifier i
                      (ownerType = OwnerComponent \<or> ownerType = OwnerComponentRelease) of
                 Some e \<Rightarrow> failR e
               | None \<Rightarrow> insert_identifier ownerType ownerUUID i) ids"

definition listIdentifiers :: "db \<Rightarrow> string \<Rightarrow> uuid \<Rightarrow> Identifier list" where
  "listIdentifiers s ownerType ownerUUID =
     map (\<lambda>r. \<lparr>IDType = idr_type r, IDValue = idr_value r\<rparr>)
       (filter (\<lambda>r. idr_owner_type r = ownerType \<and> idr_owner r = ownerUUID) (tbl_identifier s))"

text \<open>The two EXISTS fragments: each is tested on its own.\<close>

definition appendIdentifierFilter :: "db \<Rightarrow> string \<Rightarrow> string \<Rightarrow> string \<Rightarrow> uuid \<Rightarrow> bool" where
  "appendIdentifierFilter s ownerType idType idValue u \<longleftrightarrow>
     (idType = [] \<or> has_row (\<lambda>i. idr_owner_type i = ownerType \<and> idr_owner i = u \<and> idr_type i = idType)
                       (tbl_identifier s))
     \<and> (idValue = [] \<or> has_row (\<lambda>i. idr_owner_type i = ownerType \<and> idr_owner i = u \<and> idr_value i = idValue)
                          (tbl_identifier s))"

section \<open>Checksums\<close>

definition insert_checksum :: "string \<Rightarrow> uuid \<Rightarrow> Checksum \<Rightarrow> unit repo_op" where
  "insert_checksum ownerType ownerID c s =
     (if List.member [OwnerDistribution, OwnerArtifactFormat] ownerType \<and> List.member checksumTypes (AlgType c)
      then (Inr (), s\<lparr>tbl_checksum := tbl_checksum s @
              [\<lparr>ck_owner_type = ownerType, ck_owner = ownerID, ck_alg_type = AlgType c, ck_alg_value = AlgValue c\<rparr>]\<rparr>)
      else (Inl ErrCheckConstraint, s))"

definition insertChecksums :: "string \<Rightarrow> uuid \<Rightarrow> Checksum list \<Rightarrow> unit repo_op" where
  "insertChecksums ownerType ownerID checksums = forR (insert_checksum ownerType ownerID) checksums"

definition listChecksums :: "db \<Rightarrow> string \<Rightarrow> uuid \<Rightarrow> Checksum list" where
  "listChecksums s ownerType ownerID =
     map (\<lambda>r. \<lparr>AlgType = ck_alg_type r, AlgValue = ck_alg_value r\<rparr>)
       (filter (\<lambda>r. ck_owner_type r = ownerType \<and> ck_owner r = ownerID) (tbl_checksum s))"

section \<open>Removing what an owner leaves behind\<close>

definition bumpCLERevision :: "string \<Rightarrow> uuid \<Rightarrow> db \<Rightarrow> db" where
  "bumpCLERevision ownerType ownerUUID s =
     s\<lparr>tbl_cle_revision := (tbl_cle_revision s)((ownerType, ownerUUID) \<mapsto>
        (case tbl_cle_revision s (ownerType, ownerUUID) of None \<Rightarrow> 1 | Some r \<Rightarrow> r + 1))\<rparr>"

text \<open>Deleting a \<open>cle_event\<close> row cascades to its version, identifier and reference rows.\<close>

definition delete_cle_events :: "string \<Rightarrow> uuid \<Rightarrow> db \<Rightarrow> db" where
  "delete_cle_events ownerType ownerUUID s =
     s\<lparr>tbl_cle_event := delete_rows (\<lambda>r. ce_owner_type r = ownerType \<and> ce_owner r = ownerUUID) (tbl_cle_event s),
       tbl_cle_version := delete_rows (\<lambda>r. cv_owner_type r = ownerType \<and> cv_owner r = ownerUUID) (tbl_cle_version s),
       tbl_cle_identifier := delete_rows (\<lambda>r. ci_owner_type r = ownerType \<and> ci_owner r = ownerUUID) (tbl_cle_identifier s),
       tbl_cle_reference := delete_rows (\<lambda>r. cf_owner_type r = ownerType \<and> cf_owner r = ownerUUID) (tbl_cle_reference s)\<rparr>"

definition deleteOwnerScoped :: "string \<Rightarrow> uuid \<Rightarrow> db \<Rightarrow> db" where
  "deleteOwnerScoped ownerType ownerUUID s =
     (let s1 = s\<lparr>tbl_identifier := delete_rows (\<lambda>r. idr_owner_type r = ownerType \<and> idr_owner r = ownerUUID) (tbl_identifier s)\<rparr>;
          s2 = delete_cle_events ownerType ownerUUID s1;
          s3 = s2\<lparr>tbl_cle_support := delete_rows (\<lambda>r. cs_owner_type r = ownerType \<and> cs_owner r = ownerUUID) (tbl_cle_support s2)\<rparr>
      in bumpCLERevision ownerType ownerUUID s3)"

section \<open>Lemmas\<close>

text \<open>A loop whose iterations each append the rows of its element to a table, or fail.\<close>

lemma forR_append_rows:
  assumes step: "\<And>x s. f x s = (case chk x of None \<Rightarrow> (Inr (), upd (\<lambda>rows. rows @ [row x]) s) | Some e \<Rightarrow> (Inl e, s))"
    and comp: "\<And>g h s. upd g (upd h s) = upd (g \<circ> h) s" and id: "\<And>s. upd (\<lambda>rows. rows) s = s"
  shows "forR f xs s = (Inr (), s') \<longleftrightarrow>
           (\<forall>x \<in> set xs. chk x = None) \<and> s' = upd (\<lambda>rows. rows @ map row xs) s"
proof (induction xs arbitrary: s)
  case Nil
  then show ?case using id by auto
next
  case (Cons x xs)
  show ?case
  proof (cases "chk x")
    case None
    have "upd (\<lambda>rows. rows @ map row xs) (upd (\<lambda>rows. rows @ [row x]) s) =
        upd (\<lambda>rows. rows @ map row (x # xs)) s"
      by (simp add: comp comp_def)
    with None Cons.IH show ?thesis by (simp add: bindR_def step)
  next
    case (Some e)
    then show ?thesis by (simp add: bindR_def step)
  qed
qed

definition valid_identifier :: "string \<Rightarrow> Identifier \<Rightarrow> bool" where
  "valid_identifier ownerType i \<longleftrightarrow>
     ownerType \<in> set identifierOwnerTypes \<and> IDType i \<in> set identifierTypes
     \<and> (IDType i = ''COMPLIANCE_DOCUMENT'' \<longrightarrow>
          ownerType \<in> {OwnerComponent, OwnerComponentRelease} \<and> IDValue i \<in> set validComplianceDocumentTypes)"

definition identifier_row_of :: "string \<Rightarrow> uuid \<Rightarrow> Identifier \<Rightarrow> identifier_row" where
  "identifier_row_of ownerType ownerUUID i =
     \<lparr>idr_owner_type = ownerType, idr_owner = ownerUUID, idr_type = IDType i, idr_value = IDValue i\<rparr>"

lemma insertIdentifiers_Inr [simp]:
  "insertIdentifiers ot u ids s = (Inr (), s') \<longleftrightarrow>
     (\<forall>i \<in> set ids. valid_identifier ot i)
     \<and> s' = s\<lparr>tbl_identifier := tbl_identifier s @ map (identifier_row_of ot u) ids\<rparr>"
proof -
  let ?chk = "\<lambda>i. if valid_identifier ot i then None else
      (case validateComplianceDocumentIdentifier i (ot = OwnerComponent \<or> ot = OwnerComponentRelease) of
         Some e \<Rightarrow> Some e | None \<Rightarrow> Some ErrCheckConstraint)"
  have "insertIdentifiers ot u ids s = (Inr (), s') \<longleftrightarrow>
      (\<forall>i \<in> set ids. ?chk i = None)
      \<and> s' = (\<lambda>g s. s\<lparr>tbl_identifier := g (tbl_identifier s)\<rparr>) (\<lambda>rows. rows @ map (identifier_row_of ot u) ids) s"
    unfolding insertIdentifiers_def
    by (rule forR_append_rows)
       (auto simp: valid_identifier_def validateComplianceDocumentIdentifier_def insert_identifier_def
         failR_def identifier_row_of_def)
  also have "(\<forall>i \<in> set ids. ?chk i = None) \<longleftrightarrow> (\<forall>i \<in> set ids. valid_identifier ot i)"
    by (auto split: option.splits)
  finally show ?thesis by simp
qed

lemma insertIdentifiers_cases:
  obtains "insertIdentifiers ot u ids s = (Inr (), s\<lparr>tbl_identifier := tbl_identifier s @ map (identifier_row_of ot u) ids\<rparr>)"
      "\<forall>i \<in> set ids. valid_identifier ot i"
  | e s' where "insertIdentifiers ot u ids s = (Inl e, s')" "\<exists>i \<in> set ids. \<not> valid_identifier ot i"
proof (cases "\<forall>i \<in> set ids. valid_identifier ot i")
  case True
  then show thesis by (intro that(1)) simp_all
next
  case False
  obtain r s' where rs: "insertIdentifiers ot u ids s = (r, s')" by (cases "insertIdentifiers ot u ids s")
  with False obtain e where "r = Inl e" by (cases r) auto
  with rs False show thesis by (intro that(2)) auto
qed

lemma insertChecksums_Inr [simp]:
  "insertChecksums ot u cs s = (Inr (), s') \<longleftrightarrow>
     (\<forall>c \<in> set cs. ot \<in> {OwnerDistribution, OwnerArtifactFormat} \<and> AlgType c \<in> set checksumTypes)
     \<and> s' = s\<lparr>tbl_checksum := tbl_checksum s @
           map (\<lambda>c. \<lparr>ck_owner_type = ot, ck_owner = u, ck_alg_type = AlgType c, ck_alg_value = AlgValue c\<rparr>) cs\<rparr>"
proof -
  let ?chk = "\<lambda>c. if ot \<in> {OwnerDistribution, OwnerArtifactFormat} \<and> AlgType c \<in> set checksumTypes
                  then None else Some ErrCheckConstraint"
  let ?row = "\<lambda>c. \<lparr>ck_owner_type = ot, ck_owner = u, ck_alg_type = AlgType c, ck_alg_value = AlgValue c\<rparr>"
  have "insertChecksums ot u cs s = (Inr (), s') \<longleftrightarrow>
      (\<forall>c \<in> set cs. ?chk c = None)
      \<and> s' = (\<lambda>g s. s\<lparr>tbl_checksum := g (tbl_checksum s)\<rparr>) (\<lambda>rows. rows @ map ?row cs) s"
    unfolding insertChecksums_def
    by (rule forR_append_rows) (auto simp: insert_checksum_def)
  then show ?thesis by auto
qed

lemma record_eta [simp]:
  "\<lparr>IDType = IDType i, IDValue = IDValue i\<rparr> = (i :: Identifier)"
  "\<lparr>AlgType = AlgType c, AlgValue = AlgValue c\<rparr> = (c :: Checksum)"
  by simp_all

lemma listIdentifiers_insert:
  "listIdentifiers (s\<lparr>tbl_identifier := tbl_identifier s @ map (identifier_row_of ot u) ids\<rparr>) ot' u' =
     listIdentifiers s ot' u' @ (if ot' = ot \<and> u' = u then ids else [])"
  by (auto simp: listIdentifiers_def identifier_row_of_def filter_map comp_def)

lemma listChecksums_insert:
  "listChecksums (s\<lparr>tbl_checksum := tbl_checksum s @
      map (\<lambda>c. \<lparr>ck_owner_type = ot, ck_owner = u, ck_alg_type = AlgType c, ck_alg_value = AlgValue c\<rparr>) cs\<rparr>) ot' u' =
     listChecksums s ot' u' @ (if ot' = ot \<and> u' = u then cs else [])"
  by (auto simp: listChecksums_def filter_map comp_def)

lemma listIdentifiers_cong: "tbl_identifier s = tbl_identifier t \<Longrightarrow> listIdentifiers s = listIdentifiers t"
  by (simp add: listIdentifiers_def fun_eq_iff)

lemma listChecksums_cong: "tbl_checksum s = tbl_checksum t \<Longrightarrow> listChecksums s = listChecksums t"
  by (simp add: listChecksums_def fun_eq_iff)

lemma deleteOwnerScoped_frame [simp]:
  "tbl_product (deleteOwnerScoped ot u s) = tbl_product s"
  "tbl_component (deleteOwnerScoped ot u s) = tbl_component s"
  "tbl_product_release (deleteOwnerScoped ot u s) = tbl_product_release s"
  "tbl_component_release (deleteOwnerScoped ot u s) = tbl_component_release s"
  "tbl_collection (deleteOwnerScoped ot u s) = tbl_collection s"
  "tbl_collection_artifact (deleteOwnerScoped ot u s) = tbl_collection_artifact s"
  "tbl_artifact (deleteOwnerScoped ot u s) = tbl_artifact s"
  "tbl_watermark (deleteOwnerScoped ot u s) = tbl_watermark s"
  "tbl_identifier (deleteOwnerScoped ot u s) =
     delete_rows (\<lambda>r. idr_owner_type r = ot \<and> idr_owner r = u) (tbl_identifier s)"
  by (simp_all add: deleteOwnerScoped_def delete_cle_events_def bumpCLERevision_def Let_def)

lemma listIdentifiers_deleteOwnerScoped:
  "listIdentifiers (deleteOwnerScoped ot u s) ot' u' =
     (if ot' = ot \<and> u' = u then [] else listIdentifiers s ot' u')"
  by (auto simp: listIdentifiers_def delete_rows_def intro!: arg_cong [of _ _ "map _"] filter_cong)

lemma bumpWatermark_frame [simp]:
  "tbl_product (bumpWatermark f s) = tbl_product s"
  "tbl_component (bumpWatermark f s) = tbl_component s"
  "tbl_product_release (bumpWatermark f s) = tbl_product_release s"
  "tbl_component_release (bumpWatermark f s) = tbl_component_release s"
  "tbl_release_component (bumpWatermark f s) = tbl_release_component s"
  "tbl_distribution (bumpWatermark f s) = tbl_distribution s"
  "tbl_identifier (bumpWatermark f s) = tbl_identifier s"
  "tbl_checksum (bumpWatermark f s) = tbl_checksum s"
  "tbl_artifact (bumpWatermark f s) = tbl_artifact s"
  "tbl_artifact_format (bumpWatermark f s) = tbl_artifact_format s"
  "tbl_artifact_distribution (bumpWatermark f s) = tbl_artifact_distribution s"
  "tbl_collection (bumpWatermark f s) = tbl_collection s"
  "tbl_collection_artifact (bumpWatermark f s) = tbl_collection_artifact s"
  "tbl_fingerprint (bumpWatermark f s) = tbl_fingerprint s"
  "tbl_evidence (bumpWatermark f s) = tbl_evidence s"
  "tbl_evidence_timestamp (bumpWatermark f s) = tbl_evidence_timestamp s"
  "tbl_evidence_transparency (bumpWatermark f s) = tbl_evidence_transparency s"
  "tbl_draft (bumpWatermark f s) = tbl_draft s"
  "tbl_draft_artifact (bumpWatermark f s) = tbl_draft_artifact s"
  "tbl_credential (bumpWatermark f s) = tbl_credential s"
  by (simp_all add: bumpWatermark_def)

end
