(* ===== verification/Artifacts.thy ===== *)
theory Artifacts
  imports Identifiers
begin

text \<open>
  Artifacts (\<open>internal/repo/artifact.go\<close>): versioned identities with formats, the server-numbered
  revisions, import under an explicit identity, resolution of a media type to its content, and the
  uploads that replace a format's content. Fresh format ids come from \<open>gen\<close>, one per format.
\<close>

section \<open>Statements\<close>

definition is_version :: "uuid \<Rightarrow> int \<Rightarrow> artifact_row \<Rightarrow> bool" where
  "is_version u v a \<longleftrightarrow> a_uuid a = u \<and> a_version a = v"

definition is_format_of :: "uuid \<Rightarrow> int \<Rightarrow> artifact_format_row \<Rightarrow> bool" where
  "is_format_of u v f \<longleftrightarrow> af_artifact f = u \<and> af_version f = v"

definition insert_artifact :: "uuid \<Rightarrow> int \<Rightarrow> string \<Rightarrow> string \<Rightarrow> time option \<Rightarrow> unit repo_op" where
  "insert_artifact u v name ty created s =
     (if \<not> List.member artifactTypes ty then (Inl ErrCheckConstraint, s)
      else if has_row (is_version u v) (tbl_artifact s) then (Inl ErrUniqueConstraint, s)
      else (Inr (), s\<lparr>tbl_artifact := tbl_artifact s @
              [\<lparr>a_uuid = u, a_version = v, a_name = Some name, a_type = ty,
                a_created_date = formatTimePtr created, a_revision = 1\<rparr>]\<rparr>))"

definition insert_artifact_distribution :: "uuid \<Rightarrow> int \<Rightarrow> uuid \<Rightarrow> unit repo_op" where
  "insert_artifact_distribution u v d s =
     (if has_row (\<lambda>r. ad_artifact r = u \<and> ad_version r = v \<and> ad_distribution r = d) (tbl_artifact_distribution s)
      then (Inl ErrUniqueConstraint, s)
      else if \<not> has_row (\<lambda>r. rd_id r = d) (tbl_distribution s) \<or> \<not> has_row (is_version u v) (tbl_artifact s)
      then (Inl ErrForeignKeyConstraint, s)
      else (Inr (), s\<lparr>tbl_artifact_distribution := tbl_artifact_distribution s @
              [\<lparr>ad_artifact = u, ad_version = v, ad_distribution = d\<rparr>]\<rparr>))"

definition insert_artifact_format ::
  "uuid \<Rightarrow> uuid \<Rightarrow> int \<Rightarrow> string \<Rightarrow> string \<Rightarrow> string option \<Rightarrow> string option \<Rightarrow> unit repo_op" where
  "insert_artifact_format i u v mediaType description url sig s =
     (if has_row (\<lambda>f. af_id f = i) (tbl_artifact_format s) then (Inl ErrUniqueConstraint, s)
      else if \<not> has_row (is_version u v) (tbl_artifact s) then (Inl ErrForeignKeyConstraint, s)
      else (Inr (), s\<lparr>tbl_artifact_format := tbl_artifact_format s @
              [\<lparr>af_id = i, af_artifact = u, af_version = v, af_media_type = mediaType,
                af_description = Some description, af_url = url, af_signature_url = sig,
                af_signature_sha256 = None\<rparr>]\<rparr>))"

section \<open>Reading\<close>

definition listArtifactDistributionIDs :: "db \<Rightarrow> uuid \<Rightarrow> int \<Rightarrow> uuid list" where
  "listArtifactDistributionIDs s u v =
     map ad_distribution (filter (\<lambda>r. ad_artifact r = u \<and> ad_version r = v) (tbl_artifact_distribution s))"

definition listArtifactFormats :: "db \<Rightarrow> uuid \<Rightarrow> int \<Rightarrow> ArtifactFormat list" where
  "listArtifactFormats s u v =
     map (\<lambda>f. \<lparr>fmt_MediaType = af_media_type f, fmt_Description = null_str (af_description f),
               fmt_URL = null_str (af_url f), fmt_SignatureURL = null_str (af_signature_url f),
               fmt_Checksums = listChecksums s OwnerArtifactFormat (af_id f),
               fmt_EvidenceBundle = None, fmt_EvidenceBundleRef = None\<rparr>)
       (filter (is_format_of u v) (tbl_artifact_format s))"

definition getArtifactByVersionTx :: "db \<Rightarrow> uuid \<Rightarrow> int \<Rightarrow> repo_error + Artifact" where
  "getArtifactByVersionTx s u v =
     (case find_row (is_version u v) (tbl_artifact s) of
        None \<Rightarrow> Inl ErrNotFound
      | Some a \<Rightarrow> Inr \<lparr>art_UUID = u, art_Version = v, art_Name = null_str (a_name a), art_Type = a_type a,
                       art_CreatedDate = parseNullTime (a_created_date a),
                       art_DistributionIDs = listArtifactDistributionIDs s u v,
                       art_Formats = listArtifactFormats s u v\<rparr>)"

definition LatestArtifactVersion :: "db \<Rightarrow> uuid \<Rightarrow> int option" where
  "LatestArtifactVersion s u = sql_max (map a_version (filter (\<lambda>a. a_uuid a = u) (tbl_artifact s)))"

definition GetArtifactLatest :: "db \<Rightarrow> uuid \<Rightarrow> repo_error + Artifact" where
  "GetArtifactLatest s u =
     (case LatestArtifactVersion s u of
        None \<Rightarrow> Inl ErrNotFound
      | Some v \<Rightarrow> getArtifactByVersionTx s u v)"

definition getArtifactRevisionTx :: "db \<Rightarrow> uuid \<Rightarrow> int \<Rightarrow> repo_error + int" where
  "getArtifactRevisionTx s u v =
     (case find_row (is_version u v) (tbl_artifact s) of None \<Rightarrow> Inl ErrNotFound | Some a \<Rightarrow> Inr (a_revision a))"

definition GetArtifactType :: "db \<Rightarrow> uuid \<Rightarrow> int \<Rightarrow> repo_error + string" where
  "GetArtifactType s u v =
     (case find_row (is_version u v) (tbl_artifact s) of None \<Rightarrow> Inl ErrNotFound | Some a \<Rightarrow> Inr (a_type a))"

definition ArtifactFormatIDs :: "db \<Rightarrow> uuid \<Rightarrow> int \<Rightarrow> uuid list" where
  "ArtifactFormatIDs s u v = map af_id (filter (is_format_of u v) (tbl_artifact_format s))"

fun index_of :: "'a \<Rightarrow> 'a list \<Rightarrow> nat option" where
  "index_of x [] = None"
| "index_of x (y # ys) = (if y = x then Some 0 else map_option Suc (index_of x ys))"

definition ArtifactFormatIndexByID :: "db \<Rightarrow> uuid \<Rightarrow> int \<Rightarrow> uuid \<Rightarrow> repo_error + nat" where
  "ArtifactFormatIndexByID s u v formatID =
     (case index_of formatID (ArtifactFormatIDs s u v) of None \<Rightarrow> Inl ErrNotFound | Some i \<Rightarrow> Inr i)"

section \<open>Creating revisions\<close>

record ArtifactFormatInput =
  fin_MediaType :: string
  fin_Description :: string

record ArtifactInput =
  ain_Name :: string
  ain_Type :: string
  ain_CreatedDate :: "time option"
  ain_DistributionIDs :: "uuid list"
  ain_Formats :: "ArtifactFormatInput list"

definition insertArtifactTx :: "(nat \<Rightarrow> uuid) \<Rightarrow> uuid \<Rightarrow> int \<Rightarrow> ArtifactInput \<Rightarrow> unit repo_op" where
  "insertArtifactTx gen u v inp =
     bindR (insert_artifact u v (ain_Name inp) (ain_Type inp) (ain_CreatedDate inp)) (\<lambda>_.
     bindR (forR (insert_artifact_distribution u v) (ain_DistributionIDs inp)) (\<lambda>_.
     forR (\<lambda>(i, f). insert_artifact_format (gen i) u v (fin_MediaType f) (fin_Description f) None None)
       (enumerate 0 (ain_Formats inp))))"

definition CreateArtifact :: "repo_conn \<Rightarrow> uuid \<Rightarrow> (nat \<Rightarrow> uuid) \<Rightarrow> ArtifactInput \<Rightarrow> Artifact repo_op" where
  "CreateArtifact conn newid gen inp =
     runInTx conn
       (bindR (insertArtifactTx gen newid 1 inp) (\<lambda>_.
        readR (\<lambda>s. getArtifactByVersionTx s newid 1)))"

definition CreateArtifactVersion ::
  "repo_conn \<Rightarrow> uuid \<Rightarrow> int option \<Rightarrow> (nat \<Rightarrow> uuid) \<Rightarrow> ArtifactInput \<Rightarrow> Artifact repo_op" where
  "CreateArtifactVersion conn u previousVersion gen inp =
     runInTx conn (\<lambda>s.
       case sql_max (map a_version (filter (\<lambda>a. a_uuid a = u) (tbl_artifact s))) of
         None \<Rightarrow> (Inl ErrNotFound, s)
       | Some current \<Rightarrow>
           if previousVersion \<noteq> None \<and> previousVersion \<noteq> Some current then (Inl ErrVersionConflict, s)
           else let version = current + 1 in
             bindR (insertArtifactTx gen u version inp) (\<lambda>_.
             readR (\<lambda>s. getArtifactByVersionTx s u version)) s)"

section \<open>Import\<close>

record ImportArtifactFormatInput =
  ifin_MediaType :: string
  ifin_Description :: string
  ifin_URL :: string
  ifin_SignatureURL :: string
  ifin_Checksums :: "Checksum list"

record ImportArtifactInput =
  iain_UUID :: uuid
  iain_Version :: int
  iain_Name :: string
  iain_Type :: string
  iain_CreatedDate :: "time option"
  iain_DistributionIDs :: "uuid list"
  iain_Formats :: "ImportArtifactFormatInput list"

fun strings_join :: "string \<Rightarrow> string list \<Rightarrow> string" where
  "strings_join sep [] = []"
| "strings_join sep [x] = x"
| "strings_join sep (x # y # ys) = x @ sep @ strings_join sep (y # ys)"

definition artifactFormatKey :: "string \<Rightarrow> string \<Rightarrow> Checksum list \<Rightarrow> string" where
  "artifactFormatKey mediaType description checksums =
     mediaType @ [char_of (0::nat)] @ description @ [char_of (0::nat)]
     @ strings_join [char_of (1::nat)] (sort (map (\<lambda>c. AlgType c @ ''='' @ AlgValue c) checksums))"

definition artifactConflicts :: "Artifact \<Rightarrow> ImportArtifactInput \<Rightarrow> bool" where
  "artifactConflicts existing inp \<longleftrightarrow>
     (if art_Name existing \<noteq> iain_Name inp then True
      else if art_Type existing \<noteq> iain_Type inp then True
      else if \<not> timePtrEqual (art_CreatedDate existing) (iain_CreatedDate inp) then True
      else if \<not> setEqual (art_DistributionIDs existing) (iain_DistributionIDs inp) then True
      else \<not> setEqual
             (map (\<lambda>f. artifactFormatKey (fmt_MediaType f) (fmt_Description f) (fmt_Checksums f)) (art_Formats existing))
             (map (\<lambda>f. artifactFormatKey (ifin_MediaType f) (ifin_Description f) (ifin_Checksums f)) (iain_Formats inp)))"

definition ImportArtifact :: "repo_conn \<Rightarrow> (nat \<Rightarrow> uuid) \<Rightarrow> ImportArtifactInput \<Rightarrow> bool repo_op" where
  "ImportArtifact conn gen inp =
     (let u = iain_UUID inp; v = iain_Version inp in
      runInTx conn (\<lambda>s.
        case getArtifactByVersionTx s u v of
          Inr existing \<Rightarrow>
            if artifactConflicts existing inp then (Inl ErrImportIdentityConflict, s) else (Inr False, s)
        | Inl err \<Rightarrow>
            if err \<noteq> ErrNotFound then (Inl err, s)
            else bindR (insert_artifact u v (iain_Name inp) (iain_Type inp) (iain_CreatedDate inp)) (\<lambda>_.
                 bindR (forR (insert_artifact_distribution u v) (iain_DistributionIDs inp)) (\<lambda>_.
                 bindR (forR (\<lambda>(i, f).
                          bindR (insert_artifact_format (gen i) u v (ifin_MediaType f) (ifin_Description f)
                                   (nullIfEmpty (ifin_URL f)) (nullIfEmpty (ifin_SignatureURL f))) (\<lambda>_.
                          insertChecksums OwnerArtifactFormat (gen i) (ifin_Checksums f)))
                        (enumerate 0 (iain_Formats inp))) (\<lambda>_.
                 returnR True))) s))"

section \<open>Downloads\<close>

text \<open>
  \<open>strings.EqualFold\<close> folds Unicode case; media types are ASCII tokens, where it is this comparison.
  Bytes above 127 compare as they are.
\<close>

definition fold_char :: "char \<Rightarrow> char" where
  "fold_char c = (let n = of_char c :: nat in if 65 \<le> n \<and> n \<le> 90 then char_of (n + 32) else c)"

definition EqualFold :: "string \<Rightarrow> string \<Rightarrow> bool" where
  "EqualFold a b \<longleftrightarrow> map fold_char a = map fold_char b"

datatype content_location = SelfHosted string | External string

definition GetArtifactFormatForDownload :: "db \<Rightarrow> uuid \<Rightarrow> int \<Rightarrow> string \<Rightarrow> repo_error + content_location" where
  "GetArtifactFormatForDownload s u v mediaType =
     (case GetArtifactType s u v of
        Inl e \<Rightarrow> Inl e
      | Inr _ \<Rightarrow>
          (case find_row (\<lambda>f. EqualFold (fmt_MediaType f) mediaType) (listArtifactFormats s u v) of
             None \<Rightarrow> Inl ErrNoMatchingFormat
           | Some f \<Rightarrow>
               if fmt_URL f \<noteq> [] then Inr (External (fmt_URL f))
               else (case find_row (\<lambda>c. AlgType c = ''SHA-256'') (fmt_Checksums f) of
                       Some c \<Rightarrow> Inr (SelfHosted (AlgValue c))
                     | None \<Rightarrow> Inl ErrNotFound)))"

definition getArtifactFormatSignatureTx :: "db \<Rightarrow> uuid \<Rightarrow> int \<Rightarrow> string \<Rightarrow> repo_error + (uuid \<times> string \<times> string)" where
  "getArtifactFormatSignatureTx s u v mediaType =
     (case find_row (\<lambda>f. EqualFold (af_media_type f) mediaType) (filter (is_format_of u v) (tbl_artifact_format s)) of
        None \<Rightarrow> Inl ErrNoMatchingFormat
      | Some f \<Rightarrow> Inr (af_id f, null_str (af_signature_url f), null_str (af_signature_sha256 f)))"

definition GetArtifactFormatForSignatureDownload ::
  "db \<Rightarrow> uuid \<Rightarrow> int \<Rightarrow> string \<Rightarrow> repo_error + content_location" where
  "GetArtifactFormatForSignatureDownload s u v mediaType =
     (case GetArtifactType s u v of
        Inl e \<Rightarrow> Inl e
      | Inr _ \<Rightarrow>
          (case getArtifactFormatSignatureTx s u v mediaType of
             Inl e \<Rightarrow> Inl e
           | Inr (_, url, sha256) \<Rightarrow>
               if url \<noteq> [] then Inr (External url)
               else if sha256 \<noteq> [] then Inr (SelfHosted sha256)
               else Inl ErrSignatureNotFound))"

section \<open>Uploads\<close>

definition bump_artifact_revision :: "uuid \<Rightarrow> int \<Rightarrow> db \<Rightarrow> db" where
  "bump_artifact_revision u v s =
     s\<lparr>tbl_artifact := update_rows (is_version u v) (\<lambda>a. a\<lparr>a_revision := a_revision a + 1\<rparr>) (tbl_artifact s)\<rparr>"

definition SetArtifactFormatFile ::
  "repo_conn \<Rightarrow> uuid \<Rightarrow> int \<Rightarrow> int \<Rightarrow> string \<Rightarrow> Artifact repo_op" where
  "SetArtifactFormatFile conn u v formatIndex sha256Hex =
     runInTx conn (\<lambda>s.
       let ids = ArtifactFormatIDs s u v in
       if formatIndex < 0 \<or> formatIndex \<ge> int (length ids) then (Inl ErrNotFound, s)
       else let formatID = ids ! nat formatIndex in
         bindR (execR (\<lambda>s. s\<lparr>tbl_checksum :=
                  delete_rows (\<lambda>c. ck_owner_type c = OwnerArtifactFormat \<and> ck_owner c = formatID) (tbl_checksum s)\<rparr>)) (\<lambda>_.
         bindR (insertChecksums OwnerArtifactFormat formatID [\<lparr>AlgType = ''SHA-256'', AlgValue = sha256Hex\<rparr>]) (\<lambda>_.
         bindR (execR (bump_artifact_revision u v)) (\<lambda>_.
         readR (\<lambda>s. getArtifactByVersionTx s u v)))) s)"

definition SetArtifactFormatSignatureFile ::
  "repo_conn \<Rightarrow> uuid \<Rightarrow> int \<Rightarrow> int \<Rightarrow> string \<Rightarrow> Artifact repo_op" where
  "SetArtifactFormatSignatureFile conn u v formatIndex sha256Hex =
     runInTx conn (\<lambda>s.
       let ids = ArtifactFormatIDs s u v in
       if formatIndex < 0 \<or> formatIndex \<ge> int (length ids) then (Inl ErrNotFound, s)
       else let formatID = ids ! nat formatIndex in
         bindR (execR (\<lambda>s. s\<lparr>tbl_artifact_format :=
                  update_rows (\<lambda>f. af_id f = formatID) (\<lambda>f. f\<lparr>af_signature_sha256 := Some sha256Hex\<rparr>)
                    (tbl_artifact_format s)\<rparr>)) (\<lambda>_.
         bindR (execR (bump_artifact_revision u v)) (\<lambda>_.
         readR (\<lambda>s. getArtifactByVersionTx s u v))) s)"

section \<open>What an insertion changes\<close>

definition artifact_row_of :: "uuid \<Rightarrow> int \<Rightarrow> string \<Rightarrow> string \<Rightarrow> time option \<Rightarrow> artifact_row" where
  "artifact_row_of u v name ty created =
     \<lparr>a_uuid = u, a_version = v, a_name = Some name, a_type = ty,
      a_created_date = formatTimePtr created, a_revision = 1\<rparr>"

lemma insert_artifact_Inr [simp]:
  "insert_artifact u v name ty created s = (Inr x, s') \<longleftrightarrow>
     ty \<in> set artifactTypes \<and> \<not> (\<exists>a \<in> set (tbl_artifact s). is_version u v a)
     \<and> s' = s\<lparr>tbl_artifact := tbl_artifact s @ [artifact_row_of u v name ty created]\<rparr>"
  by (auto simp: insert_artifact_def artifact_row_of_def)

lemma insert_distributions_Inr:
  assumes "forR (insert_artifact_distribution u v) ds s = (Inr (), s')"
  shows "s' = s\<lparr>tbl_artifact_distribution := tbl_artifact_distribution s @
            map (\<lambda>d. \<lparr>ad_artifact = u, ad_version = v, ad_distribution = d\<rparr>) ds\<rparr>"
proof -
  have "s' = (\<lambda>g s. s\<lparr>tbl_artifact_distribution := g (tbl_artifact_distribution s)\<rparr>)
      (\<lambda>rows. rows @ map (\<lambda>d. \<lparr>ad_artifact = u, ad_version = v, ad_distribution = d\<rparr>) ds) s"
    by (rule forR_appends [OF assms]) (auto simp: insert_artifact_distribution_def split: if_splits)
  then show ?thesis by simp
qed

definition format_row_of :: "(nat \<Rightarrow> uuid) \<Rightarrow> uuid \<Rightarrow> int \<Rightarrow> nat \<times> ArtifactFormatInput \<Rightarrow> artifact_format_row" where
  "format_row_of gen u v = (\<lambda>(i, f).
     \<lparr>af_id = gen i, af_artifact = u, af_version = v, af_media_type = fin_MediaType f,
      af_description = Some (fin_Description f), af_url = None, af_signature_url = None,
      af_signature_sha256 = None\<rparr>)"

lemma insert_formats_Inr:
  assumes "forR (\<lambda>(i, f). insert_artifact_format (gen i) u v (fin_MediaType f) (fin_Description f) None None) xs s = (Inr (), s')"
  shows "s' = s\<lparr>tbl_artifact_format := tbl_artifact_format s @ map (format_row_of gen u v) xs\<rparr>"
proof -
  have "s' = (\<lambda>g s. s\<lparr>tbl_artifact_format := g (tbl_artifact_format s)\<rparr>)
      (\<lambda>rows. rows @ map (format_row_of gen u v) xs) s"
    by (rule forR_appends [OF assms]) (auto simp: insert_artifact_format_def format_row_of_def split: if_splits)
  then show ?thesis by simp
qed

lemma insertArtifactTx_Inr:
  assumes "insertArtifactTx gen u v inp s = (Inr (), s')"
  shows "ain_Type inp \<in> set artifactTypes \<and> \<not> (\<exists>a \<in> set (tbl_artifact s). is_version u v a)
    \<and> s' = s\<lparr>tbl_artifact := tbl_artifact s @ [artifact_row_of u v (ain_Name inp) (ain_Type inp) (ain_CreatedDate inp)],
        tbl_artifact_distribution := tbl_artifact_distribution s @
          map (\<lambda>d. \<lparr>ad_artifact = u, ad_version = v, ad_distribution = d\<rparr>) (ain_DistributionIDs inp),
        tbl_artifact_format := tbl_artifact_format s @ map (format_row_of gen u v) (enumerate 0 (ain_Formats inp))\<rparr>"
  using assms unfolding insertArtifactTx_def
  by (auto dest!: insert_distributions_Inr insert_formats_Inr)

lemma insertArtifactTx_other:
  assumes "insertArtifactTx gen u v inp s = (Inr (), s')" and "(u', v') \<noteq> (u, v)"
  shows "getArtifactByVersionTx s' u' v' = getArtifactByVersionTx s u' v'"
proof -
  let ?s = "s\<lparr>tbl_artifact := tbl_artifact s @ [artifact_row_of u v (ain_Name inp) (ain_Type inp) (ain_CreatedDate inp)],
        tbl_artifact_distribution := tbl_artifact_distribution s @
          map (\<lambda>d. \<lparr>ad_artifact = u, ad_version = v, ad_distribution = d\<rparr>) (ain_DistributionIDs inp),
        tbl_artifact_format := tbl_artifact_format s @ map (format_row_of gen u v) (enumerate 0 (ain_Formats inp))\<rparr>"
  have s': "s' = ?s" using insertArtifactTx_Inr [OF assms(1)] by blast
  have "listChecksums ?s = listChecksums s" by (rule listChecksums_cong) simp
  moreover have "filter (is_format_of u' v') (map (format_row_of gen u v) xs) = []" for xs
    using assms(2) by (auto simp: filter_empty_conv is_format_of_def format_row_of_def)
  moreover have "filter (\<lambda>r. ad_artifact r = u' \<and> ad_version r = v')
      (map (\<lambda>d. \<lparr>ad_artifact = u, ad_version = v, ad_distribution = d\<rparr>) ds) = []" for ds
    using assms(2) by (auto simp: filter_empty_conv)
  moreover have "\<not> is_version u' v' (artifact_row_of u v n t c)" for n t c
    using assms(2) by (auto simp: is_version_def artifact_row_of_def)
  ultimately show ?thesis unfolding s' getArtifactByVersionTx_def listArtifactFormats_def listArtifactDistributionIDs_def
    by (simp add: find_row_append split: option.splits)
qed

section \<open>Server-numbered revisions\<close>

definition artifact_versions :: "uuid \<Rightarrow> db \<Rightarrow> int list" where
  "artifact_versions u s = map a_version (filter (\<lambda>a. a_uuid a = u) (tbl_artifact s))"

lemma LatestArtifactVersion_eq: "LatestArtifactVersion s u = sql_max (artifact_versions u s)"
  by (simp add: LatestArtifactVersion_def artifact_versions_def)

lemma CreateArtifactVersion_Inr:
  assumes "CreateArtifactVersion conn u prev gen inp s = (Inr a, s')"
  obtains cur where "sql_max (artifact_versions u s) = Some cur" "prev = None \<or> prev = Some cur"
    "insertArtifactTx gen u (cur + 1) inp s = (Inr (), s')" "getArtifactByVersionTx s' u (cur + 1) = Inr a"
  using assms unfolding CreateArtifactVersion_def artifact_versions_def
  by (auto simp: Let_def split: option.splits if_splits)

lemma artifact_versions_insert:
  "insertArtifactTx gen u v inp s = (Inr (), s') \<Longrightarrow> artifact_versions u s' = artifact_versions u s @ [v]"
  by (drule insertArtifactTx_Inr) (auto simp: artifact_versions_def artifact_row_of_def)

lemma getArtifact_identity: "getArtifactByVersionTx s u v = Inr a \<Longrightarrow> art_UUID a = u \<and> art_Version a = v"
  by (auto simp: getArtifactByVersionTx_def split: option.splits)

interpretation av: numbered "artifact_versions u" "CreateArtifactVersion Pool u prev gen inp" art_Version
  for u prev gen inp
proof unfold_locales
  fix s a s'
  assume "CreateArtifactVersion Pool u prev gen inp s = (Inr a, s')"
  then obtain cur where cur: "sql_max (artifact_versions u s) = Some cur"
    and ins: "insertArtifactTx gen u (cur + 1) inp s = (Inr (), s')"
    and get: "getArtifactByVersionTx s' u (cur + 1) = Inr a" by (rule CreateArtifactVersion_Inr)
  from cur have "next_number (artifact_versions u s) = cur + 1" by (simp add: next_number_def)
  with artifact_versions_insert [OF ins] getArtifact_identity [OF get]
  show "art_Version a = next_number (artifact_versions u s) \<and>
      artifact_versions u s' = artifact_versions u s @ [next_number (artifact_versions u s)]" by simp
next
  fix s e s'
  assume "CreateArtifactVersion Pool u prev gen inp s = (Inl e, s')"
  then show "artifact_versions u s' = artifact_versions u s"
    unfolding CreateArtifactVersion_def by (auto dest: tx.rollback)
qed

text \<open>
  A new artifact revision gets the number after the highest one, becomes the latest, and changes
  no revision published before; a caller that names the revision it expects to follow succeeds only
  if that is still the latest.
\<close>

theorem CreateArtifactVersion_appends:
  assumes "CreateArtifactVersion conn u prev gen inp s = (Inr a, s')"
  shows "\<exists>cur. LatestArtifactVersion s u = Some cur \<and> (prev = None \<or> prev = Some cur)
     \<and> art_UUID a = u \<and> art_Version a = cur + 1
     \<and> LatestArtifactVersion s' u = Some (cur + 1) \<and> GetArtifactLatest s' u = Inr a
     \<and> (\<forall>u' v'. (u', v') \<noteq> (u, cur + 1) \<longrightarrow> getArtifactByVersionTx s' u' v' = getArtifactByVersionTx s u' v')"
proof -
  from assms obtain cur where cur: "sql_max (artifact_versions u s) = Some cur" and prev: "prev = None \<or> prev = Some cur"
    and ins: "insertArtifactTx gen u (cur + 1) inp s = (Inr (), s')"
    and get: "getArtifactByVersionTx s' u (cur + 1) = Inr a" by (rule CreateArtifactVersion_Inr)
  have "artifact_versions u s' = artifact_versions u s @ [next_number (artifact_versions u s)]"
    using artifact_versions_insert [OF ins] cur by (simp add: next_number_def)
  then have "LatestArtifactVersion s' u = Some (cur + 1)"
    using cur sql_max_next_number [of "artifact_versions u s"] by (simp add: LatestArtifactVersion_eq next_number_def)
  with cur prev get getArtifact_identity [OF get] insertArtifactTx_other [OF ins] show ?thesis
    by (auto simp: LatestArtifactVersion_eq GetArtifactLatest_def)
qed

definition bom_input :: ArtifactInput where
  "bom_input = \<lparr>ain_Name = ''sbom'', ain_Type = ''BOM'', ain_CreatedDate = None, ain_DistributionIDs = [],
     ain_Formats = [\<lparr>fin_MediaType = ''application/json'', fin_Description = []\<rparr>]\<rparr>"

definition bom_db :: db where
  "bom_db = snd (CreateArtifact Pool ''a1'' (\<lambda>_. ''f1'') bom_input empty_db)"

lemma bom_second_version:
  "fst (CreateArtifactVersion Pool ''a1'' (Some 1) (\<lambda>_. ''f2'') bom_input bom_db) =
     Inr \<lparr>art_UUID = ''a1'', art_Version = 2, art_Name = ''sbom'', art_Type = ''BOM'', art_CreatedDate = None,
          art_DistributionIDs = [],
          art_Formats = [\<lparr>fmt_MediaType = ''application/json'', fmt_Description = [], fmt_URL = [],
             fmt_SignatureURL = [], fmt_Checksums = [], fmt_EvidenceBundle = None, fmt_EvidenceBundleRef = None\<rparr>]\<rparr>"
  by code_simp

theorem CreateArtifactVersion_appends_witness:
  "LatestArtifactVersion (snd (CreateArtifactVersion Pool ''a1'' (Some 1) (\<lambda>_. ''f2'') bom_input bom_db)) ''a1'' = Some 2"
proof -
  obtain a s' where r: "CreateArtifactVersion Pool ''a1'' (Some 1) (\<lambda>_. ''f2'') bom_input bom_db = (Inr a, s')"
    and "art_Version a = 2"
    using bom_second_version by (metis Artifact.select_convs(2) prod.collapse)
  with CreateArtifactVersion_appends [OF r] show ?thesis by auto
qed

text \<open>
  The revisions an artifact gets from the server are numbered without gaps from 1, whether or not
  the calls that asked for them succeeded.
\<close>

theorem artifact_versions_stay_contiguous:
  "contiguous (artifact_versions u s) \<Longrightarrow>
     contiguous (artifact_versions u (snd (CreateArtifactVersion Pool u prev gen inp s)))"
  by (rule av.alloc_contiguous)

theorem artifact_versions_stay_contiguous_witness:
  "contiguous (artifact_versions ''a1'' (snd (CreateArtifactVersion Pool ''a1'' None (\<lambda>_. ''f2'') bom_input bom_db)))"
  by (rule artifact_versions_stay_contiguous) code_simp

section \<open>Uploads replace\<close>

definition with_file :: "uuid \<Rightarrow> uuid \<Rightarrow> int \<Rightarrow> string \<Rightarrow> db \<Rightarrow> db" where
  "with_file formatID u v sha s =
     bump_artifact_revision u v
       (s\<lparr>tbl_checksum := delete_rows (\<lambda>c. ck_owner_type c = OwnerArtifactFormat \<and> ck_owner c = formatID) (tbl_checksum s)
          @ [\<lparr>ck_owner_type = OwnerArtifactFormat, ck_owner = formatID, ck_alg_type = ''SHA-256'', ck_alg_value = sha\<rparr>]\<rparr>)"

lemma SetArtifactFormatFile_Inr:
  "SetArtifactFormatFile conn u v i sha s = (Inr a, s') \<longleftrightarrow>
     0 \<le> i \<and> i < int (length (ArtifactFormatIDs s u v))
     \<and> s' = with_file (ArtifactFormatIDs s u v ! nat i) u v sha s \<and> getArtifactByVersionTx s' u v = Inr a"
  unfolding SetArtifactFormatFile_def with_file_def
  by (auto simp: Let_def checksumTypes_def)

lemma with_file_frame [simp]:
  "tbl_artifact_format (with_file i u v sha s) = tbl_artifact_format s"
  "tbl_artifact_distribution (with_file i u v sha s) = tbl_artifact_distribution s"
  "tbl_artifact (with_file i u v sha s) =
     update_rows (is_version u v) (\<lambda>a. a\<lparr>a_revision := a_revision a + 1\<rparr>) (tbl_artifact s)"
  by (simp_all add: with_file_def bump_artifact_revision_def)

lemma with_file_checksums:
  "listChecksums (with_file i u v sha s) ot o' =
     (if ot = OwnerArtifactFormat \<and> o' = i then [\<lparr>AlgType = ''SHA-256'', AlgValue = sha\<rparr>] else listChecksums s ot o')"
  by (auto simp: listChecksums_def with_file_def bump_artifact_revision_def filter_delete_rows
      intro!: arg_cong [of _ _ "map _"] filter_cong)

lemma is_version_revision [simp]: "is_version u v (a\<lparr>a_revision := r\<rparr>) = is_version u v a"
  by (simp add: is_version_def)

lemma formats_with_file:
  "listArtifactFormats (with_file i u v sha s) u v =
     map2 (\<lambda>j f. if j = i then f\<lparr>fmt_Checksums := [\<lparr>AlgType = ''SHA-256'', AlgValue = sha\<rparr>]\<rparr> else f)
       (ArtifactFormatIDs s u v) (listArtifactFormats s u v)"
  by (simp add: listArtifactFormats_def ArtifactFormatIDs_def with_file_checksums zip_map_map zip_same_conv_map)

lemma length_formats: "length (listArtifactFormats s u v) = length (ArtifactFormatIDs s u v)"
  by (simp add: listArtifactFormats_def ArtifactFormatIDs_def)

text \<open>
  Uploading a file to a format replaces its content: afterwards its only checksum is the uploaded
  one, the other formats read as before, and the revision that backs the artifact's ETag has grown by
  one; an index outside the artifact's formats is refused and changes nothing.
\<close>

theorem SetArtifactFormatFile_replaces:
  assumes "distinct (ArtifactFormatIDs s u v)"
  shows "(\<forall>a s'. SetArtifactFormatFile conn u v i sha s = (Inr a, s') \<longrightarrow>
            fmt_Checksums (art_Formats a ! nat i) = [\<lparr>AlgType = ''SHA-256'', AlgValue = sha\<rparr>]
            \<and> (\<forall>j < length (art_Formats a). j \<noteq> nat i \<longrightarrow> art_Formats a ! j = listArtifactFormats s u v ! j)
            \<and> (\<forall>r. getArtifactRevisionTx s u v = Inr r \<longrightarrow> getArtifactRevisionTx s' u v = Inr (r + 1)))
    \<and> (i < 0 \<or> int (length (listArtifactFormats s u v)) \<le> i \<longrightarrow>
         SetArtifactFormatFile conn u v i sha s = (Inl ErrNotFound, s))"
proof (intro conjI allI impI)
  fix a s'
  assume "SetArtifactFormatFile conn u v i sha s = (Inr a, s')"
  then have i: "nat i < length (ArtifactFormatIDs s u v)"
    and s': "s' = with_file (ArtifactFormatIDs s u v ! nat i) u v sha s"
    and get: "getArtifactByVersionTx s' u v = Inr a" by (auto simp: SetArtifactFormatFile_Inr)
  from get have fmts: "art_Formats a = listArtifactFormats s' u v"
    by (auto simp: getArtifactByVersionTx_def split: option.splits)
  show "fmt_Checksums (art_Formats a ! nat i) = [\<lparr>AlgType = ''SHA-256'', AlgValue = sha\<rparr>]"
    using i unfolding fmts s' formats_with_file by (simp add: length_formats)
  show "art_Formats a ! j = listArtifactFormats s u v ! j" if "j < length (art_Formats a)" "j \<noteq> nat i" for j
    using i that assms unfolding fmts s' formats_with_file by (simp add: length_formats nth_eq_iff_index_eq)
  show "getArtifactRevisionTx s' u v = Inr (r + 1)" if "getArtifactRevisionTx s u v = Inr r" for r
    using that unfolding s' getArtifactRevisionTx_def
    by (auto simp: find_row_update_rows split: option.splits dest: find_row_SomeD)
next
  assume "i < 0 \<or> int (length (listArtifactFormats s u v)) \<le> i"
  then show "SetArtifactFormatFile conn u v i sha s = (Inl ErrNotFound, s)"
    by (cases conn) (auto simp: SetArtifactFormatFile_def Let_def length_formats runInTx_def)
qed

text \<open>
  What was uploaded is what is served: after an upload to the first format of a media type, with no
  external location recorded, a download of that media type in any letter case resolves to the
  uploaded content.
\<close>

theorem upload_then_download:
  assumes "SetArtifactFormatFile conn u v i sha s = (Inr a, s')"
    and "\<forall>j < nat i. \<not> EqualFold (fmt_MediaType (listArtifactFormats s u v ! j)) mt"
    and "EqualFold (fmt_MediaType (listArtifactFormats s u v ! nat i)) mt"
    and "fmt_URL (listArtifactFormats s u v ! nat i) = []"
  shows "GetArtifactFormatForDownload s' u v mt = Inr (SelfHosted sha)"
proof -
  from assms(1) have i: "nat i < length (listArtifactFormats s u v)"
    and s': "s' = with_file (ArtifactFormatIDs s u v ! nat i) u v sha s"
    and get: "getArtifactByVersionTx s' u v = Inr a" by (auto simp: SetArtifactFormatFile_Inr length_formats)
  let ?L = "listArtifactFormats s' u v"
  have nth: "?L ! j = (let f = listArtifactFormats s u v ! j in
      if ArtifactFormatIDs s u v ! j = ArtifactFormatIDs s u v ! nat i
      then f\<lparr>fmt_Checksums := [\<lparr>AlgType = ''SHA-256'', AlgValue = sha\<rparr>]\<rparr> else f)"
    if "j < length ?L" for j
    using that unfolding s' formats_with_file by (simp add: length_formats Let_def)
  have len: "length ?L = length (listArtifactFormats s u v)"
    unfolding s' formats_with_file by (simp add: length_formats)
  have "find_row (\<lambda>f. EqualFold (fmt_MediaType f) mt) ?L = Some (?L ! nat i)"
    unfolding find_Some_iff using i assms(2,3) by (intro exI [of _ "nat i"]) (simp add: len nth Let_def)
  moreover have "\<exists>ty. GetArtifactType s' u v = Inr ty"
    using get by (auto simp: getArtifactByVersionTx_def GetArtifactType_def split: option.splits)
  ultimately show ?thesis
    using assms(4) i nth [of "nat i"] by (auto simp: GetArtifactFormatForDownload_def len Let_def)
qed

lemma bom_upload:
  "fst (SetArtifactFormatFile Pool ''a1'' 1 0 ''abc'' bom_db) =
     Inr \<lparr>art_UUID = ''a1'', art_Version = 1, art_Name = ''sbom'', art_Type = ''BOM'', art_CreatedDate = None,
          art_DistributionIDs = [],
          art_Formats = [\<lparr>fmt_MediaType = ''application/json'', fmt_Description = [], fmt_URL = [],
             fmt_SignatureURL = [], fmt_Checksums = [\<lparr>AlgType = ''SHA-256'', AlgValue = ''abc''\<rparr>],
             fmt_EvidenceBundle = None, fmt_EvidenceBundleRef = None\<rparr>]\<rparr>"
  by code_simp

lemma bom_formats: "ArtifactFormatIDs bom_db ''a1'' 1 = [''f1'']"
  "listArtifactFormats bom_db ''a1'' 1 = [\<lparr>fmt_MediaType = ''application/json'', fmt_Description = [], fmt_URL = [],
     fmt_SignatureURL = [], fmt_Checksums = [], fmt_EvidenceBundle = None, fmt_EvidenceBundleRef = None\<rparr>]"
  by code_simp+

theorem SetArtifactFormatFile_replaces_witness:
  "SetArtifactFormatFile Pool ''a1'' 1 1 ''abc'' bom_db = (Inl ErrNotFound, bom_db)"
  using SetArtifactFormatFile_replaces [of bom_db "''a1''" 1 Pool 1 "''abc''"] by (simp add: bom_formats)

theorem upload_then_download_witness:
  "GetArtifactFormatForDownload (snd (SetArtifactFormatFile Pool ''a1'' 1 0 ''abc'' bom_db)) ''a1'' 1 ''Application/JSON''
     = Inr (SelfHosted ''abc'')"
proof -
  obtain a s' where r: "SetArtifactFormatFile Pool ''a1'' 1 0 ''abc'' bom_db = (Inr a, s')"
    using bom_upload by (metis prod.collapse)
  have "EqualFold ''application/json'' ''Application/JSON''" by code_simp
  with upload_then_download [OF r, of "''Application/JSON''"] r show ?thesis by (simp add: bom_formats)
qed

end
