(* ===== verification/Paging.thy ===== *)
theory Paging
  imports "HOL-Library.Option_ord" "HOL-Library.Product_Lexorder" Schema
begin

text \<open>
  Keyset pagination: the request parameters (\<open>internal/httpx/params.go\<close>), the page token
  (\<open>internal/pagination/cursor.go\<close>), the page helpers of the read API
  (\<open>internal/api/pagination.go\<close>) and the SQL fragments of \<open>internal/repo/pagination.go\<close>.

  The locale \<open>keyset_source\<close> states what \<open>filterAuthorized\<close> relies on from the query it is given;
  inside it, one page and the walk over all pages are characterised once, for every list endpoint.
\<close>

section \<open>Request parameters\<close>

text \<open>\<open>strconv.Atoi\<close>: an optional sign and decimal digits, in the range of a 64-bit int.\<close>

definition is_digit :: "char \<Rightarrow> bool" where
  "is_digit c \<longleftrightarrow> of_char c \<ge> (48::nat) \<and> of_char c \<le> (57::nat)"

definition digits_value :: "string \<Rightarrow> int" where
  "digits_value ds = foldl (\<lambda>n c. n * 10 + (of_char c - 48)) 0 ds"

definition Atoi :: "string \<Rightarrow> int option" where
  "Atoi s =
     (let neg = (case s of [] \<Rightarrow> False | c # _ \<Rightarrow> c = CHR ''-'');
          ds = (case s of [] \<Rightarrow> [] | c # cs \<Rightarrow> if c = CHR ''-'' \<or> c = CHR ''+'' then cs else s);
          n = (if neg then - digits_value ds else digits_value ds)
      in if ds = [] \<or> \<not> list_all is_digit ds then None
         else if n < - 9223372036854775808 \<or> n > 9223372036854775807 then None
         else Some n)"

text \<open>A request: its path values and its query parameters, absent ones being empty strings.\<close>

record request =
  req_path :: "string \<Rightarrow> string"
  req_query :: "string \<Rightarrow> string"

datatype param_error = ErrInvalidParam | IndexOutOfRange

definition PathPositiveInt :: "request \<Rightarrow> string \<Rightarrow> param_error + int" where
  "PathPositiveInt r name =
     (case Atoi (req_path r name) of
        None \<Rightarrow> Inl ErrInvalidParam
      | Some v \<Rightarrow> if v < 1 then Inl ErrInvalidParam else Inr v)"

definition PageSize :: "request \<Rightarrow> param_error + int" where
  "PageSize r =
     (let v = req_query r ''pageSize'' in
      if v = [] then Inr 25
      else case Atoi v of
             None \<Rightarrow> Inl ErrInvalidParam
           | Some n \<Rightarrow> if n < 1 \<or> n > 100 then Inl ErrInvalidParam else Inr n)"

definition SortOrder :: "request \<Rightarrow> param_error + string" where
  "SortOrder r =
     (let v = req_query r ''sortOrder'' in
      if v = [] then Inr ''asc''
      else if v \<noteq> ''asc'' \<and> v \<noteq> ''desc'' then Inl ErrInvalidParam
      else Inr v)"

definition SortField :: "request \<Rightarrow> string list \<Rightarrow> param_error + string" where
  "SortField r allowed =
     (let v = req_query r ''sortField'' in
      if v = [] then (case allowed of [] \<Rightarrow> Inl IndexOutOfRange | a # _ \<Rightarrow> Inr a)
      else if \<not> List.member allowed v then Inl ErrInvalidParam
      else Inr v)"

definition IDFilter :: "request \<Rightarrow> param_error + (string \<times> string)" where
  "IDFilter r =
     (let idType = req_query r ''idType''; idValue = req_query r ''idValue'' in
      if idType \<noteq> [] \<and> \<not> List.member identifierTypes idType then Inl ErrInvalidParam
      else Inr (idType, idValue))"

section \<open>Page tokens\<close>

record Cursor =
  cur_SortField :: string
  cur_SortOrder :: string
  cur_LastValue :: string
  cur_LastUUID :: string
  cur_Scope :: string

text \<open>
  A token is base64 over JSON; the model keeps what those two layers yield: \<open>None\<close> for bytes they
  reject, otherwise the struct they decode to.
\<close>

type_synonym page_token = "Cursor option"

datatype token_error = ErrInvalidToken

definition Encode :: "Cursor \<Rightarrow> page_token" where
  "Encode c = Some c"

definition Decode :: "page_token \<Rightarrow> token_error + Cursor" where
  "Decode token =
     (case token of
        None \<Rightarrow> Inl ErrInvalidToken
      | Some c \<Rightarrow>
          if cur_SortField c = [] \<or> cur_SortOrder c = [] \<or> cur_LastUUID c = [] \<or> cur_Scope c = []
          then Inl ErrInvalidToken else Inr c)"

definition pageScope :: "string list \<Rightarrow> string" where
  "pageScope parts =
     (case parts of [] \<Rightarrow> [] | p # ps \<Rightarrow> p @ concat (map (\<lambda>q. CHR '':'' # q) ps))"

record pageParams =
  pp_PageSize :: int
  pp_SortField :: string
  pp_SortOrder :: string
  pp_Cursor :: "Cursor option"

text \<open>The 400 response \<open>parsePageParams\<close> writes: its error type and which check failed.\<close>

datatype bad_request =
    InvalidPageSize
  | InvalidSortField
  | InvalidSortOrder
  | MalformedToken
  | TokenSortMismatch
  | TokenScopeMismatch

definition parsePageParams ::
  "request \<Rightarrow> page_token option \<Rightarrow> string list \<Rightarrow> string \<Rightarrow> bad_request + pageParams" where
  "parsePageParams r pageToken allowed scope =
     (case PageSize r of Inl _ \<Rightarrow> Inl InvalidPageSize | Inr sz \<Rightarrow>
      case SortField r allowed of Inl _ \<Rightarrow> Inl InvalidSortField | Inr fld \<Rightarrow>
      case SortOrder r of Inl _ \<Rightarrow> Inl InvalidSortOrder | Inr ord \<Rightarrow>
      case pageToken of
        None \<Rightarrow> Inr \<lparr>pp_PageSize = sz, pp_SortField = fld, pp_SortOrder = ord, pp_Cursor = None\<rparr>
      | Some token \<Rightarrow>
          (case Decode token of
             Inl _ \<Rightarrow> Inl MalformedToken
           | Inr c \<Rightarrow>
               if cur_SortField c \<noteq> fld \<or> cur_SortOrder c \<noteq> ord then Inl TokenSortMismatch
               else if cur_Scope c \<noteq> scope then Inl TokenScopeMismatch
               else Inr \<lparr>pp_PageSize = sz, pp_SortField = fld, pp_SortOrder = ord,
                         pp_Cursor = Some c\<rparr>))"

definition splitPage :: "'a list \<Rightarrow> int \<Rightarrow> 'a list \<times> bool" where
  "splitPage rows pageSize =
     (if int (length rows) > pageSize then (take (nat pageSize) rows, True) else (rows, False))"

definition nextPageToken ::
  "bool \<Rightarrow> string \<Rightarrow> string \<Rightarrow> string \<Rightarrow> string \<Rightarrow> string \<Rightarrow> page_token option" where
  "nextPageToken hasNext sortField sortOrder lastValue lastUUID scope =
     (if \<not> hasNext then None
      else Some (Encode \<lparr>cur_SortField = sortField, cur_SortOrder = sortOrder,
                         cur_LastValue = lastValue, cur_LastUUID = lastUUID, cur_Scope = scope\<rparr>))"

section \<open>Filtering a listing by authorization\<close>

text \<open>The inner loop: append the authorized rows of one batch, stop at the first error.\<close>

fun appendAuthorized ::
  "('a \<Rightarrow> repo_error + bool) \<Rightarrow> 'a list \<Rightarrow> 'a list \<Rightarrow> repo_error + 'a list" where
  "appendAuthorized authorized [] page = Inr page"
| "appendAuthorized authorized (row # rows) page =
     (case authorized row of
        Inl e \<Rightarrow> Inl e
      | Inr ok \<Rightarrow> appendAuthorized authorized rows (if ok then page @ [row] else page))"

text \<open>
  The outer loop, which nothing in its own text bounds: \<open>None\<close> is a loop that never returns. A page
  is the rows and whether another authorized row follows.
\<close>

partial_function (option) filterAuthorizedLoop ::
  "(Cursor option \<Rightarrow> int \<Rightarrow> repo_error + 'a list) \<Rightarrow> ('a \<Rightarrow> Cursor) \<Rightarrow>
   ('a \<Rightarrow> repo_error + bool) \<Rightarrow> int \<Rightarrow> Cursor option \<Rightarrow> 'a list \<Rightarrow>
   (repo_error + ('a list \<times> bool)) option" where
  "filterAuthorizedLoop fetch toCursor authorized pageSize cursor page =
     (case fetch cursor (pageSize + 1) of
        Inl e \<Rightarrow> Some (Inl e)
      | Inr rows \<Rightarrow>
          (case appendAuthorized authorized rows page of
             Inl e \<Rightarrow> Some (Inl e)
           | Inr page' \<Rightarrow>
               if int (length page') > pageSize \<or> \<not> int (length rows) > pageSize
               then Some (Inr (splitPage page' pageSize))
               else if rows = [] then Some (Inl (ErrOther ''panic: index out of range''))
               else filterAuthorizedLoop fetch toCursor authorized pageSize
                      (Some (toCursor (last rows))) page'))"

definition filterAuthorized ::
  "(Cursor option \<Rightarrow> int \<Rightarrow> repo_error + 'a list) \<Rightarrow> ('a \<Rightarrow> Cursor) \<Rightarrow>
   ('a \<Rightarrow> repo_error + bool) \<Rightarrow> Cursor option \<Rightarrow> int \<Rightarrow>
   (repo_error + ('a list \<times> bool)) option" where
  "filterAuthorized fetch toCursor authorized startCursor pageSize =
     filterAuthorizedLoop fetch toCursor authorized pageSize startCursor []"

section \<open>The SQL fragments\<close>

text \<open>
  \<open>pageQuery\<close> over a sort column of any ordered type. The column may be NULL: SQL's comparison with
  NULL is not true, so the WHERE clause drops such a row, while ORDER BY puts it first ascending and
  last descending. \<open>None\<close> is the least element of \<open>'k option\<close>, as ORDER BY has it.
\<close>

definition whereClause :: "string \<Rightarrow> ('k::linorder \<times> uuid) option \<Rightarrow> 'k option \<Rightarrow> uuid \<Rightarrow> bool" where
  "whereClause sortOrder cursor v u =
     (case cursor of
        None \<Rightarrow> True
      | Some (lastValue, lastUUID) \<Rightarrow>
          (case v of
             None \<Rightarrow> False
           | Some x \<Rightarrow>
               if sortOrder = ''desc''
               then x < lastValue \<or> (x = lastValue \<and> u < lastUUID)
               else x > lastValue \<or> (x = lastValue \<and> u > lastUUID)))"

definition orderByClause :: "string \<Rightarrow> ('r \<Rightarrow> 'k::linorder option) \<Rightarrow> ('r \<Rightarrow> uuid) \<Rightarrow> 'r list \<Rightarrow> 'r list" where
  "orderByClause sortOrder key uid rows =
     (let asc = sort_key (\<lambda>r. (key r, uid r)) rows
      in if sortOrder = ''desc'' then rev asc else asc)"

definition pageRows ::
  "string \<Rightarrow> ('r \<Rightarrow> 'k::linorder option) \<Rightarrow> ('r \<Rightarrow> uuid) \<Rightarrow> ('k \<times> uuid) option \<Rightarrow> int \<Rightarrow>
   'r list \<Rightarrow> 'r list" where
  "pageRows sortOrder key uid cursor limit rows =
     take (nat limit)
       (orderByClause sortOrder key uid
          (filter (\<lambda>r. whereClause sortOrder cursor (key r) (uid r)) rows))"


section \<open>Lemmas on the parts\<close>

lemma appendAuthorized_total:
  "(\<And>r. r \<in> set rows \<Longrightarrow> authorized r = Inr (p r)) \<Longrightarrow>
     appendAuthorized authorized rows page = Inr (page @ filter p rows)"
  by (induction rows arbitrary: page) auto

lemma appendAuthorized_error:
  "\<exists>r \<in> set rows. \<exists>e. authorized r = Inl e \<Longrightarrow> \<exists>e. appendAuthorized authorized rows page = Inl e"
  by (induction rows arbitrary: page) (auto split: sum.splits)

lemma appendAuthorized_only:
  "appendAuthorized authorized rows page = Inr page' \<Longrightarrow> r \<in> set page' \<Longrightarrow>
     r \<in> set page \<or> authorized r = Inr True"
  by (induction rows arbitrary: page) (fastforce split: sum.splits if_splits)+

lemma splitPage_prefix:
  assumes "0 \<le> n" and "int (length xs) > n"
  shows "splitPage xs n = (take (nat n) (xs @ ys), True)"
  using assms by (simp add: splitPage_def)

lemma splitPage_all:
  assumes "0 \<le> n"
  shows "splitPage xs n = (take (nat n) xs, int (length xs) > n)"
  using assms by (auto simp: splitPage_def)

lemma Decode_Encode:
  assumes "cur_SortField c \<noteq> []" "cur_SortOrder c \<noteq> []" "cur_LastUUID c \<noteq> []" "cur_Scope c \<noteq> []"
  shows "Decode (Encode c) = Inr c"
  using assms by (simp add: Decode_def Encode_def)

lemma Decode_InrD: "Decode t = Inr c \<Longrightarrow> t = Some c"
  by (auto simp: Decode_def split: option.splits if_splits)

text \<open>
  Splitting a scope at its first separator gives back its first part, so two scopes of the same
  number of parts agree only if the parts do, as long as only the last part may hold a separator.
\<close>

lemma pageScope_Cons: "pageScope (p # q # ps) = p @ CHR '':'' # pageScope (q # ps)"
  by (simp add: pageScope_def)

lemma append_sep_eqD:
  assumes "xs @ c # us = ys @ c # vs" and "c \<notin> set xs" and "c \<notin> set ys"
  shows "xs = ys \<and> us = vs"
  using assms
proof (induction xs arbitrary: ys)
  case Nil
  then show ?case by (cases ys) auto
next
  case (Cons x xs)
  then show ?case by (cases ys) auto
qed

lemma pageScope_inj:
  assumes "pageScope ps = pageScope qs" and "length ps = length qs"
    and "\<forall>p \<in> set (butlast ps). CHR '':'' \<notin> set p" and "\<forall>q \<in> set (butlast qs). CHR '':'' \<notin> set q"
  shows "ps = qs"
  using assms
proof (induction ps arbitrary: qs)
  case Nil
  then show ?case by simp
next
  case (Cons p ps)
  then obtain q qs' where qs: "qs = q # qs'" by (cases qs) auto
  show ?case
  proof (cases ps)
    case Nil
    with Cons.prems qs show ?thesis by (simp add: pageScope_def)
  next
    case (Cons p2 ps2)
    with Cons.prems(2) qs obtain q2 qs2 where qs': "qs' = q2 # qs2" by (cases qs') auto
    have "p @ CHR '':'' # pageScope ps = q @ CHR '':'' # pageScope qs'"
      using Cons.prems(1) unfolding qs qs' Cons by (simp add: pageScope_Cons)
    moreover have "CHR '':'' \<notin> set p" and "CHR '':'' \<notin> set q"
      using Cons.prems(3,4) qs qs' Cons by auto
    ultimately have "p = q" and eq: "pageScope ps = pageScope qs'"
      by (auto dest: append_sep_eqD)
    moreover have "ps = qs'"
      using Cons.prems(2-4) qs qs' Cons by (intro Cons.IH [OF eq]) auto
    ultimately show ?thesis using qs by simp
  qed
qed

text \<open>The first rows that pass a filter end at some row of the list they come from.\<close>

lemma filter_take_prefix:
  assumes "1 \<le> m" and "m \<le> length (filter p rest)"
  shows "\<exists>k < length rest. filter p (take (Suc k) rest) = take m (filter p rest) \<and>
           rest ! k = last (take m (filter p rest))"
  using assms
proof (induction rest arbitrary: m)
  case Nil
  then show ?case by simp
next
  case (Cons a rest)
  show ?case
  proof (cases "p a \<and> m = 1")
    case True
    then show ?thesis by (intro exI [of _ 0]) simp
  next
    case False
    let ?m = "if p a then m - 1 else m"
    from False Cons.prems have m: "1 \<le> ?m" "?m \<le> length (filter p rest)" by (auto split: if_splits)
    from Cons.IH [OF this] obtain k where k: "k < length rest"
      "filter p (take (Suc k) rest) = take ?m (filter p rest)"
      "rest ! k = last (take ?m (filter p rest))" by blast
    have ne: "take ?m (filter p rest) \<noteq> []" using m by auto
    have "take m (filter p (a # rest)) = (if p a then [a] else []) @ take ?m (filter p rest)"
      using m False Cons.prems(1) by (cases m) auto
    with k ne show ?thesis
      by (intro exI [of _ "Suc k"]) auto
  qed
qed

section \<open>Keyset paging over a column without NULLs\<close>

lemma filter_greater_split:
  fixes f :: "'r \<Rightarrow> 'b::linorder"
  assumes "sorted (map f (xs @ r # ys))" and "distinct (map f (xs @ r # ys))"
  shows "filter (\<lambda>x. f x > f r) (xs @ r # ys) = ys" and "filter (\<lambda>x. f x < f r) (xs @ r # ys) = xs"
proof -
  have lt: "f x < f r" if "x \<in> set xs" for x
    using assms that by (auto simp: sorted_append order_less_le image_iff)
  have gt: "f r < f y" if "y \<in> set ys" for y
    using assms that by (auto simp: sorted_append order_less_le image_iff)
  from lt have "filter (\<lambda>x. f x > f r) xs = []" "filter (\<lambda>x. f x < f r) xs = xs"
    by (auto simp: filter_empty_conv filter_id_conv dest: less_asym)
  moreover from gt have "filter (\<lambda>x. f x > f r) ys = ys" "filter (\<lambda>x. f x < f r) ys = []"
    by (auto simp: filter_empty_conv filter_id_conv dest: less_asym)
  ultimately show "filter (\<lambda>x. f x > f r) (xs @ r # ys) = ys"
    and "filter (\<lambda>x. f x < f r) (xs @ r # ys) = xs" by simp_all
qed

lemma whereClause_lex:
  "whereClause ord (Some (k, u)) (Some x) v =
     (if ord = ''desc'' then (Some x, v) < (Some k, u) else (Some x, v) > (Some k, u))"
  by (auto simp: whereClause_def less_prod_def')

lemma orderByClause_set [simp]: "set (orderByClause ord key uid rows) = set rows"
  by (simp add: orderByClause_def Let_def)

lemma orderByClause_filter:
  "orderByClause ord key uid (filter P rows) = filter P (orderByClause ord key uid rows)"
  by (simp add: orderByClause_def Let_def filter_sort flip: rev_filter)

lemma pageRows_first: "pageRows ord key uid None n rows = take (nat n) (orderByClause ord key uid rows)"
  by (simp add: pageRows_def whereClause_def)

lemma pageRows_resume:
  assumes "distinct (map uid rows)" and "\<forall>r \<in> set rows. key r \<noteq> None"
    and L: "orderByClause ord key uid rows = xs @ r # ys" and k: "key r = Some k"
  shows "pageRows ord key uid (Some (k, uid r)) n rows = take (nat n) ys"
proof -
  let ?f = "\<lambda>r. (key r, uid r)" and ?asc = "sort_key (\<lambda>r. (key r, uid r)) rows"
  have dist: "distinct (map ?f ?asc)"
    using assms(1) by (auto simp: distinct_map inj_on_def)
  have "filter (\<lambda>x. whereClause ord (Some (k, uid r)) (key x) (uid x)) (xs @ r # ys) = ys"
  proof (cases "ord = ''desc''")
    case True
    have "?asc = rev ys @ r # rev xs"
      using L True by (auto simp: orderByClause_def Let_def rev_swap)
    with dist sorted_sort_key [of ?f rows]
    have "filter (\<lambda>x. ?f x < ?f r) (rev ys @ r # rev xs) = rev ys"
      using filter_greater_split(2) [of ?f "rev ys" r "rev xs"] by simp
    then have "filter (\<lambda>x. ?f x < ?f r) (xs @ r # ys) = ys"
      by (metis (no_types, lifting) append.assoc append_Cons append_Nil rev.simps(2) rev_append rev_filter rev_rev_ident)
    moreover have "filter (\<lambda>x. whereClause ord (Some (k, uid r)) (key x) (uid x)) (xs @ r # ys) =
        filter (\<lambda>x. ?f x < ?f r) (xs @ r # ys)"
    proof (rule filter_cong [OF refl])
      fix x assume "x \<in> set (xs @ r # ys)"
      then have "key x \<noteq> None" using assms(2) L by (metis orderByClause_set)
      with True k show "whereClause ord (Some (k, uid r)) (key x) (uid x) = (?f x < ?f r)"
        by (auto simp: whereClause_lex)
    qed
    ultimately show ?thesis by simp
  next
    case False
    have asc: "?asc = xs @ r # ys" using L False by (auto simp: orderByClause_def Let_def)
    have "filter (\<lambda>x. whereClause ord (Some (k, uid r)) (key x) (uid x)) (xs @ r # ys) =
        filter (\<lambda>x. ?f x > ?f r) (xs @ r # ys)"
    proof (rule filter_cong [OF refl])
      fix x assume "x \<in> set (xs @ r # ys)"
      then have "key x \<noteq> None" using assms(2) L by (metis orderByClause_set)
      with False k show "whereClause ord (Some (k, uid r)) (key x) (uid x) = (?f x > ?f r)"
        by (auto simp: whereClause_lex)
    qed
    also have "\<dots> = ys"
      using filter_greater_split(1) [of ?f xs r ys] dist sorted_sort_key [of ?f rows] unfolding asc by simp
    finally show ?thesis .
  qed
  then show ?thesis unfolding pageRows_def orderByClause_filter L by simp
qed

section \<open>What a list endpoint needs from its query\<close>

text \<open>Two cursors resume at the same row when their value and uuid agree; the rest is for clients.\<close>

definition same_position :: "Cursor \<Rightarrow> Cursor \<Rightarrow> bool" where
  "same_position c d \<longleftrightarrow> cur_LastValue c = cur_LastValue d \<and> cur_LastUUID c = cur_LastUUID d"

definition after_rows :: "('a \<Rightarrow> Cursor) \<Rightarrow> 'a list \<Rightarrow> Cursor option \<Rightarrow> bool" where
  "after_rows toCursor seen c \<longleftrightarrow>
     (case c of
        None \<Rightarrow> seen = []
      | Some d \<Rightarrow> seen \<noteq> [] \<and> same_position d (toCursor (last seen)))"

text \<open>
  A client that follows \<open>nextPageToken\<close> from one page to the next until a page says there is no
  other one.
\<close>

inductive walk ::
  "(Cursor option \<Rightarrow> (repo_error + ('a list \<times> bool)) option) \<Rightarrow> ('a \<Rightarrow> Cursor) \<Rightarrow> Cursor option \<Rightarrow>
   'a list list \<Rightarrow> bool"
  for page nextCursor where
  last_page: "page c = Some (Inr (rows, False)) \<Longrightarrow> walk page nextCursor c [rows]"
| next_page: "page c = Some (Inr (rows, True)) \<Longrightarrow>
     walk page nextCursor (Some (nextCursor (last rows))) rest \<Longrightarrow>
     walk page nextCursor c (rows # rest)"

inductive_cases walk_cases: "walk page nxt c qs"

lemma walk_deterministic: "walk page nxt c ps \<Longrightarrow> walk page nxt c qs \<Longrightarrow> ps = qs"
proof (induction c ps arbitrary: qs rule: walk.induct)
  case (last_page c rows)
  note h = last_page.hyps
  from last_page.prems show ?case
  proof (rule walk_cases)
    fix rows' assume "page c = Some (Inr (rows', False))" "qs = [rows']"
    with h show ?thesis by simp
  next
    fix rows' rest' assume "page c = Some (Inr (rows', True))"
    with h show ?thesis by simp
  qed
next
  case (next_page c rows rest)
  note h = next_page.hyps(1) and IH = next_page.IH
  from next_page.prems show ?case
  proof (rule walk_cases)
    fix rows' assume "page c = Some (Inr (rows', False))"
    with h show ?thesis by simp
  next
    fix rows' rest' assume pg: "page c = Some (Inr (rows', True))" and qs: "qs = rows' # rest'"
      and w: "walk page nxt (Some (nxt (last rows'))) rest'"
    from pg h have "rows' = rows" by simp
    with IH w qs show ?thesis by simp
  qed
qed

text \<open>
  The interface: under the invariant \<open>inv\<close> of the store, a fetch returns the first rows of one
  fixed listing, or those after the row the cursor names.
\<close>

locale keyset_source =
  fixes inv :: "'s \<Rightarrow> bool"
    and fetch :: "'s \<Rightarrow> Cursor option \<Rightarrow> int \<Rightarrow> repo_error + 'a list"
    and listing :: "'s \<Rightarrow> 'a list"
    and toCursor :: "'a \<Rightarrow> Cursor"
  assumes fetch_first: "inv s \<Longrightarrow> 0 \<le> n \<Longrightarrow> fetch s None n = Inr (take (nat n) (listing s))"
    and fetch_resume: "inv s \<Longrightarrow> listing s = xs @ r # ys \<Longrightarrow> same_position c (toCursor r) \<Longrightarrow>
          0 \<le> n \<Longrightarrow> fetch s (Some c) n = Inr (take (nat n) ys)"
begin

lemma fetch_after:
  assumes "inv s" and "listing s = seen @ rest" and "after_rows toCursor seen c" and "0 \<le> n"
  shows "fetch s c n = Inr (take (nat n) rest)"
proof (cases c)
  case None
  with assms show ?thesis by (simp add: after_rows_def fetch_first)
next
  case (Some d)
  with assms(3) have ne: "seen \<noteq> []" and pos: "same_position d (toCursor (last seen))"
    by (auto simp: after_rows_def)
  from ne assms(2) have "listing s = butlast seen @ last seen # rest" by simp
  from fetch_resume [OF assms(1) this pos assms(4)] Some show ?thesis by simp
qed

lemma filterAuthorizedLoop_after:
  assumes "inv s" and "0 \<le> n" and "listing s = seen @ rest" and "after_rows toCursor seen c"
    and "\<forall>r \<in> set rest. authorized r = Inr (p r)" and "int (length page) \<le> n"
  shows "filterAuthorizedLoop (fetch s) toCursor authorized n c page =
           Some (Inr (take (nat n) (page @ filter p rest), int (length (page @ filter p rest)) > n))"
  using assms(3-6)
proof (induction "length rest" arbitrary: seen rest c page rule: less_induct)
  case less
  let ?rows = "take (nat (n + 1)) rest" and ?rest = "drop (nat (n + 1)) rest"
  let ?page = "page @ filter p ?rows"
  have fetched: "fetch s c (n + 1) = Inr ?rows"
    using fetch_after [OF assms(1) less.prems(1,2), of "n + 1"] assms(2) by simp
  have appended: "appendAuthorized authorized ?rows page = Inr ?page"
    using less.prems(3) by (intro appendAuthorized_total) (auto dest: in_set_takeD)
  have split_rest: "page @ filter p rest = ?page @ filter p ?rest"
    by (metis append_assoc append_take_drop_id filter_append)
  show ?case
  proof (cases "int (length ?rows) > n")
    case False
    then have "?rows = rest" using assms(2) by auto
    with False fetched appended show ?thesis
      by (simp add: filterAuthorizedLoop.simps [of _ _ _ _ c] splitPage_all [OF assms(2)])
  next
    case full: True
    show ?thesis
    proof (cases "int (length ?page) > n")
      case True
      with fetched appended show ?thesis
        unfolding split_rest
        by (simp add: filterAuthorizedLoop.simps [of _ _ _ _ c] splitPage_prefix [OF assms(2) True, of "filter p ?rest"])
    next
      case False
      have ne: "?rows \<noteq> []" using full assms(2) by auto
      then have shorter: "length ?rest < length rest" using assms(2) by auto
      have "listing s = (seen @ ?rows) @ ?rest" using less.prems(1) by simp
      moreover have "after_rows toCursor (seen @ ?rows) (Some (toCursor (last ?rows)))"
        using ne by (simp add: after_rows_def same_position_def)
      moreover have "\<forall>r \<in> set ?rest. authorized r = Inr (p r)"
        using less.prems(3) by (auto dest: in_set_dropD)
      ultimately have "filterAuthorizedLoop (fetch s) toCursor authorized n (Some (toCursor (last ?rows))) ?page =
          Some (Inr (take (nat n) (?page @ filter p ?rest), int (length (?page @ filter p ?rest)) > n))"
        using False by (intro less.hyps [OF shorter]) auto
      with fetched appended full False ne show ?thesis
        unfolding split_rest by (simp add: filterAuthorizedLoop.simps [of _ _ _ _ c])
    qed
  qed
qed

lemma filterAuthorized_page:
  assumes "inv s" and "0 \<le> n" and "listing s = seen @ rest" and "after_rows toCursor seen c"
    and "\<forall>r \<in> set rest. authorized r = Inr (p r)"
  shows "filterAuthorized (fetch s) toCursor authorized c n =
           Some (Inr (take (nat n) (filter p rest), int (length (filter p rest)) > n))"
  using filterAuthorizedLoop_after [OF assms, of "[]"] assms(2) by (simp add: filterAuthorized_def)

lemma filterAuthorized_first_page:
  assumes "inv s" and "0 \<le> n" and "\<forall>r \<in> set (listing s). authorized r = Inr (p r)"
  shows "filterAuthorized (fetch s) toCursor authorized None n =
           Some (Inr (take (nat n) (filter p (listing s)), int (length (filter p (listing s))) > n))"
  using filterAuthorized_page [OF assms(1,2), of "[]" "listing s" None] assms(3) by (simp add: after_rows_def)

lemma walk_after:
  assumes "inv s" and "1 \<le> n" and "\<And>r. same_position (nextCursor r) (toCursor r)"
    and "listing s = seen @ rest" and "after_rows toCursor seen c"
    and "\<forall>r \<in> set rest. authorized r = Inr (p r)"
  shows "\<exists>pages. walk (\<lambda>c. filterAuthorized (fetch s) toCursor authorized c n) nextCursor c pages
           \<and> concat pages = filter p rest \<and> (\<forall>pg \<in> set pages. int (length pg) \<le> n)"
  using assms(4-6)
proof (induction "length rest" arbitrary: seen rest c rule: less_induct)
  case less
  let ?page = "\<lambda>c. filterAuthorized (fetch s) toCursor authorized c n"
  let ?rows = "take (nat n) (filter p rest)"
  have n0: "0 \<le> n" using assms(2) by simp
  have pg: "?page c = Some (Inr (?rows, int (length (filter p rest)) > n))"
    by (rule filterAuthorized_page [OF assms(1) n0 less.prems])
  show ?case
  proof (cases "int (length (filter p rest)) > n")
    case False
    with pg have "walk ?page nextCursor c [?rows]" by (intro walk.last_page) simp
    moreover from False have "?rows = filter p rest" using n0 by auto
    ultimately show ?thesis using False by (intro exI [of _ "[?rows]"]) auto
  next
    case True
    have ne: "?rows \<noteq> []" using True assms(2) by auto
    have "1 \<le> nat n" and "nat n \<le> length (filter p rest)" using True assms(2) by linarith+
    from filter_take_prefix [OF this] obtain k where k: "k < length rest" "rest ! k = last ?rows"
      and pre: "filter p (take (Suc k) rest) = ?rows" by blast
    let ?seen = "seen @ take (Suc k) rest" and ?rest = "drop (Suc k) rest"
    have shorter: "length ?rest < length rest" using k(1) by simp
    have "listing s = ?seen @ ?rest" using less.prems(1) by simp
    moreover have "after_rows toCursor ?seen (Some (nextCursor (last ?rows)))"
      using k assms(3) by (simp add: after_rows_def take_Suc_conv_app_nth)
    moreover have "\<forall>r \<in> set ?rest. authorized r = Inr (p r)"
      using less.prems(3) by (auto dest: in_set_dropD)
    ultimately obtain pages where w: "walk ?page nextCursor (Some (nextCursor (last ?rows))) pages"
      and cc: "concat pages = filter p ?rest" and sz: "\<forall>pg \<in> set pages. int (length pg) \<le> n"
      using less.hyps [OF shorter] by blast
    have "walk ?page nextCursor c (?rows # pages)"
      using pg True w by (intro walk.next_page) simp_all
    moreover have "concat (?rows # pages) = filter p rest"
      using cc pre by (metis append_take_drop_id concat.simps(2) filter_append)
    ultimately show ?thesis using sz n0 by (intro exI [of _ "?rows # pages"]) auto
  qed
qed

lemma walk_complete:
  assumes "inv s" and "1 \<le> n" and "\<And>r. same_position (nextCursor r) (toCursor r)"
    and "\<forall>r \<in> set (listing s). authorized r = Inr (p r)"
  shows "\<exists>!pages. walk (\<lambda>c. filterAuthorized (fetch s) toCursor authorized c n) nextCursor None pages"
    and "walk (\<lambda>c. filterAuthorized (fetch s) toCursor authorized c n) nextCursor None pages \<Longrightarrow>
           concat pages = filter p (listing s) \<and> (\<forall>pg \<in> set pages. int (length pg) \<le> n)"
proof -
  obtain ps where w: "walk (\<lambda>c. filterAuthorized (fetch s) toCursor authorized c n) nextCursor None ps"
    and ps: "concat ps = filter p (listing s)" "\<forall>pg \<in> set ps. int (length pg) \<le> n"
    using walk_after [OF assms(1-3), of "[]" "listing s" None authorized p] assms(4)
    by (auto simp: after_rows_def)
  show "\<exists>!pages. walk (\<lambda>c. filterAuthorized (fetch s) toCursor authorized c n) nextCursor None pages"
    using w by (auto intro: walk_deterministic)
  show "concat pages = filter p (listing s) \<and> (\<forall>pg \<in> set pages. int (length pg) \<le> n)"
    if "walk (\<lambda>c. filterAuthorized (fetch s) toCursor authorized c n) nextCursor None pages"
    using walk_deterministic [OF that w] ps by simp
qed

end

end
