(* ===== verification/Collections.thy ===== *)
theory Collections
  imports Artifacts Paging
begin

text \<open>
  Collections (\<open>internal/repo/collection.go\<close>): the versioned lists of artifacts of a release. A
  collection's uuid is its release's uuid; \<open>belongs_to\<close> says which kind of release that is. Versions
  are numbered by the server, and no operation changes a version once it exists.
\<close>

section \<open>Statements\<close>

definition is_collection :: "uuid \<Rightarrow> int \<Rightarrow> collection_row \<Rightarrow> bool" where
  "is_collection u v c \<longleftrightarrow> c_uuid c = u \<and> c_version c = v"

definition insert_collection ::
  "uuid \<Rightarrow> int \<Rightarrow> stamp \<Rightarrow> string \<Rightarrow> string option \<Rightarrow> string option \<Rightarrow> unit repo_op" where
  "insert_collection u v date belongsTo reasonType reasonComment s =
     (if \<not> List.member [BelongsToComponentRelease, BelongsToProductRelease] belongsTo
         \<or> (case reasonType of None \<Rightarrow> False | Some t \<Rightarrow> \<not> List.member collectionUpdateReasons t)
      then (Inl ErrCheckConstraint, s)
      else if has_row (is_collection u v) (tbl_collection s) then (Inl ErrUniqueConstraint, s)
      else (Inr (), s\<lparr>tbl_collection := tbl_collection s @
              [\<lparr>c_uuid = u, c_version = v, c_date = date, c_belongs_to = belongsTo,
                c_reason_type = reasonType, c_reason_comment = reasonComment\<rparr>]\<rparr>))"

definition collection_artifact_of :: "uuid \<Rightarrow> int \<Rightarrow> ArtifactRef \<Rightarrow> collection_artifact_row" where
  "collection_artifact_of u v a =
     \<lparr>ca_uuid = u, ca_version = v, ca_artifact = aref_UUID a, ca_artifact_version = aref_Version a\<rparr>"

definition insert_collection_artifact :: "uuid \<Rightarrow> int \<Rightarrow> ArtifactRef \<Rightarrow> unit repo_op" where
  "insert_collection_artifact u v a s =
     (if List.member (tbl_collection_artifact s) (collection_artifact_of u v a) then (Inl ErrUniqueConstraint, s)
      else if \<not> has_row (is_collection u v) (tbl_collection s)
              \<or> \<not> has_row (is_version (aref_UUID a) (aref_Version a)) (tbl_artifact s)
      then (Inl ErrForeignKeyConstraint, s)
      else (Inr (), s\<lparr>tbl_collection_artifact := tbl_collection_artifact s @ [collection_artifact_of u v a]\<rparr>))"

section \<open>Reading\<close>

definition collectionArtifactRefs :: "db \<Rightarrow> uuid \<Rightarrow> int \<Rightarrow> (uuid \<times> int) list" where
  "collectionArtifactRefs s u v =
     map (\<lambda>ca. (ca_artifact ca, ca_artifact_version ca))
       (filter (\<lambda>ca. ca_uuid ca = u \<and> ca_version ca = v) (tbl_collection_artifact s))"

definition listCollectionArtifacts :: "db \<Rightarrow> uuid \<Rightarrow> int \<Rightarrow> repo_error + Artifact list" where
  "listCollectionArtifacts s u v =
     mapE (\<lambda>(a, w). getArtifactByVersionTx s a w) (collectionArtifactRefs s u v)"

definition scanCollection :: "db \<Rightarrow> collection_row \<Rightarrow> repo_error + Collection" where
  "scanCollection s c =
     (case listCollectionArtifacts s (c_uuid c) (c_version c) of
        Inl e \<Rightarrow> Inl e
      | Inr artifacts \<Rightarrow> Inr
          \<lparr>coll_UUID = c_uuid c, coll_Version = c_version c, coll_CreatedDate = parseTime (c_date c),
           coll_BelongsTo = c_belongs_to c,
           coll_UpdateReason =
             (case c_reason_type c of
                None \<Rightarrow> None
              | Some t \<Rightarrow> Some \<lparr>reason_Type = t, reason_Comment = null_str (c_reason_comment c)\<rparr>),
           coll_Artifacts = artifacts, coll_EvidenceBundle = None, coll_EvidenceBundleRef = None\<rparr>)"

definition getCollectionByVersionTx :: "db \<Rightarrow> uuid \<Rightarrow> int \<Rightarrow> string \<Rightarrow> repo_error + Collection" where
  "getCollectionByVersionTx s ownerUUID version belongsTo =
     (case find_row (\<lambda>c. is_collection ownerUUID version c \<and> c_belongs_to c = belongsTo) (tbl_collection s) of
        None \<Rightarrow> Inl ErrNotFound
      | Some c \<Rightarrow> scanCollection s c)"

definition getCollectionByVersionUnfilteredTx :: "db \<Rightarrow> uuid \<Rightarrow> int \<Rightarrow> repo_error + Collection" where
  "getCollectionByVersionUnfilteredTx s ownerUUID version =
     (case find_row (is_collection ownerUUID version) (tbl_collection s) of
        None \<Rightarrow> Inl ErrNotFound
      | Some c \<Rightarrow> scanCollection s c)"

definition existsCollectionVersionTx :: "db \<Rightarrow> uuid \<Rightarrow> int \<Rightarrow> string \<Rightarrow> repo_error + unit" where
  "existsCollectionVersionTx s ownerUUID version belongsTo =
     (if has_row (\<lambda>c. is_collection ownerUUID version c \<and> c_belongs_to c = belongsTo) (tbl_collection s)
      then Inr () else Inl ErrNotFound)"

definition latestCollectionVersionTx :: "db \<Rightarrow> uuid \<Rightarrow> string \<Rightarrow> int option" where
  "latestCollectionVersionTx s ownerUUID belongsTo =
     sql_max (map c_version (filter (\<lambda>c. c_uuid c = ownerUUID \<and> c_belongs_to c = belongsTo) (tbl_collection s)))"

definition GetLatestCollection :: "db \<Rightarrow> uuid \<Rightarrow> string \<Rightarrow> repo_error + Collection" where
  "GetLatestCollection s ownerUUID belongsTo =
     (case latestCollectionVersionTx s ownerUUID belongsTo of
        None \<Rightarrow> Inl ErrNotFound
      | Some v \<Rightarrow> getCollectionByVersionTx s ownerUUID v belongsTo)"

definition CollectionArtifactRevisions :: "db \<Rightarrow> uuid \<Rightarrow> int \<Rightarrow> int list" where
  "CollectionArtifactRevisions s ownerUUID version =
     concat (map (\<lambda>ca. map a_revision
                          (filter (is_version (ca_artifact ca) (ca_artifact_version ca)) (tbl_artifact s)))
       (filter (\<lambda>ca. ca_uuid ca = ownerUUID \<and> ca_version ca = version) (tbl_collection_artifact s)))"

text \<open>
  The cursor of this listing holds a version number as text; the column is an integer, so SQLite
  compares it as a number, and a text that is none sorts after every number.
\<close>

definition ListCollections ::
  "db \<Rightarrow> uuid \<Rightarrow> string \<Rightarrow> Cursor option \<Rightarrow> int \<Rightarrow> string \<Rightarrow> repo_error + Collection list" where
  "ListCollections s ownerUUID sortOrder cursor limit belongsTo =
     (let rows = filter (\<lambda>c. c_uuid c = ownerUUID \<and> c_belongs_to c = belongsTo) (tbl_collection s);
          page = (\<lambda>cv. pageRows sortOrder (\<lambda>c. Some (c_version c)) c_uuid cv limit rows);
          selected =
            (case cursor of
               None \<Rightarrow> page None
             | Some c \<Rightarrow> (case Atoi (cur_LastValue c) of
                            Some n \<Rightarrow> page (Some (n, cur_LastUUID c))
                          | None \<Rightarrow> if sortOrder = ''desc'' then page None else []))
      in mapE (\<lambda>v. getCollectionByVersionTx s ownerUUID v belongsTo) (map c_version selected))"

section \<open>Publishing a version\<close>

record CollectionInput =
  cin_UpdateReason :: "UpdateReason option"
  cin_Artifacts :: "ArtifactRef list"
  cin_CreatedDate :: "time option"

definition reasonColumns :: "UpdateReason option \<Rightarrow> string option \<times> string option" where
  "reasonColumns r =
     (case r of None \<Rightarrow> (None, None) | Some x \<Rightarrow> (Some (reason_Type x), nullIfEmpty (reason_Comment x)))"

definition createCollection :: "repo_conn \<Rightarrow> time \<Rightarrow> uuid \<Rightarrow> string \<Rightarrow> CollectionInput \<Rightarrow> Collection repo_op" where
  "createCollection conn now ownerUUID belongsTo inp =
     runInTx conn (\<lambda>s.
       let version = next_number (map c_version (filter (\<lambda>c. c_uuid c = ownerUUID) (tbl_collection s)));
           date = (case cin_CreatedDate inp of None \<Rightarrow> now | Some d \<Rightarrow> d);
           (reasonType, reasonComment) = reasonColumns (cin_UpdateReason inp)
       in bindR (insert_collection ownerUUID version (formatTime date) belongsTo reasonType reasonComment) (\<lambda>_.
          bindR (forR (insert_collection_artifact ownerUUID version) (cin_Artifacts inp)) (\<lambda>_.
          bindR (execR (bumpWatermark WatermarkCollections)) (\<lambda>_.
          readR (\<lambda>s. getCollectionByVersionTx s ownerUUID version belongsTo)))) s)"

definition CreateCollectionForComponentRelease ::
  "repo_conn \<Rightarrow> time \<Rightarrow> uuid \<Rightarrow> CollectionInput \<Rightarrow> Collection repo_op" where
  "CreateCollectionForComponentRelease conn now u inp s =
     (if \<not> has_row (\<lambda>r. rl_uuid r = u) (tbl_component_release s) then (Inl ErrNotFound, s)
      else createCollection conn now u BelongsToComponentRelease inp s)"

definition CreateCollectionForProductRelease ::
  "repo_conn \<Rightarrow> time \<Rightarrow> uuid \<Rightarrow> CollectionInput \<Rightarrow> Collection repo_op" where
  "CreateCollectionForProductRelease conn now u inp s =
     (if \<not> has_row (\<lambda>r. rl_uuid r = u) (tbl_product_release s) then (Inl ErrNotFound, s)
      else createCollection conn now u BelongsToProductRelease inp s)"

section \<open>Import\<close>

record ImportCollectionInput =
  icin_UUID :: uuid
  icin_Version :: int
  icin_CreatedDate :: time
  icin_BelongsTo :: string
  icin_UpdateReason :: "UpdateReason option"
  icin_Artifacts :: "ArtifactRef list"

definition collectionConflicts :: "Collection \<Rightarrow> ImportCollectionInput \<Rightarrow> bool" where
  "collectionConflicts existing inp \<longleftrightarrow>
     (if coll_BelongsTo existing \<noteq> icin_BelongsTo inp then True
      else if coll_CreatedDate existing \<noteq> icin_CreatedDate inp then True
      else if \<not> ptrEqual (coll_UpdateReason existing) (icin_UpdateReason inp) then True
      else \<not> setEqual (map (\<lambda>a. \<lparr>aref_UUID = art_UUID a, aref_Version = art_Version a\<rparr>) (coll_Artifacts existing))
                (icin_Artifacts inp))"

definition ImportCollection :: "repo_conn \<Rightarrow> ImportCollectionInput \<Rightarrow> bool repo_op" where
  "ImportCollection conn inp =
     (let u = icin_UUID inp; v = icin_Version inp in
      runInTx conn (\<lambda>s.
        case getCollectionByVersionUnfilteredTx s u v of
          Inr existing \<Rightarrow>
            if collectionConflicts existing inp then (Inl ErrImportIdentityConflict, s) else (Inr False, s)
        | Inl err \<Rightarrow>
            if err \<noteq> ErrNotFound then (Inl err, s)
            else let (reasonType, reasonComment) = reasonColumns (icin_UpdateReason inp) in
                 bindR (insert_collection u v (formatTime (icin_CreatedDate inp)) (icin_BelongsTo inp)
                          reasonType reasonComment) (\<lambda>_.
                 bindR (forR (insert_collection_artifact u v) (icin_Artifacts inp)) (\<lambda>_.
                 bindR (execR (bumpWatermark WatermarkCollections)) (\<lambda>_.
                 returnR True))) s))"

section \<open>Invariant\<close>

definition collection_wf :: "db \<Rightarrow> bool" where
  "collection_wf s \<longleftrightarrow>
     distinct (map (\<lambda>c. (c_uuid c, c_version c)) (tbl_collection s))
     \<and> (\<forall>ca \<in> set (tbl_collection_artifact s).
          (\<exists>c \<in> set (tbl_collection s). is_collection (ca_uuid ca) (ca_version ca) c)
          \<and> (\<exists>a \<in> set (tbl_artifact s). is_version (ca_artifact ca) (ca_artifact_version ca) a))"

section \<open>What an insertion changes\<close>

definition collection_row_of :: "uuid \<Rightarrow> int \<Rightarrow> time \<Rightarrow> string \<Rightarrow> UpdateReason option \<Rightarrow> collection_row" where
  "collection_row_of u v date belongsTo reason =
     \<lparr>c_uuid = u, c_version = v, c_date = formatTime date, c_belongs_to = belongsTo,
      c_reason_type = fst (reasonColumns reason), c_reason_comment = snd (reasonColumns reason)\<rparr>"

definition with_collection ::
  "uuid \<Rightarrow> int \<Rightarrow> time \<Rightarrow> string \<Rightarrow> UpdateReason option \<Rightarrow> ArtifactRef list \<Rightarrow> db \<Rightarrow> db" where
  "with_collection u v date belongsTo reason refs s =
     bumpWatermark WatermarkCollections
       (s\<lparr>tbl_collection := tbl_collection s @ [collection_row_of u v date belongsTo reason],
          tbl_collection_artifact := tbl_collection_artifact s @ map (collection_artifact_of u v) refs\<rparr>)"

text \<open>When a version can be inserted: the constraints of the two tables.\<close>

definition insertable ::
  "uuid \<Rightarrow> int \<Rightarrow> string \<Rightarrow> UpdateReason option \<Rightarrow> ArtifactRef list \<Rightarrow> db \<Rightarrow> bool" where
  "insertable u v belongsTo reason refs s \<longleftrightarrow>
     belongsTo \<in> {BelongsToComponentRelease, BelongsToProductRelease}
     \<and> (\<forall>r. reason = Some r \<longrightarrow> reason_Type r \<in> set collectionUpdateReasons)
     \<and> \<not> (\<exists>c \<in> set (tbl_collection s). is_collection u v c)
     \<and> distinct refs
     \<and> (\<forall>a \<in> set refs. collection_artifact_of u v a \<notin> set (tbl_collection_artifact s)
          \<and> (\<exists>x \<in> set (tbl_artifact s). is_version (aref_UUID a) (aref_Version a) x))"

lemma collection_artifact_of_inj [simp]: "collection_artifact_of u v a = collection_artifact_of u v b \<longleftrightarrow> a = b"
  by (cases a; cases b) (simp add: collection_artifact_of_def)

lemma insert_collection_artifacts_Inr:
  assumes "\<exists>c \<in> set (tbl_collection s). is_collection u v c"
  shows "forR (insert_collection_artifact u v) refs s = (Inr (), s') \<longleftrightarrow>
     distinct refs
     \<and> (\<forall>a \<in> set refs. collection_artifact_of u v a \<notin> set (tbl_collection_artifact s)
          \<and> (\<exists>x \<in> set (tbl_artifact s). is_version (aref_UUID a) (aref_Version a) x))
     \<and> s' = s\<lparr>tbl_collection_artifact := tbl_collection_artifact s @ map (collection_artifact_of u v) refs\<rparr>"
  using assms
proof (induction refs arbitrary: s)
  case Nil
  then show ?case by auto
next
  case (Cons a refs)
  let ?s = "s\<lparr>tbl_collection_artifact := tbl_collection_artifact s @ [collection_artifact_of u v a]\<rparr>"
  have step: "insert_collection_artifact u v a s = (Inr (), s1) \<longleftrightarrow>
      collection_artifact_of u v a \<notin> set (tbl_collection_artifact s)
      \<and> (\<exists>x \<in> set (tbl_artifact s). is_version (aref_UUID a) (aref_Version a) x) \<and> s1 = ?s" for s1
    using Cons.prems by (auto simp: insert_collection_artifact_def)
  have "\<exists>c \<in> set (tbl_collection ?s). is_collection u v c" using Cons.prems by simp
  from Cons.IH [OF this] show ?case by (auto simp: step)
qed

lemma insert_version_Inr:
  "bindR (insert_collection u v (formatTime date) bt (fst (reasonColumns reason)) (snd (reasonColumns reason))) (\<lambda>_.
   bindR (forR (insert_collection_artifact u v) refs) (\<lambda>_.
   execR (bumpWatermark WatermarkCollections))) s = (Inr x, s') \<longleftrightarrow>
     insertable u v bt reason refs s \<and> s' = with_collection u v date bt reason refs s"
proof -
  let ?s = "s\<lparr>tbl_collection := tbl_collection s @ [collection_row_of u v date bt reason]\<rparr>"
  have ins: "insert_collection u v (formatTime date) bt (fst (reasonColumns reason)) (snd (reasonColumns reason)) s = (Inr y, s1) \<longleftrightarrow>
      bt \<in> {BelongsToComponentRelease, BelongsToProductRelease}
      \<and> (\<forall>r. reason = Some r \<longrightarrow> reason_Type r \<in> set collectionUpdateReasons)
      \<and> \<not> (\<exists>c \<in> set (tbl_collection s). is_collection u v c) \<and> s1 = ?s" for y s1
    by (cases reason) (auto simp: insert_collection_def reasonColumns_def collection_row_of_def)
  have "\<exists>c \<in> set (tbl_collection ?s). is_collection u v c" by (simp add: is_collection_def collection_row_of_def)
  from insert_collection_artifacts_Inr [OF this, of refs]
  show ?thesis by (auto simp: ins insertable_def with_collection_def)
qed

lemma with_collection_frame [simp]:
  "tbl_collection (with_collection u v d bt r refs s) = tbl_collection s @ [collection_row_of u v d bt r]"
  "tbl_collection_artifact (with_collection u v d bt r refs s) =
     tbl_collection_artifact s @ map (collection_artifact_of u v) refs"
  "tbl_artifact (with_collection u v d bt r refs s) = tbl_artifact s"
  "tbl_artifact_distribution (with_collection u v d bt r refs s) = tbl_artifact_distribution s"
  "tbl_artifact_format (with_collection u v d bt r refs s) = tbl_artifact_format s"
  "tbl_checksum (with_collection u v d bt r refs s) = tbl_checksum s"
  "tbl_draft (with_collection u v d bt r refs s) = tbl_draft s"
  "tbl_draft_artifact (with_collection u v d bt r refs s) = tbl_draft_artifact s"
  "tbl_fingerprint (with_collection u v d bt r refs s) = tbl_fingerprint s"
  "tbl_evidence (with_collection u v d bt r refs s) = tbl_evidence s"
  "tbl_evidence_timestamp (with_collection u v d bt r refs s) = tbl_evidence_timestamp s"
  "tbl_evidence_transparency (with_collection u v d bt r refs s) = tbl_evidence_transparency s"
  "tbl_product_release (with_collection u v d bt r refs s) = tbl_product_release s"
  "tbl_component_release (with_collection u v d bt r refs s) = tbl_component_release s"
  "tbl_credential (with_collection u v d bt r refs s) = tbl_credential s"
  by (simp_all add: with_collection_def)

section \<open>Reading back\<close>

lemma getArtifact_cong:
  assumes "tbl_artifact t = tbl_artifact s" and "tbl_artifact_distribution t = tbl_artifact_distribution s"
    and "tbl_artifact_format t = tbl_artifact_format s" and "tbl_checksum t = tbl_checksum s"
  shows "getArtifactByVersionTx t = getArtifactByVersionTx s"
  using assms listChecksums_cong [of t s]
  by (intro ext) (simp add: getArtifactByVersionTx_def listArtifactDistributionIDs_def listArtifactFormats_def
      split: option.splits)

lemma getArtifact_with_collection [simp]:
  "getArtifactByVersionTx (with_collection u v d bt r refs s) = getArtifactByVersionTx s"
  by (rule getArtifact_cong) simp_all

lemma refs_with_collection:
  "collectionArtifactRefs (with_collection u v d bt r refs s) u' v' =
     collectionArtifactRefs s u' v' @ (if (u', v') = (u, v) then map (\<lambda>a. (aref_UUID a, aref_Version a)) refs else [])"
  by (auto simp: collectionArtifactRefs_def collection_artifact_of_def filter_map comp_def)

lemma no_stale_refs:
  assumes "collection_wf s" and "\<not> (\<exists>c \<in> set (tbl_collection s). is_collection u v c)"
  shows "collectionArtifactRefs s u v = []"
  using assms by (auto simp: collection_wf_def collectionArtifactRefs_def filter_empty_conv)

lemma artifact_exists_get:
  "(\<exists>x \<in> set (tbl_artifact s). is_version u v x) \<longleftrightarrow> (\<exists>a. getArtifactByVersionTx s u v = Inr a)"
  by (auto simp: getArtifactByVersionTx_def find_row_None split: option.splits dest: find_row_SomeD)

lemma mapE_artifacts:
  assumes "\<forall>a \<in> set refs. \<exists>x \<in> set (tbl_artifact s). is_version (aref_UUID a) (aref_Version a) x"
  obtains arts where "mapE (\<lambda>(a, w). getArtifactByVersionTx s a w) (map (\<lambda>a. (aref_UUID a, aref_Version a)) refs) = Inr arts"
    and "map (\<lambda>a. \<lparr>aref_UUID = art_UUID a, aref_Version = art_Version a\<rparr>) arts = refs"
  using assms
proof (induction refs arbitrary: thesis)
  case Nil
  then show ?case by simp
next
  case (Cons r refs)
  then obtain arts where "mapE (\<lambda>(a, w). getArtifactByVersionTx s a w) (map (\<lambda>a. (aref_UUID a, aref_Version a)) refs) = Inr arts"
    "map (\<lambda>a. \<lparr>aref_UUID = art_UUID a, aref_Version = art_Version a\<rparr>) arts = refs" by auto
  moreover obtain x where "getArtifactByVersionTx s (aref_UUID r) (aref_Version r) = Inr x"
    using Cons.prems(2) by (auto simp: artifact_exists_get)
  moreover from this have "\<lparr>aref_UUID = art_UUID x, aref_Version = art_Version x\<rparr> = r"
    using getArtifact_identity by (cases r) auto
  ultimately show ?case by (intro Cons.prems(1) [of "x # arts"]) auto
qed

text \<open>The collection an insertion publishes.\<close>

lemma scan_new:
  assumes "collection_wf s" and "insertable u v bt reason refs s"
  obtains arts where
    "scanCollection (with_collection u v d bt reason refs s) (collection_row_of u v d bt reason) =
       Inr \<lparr>coll_UUID = u, coll_Version = v, coll_CreatedDate = parseTime (formatTime d), coll_BelongsTo = bt,
            coll_UpdateReason = reason, coll_Artifacts = arts, coll_EvidenceBundle = None, coll_EvidenceBundleRef = None\<rparr>"
    and "mapE (\<lambda>(a, w). getArtifactByVersionTx s a w) (map (\<lambda>a. (aref_UUID a, aref_Version a)) refs) = Inr arts"
    and "map (\<lambda>a. \<lparr>aref_UUID = art_UUID a, aref_Version = art_Version a\<rparr>) arts = refs"
proof -
  have none: "\<not> (\<exists>c \<in> set (tbl_collection s). is_collection u v c)" using assms(2) by (simp add: insertable_def)
  have refs: "collectionArtifactRefs (with_collection u v d bt reason refs s) u v = map (\<lambda>a. (aref_UUID a, aref_Version a)) refs"
    by (simp add: refs_with_collection no_stale_refs [OF assms(1) none])
  have "\<forall>a \<in> set refs. \<exists>x \<in> set (tbl_artifact s). is_version (aref_UUID a) (aref_Version a) x"
    using assms(2) by (auto simp: insertable_def)
  then obtain arts where arts:
    "mapE (\<lambda>(a, w). getArtifactByVersionTx s a w) (map (\<lambda>a. (aref_UUID a, aref_Version a)) refs) = Inr arts"
    "map (\<lambda>a. \<lparr>aref_UUID = art_UUID a, aref_Version = art_Version a\<rparr>) arts = refs" by (rule mapE_artifacts)
  then show thesis
    by (intro that [of arts])
       (auto simp: scanCollection_def listCollectionArtifacts_def refs collection_row_of_def reasonColumns_def
         split: option.splits)
qed

lemma getCollection_new:
  assumes "\<not> (\<exists>c \<in> set (tbl_collection s). is_collection u v c)"
  shows "getCollectionByVersionTx (with_collection u v d bt reason refs s) u v bt =
           scanCollection (with_collection u v d bt reason refs s) (collection_row_of u v d bt reason)"
    and "getCollectionByVersionUnfilteredTx (with_collection u v d bt reason refs s) u v =
           scanCollection (with_collection u v d bt reason refs s) (collection_row_of u v d bt reason)"
proof -
  have "find_row (\<lambda>c. is_collection u v c \<and> c_belongs_to c = bt) (tbl_collection s) = None"
    "find_row (is_collection u v) (tbl_collection s) = None" using assms by (auto simp: find_row_None)
  then show "getCollectionByVersionTx (with_collection u v d bt reason refs s) u v bt =
           scanCollection (with_collection u v d bt reason refs s) (collection_row_of u v d bt reason)"
    "getCollectionByVersionUnfilteredTx (with_collection u v d bt reason refs s) u v =
           scanCollection (with_collection u v d bt reason refs s) (collection_row_of u v d bt reason)"
    by (simp_all add: getCollectionByVersionTx_def getCollectionByVersionUnfilteredTx_def find_row_append
        is_collection_def collection_row_of_def)
qed

lemma getCollection_other:
  assumes "(u', v') \<noteq> (u, v)"
  shows "getCollectionByVersionTx (with_collection u v d bt reason refs s) u' v' bt' = getCollectionByVersionTx s u' v' bt'"
proof -
  have "\<not> is_collection u' v' (collection_row_of u v d bt reason)"
    using assms by (auto simp: is_collection_def collection_row_of_def)
  moreover have "scanCollection (with_collection u v d bt reason refs s) c = scanCollection s c"
    if "find_row (\<lambda>c. is_collection u' v' c \<and> c_belongs_to c = bt') (tbl_collection s) = Some c" for c
  proof -
    from find_row_SomeD [OF that] have "c_uuid c = u'" "c_version c = v'" by (auto simp: is_collection_def)
    with assms show ?thesis by (auto simp: scanCollection_def listCollectionArtifacts_def refs_with_collection)
  qed
  ultimately show ?thesis
    by (auto simp: getCollectionByVersionTx_def find_row_append split: option.splits)
qed

lemma wf_with_collection:
  assumes "collection_wf s" and "insertable u v bt reason refs s"
  shows "collection_wf (with_collection u v d bt reason refs s)"
proof -
  have "(u, v) \<notin> (\<lambda>c. (c_uuid c, c_version c)) ` set (tbl_collection s)"
    using assms(2) by (auto simp: insertable_def is_collection_def)
  moreover have "is_collection u v (collection_row_of u v d bt reason)"
    by (simp add: is_collection_def collection_row_of_def)
  ultimately show ?thesis
    using assms by (fastforce simp: collection_wf_def insertable_def collection_row_of_def collection_artifact_of_def)
qed

text \<open>Reads of collections see only the collection and artifact tables.\<close>

lemma getCollection_cong:
  assumes "tbl_collection t = tbl_collection s" and "tbl_collection_artifact t = tbl_collection_artifact s"
    and "getArtifactByVersionTx t = getArtifactByVersionTx s"
  shows "getCollectionByVersionTx t = getCollectionByVersionTx s"
    and "GetLatestCollection t = GetLatestCollection s" and "listCollectionArtifacts t = listCollectionArtifacts s"
proof -
  have l: "listCollectionArtifacts t = listCollectionArtifacts s"
    using assms by (intro ext) (simp add: listCollectionArtifacts_def collectionArtifactRefs_def)
  then show g: "getCollectionByVersionTx t = getCollectionByVersionTx s" "listCollectionArtifacts t = listCollectionArtifacts s"
    using assms by (auto simp: getCollectionByVersionTx_def scanCollection_def fun_eq_iff split: option.splits)
  show "GetLatestCollection t = GetLatestCollection s"
    using assms g by (simp add: GetLatestCollection_def latestCollectionVersionTx_def fun_eq_iff cong: option.case_cong)
qed

section \<open>Publishing appends\<close>

definition collection_versions :: "uuid \<Rightarrow> db \<Rightarrow> int list" where
  "collection_versions u s = map c_version (filter (\<lambda>c. c_uuid c = u) (tbl_collection s))"

definition next_version :: "uuid \<Rightarrow> db \<Rightarrow> int" where
  "next_version u s = next_number (collection_versions u s)"

lemma next_version_fresh: "\<not> (\<exists>c \<in> set (tbl_collection s). is_collection u (next_version u s) c)"
proof
  assume "\<exists>c \<in> set (tbl_collection s). is_collection u (next_version u s) c"
  then have "next_version u s \<in> set (collection_versions u s)"
    by (force simp: collection_versions_def is_collection_def)
  then show False by (simp add: next_version_def next_number_fresh)
qed

lemma createCollection_Inr:
  "createCollection conn now u bt inp s = (Inr c, s') \<longleftrightarrow>
     insertable u (next_version u s) bt (cin_UpdateReason inp) (cin_Artifacts inp) s
     \<and> s' = with_collection u (next_version u s) (case cin_CreatedDate inp of None \<Rightarrow> now | Some d \<Rightarrow> d) bt
              (cin_UpdateReason inp) (cin_Artifacts inp) s
     \<and> getCollectionByVersionTx s' u (next_version u s) bt = Inr c"
proof -
  let ?v = "next_version u s" and ?d = "case cin_CreatedDate inp of None \<Rightarrow> now | Some d \<Rightarrow> d"
  let ?r = "cin_UpdateReason inp"
  have "createCollection conn now u bt inp s = (Inr c, s') \<longleftrightarrow>
      (\<exists>x s1. bindR (insert_collection u ?v (formatTime ?d) bt (fst (reasonColumns ?r)) (snd (reasonColumns ?r))) (\<lambda>_.
         bindR (forR (insert_collection_artifact u ?v) (cin_Artifacts inp)) (\<lambda>_.
         execR (bumpWatermark WatermarkCollections))) s = (Inr x, s1)
         \<and> s' = s1 \<and> getCollectionByVersionTx s1 u ?v bt = Inr c)"
    unfolding createCollection_def
    by (auto simp: Let_def next_version_def collection_versions_def split: prod.splits)
  then show ?thesis unfolding insert_version_Inr by auto
qed

lemma latest_with_collection:
  assumes "\<And>w. w \<in> set (collection_versions u s) \<Longrightarrow> w < v"
  shows "latestCollectionVersionTx (with_collection u v d bt reason refs s) u bt = Some v"
proof -
  have "sql_max (map c_version (filter (\<lambda>c. c_uuid c = u \<and> c_belongs_to c = bt) (tbl_collection s)) @ [v]) = Some v"
    using assms by (intro sql_max_snoc) (force simp: collection_versions_def)
  then show ?thesis by (simp add: latestCollectionVersionTx_def collection_row_of_def)
qed

interpretation cv: numbered "collection_versions u" "createCollection Pool now u bt inp" coll_Version
  for u now bt inp
proof unfold_locales
  fix s c s'
  assume "createCollection Pool now u bt inp s = (Inr c, s')"
  then have s': "s' = with_collection u (next_version u s) (case cin_CreatedDate inp of None \<Rightarrow> now | Some d \<Rightarrow> d) bt
        (cin_UpdateReason inp) (cin_Artifacts inp) s"
    and get: "getCollectionByVersionTx s' u (next_version u s) bt = Inr c" unfolding createCollection_Inr by blast+
  from get have "coll_Version c = next_version u s"
    by (auto simp: getCollectionByVersionTx_def scanCollection_def is_collection_def
        split: option.splits sum.splits dest!: find_row_SomeD)
  with s' show "coll_Version c = next_number (collection_versions u s) \<and>
      collection_versions u s' = collection_versions u s @ [next_number (collection_versions u s)]"
    by (simp add: next_version_def collection_versions_def collection_row_of_def)
next
  fix s e s'
  assume "createCollection Pool now u bt inp s = (Inl e, s')"
  then show "collection_versions u s' = collection_versions u s"
    unfolding createCollection_def by (auto dest: tx.rollback)
qed

text \<open>
  C10. Publishing a collection adds exactly one version: it is numbered after the highest version of the
  release, becomes the latest, reads back with the artifacts, reason and date (to the second) it was
  given, and every version published before reads as it did.
\<close>

theorem createCollection_appends:
  assumes "collection_wf s" and "createCollection conn now u bt inp s = (Inr c, s')"
  shows "coll_UUID c = u \<and> coll_Version c = next_version u s \<and> coll_BelongsTo c = bt
     \<and> coll_CreatedDate c = parseTime (formatTime (case cin_CreatedDate inp of None \<Rightarrow> now | Some d \<Rightarrow> d))
     \<and> coll_UpdateReason c = cin_UpdateReason inp
     \<and> map (\<lambda>a. \<lparr>aref_UUID = art_UUID a, aref_Version = art_Version a\<rparr>) (coll_Artifacts c) = cin_Artifacts inp
     \<and> GetLatestCollection s' u bt = Inr c \<and> collection_wf s'
     \<and> (\<forall>u' v' bt'. (u', v') \<noteq> (u, coll_Version c) \<longrightarrow>
          getCollectionByVersionTx s' u' v' bt' = getCollectionByVersionTx s u' v' bt')"
proof -
  let ?v = "next_version u s" and ?d = "case cin_CreatedDate inp of None \<Rightarrow> now | Some d \<Rightarrow> d"
  from assms(2) have ok: "insertable u ?v bt (cin_UpdateReason inp) (cin_Artifacts inp) s"
    and s': "s' = with_collection u ?v ?d bt (cin_UpdateReason inp) (cin_Artifacts inp) s"
    and get: "getCollectionByVersionTx s' u ?v bt = Inr c" unfolding createCollection_Inr by blast+
  from assms(1) ok obtain arts where scan:
    "scanCollection s' (collection_row_of u ?v ?d bt (cin_UpdateReason inp)) =
       Inr \<lparr>coll_UUID = u, coll_Version = ?v, coll_CreatedDate = parseTime (formatTime ?d), coll_BelongsTo = bt,
            coll_UpdateReason = cin_UpdateReason inp, coll_Artifacts = arts, coll_EvidenceBundle = None, coll_EvidenceBundleRef = None\<rparr>"
    "map (\<lambda>a. \<lparr>aref_UUID = art_UUID a, aref_Version = art_Version a\<rparr>) arts = cin_Artifacts inp"
    unfolding s' by (rule scan_new)
  have c: "c = \<lparr>coll_UUID = u, coll_Version = ?v, coll_CreatedDate = parseTime (formatTime ?d), coll_BelongsTo = bt,
            coll_UpdateReason = cin_UpdateReason inp, coll_Artifacts = arts, coll_EvidenceBundle = None, coll_EvidenceBundleRef = None\<rparr>"
    using get scan(1) getCollection_new(1) [OF next_version_fresh, of u s ?d bt "cin_UpdateReason inp" "cin_Artifacts inp"]
    unfolding s' by simp
  have latest: "latestCollectionVersionTx s' u bt = Some ?v"
    unfolding s' by (rule latest_with_collection) (simp add: next_version_def next_number_gt)
  have "collection_wf s'" unfolding s' by (rule wf_with_collection [OF assms(1) ok])
  moreover have "getCollectionByVersionTx s' u' v' bt' = getCollectionByVersionTx s u' v' bt'" if "(u', v') \<noteq> (u, ?v)" for u' v' bt'
    unfolding s' by (rule getCollection_other [OF that])
  ultimately show ?thesis using c latest get scan(2) by (simp add: GetLatestCollection_def)
qed

definition release_db :: db where
  "release_db = bom_db\<lparr>tbl_component_release :=
     [\<lparr>rl_uuid = ''r1'', rl_parent = ''k'', rl_parent_name = None, rl_version = ''1'', rl_created_date = 0,
       rl_release_date = None, rl_pre_release = False, rl_revision = 1\<rparr>]\<rparr>"

definition bom_collection :: CollectionInput where
  "bom_collection = \<lparr>cin_UpdateReason = Some \<lparr>reason_Type = ''INITIAL_RELEASE'', reason_Comment = []\<rparr>,
     cin_Artifacts = [\<lparr>aref_UUID = ''a1'', aref_Version = 1\<rparr>], cin_CreatedDate = None\<rparr>"

lemma release_db_wf: "collection_wf release_db"
proof -
  have "tbl_collection release_db = []" "tbl_collection_artifact release_db = []" by code_simp+
  then show ?thesis by (simp add: collection_wf_def)
qed

lemma bom_collection_created:
  "\<exists>c s'. createCollection Pool 5000000001 ''r1'' BelongsToComponentRelease bom_collection release_db = (Inr c, s')
     \<and> coll_Version c = 1"
proof -
  have "(case fst (createCollection Pool 5000000001 ''r1'' BelongsToComponentRelease bom_collection release_db) of
      Inr c \<Rightarrow> coll_Version c = 1 | Inl _ \<Rightarrow> False)"
    by code_simp
  then show ?thesis
    by (cases "createCollection Pool 5000000001 ''r1'' BelongsToComponentRelease bom_collection release_db")
       (auto split: sum.splits)
qed

theorem createCollection_appends_witness:
  "\<exists>c s'. createCollection Pool 5000000001 ''r1'' BelongsToComponentRelease bom_collection release_db = (Inr c, s')
     \<and> coll_Version c = 1 \<and> coll_CreatedDate c = 5000000000
     \<and> GetLatestCollection s' ''r1'' BelongsToComponentRelease = Inr c"
proof -
  obtain c s' where r: "createCollection Pool 5000000001 ''r1'' BelongsToComponentRelease bom_collection release_db = (Inr c, s')"
    and v: "coll_Version c = 1" using bom_collection_created by blast
  from createCollection_appends [OF release_db_wf r] r v show ?thesis
    by (intro exI [of _ c] exI [of _ s']) (simp add: bom_collection_def formatTime_def parseTime_def)
qed

text \<open>
  The collection versions of a release are numbered 1, 2, 3 and so on without gaps, across
  successful and failed attempts to publish.
\<close>

theorem collection_versions_stay_contiguous:
  "contiguous (collection_versions u s) \<Longrightarrow>
     contiguous (collection_versions u (snd (createCollection Pool now u bt inp s)))"
  by (rule cv.alloc_contiguous)

theorem collection_versions_stay_contiguous_witness:
  "contiguous (collection_versions ''r1'' (snd (createCollection Pool 0 ''r1'' BelongsToComponentRelease bom_collection release_db)))"
  by (rule collection_versions_stay_contiguous) code_simp

text \<open>
  A collection is readable only through the kind of release it belongs to: if a version of a release's
  collection reads under one kind, it is unknown under the other.
\<close>

theorem collection_kind_is_checked:
  assumes "collection_wf s" and "getCollectionByVersionTx s u v bt = Inr c" and "bt' \<noteq> bt"
  shows "getCollectionByVersionTx s u v bt' = Inl ErrNotFound"
proof -
  from assms(2) obtain row where row: "row \<in> set (tbl_collection s)" "is_collection u v row" "c_belongs_to row = bt"
    by (auto simp: getCollectionByVersionTx_def split: option.splits dest: find_row_SomeD)
  have "c_belongs_to row' = bt" if "row' \<in> set (tbl_collection s)" "is_collection u v row'" for row'
  proof -
    have "inj_on (\<lambda>c. (c_uuid c, c_version c)) (set (tbl_collection s))"
      using assms(1) by (simp add: collection_wf_def distinct_map)
    with row that have "row' = row" by (auto simp: inj_on_def is_collection_def)
    with row show ?thesis by simp
  qed
  with assms(3) have "find_row (\<lambda>c. is_collection u v c \<and> c_belongs_to c = bt') (tbl_collection s) = None"
    by (auto simp: find_row_None)
  then show ?thesis by (simp add: getCollectionByVersionTx_def)
qed

theorem collection_kind_is_checked_witness:
  "\<exists>c s'. createCollection Pool 5000000001 ''r1'' BelongsToComponentRelease bom_collection release_db = (Inr c, s')
     \<and> getCollectionByVersionTx s' ''r1'' 1 BelongsToProductRelease = Inl ErrNotFound"
proof -
  obtain c s' where r: "createCollection Pool 5000000001 ''r1'' BelongsToComponentRelease bom_collection release_db = (Inr c, s')"
    and v: "coll_Version c = 1" using bom_collection_created by blast
  from r have wf: "collection_wf s'" and "getCollectionByVersionTx s' ''r1'' (next_version ''r1'' release_db) BelongsToComponentRelease = Inr c"
    using wf_with_collection [OF release_db_wf] by (auto simp: createCollection_Inr)
  moreover have "next_version ''r1'' release_db = 1" by code_simp
  ultimately show ?thesis using r collection_kind_is_checked [OF wf] by auto
qed

section \<open>Importing is idempotent for whole seconds\<close>

lemma ImportCollection_Inr:
  "ImportCollection conn inp s = (Inr b, s') \<longleftrightarrow>
     (case getCollectionByVersionUnfilteredTx s (icin_UUID inp) (icin_Version inp) of
        Inr existing \<Rightarrow> \<not> collectionConflicts existing inp \<and> \<not> b \<and> s' = s
      | Inl err \<Rightarrow> err = ErrNotFound \<and> b
          \<and> insertable (icin_UUID inp) (icin_Version inp) (icin_BelongsTo inp) (icin_UpdateReason inp) (icin_Artifacts inp) s
          \<and> s' = with_collection (icin_UUID inp) (icin_Version inp) (icin_CreatedDate inp) (icin_BelongsTo inp)
                   (icin_UpdateReason inp) (icin_Artifacts inp) s)"
proof (cases "getCollectionByVersionUnfilteredTx s (icin_UUID inp) (icin_Version inp)")
  case (Inr c)
  then show ?thesis by (auto simp: ImportCollection_def Let_def)
next
  case (Inl err)
  let ?u = "icin_UUID inp" and ?v = "icin_Version inp" and ?r = "icin_UpdateReason inp"
  have "ImportCollection conn inp s = (Inr b, s') \<longleftrightarrow> err = ErrNotFound \<and> b \<and>
      (\<exists>x s1. bindR (insert_collection ?u ?v (formatTime (icin_CreatedDate inp)) (icin_BelongsTo inp)
           (fst (reasonColumns ?r)) (snd (reasonColumns ?r))) (\<lambda>_.
         bindR (forR (insert_collection_artifact ?u ?v) (icin_Artifacts inp)) (\<lambda>_.
         execR (bumpWatermark WatermarkCollections))) s = (Inr x, s1) \<and> s' = s1)"
    using Inl unfolding ImportCollection_def by (auto simp: Let_def split: prod.splits)
  then show ?thesis using Inl unfolding insert_version_Inr by auto
qed

text \<open>
  Re-importing a collection version is a no-op: after an import that succeeded, importing the same
  version again succeeds and changes nothing, provided its date has no fraction of a second.
\<close>

theorem ImportCollection_idempotent:
  assumes "collection_wf s" and "ImportCollection conn inp s = (Inr b, s')"
    and "parseTime (formatTime (icin_CreatedDate inp)) = icin_CreatedDate inp"
  shows "ImportCollection conn inp s' = (Inr False, s')"
proof (cases "getCollectionByVersionUnfilteredTx s (icin_UUID inp) (icin_Version inp)")
  case (Inr c)
  with assms(2) show ?thesis by (auto simp: ImportCollection_Inr)
next
  case (Inl err)
  let ?u = "icin_UUID inp" and ?v = "icin_Version inp"
  from Inl assms(2) have ok: "insertable ?u ?v (icin_BelongsTo inp) (icin_UpdateReason inp) (icin_Artifacts inp) s"
    and s': "s' = with_collection ?u ?v (icin_CreatedDate inp) (icin_BelongsTo inp) (icin_UpdateReason inp) (icin_Artifacts inp) s"
    by (auto simp: ImportCollection_Inr)
  have new: "\<not> (\<exists>c \<in> set (tbl_collection s). is_collection ?u ?v c)" using ok by (simp add: insertable_def)
  from assms(1) ok obtain arts where
    "scanCollection s' (collection_row_of ?u ?v (icin_CreatedDate inp) (icin_BelongsTo inp) (icin_UpdateReason inp)) =
       Inr \<lparr>coll_UUID = ?u, coll_Version = ?v, coll_CreatedDate = parseTime (formatTime (icin_CreatedDate inp)),
            coll_BelongsTo = icin_BelongsTo inp, coll_UpdateReason = icin_UpdateReason inp, coll_Artifacts = arts,
            coll_EvidenceBundle = None, coll_EvidenceBundleRef = None\<rparr>"
    "map (\<lambda>a. \<lparr>aref_UUID = art_UUID a, aref_Version = art_Version a\<rparr>) arts = icin_Artifacts inp"
    unfolding s' by (rule scan_new)
  with getCollection_new(2) [OF new, of "icin_CreatedDate inp" "icin_BelongsTo inp" "icin_UpdateReason inp" "icin_Artifacts inp"]
    assms(3) show ?thesis unfolding s' by (simp add: ImportCollection_Inr collectionConflicts_def)
qed

definition import_bom :: "time \<Rightarrow> ImportCollectionInput" where
  "import_bom t = \<lparr>icin_UUID = ''r1'', icin_Version = 4, icin_CreatedDate = t, icin_BelongsTo = BelongsToComponentRelease,
     icin_UpdateReason = None, icin_Artifacts = [\<lparr>aref_UUID = ''a1'', aref_Version = 1\<rparr>]\<rparr>"

lemma import_bom_created: "fst (ImportCollection Pool (import_bom t) release_db) = Inr True"
proof -
  let ?s = "with_collection ''r1'' 4 t BelongsToComponentRelease None [\<lparr>aref_UUID = ''a1'', aref_Version = 1\<rparr>] release_db"
  have "getCollectionByVersionUnfilteredTx release_db ''r1'' 4 = Inl ErrNotFound" by code_simp
  moreover have "insertable ''r1'' 4 BelongsToComponentRelease None [\<lparr>aref_UUID = ''a1'', aref_Version = 1\<rparr>] release_db"
  proof -
    have "tbl_collection release_db = []" "tbl_collection_artifact release_db = []"
      "list_ex (is_version ''a1'' 1) (tbl_artifact release_db)" by code_simp+
    then show ?thesis by (simp add: insertable_def list_ex_iff)
  qed
  ultimately have "ImportCollection Pool (import_bom t) release_db = (Inr True, ?s)"
    by (simp add: ImportCollection_Inr import_bom_def)
  then show ?thesis by simp
qed

theorem ImportCollection_idempotent_witness:
  "fst (ImportCollection Pool (import_bom 5000000000) (snd (ImportCollection Pool (import_bom 5000000000) release_db))) = Inr False"
proof -
  obtain b s' where r: "ImportCollection Pool (import_bom 5000000000) release_db = (Inr b, s')"
    using import_bom_created by (metis prod.collapse)
  from ImportCollection_idempotent [OF release_db_wf r] r show ?thesis
    by (simp add: import_bom_def formatTime_def parseTime_def)
qed

text \<open>
  With a fraction of a second the stored date differs from the imported one, so importing the same
  bundle again is refused as an identity conflict.
\<close>

lemma import_fraction_conflicts:
  "fst (ImportCollection Pool (import_bom 5000000001) release_db) = Inr True
   \<and> fst (ImportCollection Pool (import_bom 5000000001) (snd (ImportCollection Pool (import_bom 5000000001) release_db)))
       = Inl ErrImportIdentityConflict"
  by code_simp

end
