(* ===== verification/Evidence.thy ===== *)
theory Evidence
  imports Collections
begin

text \<open>
  Evidence bundles (\<open>internal/repo/evidencebundle.go\<close>): a signature and certificate over an artifact or a
  collection version, registered under the certificate's fingerprint so that an ephemeral key signs
  only once. A retry of a submission that is identical to the stored one returns it instead of
  failing. The verification of the signature happens before these operations and is not part of them.
\<close>

record EvidenceBundleInput =
  ein_OwnerType :: string
  ein_OwnerUUID :: uuid
  ein_OwnerVersion :: int
  ein_ObjectType :: string
  ein_ObjectMediaType :: string
  ein_ObjectLocation :: string
  ein_ObjectDigestValue :: string
  ein_SignatureFormat :: string
  ein_SignatureValue :: string
  ein_SignatureDigestValue :: string
  ein_CertificateFormat :: string
  ein_CertificateValue :: string
  ein_CertificateFingerprint :: string
  ein_CertificateTrustDomain :: string

section \<open>Reading\<close>

definition nullableDigest :: "string option \<Rightarrow> EvidenceDigest option" where
  "nullableDigest v = map_option (\<lambda>d. \<lparr>dig_Algorithm = ''sha-256'', dig_Value = d\<rparr>) v"

definition listEvidenceBundleTimestampsTx :: "db \<Rightarrow> uuid \<Rightarrow> EvidenceTimestamp list" where
  "listEvidenceBundleTimestampsTx s b =
     map (\<lambda>t. \<lparr>tst_Format = ''rfc3161'', tst_TSASubjectDN = null_str (et_subject_dn t),
               tst_TSAPubkeyFingerprint = null_str (et_pubkey_fingerprint t), tst_TSAURI = null_str (et_uri t),
               tst_Token = et_token t, tst_MessageImprintValue = null_str (et_imprint t)\<rparr>)
       (filter (\<lambda>t. et_bundle t = b) (tbl_evidence_timestamp s))"

definition listEvidenceBundleTransparencyTx :: "db \<Rightarrow> uuid \<Rightarrow> EvidenceTransparency list" where
  "listEvidenceBundleTransparencyTx s b =
     map (\<lambda>t. \<lparr>tlog_System = ex_system t, tlog_EvidenceType = ex_evidence_type t,
               tlog_BindingType = ex_binding_type t, tlog_BindingDigestValue = ex_binding_digest t,
               tlog_VerificationJSON = ex_verification_json t\<rparr>)
       (filter (\<lambda>t. ex_bundle t = b) (tbl_evidence_transparency s))"

definition getEvidenceBundleTx :: "db \<Rightarrow> uuid \<Rightarrow> repo_error + EvidenceBundle" where
  "getEvidenceBundleTx s u =
     (case find_row (\<lambda>e. er_uuid e = u) (tbl_evidence s) of
        None \<Rightarrow> Inl ErrNotFound
      | Some e \<Rightarrow> Inr
          \<lparr>eb_UUID = u, eb_BundleVersion = er_bundle_version e, eb_OwnerType = er_owner_type e,
           eb_OwnerUUID = er_owner e, eb_OwnerVersion = er_owner_version e, eb_Status = er_status e,
           eb_Object = \<lparr>obj_ObjectType = er_object_type e, obj_MediaType = null_str (er_object_media_type e),
                        obj_Location = null_str (er_object_location e),
                        obj_Digest = \<lparr>dig_Algorithm = ''sha-256'', dig_Value = er_object_digest e\<rparr>\<rparr>,
           eb_Signature = \<lparr>sig_Format = er_signature_format e, sig_Value = er_signature_value e,
                           sig_SignatureDigest = nullableDigest (er_signature_digest e)\<rparr>,
           eb_Certificate = \<lparr>cert_Format = er_certificate_format e, cert_Certificate = er_certificate_value e,
                             cert_Chain = [],
                             cert_Fingerprint = Some \<lparr>dig_Algorithm = ''sha-256'', dig_Value = er_fingerprint e\<rparr>\<rparr>,
           eb_Timestamps = listEvidenceBundleTimestampsTx s u,
           eb_Transparency = listEvidenceBundleTransparencyTx s u\<rparr>)"

definition GetEvidenceBundleForOwner :: "db \<Rightarrow> string \<Rightarrow> uuid \<Rightarrow> int \<Rightarrow> repo_error + EvidenceBundle" where
  "GetEvidenceBundleForOwner s ownerType ownerUUID ownerVersion =
     (case find_row (\<lambda>e. er_owner_type e = ownerType \<and> er_owner e = ownerUUID \<and> er_owner_version e = ownerVersion)
             (tbl_evidence s) of
        None \<Rightarrow> Inl ErrNotFound
      | Some e \<Rightarrow> getEvidenceBundleTx s (er_uuid e))"

definition ownerExistsTx :: "db \<Rightarrow> string \<Rightarrow> uuid \<Rightarrow> int \<Rightarrow> repo_error + bool" where
  "ownerExistsTx s ownerType u v =
     (if ownerType = ''ARTIFACT'' then Inr (has_row (is_version u v) (tbl_artifact s))
      else if ownerType = ''COLLECTION'' then Inr (has_row (is_collection u v) (tbl_collection s))
      else Inl (ErrOther ''repo: unknown evidence bundle owner type''))"

definition getCollectionRegardlessOfBelongsToTx :: "db \<Rightarrow> uuid \<Rightarrow> int \<Rightarrow> repo_error + Collection" where
  "getCollectionRegardlessOfBelongsToTx s u v =
     (case find_row (is_collection u v) (tbl_collection s) of
        None \<Rightarrow> Inl ErrNotFound
      | Some c \<Rightarrow> getCollectionByVersionTx s u v (c_belongs_to c))"

definition GetEvidenceOwnerObject :: "db \<Rightarrow> string \<Rightarrow> uuid \<Rightarrow> int \<Rightarrow> repo_error + (Artifact + Collection)" where
  "GetEvidenceOwnerObject s ownerType u v =
     (if ownerType = ''ARTIFACT'' then map_sum id Inl (getArtifactByVersionTx s u v)
      else if ownerType = ''COLLECTION'' then map_sum id Inr (getCollectionRegardlessOfBelongsToTx s u v)
      else Inl ErrNotFound)"

section \<open>Creating\<close>

definition insert_fingerprint :: "string \<Rightarrow> string \<Rightarrow> unit repo_op" where
  "insert_fingerprint fp trustDomain s =
     (if has_row (\<lambda>f. fp_fingerprint f = fp) (tbl_fingerprint s) then (Inl ErrUniqueConstraint, s)
      else (Inr (), s\<lparr>tbl_fingerprint := tbl_fingerprint s @
              [\<lparr>fp_fingerprint = fp, fp_trust_domain = trustDomain, fp_bundle = None\<rparr>]\<rparr>))"

definition evidence_row_of :: "uuid \<Rightarrow> EvidenceBundleInput \<Rightarrow> evidence_row" where
  "evidence_row_of i inp =
     \<lparr>er_uuid = i, er_bundle_version = ''1.0'', er_owner_type = ein_OwnerType inp, er_owner = ein_OwnerUUID inp,
      er_owner_version = ein_OwnerVersion inp, er_object_type = ein_ObjectType inp,
      er_object_media_type = nullIfEmpty (ein_ObjectMediaType inp),
      er_object_location = nullIfEmpty (ein_ObjectLocation inp), er_object_digest = ein_ObjectDigestValue inp,
      er_signature_format = ein_SignatureFormat inp, er_signature_value = ein_SignatureValue inp,
      er_signature_digest = nullIfEmpty (ein_SignatureDigestValue inp),
      er_certificate_format = ein_CertificateFormat inp, er_certificate_value = ein_CertificateValue inp,
      er_fingerprint = ein_CertificateFingerprint inp, er_status = ''draft''\<rparr>"

definition evidence_checks :: "EvidenceBundleInput \<Rightarrow> bool" where
  "evidence_checks inp \<longleftrightarrow>
     List.member [''ARTIFACT'', ''COLLECTION''] (ein_OwnerType inp)
     \<and> List.member [''cms-detached'', ''dsse-envelope'', ''jws-detached'', ''cose-sign1''] (ein_SignatureFormat inp)
     \<and> List.member [''x509-pem'', ''x509-der''] (ein_CertificateFormat inp)"

definition insert_evidence :: "uuid \<Rightarrow> EvidenceBundleInput \<Rightarrow> unit repo_op" where
  "insert_evidence i inp s =
     (if \<not> evidence_checks inp then (Inl ErrCheckConstraint, s)
      else if has_row (\<lambda>e. er_uuid e = i) (tbl_evidence s) then (Inl ErrUniqueConstraint, s)
      else if \<not> has_row (\<lambda>f. fp_fingerprint f = ein_CertificateFingerprint inp) (tbl_fingerprint s)
      then (Inl ErrForeignKeyConstraint, s)
      else (Inr (), s\<lparr>tbl_evidence := tbl_evidence s @ [evidence_row_of i inp]\<rparr>))"

definition identicalEvidenceBundleByFingerprintTx ::
  "db \<Rightarrow> EvidenceBundleInput \<Rightarrow> repo_error + (EvidenceBundle option)" where
  "identicalEvidenceBundleByFingerprintTx s inp =
     (case find_row (\<lambda>f. fp_fingerprint f = ein_CertificateFingerprint inp) (tbl_fingerprint s) of
        None \<Rightarrow> Inl (ErrOther ''sql: no rows in result set'')
      | Some f \<Rightarrow>
          (case fp_bundle f of
             None \<Rightarrow> Inr None
           | Some b \<Rightarrow>
               (case getEvidenceBundleTx s b of
                  Inl err \<Rightarrow> if err = ErrNotFound then Inr None else Inl err
                | Inr existing \<Rightarrow>
                    if eb_OwnerType existing = ein_OwnerType inp
                       \<and> eb_OwnerUUID existing = ein_OwnerUUID inp
                       \<and> eb_OwnerVersion existing = ein_OwnerVersion inp
                       \<and> dig_Value (obj_Digest (eb_Object existing)) = ein_ObjectDigestValue inp
                       \<and> sig_Format (eb_Signature existing) = ein_SignatureFormat inp
                       \<and> sig_Value (eb_Signature existing) = ein_SignatureValue inp
                       \<and> cert_Certificate (eb_Certificate existing) = ein_CertificateValue inp
                    then Inr (Some existing) else Inr None)))"

definition CreateEvidenceBundle :: "repo_conn \<Rightarrow> uuid \<Rightarrow> EvidenceBundleInput \<Rightarrow> EvidenceBundle repo_op" where
  "CreateEvidenceBundle conn newid inp =
     runInTx conn (\<lambda>s.
       case ownerExistsTx s (ein_OwnerType inp) (ein_OwnerUUID inp) (ein_OwnerVersion inp) of
         Inl err \<Rightarrow> (Inl err, s)
       | Inr found \<Rightarrow>
           if \<not> found then (Inl ErrNotFound, s)
           else (case insert_fingerprint (ein_CertificateFingerprint inp) (ein_CertificateTrustDomain inp) s of
              (Inl err, s1) \<Rightarrow>
                if err = ErrUniqueConstraint
                then (case identicalEvidenceBundleByFingerprintTx s1 inp of
                        Inl err' \<Rightarrow> (Inl err', s1)
                      | Inr (Some existing) \<Rightarrow> (Inr existing, s1)
                      | Inr None \<Rightarrow> (Inl ErrFingerprintReused, s1))
                else (Inl err, s1)
            | (Inr _, s1) \<Rightarrow>
                bindR (insert_evidence newid inp) (\<lambda>_.
                bindR (execR (\<lambda>s. s\<lparr>tbl_fingerprint :=
                         update_rows (\<lambda>f. fp_fingerprint f = ein_CertificateFingerprint inp)
                           (\<lambda>f. f\<lparr>fp_bundle := Some newid\<rparr>) (tbl_fingerprint s)\<rparr>)) (\<lambda>_.
                readR (\<lambda>s. getEvidenceBundleTx s newid))) s1))"

section \<open>Completing\<close>

record EvidenceBundleTimestampInput =
  tin_TSASubjectDN :: string
  tin_TSAPubkeyFingerprint :: string
  tin_TSAURI :: string
  tin_Token :: string
  tin_MessageImprintValue :: string

definition AddEvidenceBundleTimestamp :: "repo_conn \<Rightarrow> uuid \<Rightarrow> EvidenceBundleTimestampInput \<Rightarrow> unit repo_op" where
  "AddEvidenceBundleTimestamp conn b inp =
     runInTx conn
       (bindR (readR (\<lambda>s. getEvidenceBundleTx s b)) (\<lambda>_.
        execR (\<lambda>s. s\<lparr>tbl_evidence_timestamp := tbl_evidence_timestamp s @
          [\<lparr>et_bundle = b, et_subject_dn = nullIfEmpty (tin_TSASubjectDN inp),
            et_pubkey_fingerprint = nullIfEmpty (tin_TSAPubkeyFingerprint inp), et_uri = nullIfEmpty (tin_TSAURI inp),
            et_token = tin_Token inp, et_imprint = nullIfEmpty (tin_MessageImprintValue inp)\<rparr>]\<rparr>)))"

record EvidenceBundleTransparencyInput =
  xin_System :: string
  xin_EvidenceType :: string
  xin_BindingType :: string
  xin_BindingDigestValue :: string
  xin_VerificationJSON :: string

definition insert_transparency :: "uuid \<Rightarrow> EvidenceBundleTransparencyInput \<Rightarrow> unit repo_op" where
  "insert_transparency b inp s =
     (if \<not> List.member [''rekor'', ''sigsum'', ''scitt''] (xin_System inp)
         \<or> \<not> List.member [''object'', ''signature'', ''timestamped-signature'', ''dsse-envelope''] (xin_BindingType inp)
      then (Inl ErrCheckConstraint, s)
      else (Inr (), s\<lparr>tbl_evidence_transparency := tbl_evidence_transparency s @
              [\<lparr>ex_bundle = b, ex_system = xin_System inp, ex_evidence_type = xin_EvidenceType inp,
                ex_binding_type = xin_BindingType inp, ex_binding_digest = xin_BindingDigestValue inp,
                ex_verification_json = xin_VerificationJSON inp\<rparr>]\<rparr>))"

definition AddEvidenceBundleTransparencyEntry ::
  "repo_conn \<Rightarrow> uuid \<Rightarrow> EvidenceBundleTransparencyInput \<Rightarrow> unit repo_op" where
  "AddEvidenceBundleTransparencyEntry conn b inp =
     runInTx conn (bindR (readR (\<lambda>s. getEvidenceBundleTx s b)) (\<lambda>_. insert_transparency b inp))"

definition MarkEvidenceBundleComplete :: "repo_conn \<Rightarrow> uuid \<Rightarrow> EvidenceBundle repo_op" where
  "MarkEvidenceBundleComplete conn u =
     runInTx conn
       (bindR (readR (\<lambda>s. getEvidenceBundleTx s u)) (\<lambda>bundle.
        if eb_Timestamps bundle = [] then failR ErrEvidenceBundleIncomplete
        else if \<not> list_ex (\<lambda>t. tlog_System t = ''rekor'' \<or> tlog_System t = ''sigsum'') (eb_Transparency bundle)
        then failR ErrEvidenceBundleIncomplete
        else bindR (execR (\<lambda>s. s\<lparr>tbl_evidence :=
                      update_rows (\<lambda>e. er_uuid e = u) (\<lambda>e. e\<lparr>er_status := ''complete''\<rparr>) (tbl_evidence s)\<rparr>)) (\<lambda>_.
             readR (\<lambda>s. getEvidenceBundleTx s u))))"

record EvidenceBundleRefInput =
  rin_OwnerType :: string
  rin_OwnerUUID :: uuid
  rin_OwnerVersion :: int
  rin_URI :: string
  rin_DigestValue :: string

definition CreateEvidenceBundleRef :: "repo_conn \<Rightarrow> EvidenceBundleRefInput \<Rightarrow> EvidenceBundleRef repo_op" where
  "CreateEvidenceBundleRef conn inp =
     runInTx conn (\<lambda>s.
       case ownerExistsTx s (rin_OwnerType inp) (rin_OwnerUUID inp) (rin_OwnerVersion inp) of
         Inl err \<Rightarrow> (Inl err, s)
       | Inr found \<Rightarrow>
           if \<not> found then (Inl ErrNotFound, s)
           else if has_row (\<lambda>r. ef_owner_type r = rin_OwnerType inp \<and> ef_owner r = rin_OwnerUUID inp
                                \<and> ef_owner_version r = rin_OwnerVersion inp) (tbl_evidence_ref s)
           then (Inl ErrUniqueConstraint, s)
           else (Inr \<lparr>ebr_URI = rin_URI inp,
                      ebr_Digest = \<lparr>dig_Algorithm = ''sha-256'', dig_Value = rin_DigestValue inp\<rparr>\<rparr>,
                 s\<lparr>tbl_evidence_ref := tbl_evidence_ref s @
                    [\<lparr>ef_owner_type = rin_OwnerType inp, ef_owner = rin_OwnerUUID inp,
                      ef_owner_version = rin_OwnerVersion inp, ef_uri = rin_URI inp, ef_digest = rin_DigestValue inp\<rparr>]\<rparr>))"

section \<open>Invariant\<close>

text \<open>
  Every bundle's fingerprint is registered and points back at that bundle, and fingerprints are
  unique: a fingerprint belongs to at most one bundle.
\<close>

definition evidence_wf :: "db \<Rightarrow> bool" where
  "evidence_wf s \<longleftrightarrow>
     distinct (map fp_fingerprint (tbl_fingerprint s)) \<and> distinct (map er_uuid (tbl_evidence s))
     \<and> (\<forall>e \<in> set (tbl_evidence s). \<exists>f \<in> set (tbl_fingerprint s).
          fp_fingerprint f = er_fingerprint e \<and> fp_bundle f = Some (er_uuid e))"

section \<open>Outcomes of a submission\<close>

definition with_evidence :: "uuid \<Rightarrow> EvidenceBundleInput \<Rightarrow> db \<Rightarrow> db" where
  "with_evidence i inp s =
     s\<lparr>tbl_evidence := tbl_evidence s @ [evidence_row_of i inp],
       tbl_fingerprint := update_rows (\<lambda>f. fp_fingerprint f = ein_CertificateFingerprint inp) (\<lambda>f. f\<lparr>fp_bundle := Some i\<rparr>)
          (tbl_fingerprint s @ [\<lparr>fp_fingerprint = ein_CertificateFingerprint inp,
             fp_trust_domain = ein_CertificateTrustDomain inp, fp_bundle = None\<rparr>])\<rparr>"

lemma insert_evidence_Inr:
  "insert_evidence i inp s = (Inr x, s') \<longleftrightarrow>
     evidence_checks inp \<and> i \<notin> er_uuid ` set (tbl_evidence s)
     \<and> ein_CertificateFingerprint inp \<in> fp_fingerprint ` set (tbl_fingerprint s)
     \<and> s' = s\<lparr>tbl_evidence := tbl_evidence s @ [evidence_row_of i inp]\<rparr>"
  by (auto simp: insert_evidence_def intro: rev_image_eqI)

lemma CreateEvidenceBundle_Inr:
  "CreateEvidenceBundle conn i inp s = (Inr b, s') \<longleftrightarrow>
     ownerExistsTx s (ein_OwnerType inp) (ein_OwnerUUID inp) (ein_OwnerVersion inp) = Inr True
     \<and> (if ein_CertificateFingerprint inp \<in> fp_fingerprint ` set (tbl_fingerprint s)
        then s' = s \<and> identicalEvidenceBundleByFingerprintTx s inp = Inr (Some b)
        else evidence_checks inp \<and> i \<notin> er_uuid ` set (tbl_evidence s)
             \<and> s' = with_evidence i inp s \<and> getEvidenceBundleTx s' i = Inr b)"
proof -
  let ?fp = "ein_CertificateFingerprint inp"
  show ?thesis
  proof (cases "ownerExistsTx s (ein_OwnerType inp) (ein_OwnerUUID inp) (ein_OwnerVersion inp)")
    case (Inl e)
    then show ?thesis by (simp add: CreateEvidenceBundle_def)
  next
    case (Inr found)
    show ?thesis
    proof (cases "?fp \<in> fp_fingerprint ` set (tbl_fingerprint s)")
      case True
      then have "insert_fingerprint ?fp (ein_CertificateTrustDomain inp) s = (Inl ErrUniqueConstraint, s)"
        by (auto simp: insert_fingerprint_def)
      with Inr True show ?thesis by (auto simp: CreateEvidenceBundle_def split: sum.splits option.splits)
    next
      case False
      let ?s1 = "s\<lparr>tbl_fingerprint := tbl_fingerprint s @ [\<lparr>fp_fingerprint = ?fp,
         fp_trust_domain = ein_CertificateTrustDomain inp, fp_bundle = None\<rparr>]\<rparr>"
      have "insert_fingerprint ?fp (ein_CertificateTrustDomain inp) s = (Inr (), ?s1)"
        using False by (auto simp: insert_fingerprint_def image_iff)
      with Inr False show ?thesis
        by (auto simp: CreateEvidenceBundle_def insert_evidence_Inr with_evidence_def)
    qed
  qed
qed

lemma with_evidence_frame [simp]:
  "tbl_evidence (with_evidence i inp s) = tbl_evidence s @ [evidence_row_of i inp]"
  "tbl_collection (with_evidence i inp s) = tbl_collection s"
  "tbl_collection_artifact (with_evidence i inp s) = tbl_collection_artifact s"
  "tbl_artifact (with_evidence i inp s) = tbl_artifact s"
  "tbl_artifact_distribution (with_evidence i inp s) = tbl_artifact_distribution s"
  "tbl_artifact_format (with_evidence i inp s) = tbl_artifact_format s"
  "tbl_checksum (with_evidence i inp s) = tbl_checksum s"
  "tbl_draft (with_evidence i inp s) = tbl_draft s"
  "tbl_draft_artifact (with_evidence i inp s) = tbl_draft_artifact s"
  "tbl_evidence_timestamp (with_evidence i inp s) = tbl_evidence_timestamp s"
  "tbl_evidence_transparency (with_evidence i inp s) = tbl_evidence_transparency s"
  "tbl_product_release (with_evidence i inp s) = tbl_product_release s"
  "tbl_component_release (with_evidence i inp s) = tbl_component_release s"
  by (simp_all add: with_evidence_def)

lemma ownerExists_with_evidence [simp]:
  "ownerExistsTx (with_evidence i inp s) ot u v = ownerExistsTx s ot u v"
  by (simp add: ownerExistsTx_def)

lemma fingerprint_with_evidence:
  assumes "ein_CertificateFingerprint inp \<notin> fp_fingerprint ` set (tbl_fingerprint s)"
  shows "tbl_fingerprint (with_evidence i inp s) =
     tbl_fingerprint s @ [\<lparr>fp_fingerprint = ein_CertificateFingerprint inp,
        fp_trust_domain = ein_CertificateTrustDomain inp, fp_bundle = Some i\<rparr>]"
  using assms unfolding with_evidence_def by (auto simp: update_rows_def image_iff intro!: map_idI)

lemma wf_with_evidence:
  assumes "evidence_wf s" and "ein_CertificateFingerprint inp \<notin> fp_fingerprint ` set (tbl_fingerprint s)"
    and "i \<notin> er_uuid ` set (tbl_evidence s)"
  shows "evidence_wf (with_evidence i inp s)"
  using assms unfolding evidence_wf_def fingerprint_with_evidence [OF assms(2)]
  by (auto simp: evidence_row_of_def)

lemma CreateEvidenceBundle_wf:
  assumes "evidence_wf s" and "CreateEvidenceBundle conn i inp s = (Inr b, s')"
  shows "evidence_wf s'"
  using assms wf_with_evidence [OF assms(1), of inp i] by (auto simp: CreateEvidenceBundle_Inr split: if_splits)

lemma getEvidence_new:
  "i \<notin> er_uuid ` set (tbl_evidence s) \<Longrightarrow> getEvidenceBundleTx (with_evidence i inp s) i = Inr b \<Longrightarrow>
     eb_OwnerType b = ein_OwnerType inp \<and> eb_OwnerUUID b = ein_OwnerUUID inp \<and> eb_OwnerVersion b = ein_OwnerVersion inp
     \<and> dig_Value (obj_Digest (eb_Object b)) = ein_ObjectDigestValue inp
     \<and> sig_Format (eb_Signature b) = ein_SignatureFormat inp \<and> sig_Value (eb_Signature b) = ein_SignatureValue inp
     \<and> cert_Certificate (eb_Certificate b) = ein_CertificateValue inp \<and> eb_Status b = ''draft'' \<and> eb_UUID b = i"
  by (auto simp: getEvidenceBundleTx_def evidence_row_of_def find_row_append split: option.splits dest: find_row_SomeD)

lemma find_fingerprint_new:
  assumes "ein_CertificateFingerprint inp \<notin> fp_fingerprint ` set (tbl_fingerprint s)"
  shows "find_row (\<lambda>f. fp_fingerprint f = ein_CertificateFingerprint inp) (tbl_fingerprint (with_evidence i inp s)) =
     Some \<lparr>fp_fingerprint = ein_CertificateFingerprint inp, fp_trust_domain = ein_CertificateTrustDomain inp, fp_bundle = Some i\<rparr>"
proof -
  have "find_row (\<lambda>f. fp_fingerprint f = ein_CertificateFingerprint inp) (tbl_fingerprint s) = None"
    using assms by (auto simp: find_row_None image_iff)
  then show ?thesis by (simp add: fingerprint_with_evidence [OF assms] find_row_append)
qed

section \<open>Properties\<close>

text \<open>
  Submitting evidence is safe to retry: after a submission that succeeded, the same submission again
  (whatever new id it would have taken) returns the stored bundle and changes nothing.
\<close>

theorem evidence_retry:
  assumes "CreateEvidenceBundle conn i inp s = (Inr b, s')"
  shows "CreateEvidenceBundle conn j inp s' = (Inr b, s')"
proof (cases "ein_CertificateFingerprint inp \<in> fp_fingerprint ` set (tbl_fingerprint s)")
  case True
  with assms show ?thesis by (simp add: CreateEvidenceBundle_Inr)
next
  case False
  from assms False have i: "i \<notin> er_uuid ` set (tbl_evidence s)" and s': "s' = with_evidence i inp s"
    and get: "getEvidenceBundleTx s' i = Inr b"
    and own: "ownerExistsTx s (ein_OwnerType inp) (ein_OwnerUUID inp) (ein_OwnerVersion inp) = Inr True"
    by (auto simp: CreateEvidenceBundle_Inr)
  have "identicalEvidenceBundleByFingerprintTx s' inp = Inr (Some b)"
    using get getEvidence_new [OF i, of inp b] unfolding s' identicalEvidenceBundleByFingerprintTx_def
    by (simp add: find_fingerprint_new [OF False])
  moreover have "ein_CertificateFingerprint inp \<in> fp_fingerprint ` set (tbl_fingerprint s')"
    unfolding s' by (simp add: fingerprint_with_evidence [OF False])
  ultimately show ?thesis using own unfolding CreateEvidenceBundle_Inr s' by simp
qed

text \<open>
  C9. A signing key is used for one signing event only: with unique fingerprints registered for every
  bundle, a submission under a known fingerprint that differs from the stored one in its owner, digest,
  signature or certificate is refused as reuse and changes nothing; and no submission ever leaves two
  bundles under one fingerprint.
\<close>

theorem key_signs_once:
  assumes "evidence_wf s" and "e \<in> set (tbl_evidence s)"
  shows "(er_fingerprint e = ein_CertificateFingerprint inp
           \<and> ownerExistsTx s (ein_OwnerType inp) (ein_OwnerUUID inp) (ein_OwnerVersion inp) = Inr True
           \<and> (er_owner_type e \<noteq> ein_OwnerType inp \<or> er_owner e \<noteq> ein_OwnerUUID inp
              \<or> er_owner_version e \<noteq> ein_OwnerVersion inp \<or> er_object_digest e \<noteq> ein_ObjectDigestValue inp
              \<or> er_signature_format e \<noteq> ein_SignatureFormat inp \<or> er_signature_value e \<noteq> ein_SignatureValue inp
              \<or> er_certificate_value e \<noteq> ein_CertificateValue inp)
           \<longrightarrow> CreateEvidenceBundle conn i inp s = (Inl ErrFingerprintReused, s))
    \<and> (\<forall>b s' x y. CreateEvidenceBundle conn i inp s = (Inr b, s') \<and> x \<in> set (tbl_evidence s') \<and> y \<in> set (tbl_evidence s')
          \<and> er_fingerprint x = er_fingerprint y \<longrightarrow> x = y)"
proof (intro conjI impI allI)
  assume h: "er_fingerprint e = ein_CertificateFingerprint inp
           \<and> ownerExistsTx s (ein_OwnerType inp) (ein_OwnerUUID inp) (ein_OwnerVersion inp) = Inr True
           \<and> (er_owner_type e \<noteq> ein_OwnerType inp \<or> er_owner e \<noteq> ein_OwnerUUID inp
              \<or> er_owner_version e \<noteq> ein_OwnerVersion inp \<or> er_object_digest e \<noteq> ein_ObjectDigestValue inp
              \<or> er_signature_format e \<noteq> ein_SignatureFormat inp \<or> er_signature_value e \<noteq> ein_SignatureValue inp
              \<or> er_certificate_value e \<noteq> ein_CertificateValue inp)"
  from assms obtain f where f: "f \<in> set (tbl_fingerprint s)" "fp_fingerprint f = er_fingerprint e" "fp_bundle f = Some (er_uuid e)"
    and dist: "distinct (map fp_fingerprint (tbl_fingerprint s))" "distinct (map er_uuid (tbl_evidence s))"
    by (auto simp: evidence_wf_def)
  have "find_row (\<lambda>f. fp_fingerprint f = ein_CertificateFingerprint inp) (tbl_fingerprint s) = Some f"
    using find_row_key [OF dist(1) f(1)] h f(2) by simp
  moreover have "find_row (\<lambda>x. er_uuid x = er_uuid e) (tbl_evidence s) = Some e"
    by (rule find_row_key [OF dist(2) assms(2)])
  ultimately have "identicalEvidenceBundleByFingerprintTx s inp = Inr None"
    using h f(3) by (auto simp: identicalEvidenceBundleByFingerprintTx_def getEvidenceBundleTx_def)
  moreover have "insert_fingerprint (ein_CertificateFingerprint inp) (ein_CertificateTrustDomain inp) s = (Inl ErrUniqueConstraint, s)"
    using f h by (auto simp: insert_fingerprint_def)
  ultimately show "CreateEvidenceBundle conn i inp s = (Inl ErrFingerprintReused, s)"
    using h by (cases conn) (simp_all add: CreateEvidenceBundle_def runInTx_def)
next
  fix b s' x y
  assume h: "CreateEvidenceBundle conn i inp s = (Inr b, s') \<and> x \<in> set (tbl_evidence s') \<and> y \<in> set (tbl_evidence s')
    \<and> er_fingerprint x = er_fingerprint y"
  have wf: "evidence_wf s'" using CreateEvidenceBundle_wf [OF assms(1)] h by blast
  then obtain f g where "f \<in> set (tbl_fingerprint s')" "fp_fingerprint f = er_fingerprint x" "fp_bundle f = Some (er_uuid x)"
    "g \<in> set (tbl_fingerprint s')" "fp_fingerprint g = er_fingerprint y" "fp_bundle g = Some (er_uuid y)"
    using h unfolding evidence_wf_def by metis
  with wf h have "er_uuid x = er_uuid y" by (auto simp: evidence_wf_def distinct_map inj_on_def)
  with wf h show "x = y" by (auto simp: evidence_wf_def distinct_map inj_on_def)
qed

text \<open>
  A bundle is marked complete exactly when it carries at least one timestamp and at least one entry
  of Rekor or Sigsum; it then reads as complete with its evidence unchanged, and otherwise nothing
  changes and the caller is told it is incomplete.
\<close>

theorem MarkEvidenceBundleComplete_iff:
  assumes "getEvidenceBundleTx s u = Inr b"
  shows "MarkEvidenceBundleComplete conn u s =
     (if eb_Timestamps b \<noteq> [] \<and> (\<exists>t \<in> set (eb_Transparency b). tlog_System t = ''rekor'' \<or> tlog_System t = ''sigsum'')
      then (Inr (b\<lparr>eb_Status := ''complete''\<rparr>),
            s\<lparr>tbl_evidence := update_rows (\<lambda>e. er_uuid e = u) (\<lambda>e. e\<lparr>er_status := ''complete''\<rparr>) (tbl_evidence s)\<rparr>)
      else (Inl ErrEvidenceBundleIncomplete, s))"
proof -
  let ?s = "s\<lparr>tbl_evidence := update_rows (\<lambda>e. er_uuid e = u) (\<lambda>e. e\<lparr>er_status := ''complete''\<rparr>) (tbl_evidence s)\<rparr>"
  have "getEvidenceBundleTx ?s u = Inr (b\<lparr>eb_Status := ''complete''\<rparr>)"
    using assms
    by (auto simp: getEvidenceBundleTx_def find_row_update_rows listEvidenceBundleTimestampsTx_def
        listEvidenceBundleTransparencyTx_def split: option.splits dest: find_row_SomeD)
  then show ?thesis using assms
    by (cases conn) (auto simp: MarkEvidenceBundleComplete_def runInTx_def bindR_def readR_def execR_def failR_def list_ex_iff)
qed

section \<open>Concrete submissions\<close>

definition signed :: "string \<Rightarrow> string \<Rightarrow> EvidenceBundleInput" where
  "signed fp sig =
     \<lparr>ein_OwnerType = ''ARTIFACT'', ein_OwnerUUID = ''a1'', ein_OwnerVersion = 1, ein_ObjectType = ''artifact'',
      ein_ObjectMediaType = [], ein_ObjectLocation = [], ein_ObjectDigestValue = ''00'',
      ein_SignatureFormat = ''jws-detached'', ein_SignatureValue = sig, ein_SignatureDigestValue = [],
      ein_CertificateFormat = ''x509-pem'', ein_CertificateValue = fp, ein_CertificateFingerprint = fp,
      ein_CertificateTrustDomain = ''example.org''\<rparr>"

definition signed_db :: db where
  "signed_db = with_evidence ''e1'' (signed ''fp1'' ''s1'') bom_db"

lemma bom_db_unsigned:
  "tbl_evidence bom_db = []" "tbl_fingerprint bom_db = []" "ownerExistsTx bom_db ''ARTIFACT'' ''a1'' 1 = Inr True"
  by code_simp+

lemma signed_created: "\<exists>b. CreateEvidenceBundle Pool ''e1'' (signed ''fp1'' ''s1'') bom_db = (Inr b, signed_db)"
proof -
  have "\<exists>b. getEvidenceBundleTx signed_db ''e1'' = Inr b"
    by (simp add: signed_db_def getEvidenceBundleTx_def bom_db_unsigned evidence_row_of_def)
  then show ?thesis
    by (simp add: CreateEvidenceBundle_Inr bom_db_unsigned signed_db_def [symmetric])
       (simp add: bom_db_unsigned signed_def evidence_checks_def)
qed

theorem evidence_retry_witness:
  "\<exists>b. CreateEvidenceBundle Pool ''e2'' (signed ''fp1'' ''s1'') signed_db = (Inr b, signed_db)"
  using signed_created evidence_retry by blast

lemma signed_db_wf: "evidence_wf signed_db"
  unfolding signed_db_def
  by (rule wf_with_evidence) (simp_all add: bom_db_unsigned evidence_wf_def)

theorem key_signs_once_witness:
  "CreateEvidenceBundle Pool ''e2'' (signed ''fp1'' ''other'') signed_db = (Inl ErrFingerprintReused, signed_db)"
proof -
  have e: "evidence_row_of ''e1'' (signed ''fp1'' ''s1'') \<in> set (tbl_evidence signed_db)" by (simp add: signed_db_def)
  have own: "ownerExistsTx signed_db ''ARTIFACT'' ''a1'' 1 = Inr True" by (simp add: signed_db_def bom_db_unsigned)
  from key_signs_once [OF signed_db_wf e, of "signed ''fp1'' ''other''" Pool "''e2''"] own
  show ?thesis by (simp add: signed_def evidence_row_of_def)
qed

theorem MarkEvidenceBundleComplete_iff_witness:
  "MarkEvidenceBundleComplete Pool ''e1'' signed_db = (Inl ErrEvidenceBundleIncomplete, signed_db)"
proof -
  have "tbl_evidence_timestamp bom_db = []" by code_simp
  then obtain b where b: "getEvidenceBundleTx signed_db ''e1'' = Inr b" and "eb_Timestamps b = []"
    by (simp add: signed_db_def getEvidenceBundleTx_def bom_db_unsigned evidence_row_of_def listEvidenceBundleTimestampsTx_def)
  with MarkEvidenceBundleComplete_iff [OF b, of Pool] show ?thesis by simp
qed

text \<open>
  The comment of \<open>GetEvidenceBundleForOwner\<close> says an owner has at most one bundle. A submission under
  another key is accepted for an owner that has one: both are stored.
\<close>

lemma two_bundles_for_one_owner:
  "let s = snd (CreateEvidenceBundle Pool ''e2'' (signed ''fp2'' ''s2'') signed_db) in
     length (filter (\<lambda>e. er_owner_type e = ''ARTIFACT'' \<and> er_owner e = ''a1'' \<and> er_owner_version e = 1) (tbl_evidence s)) = 2"
  by code_simp

end
