(* ===== verification/Drafts.thy ===== *)
theory Drafts
  imports Evidence
begin

text \<open>
  The publisher's collection drafts (\<open>internal/repo/collectiondraft.go\<close>): a draft is put, approved or
  rejected by somebody else, prepared for signing under a lock with an expiry, and committed as a
  signed collection version, all in one transaction. Every operation takes the instant \<open>now\<close> it runs at.

  The column \<open>created_at\<close> is filled by the schema's default and holds milliseconds; all other times
  are whole seconds.
\<close>

section \<open>Reading a draft\<close>

definition is_draft :: "string \<Rightarrow> uuid \<Rightarrow> draft_row \<Rightarrow> bool" where
  "is_draft ot u d \<longleftrightarrow> d_owner_type d = ot \<and> d_owner d = u"

definition fetchCollectionDraftRowTx :: "db \<Rightarrow> string \<Rightarrow> uuid \<Rightarrow> repo_error + draft_row" where
  "fetchCollectionDraftRowTx s ownerType ownerUUID =
     (case find_row (is_draft ownerType ownerUUID) (tbl_draft s) of None \<Rightarrow> Inl ErrNotFound | Some d \<Rightarrow> Inr d)"

definition listCollectionDraftArtifactsTx :: "db \<Rightarrow> string \<Rightarrow> uuid \<Rightarrow> ArtifactRef list" where
  "listCollectionDraftArtifactsTx s ownerType ownerUUID =
     map (\<lambda>a. \<lparr>aref_UUID = da_artifact a, aref_Version = da_version a\<rparr>)
       (filter (\<lambda>a. da_owner_type a = ownerType \<and> da_owner a = ownerUUID) (tbl_draft_artifact s))"

definition lockHeld :: "time \<Rightarrow> draft_row \<Rightarrow> bool" where
  "lockHeld now row = (case d_lock_expires_at row of None \<Rightarrow> False | Some t \<Rightarrow> parseTime t > now)"

definition requireReleaseOwnerExistsTx :: "db \<Rightarrow> string \<Rightarrow> uuid \<Rightarrow> repo_error + unit" where
  "requireReleaseOwnerExistsTx s ownerType ownerUUID =
     (if ownerType = BelongsToProductRelease
      then (if has_row (\<lambda>r. rl_uuid r = ownerUUID) (tbl_product_release s) then Inr () else Inl ErrNotFound)
      else if ownerType = BelongsToComponentRelease
      then (if has_row (\<lambda>r. rl_uuid r = ownerUUID) (tbl_component_release s) then Inr () else Inl ErrNotFound)
      else Inl (ErrOther ''repo: unknown collection draft owner type''))"

definition requireArtifactsExistTx :: "db \<Rightarrow> ArtifactRef list \<Rightarrow> repo_error + unit" where
  "requireArtifactsExistTx s artifacts =
     (if list_all (\<lambda>a. has_row (is_version (aref_UUID a) (aref_Version a)) (tbl_artifact s)) artifacts
      then Inr () else Inl ErrNotFound)"

text \<open>The Go code ranges over a map for the added uuids; the model lists them in draft order.\<close>

definition getCollectionDraftTx :: "db \<Rightarrow> string \<Rightarrow> uuid \<Rightarrow> repo_error + CollectionDraft" where
  "getCollectionDraftTx s ownerType ownerUUID =
     (case fetchCollectionDraftRowTx s ownerType ownerUUID of
        Inl err \<Rightarrow> Inl err
      | Inr row \<Rightarrow>
          (let refs = listCollectionDraftArtifactsTx s ownerType ownerUUID;
               draftUUIDs = remdups (map aref_UUID refs);
               current = (case latestCollectionVersionTx s ownerUUID ownerType of
                            None \<Rightarrow> Inr []
                          | Some v \<Rightarrow> listCollectionArtifacts s ownerUUID v)
           in case current of
                Inl err \<Rightarrow> Inl err
              | Inr arts \<Rightarrow> Inr
                  \<lparr>draft_OwnerType = ownerType, draft_OwnerUUID = ownerUUID,
                   draft_CreatedAt = Some (d_created_at row * 1000000),
                   draft_ExpiresAt = Some (parseTime (d_expires_at row)),
                   draft_LockExpiresAt = parseNullTime (d_lock_expires_at row),
                   draft_Artifacts = refs,
                   draft_UpdateReason =
                     (case d_reason_type row of
                        None \<Rightarrow> None
                      | Some t \<Rightarrow> Some \<lparr>reason_Type = t, reason_Comment = null_str (d_reason_comment row)\<rparr>),
                   draft_DiffAgainstCurrent = Some
                     \<lparr>diff_Added = filter (\<lambda>x. \<not> List.member (map art_UUID arts) x) draftUUIDs,
                      diff_Removed = filter (\<lambda>x. \<not> List.member draftUUIDs x) (map art_UUID arts)\<rparr>,
                   draft_DraftedBy = d_drafted_by row, draft_Revision = d_revision row,
                   draft_Approval = Some
                     \<lparr>appr_Status = d_approval_status row, appr_DecidedBy = null_str (d_decided_by row),
                      appr_DecidedAt = parseNullTime (d_decided_at row),
                      appr_DecidedAtRevision = (case d_decided_at_revision row of None \<Rightarrow> 0 | Some r \<Rightarrow> r),
                      appr_ExpiresAt = parseNullTime (d_approval_expires_at row),
                      appr_Comment = null_str (d_approval_comment row)\<rparr>\<rparr>))"

section \<open>Editing\<close>

definition credential_known :: "db \<Rightarrow> uuid option \<Rightarrow> bool" where
  "credential_known s c \<longleftrightarrow> (case c of None \<Rightarrow> True | Some x \<Rightarrow> has_row (\<lambda>r. cred_uuid r = x) (tbl_credential s))"

definition upsert_draft :: "draft_row \<Rightarrow> unit repo_op" where
  "upsert_draft new s =
     (if \<not> List.member [BelongsToProductRelease, BelongsToComponentRelease] (d_owner_type new)
      then (Inl ErrCheckConstraint, s)
      else if \<not> credential_known s (d_drafted_by_credential new) then (Inl ErrForeignKeyConstraint, s)
      else if has_row (is_draft (d_owner_type new) (d_owner new)) (tbl_draft s)
      then (Inr (), s\<lparr>tbl_draft := update_rows (is_draft (d_owner_type new) (d_owner new))
              (\<lambda>old. new\<lparr>d_created_at := d_created_at old\<rparr>) (tbl_draft s)\<rparr>)
      else (Inr (), s\<lparr>tbl_draft := tbl_draft s @ [new]\<rparr>))"

definition insert_draft_artifact :: "string \<Rightarrow> uuid \<Rightarrow> ArtifactRef \<Rightarrow> unit repo_op" where
  "insert_draft_artifact ot u a s =
     (if \<not> has_row (is_draft ot u) (tbl_draft s) then (Inl ErrForeignKeyConstraint, s)
      else (Inr (), s\<lparr>tbl_draft_artifact := tbl_draft_artifact s @
              [\<lparr>da_owner_type = ot, da_owner = u, da_artifact = aref_UUID a, da_version = aref_Version a\<rparr>]\<rparr>))"

definition PutCollectionDraft ::
  "repo_conn \<Rightarrow> time \<Rightarrow> string \<Rightarrow> uuid \<Rightarrow> string \<Rightarrow> uuid \<Rightarrow> ArtifactRef list \<Rightarrow> UpdateReason option \<Rightarrow> time \<Rightarrow>
   int option \<Rightarrow> CollectionDraft repo_op" where
  "PutCollectionDraft conn now ownerType ownerUUID actor credential artifacts updateReason ttl expectedRevision =
     runInTx conn (\<lambda>s.
       case requireReleaseOwnerExistsTx s ownerType ownerUUID of Inl err \<Rightarrow> (Inl err, s) | Inr _ \<Rightarrow>
       case requireArtifactsExistTx s artifacts of Inl err \<Rightarrow> (Inl err, s) | Inr _ \<Rightarrow>
       (let existing = fetchCollectionDraftRowTx s ownerType ownerUUID;
            currentRevision = (case existing of Inl _ \<Rightarrow> 0 | Inr row \<Rightarrow> d_revision row);
            revision = (case existing of Inl _ \<Rightarrow> 1 | Inr row \<Rightarrow> d_revision row + 1);
            (reasonType, reasonComment) = reasonColumns updateReason in
        if (case existing of Inl _ \<Rightarrow> False | Inr row \<Rightarrow> lockHeld now row) then (Inl ErrDraftLocked, s)
        else if expectedRevision \<noteq> None \<and> expectedRevision \<noteq> Some currentRevision
        then (Inl ErrDraftRevisionConflict, s)
        else bindR (upsert_draft
                \<lparr>d_owner_type = ownerType, d_owner = ownerUUID, d_revision = revision, d_drafted_by = actor,
                 d_drafted_by_credential = nullIfEmpty credential, d_reason_type = reasonType,
                 d_reason_comment = reasonComment, d_created_at = now div 1000000,
                 d_expires_at = formatTime (now + ttl), d_lock_expires_at = None, d_lock_date = None,
                 d_approval_status = ''none'', d_decided_by = None, d_decided_by_credential = None,
                 d_decided_at = None, d_decided_at_revision = None, d_approval_expires_at = None,
                 d_approval_comment = None\<rparr>) (\<lambda>_.
             bindR (execR (\<lambda>s. s\<lparr>tbl_draft_artifact :=
                      delete_rows (\<lambda>a. da_owner_type a = ownerType \<and> da_owner a = ownerUUID) (tbl_draft_artifact s)\<rparr>)) (\<lambda>_.
             bindR (forR (insert_draft_artifact ownerType ownerUUID) artifacts) (\<lambda>_.
             readR (\<lambda>s. getCollectionDraftTx s ownerType ownerUUID)))) s))"

definition delete_draft :: "string \<Rightarrow> uuid \<Rightarrow> db \<Rightarrow> db" where
  "delete_draft ot u s =
     s\<lparr>tbl_draft := delete_rows (is_draft ot u) (tbl_draft s),
       tbl_draft_artifact := delete_rows (\<lambda>a. da_owner_type a = ot \<and> da_owner a = u) (tbl_draft_artifact s)\<rparr>"

definition DeleteCollectionDraft :: "string \<Rightarrow> uuid \<Rightarrow> unit repo_op" where
  "DeleteCollectionDraft ownerType ownerUUID s =
     (if has_row (is_draft ownerType ownerUUID) (tbl_draft s) then (Inr (), delete_draft ownerType ownerUUID s)
      else (Inl ErrNotFound, s))"

section \<open>Deciding\<close>

definition DecideCollectionDraft ::
  "repo_conn \<Rightarrow> time \<Rightarrow> string \<Rightarrow> uuid \<Rightarrow> string \<Rightarrow> uuid \<Rightarrow> string \<Rightarrow> bool \<Rightarrow> time \<Rightarrow> CollectionDraft repo_op" where
  "DecideCollectionDraft conn now ownerType ownerUUID actor credential comment approve approvalTTL =
     runInTx conn (\<lambda>s.
       case fetchCollectionDraftRowTx s ownerType ownerUUID of Inl err \<Rightarrow> (Inl err, s) | Inr row \<Rightarrow>
       if lockHeld now row then (Inl ErrDraftLocked, s)
       else if actor = d_drafted_by row then (Inl ErrSelfApproval, s)
       else if credential \<noteq> [] \<and> d_drafted_by_credential row \<noteq> None \<and> d_drafted_by_credential row = Some credential
       then (Inl ErrSelfApproval, s)
       else if \<not> credential_known s (nullIfEmpty credential) then (Inl ErrForeignKeyConstraint, s)
       else bindR (execR (\<lambda>s. s\<lparr>tbl_draft := update_rows (is_draft ownerType ownerUUID)
               (\<lambda>d. d\<lparr>d_approval_status := (if approve then ''approved'' else ''rejected''), d_decided_by := Some actor,
                      d_decided_by_credential := nullIfEmpty credential, d_decided_at := Some (formatTime now),
                      d_decided_at_revision := Some (d_revision row),
                      d_approval_expires_at := (if approve then Some (formatTime (now + approvalTTL)) else None),
                      d_approval_comment := nullIfEmpty comment\<rparr>) (tbl_draft s)\<rparr>)) (\<lambda>_.
            readR (\<lambda>s. getCollectionDraftTx s ownerType ownerUUID)) s)"

section \<open>Preparing and committing\<close>

definition buildWouldBeCollectionTx :: "db \<Rightarrow> time \<Rightarrow> string \<Rightarrow> uuid \<Rightarrow> bool \<Rightarrow> repo_error + Collection" where
  "buildWouldBeCollectionTx s now ownerType ownerUUID requireLock =
     (case fetchCollectionDraftRowTx s ownerType ownerUUID of Inl err \<Rightarrow> Inl err | Inr row \<Rightarrow>
      if requireLock \<and> \<not> lockHeld now row then Inl ErrLockNotHeld
      else if d_approval_status row \<noteq> ''approved'' \<or> d_decided_at_revision row \<noteq> Some (d_revision row)
      then Inl ErrApprovalRequired
      else case d_approval_expires_at row of None \<Rightarrow> Inl ErrApprovalRequired | Some t \<Rightarrow>
      if \<not> parseTime t > now then Inl ErrApprovalRequired
      else case mapE (\<lambda>ref. getArtifactByVersionTx s (aref_UUID ref) (aref_Version ref))
                  (listCollectionDraftArtifactsTx s ownerType ownerUUID) of
        Inl err \<Rightarrow> Inl err
      | Inr artifacts \<Rightarrow>
          (let nextVersion = next_number (map c_version (filter (\<lambda>c. c_uuid c = ownerUUID) (tbl_collection s)));
               updateReason = (case d_reason_type row of
                                 None \<Rightarrow> None
                               | Some t \<Rightarrow> Some \<lparr>reason_Type = t, reason_Comment = null_str (d_reason_comment row)\<rparr>);
               date = (if requireLock
                       then (case d_lock_date row of
                               None \<Rightarrow> Inl (ErrOther ''repo: collection draft lock held without a recorded lock date'')
                             | Some d \<Rightarrow> Inr (parseTime d))
                       else Inr (parseTime (formatTime now)))
           in case date of
                Inl err \<Rightarrow> Inl err
              | Inr d \<Rightarrow> Inr
                  \<lparr>coll_UUID = ownerUUID, coll_Version = nextVersion, coll_CreatedDate = d,
                   coll_BelongsTo = ownerType, coll_UpdateReason = updateReason, coll_Artifacts = artifacts,
                   coll_EvidenceBundle = None, coll_EvidenceBundleRef = None\<rparr>))"

definition PrepareCollectionCommit :: "repo_conn \<Rightarrow> time \<Rightarrow> string \<Rightarrow> uuid \<Rightarrow> time \<Rightarrow> Collection repo_op" where
  "PrepareCollectionCommit conn now ownerType ownerUUID lockTTL =
     runInTx conn
       (bindR (readR (\<lambda>s. buildWouldBeCollectionTx s now ownerType ownerUUID False)) (\<lambda>wouldBe.
        bindR (execR (\<lambda>s. s\<lparr>tbl_draft := update_rows (is_draft ownerType ownerUUID)
                 (\<lambda>d. d\<lparr>d_lock_expires_at := Some (formatTime (now + lockTTL)),
                        d_lock_date := Some (formatTime (coll_CreatedDate wouldBe))\<rparr>) (tbl_draft s)\<rparr>)) (\<lambda>_.
        returnR wouldBe)))"

definition PeekCollectionDraftCommit :: "db \<Rightarrow> time \<Rightarrow> string \<Rightarrow> uuid \<Rightarrow> repo_error + Collection" where
  "PeekCollectionDraftCommit s now ownerType ownerUUID = buildWouldBeCollectionTx s now ownerType ownerUUID True"

definition CancelPrepareCollectionCommit :: "time \<Rightarrow> string \<Rightarrow> uuid \<Rightarrow> unit repo_op" where
  "CancelPrepareCollectionCommit now ownerType ownerUUID s =
     (case fetchCollectionDraftRowTx s ownerType ownerUUID of Inl err \<Rightarrow> (Inl err, s) | Inr row \<Rightarrow>
      if \<not> lockHeld now row then (Inl ErrLockNotHeld, s)
      else (Inr (), s\<lparr>tbl_draft := update_rows (is_draft ownerType ownerUUID)
              (\<lambda>d. d\<lparr>d_lock_expires_at := None, d_lock_date := None\<rparr>) (tbl_draft s)\<rparr>))"

record CommitEvidenceInput =
  cei_ObjectMediaType :: string
  cei_ObjectLocation :: string
  cei_ObjectDigestValue :: string
  cei_SignatureFormat :: string
  cei_SignatureValue :: string
  cei_CertificateFormat :: string
  cei_CertificateValue :: string
  cei_CertificateFingerprint :: string
  cei_CertificateTrustDomain :: string

definition collection_evidence :: "uuid \<Rightarrow> int \<Rightarrow> CommitEvidenceInput \<Rightarrow> EvidenceBundleInput" where
  "collection_evidence ownerUUID version ev =
     \<lparr>ein_OwnerType = ''COLLECTION'', ein_OwnerUUID = ownerUUID, ein_OwnerVersion = version,
      ein_ObjectType = ''tea-collection'', ein_ObjectMediaType = cei_ObjectMediaType ev,
      ein_ObjectLocation = cei_ObjectLocation ev, ein_ObjectDigestValue = cei_ObjectDigestValue ev,
      ein_SignatureFormat = cei_SignatureFormat ev, ein_SignatureValue = cei_SignatureValue ev,
      ein_SignatureDigestValue = [], ein_CertificateFormat = cei_CertificateFormat ev,
      ein_CertificateValue = cei_CertificateValue ev, ein_CertificateFingerprint = cei_CertificateFingerprint ev,
      ein_CertificateTrustDomain = cei_CertificateTrustDomain ev\<rparr>"

definition CommitCollectionDraft ::
  "repo_conn \<Rightarrow> time \<Rightarrow> uuid \<Rightarrow> string \<Rightarrow> uuid \<Rightarrow> CommitEvidenceInput \<Rightarrow> Collection repo_op" where
  "CommitCollectionDraft conn now newid ownerType ownerUUID ev =
     WithTx conn (\<lambda>tx.
       bindR (readR (\<lambda>s. buildWouldBeCollectionTx s now ownerType ownerUUID True)) (\<lambda>wouldBe.
       let inp = \<lparr>cin_UpdateReason = coll_UpdateReason wouldBe,
                  cin_Artifacts = map (\<lambda>a. \<lparr>aref_UUID = art_UUID a, aref_Version = art_Version a\<rparr>) (coll_Artifacts wouldBe),
                  cin_CreatedDate = Some (coll_CreatedDate wouldBe)\<rparr>
       in bindR (if ownerType = BelongsToProductRelease then CreateCollectionForProductRelease tx now ownerUUID inp
                 else if ownerType = BelongsToComponentRelease
                 then CreateCollectionForComponentRelease tx now ownerUUID inp
                 else failR (ErrOther ''repo: unknown collection draft owner type'')) (\<lambda>collection.
          if coll_Version collection \<noteq> coll_Version wouldBe
          then failR (ErrOther ''repo: collection draft commit race'')
          else if coll_CreatedDate collection \<noteq> coll_CreatedDate wouldBe
          then failR (ErrOther ''repo: collection draft commit date mismatch'')
          else bindR (CreateEvidenceBundle tx newid (collection_evidence ownerUUID (coll_Version collection) ev)) (\<lambda>_.
               bindR (execR (delete_draft ownerType ownerUUID)) (\<lambda>_.
               returnR collection)))))"

section \<open>What a successful operation does to the drafts\<close>

lemma ArtifactRef_eta [simp]: "\<lparr>aref_UUID = aref_UUID x, aref_Version = aref_Version x\<rparr> = (x :: ArtifactRef)"
  by simp

lemma forR_draft_artifacts:
  assumes "forR (insert_draft_artifact ot u) xs s = (Inr (), s')"
  shows "s' = s\<lparr>tbl_draft_artifact := tbl_draft_artifact s @
     map (\<lambda>a. \<lparr>da_owner_type = ot, da_owner = u, da_artifact = aref_UUID a, da_version = aref_Version a\<rparr>) xs\<rparr>"
proof -
  have "s' = (\<lambda>g s. s\<lparr>tbl_draft_artifact := g (tbl_draft_artifact s)\<rparr>) (\<lambda>rows. rows @
     map (\<lambda>a. \<lparr>da_owner_type = ot, da_owner = u, da_artifact = aref_UUID a, da_version = aref_Version a\<rparr>) xs) s"
    by (rule forR_appends [OF assms]) (auto simp: insert_draft_artifact_def split: if_splits)
  then show ?thesis by simp
qed

definition new_draft :: "time \<Rightarrow> string \<Rightarrow> uuid \<Rightarrow> int \<Rightarrow> string \<Rightarrow> uuid \<Rightarrow> UpdateReason option \<Rightarrow> time \<Rightarrow> draft_row" where
  "new_draft now ot u revision actor cred reason ttl =
     \<lparr>d_owner_type = ot, d_owner = u, d_revision = revision, d_drafted_by = actor,
      d_drafted_by_credential = nullIfEmpty cred, d_reason_type = fst (reasonColumns reason),
      d_reason_comment = snd (reasonColumns reason), d_created_at = now div 1000000,
      d_expires_at = formatTime (now + ttl), d_lock_expires_at = None, d_lock_date = None,
      d_approval_status = ''none'', d_decided_by = None, d_decided_by_credential = None,
      d_decided_at = None, d_decided_at_revision = None, d_approval_expires_at = None,
      d_approval_comment = None\<rparr>"

lemma is_draft_new [simp]: "is_draft ot u (new_draft now ot u r a c rs ttl)"
  "is_draft ot u (d\<lparr>d_created_at := x\<rparr>) = is_draft ot u d"
  "is_draft ot u (d\<lparr>d_lock_expires_at := l, d_lock_date := y\<rparr>) = is_draft ot u d"
  "is_draft ot u (d\<lparr>d_approval_status := st, d_decided_by := b, d_decided_by_credential := bc, d_decided_at := da,
     d_decided_at_revision := dr, d_approval_expires_at := ae, d_approval_comment := ac\<rparr>) = is_draft ot u d"
  by (simp_all add: is_draft_def new_draft_def)

lemma PutCollectionDraft_Inr:
  assumes "PutCollectionDraft conn now ot u actor cred arts reason ttl exp s = (Inr x, s')"
  obtains (created) "find_row (is_draft ot u) (tbl_draft s) = None" "exp = None \<or> exp = Some 0"
      "tbl_draft s' = tbl_draft s @ [new_draft now ot u 1 actor cred reason ttl]"
      "listCollectionDraftArtifactsTx s' ot u = arts" "getCollectionDraftTx s' ot u = Inr x"
  | (replaced) old where "find_row (is_draft ot u) (tbl_draft s) = Some old" "\<not> lockHeld now old"
      "exp = None \<or> exp = Some (d_revision old)"
      "tbl_draft s' = update_rows (is_draft ot u)
         (\<lambda>o'. (new_draft now ot u (d_revision old + 1) actor cred reason ttl)\<lparr>d_created_at := d_created_at o'\<rparr>) (tbl_draft s)"
      "listCollectionDraftArtifactsTx s' ot u = arts" "getCollectionDraftTx s' ot u = Inr x"
proof -
  let ?ex = "fetchCollectionDraftRowTx s ot u"
  let ?cur = "case ?ex of Inl _ \<Rightarrow> 0 | Inr row \<Rightarrow> d_revision row"
  let ?new = "new_draft now ot u (case ?ex of Inl _ \<Rightarrow> 1 | Inr row \<Rightarrow> d_revision row + 1) actor cred reason ttl"
  from assms obtain s1 where
    nolock: "\<not> (case ?ex of Inl _ \<Rightarrow> False | Inr row \<Rightarrow> lockHeld now row)" and rev: "exp = None \<or> exp = Some ?cur"
    and up: "upsert_draft ?new s = (Inr (), s1)"
    and ins: "forR (insert_draft_artifact ot u) arts (s1\<lparr>tbl_draft_artifact :=
         delete_rows (\<lambda>a. da_owner_type a = ot \<and> da_owner a = u) (tbl_draft_artifact s1)\<rparr>) = (Inr (), s')"
    and get: "getCollectionDraftTx s' ot u = Inr x"
    unfolding PutCollectionDraft_def
    by (auto simp: Let_def new_draft_def split: sum.splits prod.splits if_splits)
  note s' = forR_draft_artifacts [OF ins]
  have dr: "tbl_draft s' = tbl_draft s1" by (simp add: s')
  have arts: "listCollectionDraftArtifactsTx s' ot u = arts"
    unfolding s' listCollectionDraftArtifactsTx_def by (simp add: filter_map comp_def filter_delete_rows)
  have own: "d_owner_type ?new = ot" "d_owner ?new = u" by (simp_all add: new_draft_def)
  show thesis
  proof (cases "find_row (is_draft ot u) (tbl_draft s)")
    case None
    then have "\<not> (\<exists>d \<in> set (tbl_draft s). is_draft ot u d)" by (simp add: find_row_None)
    with up own have "tbl_draft s1 = tbl_draft s @ [?new]" by (auto simp: upsert_draft_def split: if_splits)
    with None rev arts get dr show thesis by (intro created) (auto simp: fetchCollectionDraftRowTx_def)
  next
    case (Some old)
    then have "\<exists>d \<in> set (tbl_draft s). is_draft ot u d" by (auto dest: find_row_SomeD)
    with up own have "tbl_draft s1 = update_rows (is_draft ot u) (\<lambda>o'. ?new\<lparr>d_created_at := d_created_at o'\<rparr>) (tbl_draft s)"
      by (auto simp: upsert_draft_def split: if_splits)
    with Some nolock rev arts get dr show thesis by (intro replaced) (auto simp: fetchCollectionDraftRowTx_def)
  qed
qed

definition decided :: "time \<Rightarrow> string \<Rightarrow> uuid \<Rightarrow> string \<Rightarrow> bool \<Rightarrow> time \<Rightarrow> int \<Rightarrow> draft_row \<Rightarrow> draft_row" where
  "decided now actor cred comment approve ttl revision d =
     d\<lparr>d_approval_status := (if approve then ''approved'' else ''rejected''), d_decided_by := Some actor,
       d_decided_by_credential := nullIfEmpty cred, d_decided_at := Some (formatTime now),
       d_decided_at_revision := Some revision,
       d_approval_expires_at := (if approve then Some (formatTime (now + ttl)) else None),
       d_approval_comment := nullIfEmpty comment\<rparr>"

lemma DecideCollectionDraft_Inr:
  assumes "DecideCollectionDraft conn now ot u actor cred comment approve ttl s = (Inr x, s')"
  obtains row where "find_row (is_draft ot u) (tbl_draft s) = Some row" "\<not> lockHeld now row"
    "actor \<noteq> d_drafted_by row" "cred = [] \<or> d_drafted_by_credential row \<noteq> Some cred"
    "s' = s\<lparr>tbl_draft := update_rows (is_draft ot u) (decided now actor cred comment approve ttl (d_revision row)) (tbl_draft s)\<rparr>"
  using assms unfolding DecideCollectionDraft_def fetchCollectionDraftRowTx_def decided_def [abs_def]
  by (auto split: option.splits if_splits)

lemma PrepareCollectionCommit_Inr:
  "PrepareCollectionCommit conn now ot u ttl s = (Inr c, s') \<longleftrightarrow>
     buildWouldBeCollectionTx s now ot u False = Inr c
     \<and> s' = s\<lparr>tbl_draft := update_rows (is_draft ot u) (\<lambda>d. d\<lparr>d_lock_expires_at := Some (formatTime (now + ttl)),
               d_lock_date := Some (formatTime (coll_CreatedDate c))\<rparr>) (tbl_draft s)\<rparr>"
  by (auto simp: PrepareCollectionCommit_def)

text \<open>What the approval gate checks, as a condition on the draft's row.\<close>

definition approved_at :: "time \<Rightarrow> draft_row \<Rightarrow> bool" where
  "approved_at now row \<longleftrightarrow>
     d_approval_status row = ''approved'' \<and> d_decided_at_revision row = Some (d_revision row)
     \<and> (\<exists>t. d_approval_expires_at row = Some t \<and> parseTime t > now)"

definition row_reason :: "draft_row \<Rightarrow> UpdateReason option" where
  "row_reason row = (case d_reason_type row of None \<Rightarrow> None
     | Some t \<Rightarrow> Some \<lparr>reason_Type = t, reason_Comment = null_str (d_reason_comment row)\<rparr>)"

lemma buildWouldBe_Inr:
  "buildWouldBeCollectionTx s now ot u lock = Inr c \<longleftrightarrow>
     (\<exists>row arts d. find_row (is_draft ot u) (tbl_draft s) = Some row \<and> (lock \<longrightarrow> lockHeld now row) \<and> approved_at now row
        \<and> mapE (\<lambda>ref. getArtifactByVersionTx s (aref_UUID ref) (aref_Version ref)) (listCollectionDraftArtifactsTx s ot u) = Inr arts
        \<and> (if lock then d_lock_date row = Some (formatTime d) \<and> d = parseTime (formatTime d) else d = parseTime (formatTime now))
        \<and> c = \<lparr>coll_UUID = u, coll_Version = next_version u s, coll_CreatedDate = d, coll_BelongsTo = ot,
               coll_UpdateReason = row_reason row, coll_Artifacts = arts, coll_EvidenceBundle = None, coll_EvidenceBundleRef = None\<rparr>)"
proof (cases "find_row (is_draft ot u) (tbl_draft s)")
  case None
  then show ?thesis by (simp add: buildWouldBeCollectionTx_def fetchCollectionDraftRowTx_def)
next
  case (Some row)
  have date: "(d_lock_date row = Some (formatTime d) \<and> d = parseTime (formatTime d)) \<longleftrightarrow>
      (\<exists>t. d_lock_date row = Some t \<and> d = parseTime t)" for d
    by auto
  show ?thesis
    unfolding date using Some
    by (auto simp: buildWouldBeCollectionTx_def fetchCollectionDraftRowTx_def approved_at_def row_reason_def
        next_version_def collection_versions_def Let_def split: sum.splits option.splits if_splits)
qed

lemma CommitCollectionDraft_Inr:
  assumes "CommitCollectionDraft conn now newid ot u ev s = (Inr c, s')"
  obtains wb b s1 s2 where "buildWouldBeCollectionTx s now ot u True = Inr wb"
    "ot = BelongsToProductRelease \<or> ot = BelongsToComponentRelease"
    "createCollection InTx now u ot
       \<lparr>cin_UpdateReason = coll_UpdateReason wb,
        cin_Artifacts = map (\<lambda>a. \<lparr>aref_UUID = art_UUID a, aref_Version = art_Version a\<rparr>) (coll_Artifacts wb),
        cin_CreatedDate = Some (coll_CreatedDate wb)\<rparr> s = (Inr c, s1)"
    "coll_Version c = coll_Version wb" "coll_CreatedDate c = coll_CreatedDate wb"
    "CreateEvidenceBundle InTx newid (collection_evidence u (coll_Version c) ev) s1 = (Inr b, s2)"
    "s' = delete_draft ot u s2"
  using assms unfolding CommitCollectionDraft_def
  by (auto simp: Let_def CreateCollectionForProductRelease_def CreateCollectionForComponentRelease_def
      split: if_splits)

section \<open>The four-eyes invariant\<close>

text \<open>
  An approval on record was given to exactly this revision, by another actor and not by the credential
  that drafted it; a lock is held only on an approved draft.
\<close>

definition four_eyes :: "draft_row \<Rightarrow> bool" where
  "four_eyes d \<longleftrightarrow>
     d_decided_at_revision d = Some (d_revision d)
     \<and> (\<exists>a. d_decided_by d = Some a \<and> a \<noteq> d_drafted_by d)
     \<and> (\<forall>c. d_decided_by_credential d = Some c \<longrightarrow> d_drafted_by_credential d \<noteq> Some c)"

definition draft_ok :: "time \<Rightarrow> draft_row \<Rightarrow> bool" where
  "draft_ok now d \<longleftrightarrow>
     (d_approval_status d \<noteq> ''none'' \<longrightarrow> four_eyes d)
     \<and> (lockHeld now d \<longrightarrow> d_approval_status d = ''approved'')
     \<and> (d_lock_expires_at d = None \<longleftrightarrow> d_lock_date d = None)"

definition drafts_ok :: "time \<Rightarrow> db \<Rightarrow> bool" where
  "drafts_ok now s \<longleftrightarrow>
     distinct (map (\<lambda>d. (d_owner_type d, d_owner d)) (tbl_draft s)) \<and> (\<forall>d \<in> set (tbl_draft s). draft_ok now d)"

text \<open>
  The states the draft workflow can be in at an instant: time passes, each operation runs at its
  instant, and everything else the server does leaves the drafts alone.
\<close>

inductive draft_reach :: "time \<Rightarrow> db \<Rightarrow> bool" where
  no_drafts: "tbl_draft s = [] \<Longrightarrow> draft_reach now s"
| time_passes: "draft_reach now s \<Longrightarrow> now \<le> later \<Longrightarrow> draft_reach later s"
| elsewhere: "draft_reach now s \<Longrightarrow> tbl_draft s' = tbl_draft s \<Longrightarrow> draft_reach now s'"
| put: "draft_reach now s \<Longrightarrow> draft_reach now (snd (PutCollectionDraft Pool now ot u actor cred arts reason ttl exp s))"
| decide: "draft_reach now s \<Longrightarrow> draft_reach now (snd (DecideCollectionDraft Pool now ot u actor cred comment approve ttl s))"
| delete: "draft_reach now s \<Longrightarrow> draft_reach now (snd (DeleteCollectionDraft ot u s))"
| prepare: "draft_reach now s \<Longrightarrow> draft_reach now (snd (PrepareCollectionCommit Pool now ot u ttl s))"
| cancel: "draft_reach now s \<Longrightarrow> draft_reach now (snd (CancelPrepareCollectionCommit now ot u s))"
| commit: "draft_reach now s \<Longrightarrow> draft_reach now (snd (CommitCollectionDraft Pool now newid ot u ev s))"

lemma draft_ok_later: "draft_ok now d \<Longrightarrow> now \<le> later \<Longrightarrow> draft_ok later d"
  by (auto simp: draft_ok_def lockHeld_def split: option.splits)

lemma drafts_ok_update:
  assumes "drafts_ok now s" and "\<And>d. is_draft ot u d \<Longrightarrow> is_draft ot u (f d)"
    and "\<And>d. d \<in> set (tbl_draft s) \<Longrightarrow> is_draft ot u d \<Longrightarrow> draft_ok now (f d)"
    and "tbl_draft s' = update_rows (is_draft ot u) f (tbl_draft s)"
  shows "drafts_ok now s'"
proof -
  have "map (\<lambda>d. (d_owner_type d, d_owner d)) (update_rows (is_draft ot u) f rows) =
      map (\<lambda>d. (d_owner_type d, d_owner d)) rows" for rows
    using assms(2) by (induction rows) (auto simp: is_draft_def)
  with assms show ?thesis by (auto simp: drafts_ok_def set_update_rows)
qed

lemma unique_draft:
  assumes "drafts_ok now s" and "find_row (is_draft ot u) (tbl_draft s) = Some row"
    and "d \<in> set (tbl_draft s)" and "is_draft ot u d"
  shows "d = row"
  using assms find_row_SomeD [OF assms(2)] by (auto simp: drafts_ok_def distinct_map inj_on_def is_draft_def)

lemma draft_ok_new: "draft_ok now (new_draft t ot u r a c rs ttl)"
  "draft_ok now ((new_draft t ot u r a c rs ttl)\<lparr>d_created_at := x\<rparr>)"
  by (simp_all add: draft_ok_def new_draft_def lockHeld_def)

lemma Put_ok:
  assumes "drafts_ok now s" and "PutCollectionDraft conn now ot u actor cred arts reason ttl exp s = (Inr x, s')"
  shows "drafts_ok now s'"
  using assms(2)
proof (cases rule: PutCollectionDraft_Inr)
  case created
  have "(ot, u) \<notin> (\<lambda>d. (d_owner_type d, d_owner d)) ` set (tbl_draft s)"
    using created(1) by (auto simp: find_row_None is_draft_def)
  moreover have "(d_owner_type (new_draft now ot u 1 actor cred reason ttl), d_owner (new_draft now ot u 1 actor cred reason ttl)) = (ot, u)"
    by (simp add: new_draft_def)
  ultimately show ?thesis using assms(1) created(3) by (auto simp: drafts_ok_def draft_ok_new)
next
  case (replaced old)
  show ?thesis by (rule drafts_ok_update [OF assms(1) _ _ replaced(4)]) (simp_all add: draft_ok_new)
qed

lemma Decide_ok:
  assumes "drafts_ok now s" and "DecideCollectionDraft conn now ot u actor cred comment approve ttl s = (Inr x, s')"
  shows "drafts_ok now s'"
proof -
  from assms(2) obtain row where row: "find_row (is_draft ot u) (tbl_draft s) = Some row" "\<not> lockHeld now row"
    "actor \<noteq> d_drafted_by row" "cred = [] \<or> d_drafted_by_credential row \<noteq> Some cred"
    and s': "s' = s\<lparr>tbl_draft := update_rows (is_draft ot u) (decided now actor cred comment approve ttl (d_revision row)) (tbl_draft s)\<rparr>"
    by (rule DecideCollectionDraft_Inr)
  have "draft_ok now row" using assms(1) find_row_SomeD [OF row(1)] by (simp add: drafts_ok_def)
  with row have "draft_ok now (decided now actor cred comment approve ttl (d_revision row) row)"
    by (auto simp: draft_ok_def decided_def four_eyes_def lockHeld_def)
  then show ?thesis
    using unique_draft [OF assms(1) row(1)] s'
    by (intro drafts_ok_update [OF assms(1), of ot u "decided now actor cred comment approve ttl (d_revision row)"])
       (auto simp: decided_def)
qed

lemma Prepare_ok:
  assumes "drafts_ok now s" and "PrepareCollectionCommit conn now ot u ttl s = (Inr c, s')"
  shows "drafts_ok now s'"
proof -
  let ?f = "\<lambda>d. d\<lparr>d_lock_expires_at := Some (formatTime (now + ttl)), d_lock_date := Some (formatTime (coll_CreatedDate c))\<rparr>"
  from assms(2) have b: "buildWouldBeCollectionTx s now ot u False = Inr c"
    and s': "s' = s\<lparr>tbl_draft := update_rows (is_draft ot u) ?f (tbl_draft s)\<rparr>" by (simp_all add: PrepareCollectionCommit_Inr)
  from b obtain row where row: "find_row (is_draft ot u) (tbl_draft s) = Some row" "approved_at now row"
    unfolding buildWouldBe_Inr by blast
  have "draft_ok now (?f row)"
    using assms(1) find_row_SomeD [OF row(1)] row(2)
    by (auto simp: drafts_ok_def draft_ok_def approved_at_def four_eyes_def)
  then show ?thesis
    using unique_draft [OF assms(1) row(1)] s' by (intro drafts_ok_update [OF assms(1), of ot u ?f]) auto
qed

lemma drafts_ok_delete:
  assumes "drafts_ok now s" and "tbl_draft s' = delete_rows P (tbl_draft s)"
  shows "drafts_ok now s'"
  using assms by (simp add: drafts_ok_def)

lemma Cancel_ok:
  assumes "drafts_ok now s"
  shows "drafts_ok now (snd (CancelPrepareCollectionCommit now ot u s))"
proof (cases "\<exists>row. fetchCollectionDraftRowTx s ot u = Inr row \<and> lockHeld now row")
  case True
  then have "tbl_draft (snd (CancelPrepareCollectionCommit now ot u s)) =
      update_rows (is_draft ot u) (\<lambda>d. d\<lparr>d_lock_expires_at := None, d_lock_date := None\<rparr>) (tbl_draft s)"
    by (auto simp: CancelPrepareCollectionCommit_def)
  moreover have "draft_ok now (d\<lparr>d_lock_expires_at := None, d_lock_date := None\<rparr>)" if "draft_ok now d" for d
    using that by (simp add: draft_ok_def four_eyes_def lockHeld_def)
  ultimately show ?thesis
    using assms by (intro drafts_ok_update [OF assms]) (auto simp: drafts_ok_def)
next
  case False
  with assms show ?thesis by (auto simp: CancelPrepareCollectionCommit_def split: sum.splits)
qed

lemma CreateEvidence_drafts: "CreateEvidenceBundle conn i inp s = (Inr b, s') \<Longrightarrow>
   tbl_draft s' = tbl_draft s \<and> tbl_draft_artifact s' = tbl_draft_artifact s"
  by (auto simp: CreateEvidenceBundle_Inr split: if_splits)

lemma Commit_drafts:
  assumes "CommitCollectionDraft conn now newid ot u ev s = (Inr c, s')"
  shows "tbl_draft s' = delete_rows (is_draft ot u) (tbl_draft s)"
  using assms
  by (rule CommitCollectionDraft_Inr)
     (auto simp: createCollection_Inr delete_draft_def dest!: CreateEvidence_drafts)

text \<open>The operations that write in several statements are atomic at the pool.\<close>

interpretation put_op: atomic_op "PutCollectionDraft Pool now ot u actor cred arts reason ttl expected"
  for now ot u actor cred arts reason ttl expected
  by (unfold PutCollectionDraft_def) (rule tx.atomic_op_axioms)

interpretation decide_op: atomic_op "DecideCollectionDraft Pool now ot u actor cred comment approve ttl"
  for now ot u actor cred comment approve ttl
  by (unfold DecideCollectionDraft_def) (rule tx.atomic_op_axioms)

interpretation prepare_op: atomic_op "PrepareCollectionCommit Pool now ot u ttl" for now ot u ttl
  by (unfold PrepareCollectionCommit_def) (rule tx.atomic_op_axioms)

interpretation commit_op: atomic_op "CommitCollectionDraft Pool now newid ot u ev" for now newid ot u ev
  by (unfold CommitCollectionDraft_def) (rule with_tx.atomic_op_axioms)

lemma drafts_reach_ok: "draft_reach now s \<Longrightarrow> drafts_ok now s"
proof (induction rule: draft_reach.induct)
  case (no_drafts s now)
  then show ?case by (simp add: drafts_ok_def)
next
  case (time_passes now s later)
  then show ?case by (auto simp: drafts_ok_def intro: draft_ok_later)
next
  case (elsewhere now s s')
  then show ?case by (simp add: drafts_ok_def)
next
  case (put now s ot u actor cred arts reason ttl exp)
  show ?case
    by (rule put_op.invariant_from_success [where I = "drafts_ok now"], rule Put_ok) (fact put.IH | assumption)+
next
  case (decide now s ot u actor cred comment approve ttl)
  show ?case
    by (rule decide_op.invariant_from_success [where I = "drafts_ok now"], rule Decide_ok) (fact decide.IH | assumption)+
next
  case (delete now s ot u)
  then show ?case
    by (auto simp: DeleteCollectionDraft_def delete_draft_def intro: drafts_ok_delete)
next
  case (prepare now s ot u ttl)
  show ?case
    by (rule prepare_op.invariant_from_success [where I = "drafts_ok now"], rule Prepare_ok) (fact prepare.IH | assumption)+
next
  case (cancel now s ot u)
  then show ?case by (intro Cancel_ok)
next
  case (commit now s newid ot u ev)
  show ?case
    by (rule commit_op.invariant_from_success [where I = "drafts_ok now"], rule drafts_ok_delete [OF _ Commit_drafts])
       (fact commit.IH | assumption)+
qed

section \<open>The committed collection is the prepared one\<close>

lemma mapE_map: "mapE f (map g xs) = mapE (\<lambda>x. f (g x)) xs"
  by (induction xs) (auto split: sum.splits)

lemma mapE_refs:
  assumes "mapE (\<lambda>ref. getArtifactByVersionTx s (aref_UUID ref) (aref_Version ref)) refs = Inr arts"
  shows "map (\<lambda>a. \<lparr>aref_UUID = art_UUID a, aref_Version = art_Version a\<rparr>) arts = refs"
  using assms
proof (induction refs arbitrary: arts)
  case Nil
  then show ?case by simp
next
  case (Cons r refs)
  then obtain a rest where a: "getArtifactByVersionTx s (aref_UUID r) (aref_Version r) = Inr a"
    and "mapE (\<lambda>ref. getArtifactByVersionTx s (aref_UUID ref) (aref_Version ref)) refs = Inr rest" "arts = a # rest"
    by (auto split: sum.splits)
  with Cons.IH getArtifact_identity [OF a] show ?case by (cases r) auto
qed

definition commit_input :: "Collection \<Rightarrow> CollectionInput" where
  "commit_input wb = \<lparr>cin_UpdateReason = coll_UpdateReason wb,
     cin_Artifacts = map (\<lambda>a. \<lparr>aref_UUID = art_UUID a, aref_Version = art_Version a\<rparr>) (coll_Artifacts wb),
     cin_CreatedDate = Some (coll_CreatedDate wb)\<rparr>"

lemma wouldBe_created:
  assumes "collection_wf s" and "buildWouldBeCollectionTx s now ot u lock = Inr wb"
    and ok: "insertable u (next_version u s) ot (coll_UpdateReason wb) (cin_Artifacts (commit_input wb)) s"
  shows "getCollectionByVersionTx (with_collection u (next_version u s) (coll_CreatedDate wb) ot (coll_UpdateReason wb)
           (cin_Artifacts (commit_input wb)) s) u (next_version u s) ot = Inr wb"
proof -
  from assms(2) obtain row arts d where
    arts: "mapE (\<lambda>ref. getArtifactByVersionTx s (aref_UUID ref) (aref_Version ref)) (listCollectionDraftArtifactsTx s ot u) = Inr arts"
    and d: "d = parseTime (formatTime d)"
    and wb: "wb = \<lparr>coll_UUID = u, coll_Version = next_version u s, coll_CreatedDate = d, coll_BelongsTo = ot,
               coll_UpdateReason = row_reason row, coll_Artifacts = arts, coll_EvidenceBundle = None, coll_EvidenceBundleRef = None\<rparr>"
    unfolding buildWouldBe_Inr by (auto split: if_splits)
  let ?refs = "cin_Artifacts (commit_input wb)"
  have refs: "?refs = listCollectionDraftArtifactsTx s ot u" using mapE_refs [OF arts] by (simp add: commit_input_def wb)
  obtain arts' where scan:
    "scanCollection (with_collection u (next_version u s) (coll_CreatedDate wb) ot (coll_UpdateReason wb) ?refs s)
        (collection_row_of u (next_version u s) (coll_CreatedDate wb) ot (coll_UpdateReason wb)) =
       Inr \<lparr>coll_UUID = u, coll_Version = next_version u s, coll_CreatedDate = parseTime (formatTime (coll_CreatedDate wb)),
            coll_BelongsTo = ot, coll_UpdateReason = coll_UpdateReason wb, coll_Artifacts = arts',
            coll_EvidenceBundle = None, coll_EvidenceBundleRef = None\<rparr>"
    and m: "mapE (\<lambda>(a, w). getArtifactByVersionTx s a w) (map (\<lambda>a. (aref_UUID a, aref_Version a)) ?refs) = Inr arts'"
    using scan_new [OF assms(1) ok] by blast
  from m arts have "arts' = arts" unfolding refs by (simp add: mapE_map)
  with scan d show ?thesis unfolding getCollection_new(1) [OF next_version_fresh] by (simp add: wb)
qed

lemma commit_steps:
  assumes "collection_wf s" and "CommitCollectionDraft conn now newid ot u ev s = (Inr c, s')"
  obtains b s1 s2 where "buildWouldBeCollectionTx s now ot u True = Inr c"
    "insertable u (next_version u s) ot (coll_UpdateReason c) (cin_Artifacts (commit_input c)) s"
    "s1 = with_collection u (next_version u s) (coll_CreatedDate c) ot (coll_UpdateReason c) (cin_Artifacts (commit_input c)) s"
    "CreateEvidenceBundle InTx newid (collection_evidence u (coll_Version c) ev) s1 = (Inr b, s2)"
    "s' = delete_draft ot u s2"
proof -
  from assms(2) obtain wb b s1 s2 where b: "buildWouldBeCollectionTx s now ot u True = Inr wb"
    and c: "createCollection InTx now u ot (commit_input wb) s = (Inr c, s1)"
    and e: "CreateEvidenceBundle InTx newid (collection_evidence u (coll_Version c) ev) s1 = (Inr b, s2)"
    and s': "s' = delete_draft ot u s2"
    unfolding commit_input_def by (rule CommitCollectionDraft_Inr)
  from c have ok: "insertable u (next_version u s) ot (coll_UpdateReason wb) (cin_Artifacts (commit_input wb)) s"
    and s1: "s1 = with_collection u (next_version u s) (coll_CreatedDate wb) ot (coll_UpdateReason wb) (cin_Artifacts (commit_input wb)) s"
    and get: "getCollectionByVersionTx s1 u (next_version u s) ot = Inr c"
    unfolding createCollection_Inr commit_input_def CollectionInput.simps option.case by blast+
  from get wouldBe_created [OF assms(1) b ok] have "c = wb" unfolding s1 by simp
  with b ok s1 e s' show thesis by (intro that) auto
qed

lemma evidence_keeps_collections:
  assumes "CreateEvidenceBundle conn i inp s = (Inr b, s')"
  shows "getCollectionByVersionTx (delete_draft ot u s') = getCollectionByVersionTx s"
    and "GetLatestCollection (delete_draft ot u s') = GetLatestCollection s"
proof -
  have "tbl_collection (delete_draft ot u s') = tbl_collection s" "tbl_collection_artifact (delete_draft ot u s') = tbl_collection_artifact s"
    using assms by (auto simp: CreateEvidenceBundle_Inr delete_draft_def split: if_splits)
  moreover have "getArtifactByVersionTx (delete_draft ot u s') = getArtifactByVersionTx s"
    using assms by (intro getArtifact_cong) (auto simp: CreateEvidenceBundle_Inr delete_draft_def split: if_splits)
  ultimately show "getCollectionByVersionTx (delete_draft ot u s') = getCollectionByVersionTx s"
    and "GetLatestCollection (delete_draft ot u s') = GetLatestCollection s" by (rule getCollection_cong)+
qed

lemma evidence_recorded:
  assumes "CreateEvidenceBundle conn i inp s = (Inr b, s')"
  shows "\<exists>e \<in> set (tbl_evidence s'). er_owner_type e = ein_OwnerType inp \<and> er_owner e = ein_OwnerUUID inp
     \<and> er_owner_version e = ein_OwnerVersion inp \<and> er_object_digest e = ein_ObjectDigestValue inp
     \<and> er_signature_value e = ein_SignatureValue inp"
proof (cases "ein_CertificateFingerprint inp \<in> fp_fingerprint ` set (tbl_fingerprint s)")
  case True
  with assms have s': "s' = s" and "identicalEvidenceBundleByFingerprintTx s inp = Inr (Some b)" by (auto simp: CreateEvidenceBundle_Inr)
  then show ?thesis
    by (auto simp: identicalEvidenceBundleByFingerprintTx_def getEvidenceBundleTx_def
        split: option.splits sum.splits if_splits dest!: find_row_SomeD intro!: bexI)
next
  case False
  with assms show ?thesis by (auto simp: CreateEvidenceBundle_Inr evidence_row_of_def)
qed

lemma find_row_update_first:
  "find_row P rows = Some r \<Longrightarrow> P (f r) \<Longrightarrow> find_row P (update_rows P f rows) = Some (f r)"
  by (induction rows) (auto split: if_splits)

lemma row_reason_columns:
  "d_reason_type row = fst (reasonColumns reason) \<Longrightarrow> d_reason_comment row = snd (reasonColumns reason) \<Longrightarrow>
     row_reason row = reason"
  by (cases reason) (auto simp: row_reason_def reasonColumns_def)

lemma wouldBe_exists:
  assumes "fetchCollectionDraftRowTx s ot u = Inr row" and "lockHeld now row" and "approved_at now row" and "d_lock_date row \<noteq> None"
    and "requireArtifactsExistTx s (listCollectionDraftArtifactsTx s ot u) = Inr ()"
  obtains wb where "buildWouldBeCollectionTx s now ot u True = Inr wb" "coll_UpdateReason wb = row_reason row"
    "cin_Artifacts (commit_input wb) = listCollectionDraftArtifactsTx s ot u" "coll_Version wb = next_version u s"
    "coll_CreatedDate wb = parseTime (formatTime (coll_CreatedDate wb))"
proof -
  from assms(1) have row: "find_row (is_draft ot u) (tbl_draft s) = Some row"
    by (simp add: fetchCollectionDraftRowTx_def split: option.splits)
  from assms(4) obtain l where l: "d_lock_date row = Some l" by blast
  from assms(5) have "\<forall>a \<in> set (listCollectionDraftArtifactsTx s ot u). \<exists>x \<in> set (tbl_artifact s). is_version (aref_UUID a) (aref_Version a) x"
    by (simp add: requireArtifactsExistTx_def list_all_iff split: if_splits)
  then obtain arts where arts:
    "mapE (\<lambda>ref. getArtifactByVersionTx s (aref_UUID ref) (aref_Version ref)) (listCollectionDraftArtifactsTx s ot u) = Inr arts"
    "map (\<lambda>a. \<lparr>aref_UUID = art_UUID a, aref_Version = art_Version a\<rparr>) arts = listCollectionDraftArtifactsTx s ot u"
    by (rule mapE_artifacts) (simp add: mapE_map)
  let ?wb = "\<lparr>coll_UUID = u, coll_Version = next_version u s, coll_CreatedDate = parseTime l, coll_BelongsTo = ot,
      coll_UpdateReason = row_reason row, coll_Artifacts = arts, coll_EvidenceBundle = None, coll_EvidenceBundleRef = None\<rparr>"
  have "buildWouldBeCollectionTx s now ot u True = Inr ?wb"
    unfolding buildWouldBe_Inr using row assms(2,3) l arts(1) by auto
  then show thesis using arts(2) by (intro that [of ?wb]) (simp_all add: commit_input_def)
qed

lemma commit_intro:
  assumes "collection_wf s" and "buildWouldBeCollectionTx s now ot u True = Inr wb"
    and ok: "insertable u (next_version u s) ot (coll_UpdateReason wb) (cin_Artifacts (commit_input wb)) s"
    and e: "CreateEvidenceBundle InTx newid (collection_evidence u (coll_Version wb) ev)
       (with_collection u (next_version u s) (coll_CreatedDate wb) ot (coll_UpdateReason wb) (cin_Artifacts (commit_input wb)) s) = (Inr b, s2)"
    and owner: "requireReleaseOwnerExistsTx s ot u = Inr ()"
  shows "CommitCollectionDraft Pool now newid ot u ev s = (Inr wb, delete_draft ot u s2)"
proof -
  let ?s1 = "with_collection u (next_version u s) (coll_CreatedDate wb) ot (coll_UpdateReason wb) (cin_Artifacts (commit_input wb)) s"
  have c: "createCollection InTx now u ot (commit_input wb) s = (Inr wb, ?s1)"
    unfolding createCollection_Inr using ok wouldBe_created [OF assms(1,2) ok] by (simp add: commit_input_def)
  have "(if ot = BelongsToProductRelease then CreateCollectionForProductRelease InTx now u (commit_input wb)
       else if ot = BelongsToComponentRelease then CreateCollectionForComponentRelease InTx now u (commit_input wb)
       else failR (ErrOther ''repo: unknown collection draft owner type'')) s = (Inr wb, ?s1)"
    using c owner by (auto simp: CreateCollectionForProductRelease_def CreateCollectionForComponentRelease_def
        requireReleaseOwnerExistsTx_def split: if_splits)
  then show ?thesis
    using assms(2) e by (simp add: CommitCollectionDraft_def Let_def commit_input_def [symmetric] bindR_eval)
qed

lemma draft_duplicates_block:
  assumes "collection_wf s" and "CommitCollectionDraft Pool now newid ot u ev s = (Inr c, s')"
  shows "distinct (listCollectionDraftArtifactsTx s ot u)"
proof -
  from commit_steps [OF assms] obtain b s1 s2 where wb: "buildWouldBeCollectionTx s now ot u True = Inr c"
    and ok: "insertable u (next_version u s) ot (coll_UpdateReason c) (cin_Artifacts (commit_input c)) s" by blast
  from wb obtain arts where "mapE (\<lambda>ref. getArtifactByVersionTx s (aref_UUID ref) (aref_Version ref)) (listCollectionDraftArtifactsTx s ot u) = Inr arts"
    "coll_Artifacts c = arts" unfolding buildWouldBe_Inr by auto
  with ok mapE_refs show ?thesis by (auto simp: insertable_def commit_input_def)
qed

section \<open>Properties\<close>

text \<open>
  C3. Four eyes: in every state the draft workflow can reach, a release has at most one draft, and a
  draft that carries a decision got it at exactly its current revision, from somebody other than its
  author and not through the author's credential; a draft locked for signing is an approved one.
\<close>

theorem draft_four_eyes:
  assumes "draft_reach now s"
  shows "distinct (map (\<lambda>d. (d_owner_type d, d_owner d)) (tbl_draft s))
     \<and> (\<forall>d \<in> set (tbl_draft s).
          (d_approval_status d \<noteq> ''none'' \<longrightarrow> four_eyes d)
          \<and> (lockHeld now d \<longrightarrow> d_approval_status d = ''approved'' \<and> four_eyes d))"
  using drafts_reach_ok [OF assms] by (auto simp: drafts_ok_def draft_ok_def)

text \<open>
  C2. A commit publishes the approved draft and nothing else: it succeeds only under a live lock and a
  live four-eyes approval of the draft's current revision; the new version is the release's next one and
  its latest, carries the draft's artifacts and reason and the date fixed when the lock was taken, has
  its signature on record, and every version published before reads as it did. The draft is gone.
\<close>

theorem commit_publishes_approved_draft:
  assumes "draft_reach now s" and "collection_wf s" and "CommitCollectionDraft Pool now newid ot u ev s = (Inr c, s')"
  shows "(\<exists>row. find_row (is_draft ot u) (tbl_draft s) = Some row \<and> lockHeld now row \<and> approved_at now row \<and> four_eyes row
            \<and> coll_UpdateReason c = row_reason row \<and> d_lock_date row = Some (formatTime (coll_CreatedDate c)))
     \<and> map (\<lambda>a. \<lparr>aref_UUID = art_UUID a, aref_Version = art_Version a\<rparr>) (coll_Artifacts c) = listCollectionDraftArtifactsTx s ot u
     \<and> coll_Version c = next_version u s \<and> GetLatestCollection s' u ot = Inr c
     \<and> (\<forall>u' v' ot'. (u', v') \<noteq> (u, coll_Version c) \<longrightarrow>
          getCollectionByVersionTx s' u' v' ot' = getCollectionByVersionTx s u' v' ot')
     \<and> (\<exists>e \<in> set (tbl_evidence s'). er_owner_type e = ''COLLECTION'' \<and> er_owner e = u \<and> er_owner_version e = coll_Version c
          \<and> er_signature_value e = cei_SignatureValue ev \<and> er_object_digest e = cei_ObjectDigestValue ev)
     \<and> fetchCollectionDraftRowTx s' ot u = Inl ErrNotFound"
proof -
  from commit_steps [OF assms(2,3)] obtain b s1 s2 where
    wb: "buildWouldBeCollectionTx s now ot u True = Inr c"
    and ok: "insertable u (next_version u s) ot (coll_UpdateReason c) (cin_Artifacts (commit_input c)) s"
    and s1: "s1 = with_collection u (next_version u s) (coll_CreatedDate c) ot (coll_UpdateReason c) (cin_Artifacts (commit_input c)) s"
    and e: "CreateEvidenceBundle InTx newid (collection_evidence u (coll_Version c) ev) s1 = (Inr b, s2)"
    and s': "s' = delete_draft ot u s2" by blast
  from wb obtain row arts where row: "find_row (is_draft ot u) (tbl_draft s) = Some row" "lockHeld now row" "approved_at now row"
    "d_lock_date row = Some (formatTime (coll_CreatedDate c))" "coll_UpdateReason c = row_reason row"
    "coll_Version c = next_version u s" "coll_Artifacts c = arts"
    and arts: "mapE (\<lambda>ref. getArtifactByVersionTx s (aref_UUID ref) (aref_Version ref)) (listCollectionDraftArtifactsTx s ot u) = Inr arts"
    unfolding buildWouldBe_Inr by auto
  have "four_eyes row"
    using drafts_reach_ok [OF assms(1)] find_row_SomeD [OF row(1)] row(3) by (auto simp: drafts_ok_def draft_ok_def approved_at_def)
  moreover have "GetLatestCollection s' u ot = Inr c"
  proof -
    have "latestCollectionVersionTx s1 u ot = Some (next_version u s)"
      unfolding s1 by (rule latest_with_collection) (simp add: next_version_def next_number_gt)
    with wouldBe_created [OF assms(2) wb ok] show ?thesis
      unfolding s' evidence_keeps_collections(2) [OF e] by (simp add: GetLatestCollection_def s1)
  qed
  moreover have "getCollectionByVersionTx s' u' v' ot' = getCollectionByVersionTx s u' v' ot'" if "(u', v') \<noteq> (u, coll_Version c)" for u' v' ot'
    unfolding s' evidence_keeps_collections(1) [OF e] s1 using that row(6) by (intro getCollection_other) simp
  moreover have "tbl_evidence s' = tbl_evidence s2" by (simp add: s' delete_draft_def)
  moreover have "fetchCollectionDraftRowTx s' ot u = Inl ErrNotFound"
  proof -
    have "find_row (is_draft ot u) (tbl_draft s') = None"
      by (simp add: s' delete_draft_def find_row_None)
    then show ?thesis by (simp add: fetchCollectionDraftRowTx_def)
  qed
  ultimately show ?thesis
    using row mapE_refs [OF arts] evidence_recorded [OF e] by (auto simp: collection_evidence_def)
qed


text \<open>
  C14. A locked draft is frozen: while the lock is held it can be neither edited nor decided on, and the
  refused attempt changes nothing; the author (as an actor or by credential) can never decide on it.
\<close>

theorem locked_draft_is_frozen:
  assumes "fetchCollectionDraftRowTx s ot u = Inr row"
  shows "(lockHeld now row \<longrightarrow>
        (\<exists>e. PutCollectionDraft Pool now ot u actor cred arts reason ttl expected s = (Inl e, s))
        \<and> DecideCollectionDraft Pool now ot u actor cred comment approve ttl s = (Inl ErrDraftLocked, s))
     \<and> (\<not> lockHeld now row \<and> (actor = d_drafted_by row \<or> cred \<noteq> [] \<and> d_drafted_by_credential row = Some cred) \<longrightarrow>
        DecideCollectionDraft Pool now ot u actor cred comment approve ttl s = (Inl ErrSelfApproval, s))"
proof -
  have row: "find_row (is_draft ot u) (tbl_draft s) = Some row"
    using assms by (simp add: fetchCollectionDraftRowTx_def split: option.splits)
  have "\<exists>e. PutCollectionDraft Pool now ot u actor cred arts reason ttl expected s = (Inl e, s)" if "lockHeld now row"
  proof (cases "PutCollectionDraft Pool now ot u actor cred arts reason ttl expected s")
    case (Pair r s')
    show ?thesis
    proof (cases r)
      case (Inl e)
      with Pair put_op.rollback show ?thesis by blast
    next
      case (Inr x)
      with Pair that row show ?thesis by (auto elim: PutCollectionDraft_Inr)
    qed
  qed
  with assms show ?thesis by (auto simp: DecideCollectionDraft_def runInTx_def)
qed

text \<open>
  C13. Editing a draft voids its approval: a successful edit stores the given artifacts and reason under
  the next revision (the first for a new draft), drops any decision, and so the draft can neither be
  prepared nor committed before it is approved again. An edit that expects another revision is refused.
\<close>

theorem edit_voids_approval:
  assumes "PutCollectionDraft Pool now ot u actor cred arts reason ttl expected s = (Inr x, s')"
  shows "(\<exists>row. fetchCollectionDraftRowTx s' ot u = Inr row \<and> d_drafted_by row = actor
            \<and> d_revision row = (case fetchCollectionDraftRowTx s ot u of Inl _ \<Rightarrow> 1 | Inr old \<Rightarrow> d_revision old + 1)
            \<and> d_approval_status row = ''none'' \<and> row_reason row = reason)
     \<and> listCollectionDraftArtifactsTx s' ot u = arts
     \<and> (\<forall>e. expected = Some e \<longrightarrow> e = (case fetchCollectionDraftRowTx s ot u of Inl _ \<Rightarrow> 0 | Inr old \<Rightarrow> d_revision old))
     \<and> (\<forall>t. PrepareCollectionCommit Pool t ot u lockTTL s' = (Inl ErrApprovalRequired, s'))
     \<and> (\<forall>t newid ev. CommitCollectionDraft Pool t newid ot u ev s' = (Inl ErrLockNotHeld, s'))"
proof -
  have "\<exists>row. find_row (is_draft ot u) (tbl_draft s') = Some row \<and> d_drafted_by row = actor
      \<and> d_revision row = (case fetchCollectionDraftRowTx s ot u of Inl _ \<Rightarrow> 1 | Inr old \<Rightarrow> d_revision old + 1)
      \<and> d_approval_status row = ''none'' \<and> row_reason row = reason \<and> d_lock_expires_at row = None"
    using assms
  proof (cases rule: PutCollectionDraft_Inr)
    case created
    then show ?thesis
      by (simp add: find_row_append fetchCollectionDraftRowTx_def) (simp add: new_draft_def row_reason_columns)
  next
    case (replaced old)
    let ?new = "new_draft now ot u (d_revision old + 1) actor cred reason ttl"
    have "find_row (is_draft ot u) (tbl_draft s') = Some (?new\<lparr>d_created_at := d_created_at old\<rparr>)"
      unfolding replaced(4) using replaced(1) find_row_SomeD [OF replaced(1)]
      by (intro find_row_update_first) simp_all
    with replaced(1) show ?thesis
      by (simp add: fetchCollectionDraftRowTx_def) (simp add: new_draft_def row_reason_columns)
  qed
  then obtain row where row: "find_row (is_draft ot u) (tbl_draft s') = Some row" "d_drafted_by row = actor"
    "d_revision row = (case fetchCollectionDraftRowTx s ot u of Inl _ \<Rightarrow> 1 | Inr old \<Rightarrow> d_revision old + 1)"
    "d_approval_status row = ''none''" "row_reason row = reason" "d_lock_expires_at row = None" by blast
  have "listCollectionDraftArtifactsTx s' ot u = arts"
    and "\<forall>e. expected = Some e \<longrightarrow> e = (case fetchCollectionDraftRowTx s ot u of Inl _ \<Rightarrow> 0 | Inr old \<Rightarrow> d_revision old)"
    using assms by (auto elim!: PutCollectionDraft_Inr simp: fetchCollectionDraftRowTx_def)
  moreover have "buildWouldBeCollectionTx s' t ot u False = Inl ErrApprovalRequired"
    "buildWouldBeCollectionTx s' t ot u True = Inl ErrLockNotHeld" for t
    using row by (simp_all add: buildWouldBeCollectionTx_def fetchCollectionDraftRowTx_def lockHeld_def)
  ultimately show ?thesis
    using row by (auto simp: fetchCollectionDraftRowTx_def PrepareCollectionCommit_def CommitCollectionDraft_def
        runInTx_def WithTx_def bindR_def readR_def)
qed


text \<open>A draft of one SBOM, written by alice, approved by bob, prepared and committed.\<close>

definition drafted_db :: db where
  "drafted_db = snd (PutCollectionDraft Pool 1000000000 BelongsToComponentRelease ''r1'' ''alice'' []
     [\<lparr>aref_UUID = ''a1'', aref_Version = 1\<rparr>] (Some \<lparr>reason_Type = ''INITIAL_RELEASE'', reason_Comment = []\<rparr>)
     86400000000000 None release_db)"

definition approved_db :: db where
  "approved_db = snd (DecideCollectionDraft Pool 2000000000 BelongsToComponentRelease ''r1'' ''bob'' [] [] True 3600000000000 drafted_db)"

definition prepared_db :: db where
  "prepared_db = snd (PrepareCollectionCommit Pool 3000000000 BelongsToComponentRelease ''r1'' 600000000000 approved_db)"

definition commit_evidence :: CommitEvidenceInput where
  "commit_evidence = \<lparr>cei_ObjectMediaType = ''application/json'', cei_ObjectLocation = [], cei_ObjectDigestValue = ''d1'',
     cei_SignatureFormat = ''jws-detached'', cei_SignatureValue = ''s1'', cei_CertificateFormat = ''x509-pem'',
     cei_CertificateValue = ''c1'', cei_CertificateFingerprint = ''fp1'', cei_CertificateTrustDomain = ''td''\<rparr>"

lemma prepared_reachable: "draft_reach 4000000000 prepared_db"
proof -
  have "tbl_draft release_db = []" by code_simp
  then have "draft_reach 1000000000 release_db" by (rule no_drafts)
  then have "draft_reach 2000000000 drafted_db" unfolding drafted_db_def by (rule time_passes [OF put]) simp
  then have "draft_reach 3000000000 approved_db" unfolding approved_db_def by (rule time_passes [OF decide]) simp
  then show ?thesis unfolding prepared_db_def by (rule time_passes [OF prepare]) simp
qed

lemma prepared_wf: "collection_wf prepared_db"
proof -
  have "tbl_collection prepared_db = []" "tbl_collection_artifact prepared_db = []" by code_simp+
  then show ?thesis by (simp add: collection_wf_def)
qed

lemma prepared_commits:
  "case CommitCollectionDraft Pool 4000000000 ''e1'' BelongsToComponentRelease ''r1'' commit_evidence prepared_db of
     (Inl _, _) \<Rightarrow> False | (Inr c, s') \<Rightarrow> coll_Version c = 1"
  by code_simp

theorem draft_four_eyes_witness:
  "tbl_draft prepared_db \<noteq> [] \<and> list_all (\<lambda>d. lockHeld 4000000000 d \<and> four_eyes d) (tbl_draft prepared_db)"
proof -
  have "list_all (lockHeld 4000000000) (tbl_draft prepared_db)" "tbl_draft prepared_db \<noteq> []" by code_simp+
  with draft_four_eyes [OF prepared_reachable] show ?thesis by (simp add: list_all_iff)
qed

theorem commit_publishes_approved_draft_witness:
  "\<exists>c s'. CommitCollectionDraft Pool 4000000000 ''e1'' BelongsToComponentRelease ''r1'' commit_evidence prepared_db = (Inr c, s')
     \<and> GetLatestCollection s' ''r1'' BelongsToComponentRelease = Inr c
     \<and> fetchCollectionDraftRowTx s' BelongsToComponentRelease ''r1'' = Inl ErrNotFound"
  using prepared_commits commit_publishes_approved_draft [OF prepared_reachable prepared_wf]
  by (auto split: prod.splits sum.splits)


theorem locked_draft_is_frozen_witness:
  "DecideCollectionDraft Pool 4000000000 BelongsToComponentRelease ''r1'' ''carol'' [] [] False 0 prepared_db = (Inl ErrDraftLocked, prepared_db)"
proof -
  have "case fetchCollectionDraftRowTx prepared_db BelongsToComponentRelease ''r1'' of Inl _ \<Rightarrow> False | Inr row \<Rightarrow> lockHeld 4000000000 row"
    by code_simp
  then show ?thesis using locked_draft_is_frozen by (auto split: sum.splits)
qed

theorem edit_voids_approval_witness:
  "CommitCollectionDraft Pool 2000000000 ''e1'' BelongsToComponentRelease ''r1'' commit_evidence drafted_db = (Inl ErrLockNotHeld, drafted_db)"
proof -
  let ?put = "PutCollectionDraft Pool 1000000000 BelongsToComponentRelease ''r1'' ''alice'' []
     [\<lparr>aref_UUID = ''a1'', aref_Version = 1\<rparr>] (Some \<lparr>reason_Type = ''INITIAL_RELEASE'', reason_Comment = []\<rparr>)
     86400000000000 None release_db"
  have "case fst ?put of Inl _ \<Rightarrow> False | Inr _ \<Rightarrow> True" by code_simp
  then obtain x where "?put = (Inr x, drafted_db)"
    unfolding drafted_db_def by (auto simp: prod_eq_iff split: sum.splits)
  from edit_voids_approval [OF this] show ?thesis by blast
qed


text \<open>
  An edit may list an artifact twice; such a draft can be approved and prepared, but no commit of it
  can ever succeed (the draft table lacks the published table's uniqueness constraint).
\<close>

lemma duplicate_refs_never_commit:
  assumes "collection_wf s'" and "PutCollectionDraft Pool now ot u actor cred [r, r] reason ttl expected s = (Inr x, s1)"
    and "tbl_draft_artifact s' = tbl_draft_artifact s1"
  shows "fst (CommitCollectionDraft Pool t newid ot u ev s') \<noteq> Inr c"
proof
  assume "fst (CommitCollectionDraft Pool t newid ot u ev s') = Inr c"
  then have "CommitCollectionDraft Pool t newid ot u ev s' = (Inr c, snd (CommitCollectionDraft Pool t newid ot u ev s'))"
    by (simp add: prod_eq_iff)
  from draft_duplicates_block [OF assms(1) this] have "distinct (listCollectionDraftArtifactsTx s1 ot u)"
    using assms(3) by (simp add: listCollectionDraftArtifactsTx_def)
  moreover have "listCollectionDraftArtifactsTx s1 ot u = [r, r]" using assms(2) by (auto elim: PutCollectionDraft_Inr)
  ultimately show False by simp
qed

end
