(* ===== verification/Catalog.thy ===== *)
theory Catalog
  imports Paging Identifiers
begin

text \<open>
  Products and components (\<open>internal/repo/product.go\<close>, \<open>component.go\<close>): creation, import with an
  explicit identity, lookup, the paged listings, deletion with the schema's cascades. The listings
  interpret \<open>keyset_source\<close>, so the walk over their pages is the one proved in \<open>Paging\<close>.
\<close>

section \<open>Products\<close>

definition insert_product :: "uuid \<Rightarrow> string \<Rightarrow> unit repo_op" where
  "insert_product u name s =
     (if has_row (\<lambda>p. p_uuid p = u) (tbl_product s) then (Inl ErrUniqueConstraint, s)
      else (Inr (), s\<lparr>tbl_product := tbl_product s @ [\<lparr>p_uuid = u, p_name = name\<rparr>]\<rparr>))"

definition getProductTx :: "db \<Rightarrow> uuid \<Rightarrow> repo_error + Product" where
  "getProductTx s u =
     (case find_row (\<lambda>p. p_uuid p = u) (tbl_product s) of
        None \<Rightarrow> Inl ErrNotFound
      | Some p \<Rightarrow> Inr \<lparr>prod_UUID = u, prod_Name = p_name p,
                       prod_Identifiers = listIdentifiers s OwnerProduct u\<rparr>)"

definition existsProductTx :: "db \<Rightarrow> uuid \<Rightarrow> repo_error + unit" where
  "existsProductTx s u =
     (if has_row (\<lambda>p. p_uuid p = u) (tbl_product s) then Inr () else Inl ErrNotFound)"

definition CreateProduct :: "uuid \<Rightarrow> string \<Rightarrow> Identifier list \<Rightarrow> Product repo_op" where
  "CreateProduct newid name identifiers =
     runInTx Pool
       (bindR (insert_product newid name) (\<lambda>_.
        bindR (insertIdentifiers OwnerProduct newid identifiers) (\<lambda>_.
        bindR (execR (bumpWatermark WatermarkProducts)) (\<lambda>_.
        returnR \<lparr>prod_UUID = newid, prod_Name = name, prod_Identifiers = identifiers\<rparr>))))"

definition ImportProduct :: "repo_conn \<Rightarrow> uuid \<Rightarrow> string \<Rightarrow> Identifier list \<Rightarrow> bool repo_op" where
  "ImportProduct conn u name identifiers =
     runInTx conn (\<lambda>s.
       case getProductTx s u of
         Inr existing \<Rightarrow>
           if prod_Name existing \<noteq> name \<or> \<not> setEqual (prod_Identifiers existing) identifiers
           then (Inl ErrImportIdentityConflict, s) else (Inr False, s)
       | Inl err \<Rightarrow>
           if err \<noteq> ErrNotFound then (Inl err, s)
           else bindR (insert_product u name) (\<lambda>_.
                bindR (insertIdentifiers OwnerProduct u identifiers) (\<lambda>_.
                bindR (execR (bumpWatermark WatermarkProducts)) (\<lambda>_.
                returnR True))) s)"

definition cursorValue :: "Cursor \<Rightarrow> string \<times> uuid" where
  "cursorValue c = (cur_LastValue c, cur_LastUUID c)"

definition QueryProducts ::
  "db \<Rightarrow> string \<Rightarrow> string \<Rightarrow> string \<Rightarrow> string \<Rightarrow> Cursor option \<Rightarrow> int \<Rightarrow> repo_error + Product list" where
  "QueryProducts s idType idValue sortField sortOrder cursor limit =
     (if sortField \<noteq> ''name'' \<and> sortField \<noteq> []
      then Inl (ErrOther (''repo: unsupported sortField for product: '' @ sortField))
      else Inr (map (\<lambda>p. \<lparr>prod_UUID = p_uuid p, prod_Name = p_name p,
                          prod_Identifiers = listIdentifiers s OwnerProduct (p_uuid p)\<rparr>)
                 (pageRows sortOrder (\<lambda>p. Some (p_name p)) p_uuid (map_option cursorValue cursor) limit
                    (filter (\<lambda>p. appendIdentifierFilter s OwnerProduct idType idValue (p_uuid p))
                       (tbl_product s)))))"

text \<open>
  \<open>DELETE FROM product_release\<close> by a condition on the row, with what the schema deletes along with
  it: component links and release group memberships.
\<close>

definition delete_product_releases :: "(release_row \<Rightarrow> bool) \<Rightarrow> db \<Rightarrow> db" where
  "delete_product_releases P s =
     (let gone = map rl_uuid (filter P (tbl_product_release s)) in
      s\<lparr>tbl_product_release := delete_rows P (tbl_product_release s),
        tbl_release_component := delete_rows (\<lambda>l. List.member gone (rc_release l)) (tbl_release_component s),
        tbl_release_group_member := delete_rows (\<lambda>m. List.member gone (snd m)) (tbl_release_group_member s)\<rparr>)"

text \<open>
  \<open>DELETE FROM component_release\<close>: its distributions go with it, and theirs from artifacts; a link
  that pinned it keeps its component and loses the pin.
\<close>

definition delete_component_releases :: "(release_row \<Rightarrow> bool) \<Rightarrow> db \<Rightarrow> db" where
  "delete_component_releases P s =
     (let gone = map rl_uuid (filter P (tbl_component_release s));
          dists = map rd_id (filter (\<lambda>d. List.member gone (rd_release d)) (tbl_distribution s)) in
      s\<lparr>tbl_component_release := delete_rows P (tbl_component_release s),
        tbl_release_component :=
          update_rows (\<lambda>l. case rc_pinned l of None \<Rightarrow> False | Some u \<Rightarrow> List.member gone u)
            (\<lambda>l. l\<lparr>rc_pinned := None\<rparr>) (tbl_release_component s),
        tbl_distribution := delete_rows (\<lambda>d. List.member gone (rd_release d)) (tbl_distribution s),
        tbl_artifact_distribution :=
          delete_rows (\<lambda>a. List.member dists (ad_distribution a)) (tbl_artifact_distribution s)\<rparr>)"

definition delete_product :: "uuid \<Rightarrow> db \<Rightarrow> db" where
  "delete_product u s =
     (let s1 = delete_product_releases (\<lambda>r. rl_parent r = u) s in
      s1\<lparr>tbl_product := delete_rows (\<lambda>p. p_uuid p = u) (tbl_product s1),
         tbl_product_group_member := delete_rows (\<lambda>m. snd m = u) (tbl_product_group_member s1)\<rparr>)"

definition DeleteProduct :: "uuid \<Rightarrow> unit repo_op" where
  "DeleteProduct u =
     runInTx Pool (\<lambda>s.
       if \<not> has_row (\<lambda>p. p_uuid p = u) (tbl_product s) then (Inl ErrNotFound, s)
       else bindR (execR (delete_product u)) (\<lambda>_.
            bindR (execR (deleteOwnerScoped OwnerProduct u)) (\<lambda>_.
            execR (bumpWatermark WatermarkProducts))) s)"

section \<open>Components\<close>

definition insert_component :: "uuid \<Rightarrow> string \<Rightarrow> unit repo_op" where
  "insert_component u name s =
     (if has_row (\<lambda>c. co_uuid c = u) (tbl_component s) then (Inl ErrUniqueConstraint, s)
      else (Inr (), s\<lparr>tbl_component := tbl_component s @ [\<lparr>co_uuid = u, co_name = name\<rparr>]\<rparr>))"

definition getComponentTx :: "db \<Rightarrow> uuid \<Rightarrow> repo_error + Component" where
  "getComponentTx s u =
     (case find_row (\<lambda>c. co_uuid c = u) (tbl_component s) of
        None \<Rightarrow> Inl ErrNotFound
      | Some c \<Rightarrow> Inr \<lparr>comp_UUID = u, comp_Name = co_name c,
                       comp_Identifiers = listIdentifiers s OwnerComponent u\<rparr>)"

definition existsComponentTx :: "db \<Rightarrow> uuid \<Rightarrow> repo_error + unit" where
  "existsComponentTx s u =
     (if has_row (\<lambda>c. co_uuid c = u) (tbl_component s) then Inr () else Inl ErrNotFound)"

text \<open>The owner of the first of the identifiers some component already has; empty if none does.\<close>

fun componentIdentifierConflictTx :: "db \<Rightarrow> Identifier list \<Rightarrow> uuid" where
  "componentIdentifierConflictTx s [] = []"
| "componentIdentifierConflictTx s (i # ids) =
     (case find_row (\<lambda>r. idr_owner_type r = OwnerComponent \<and> idr_type r = IDType i \<and> idr_value r = IDValue i)
             (tbl_identifier s) of
        Some r \<Rightarrow> idr_owner r
      | None \<Rightarrow> componentIdentifierConflictTx s ids)"

text \<open>
  On a conflict the code returns the existing component along with the error; \<open>Inl\<close> carries both,
  with \<open>None\<close> for the zero value.
\<close>

definition CreateComponent ::
  "uuid \<Rightarrow> string \<Rightarrow> Identifier list \<Rightarrow> db \<Rightarrow> ((repo_error \<times> Component option) + Component) \<times> db" where
  "CreateComponent newid name identifiers s =
     (let conflictUUID = componentIdentifierConflictTx s identifiers in
      if conflictUUID \<noteq> []
      then (case getComponentTx s conflictUUID of
              Inl err \<Rightarrow> (Inl (err, None), s)
            | Inr existing \<Rightarrow> (Inl (ErrComponentIdentifierConflict, Some existing), s))
      else (case runInTx Pool
                   (bindR (insert_component newid name) (\<lambda>_.
                    bindR (insertIdentifiers OwnerComponent newid identifiers) (\<lambda>_.
                    bindR (execR (bumpWatermark WatermarkComponents)) (\<lambda>_.
                    returnR \<lparr>comp_UUID = newid, comp_Name = name, comp_Identifiers = identifiers\<rparr>)))) s
            of (Inl err, s') \<Rightarrow> (Inl (err, None), s') | (Inr c, s') \<Rightarrow> (Inr c, s')))"

definition ImportComponent :: "repo_conn \<Rightarrow> uuid \<Rightarrow> string \<Rightarrow> Identifier list \<Rightarrow> bool repo_op" where
  "ImportComponent conn u name identifiers =
     runInTx conn (\<lambda>s.
       case getComponentTx s u of
         Inr existing \<Rightarrow>
           if comp_Name existing \<noteq> name \<or> \<not> setEqual (comp_Identifiers existing) identifiers
           then (Inl ErrImportIdentityConflict, s) else (Inr False, s)
       | Inl err \<Rightarrow>
           if err \<noteq> ErrNotFound then (Inl err, s)
           else bindR (insert_component u name) (\<lambda>_.
                bindR (insertIdentifiers OwnerComponent u identifiers) (\<lambda>_.
                bindR (execR (bumpWatermark WatermarkComponents)) (\<lambda>_.
                returnR True))) s)"

definition scanComponent :: "db \<Rightarrow> component_row \<Rightarrow> Component" where
  "scanComponent s c =
     \<lparr>comp_UUID = co_uuid c, comp_Name = co_name c,
      comp_Identifiers = listIdentifiers s OwnerComponent (co_uuid c)\<rparr>"

definition QueryComponents ::
  "db \<Rightarrow> string \<Rightarrow> string \<Rightarrow> string \<Rightarrow> string \<Rightarrow> Cursor option \<Rightarrow> int \<Rightarrow> repo_error + Component list" where
  "QueryComponents s idType idValue sortField sortOrder cursor limit =
     (if sortField \<noteq> ''name'' \<and> sortField \<noteq> []
      then Inl (ErrOther (''repo: unsupported sortField for component: '' @ sortField))
      else Inr (map (scanComponent s)
                 (pageRows sortOrder (\<lambda>c. Some (co_name c)) co_uuid (map_option cursorValue cursor) limit
                    (filter (\<lambda>c. appendIdentifierFilter s OwnerComponent idType idValue (co_uuid c))
                       (tbl_component s)))))"

text \<open>SQLite's \<open>lower\<close> (ASCII letters only) and \<open>instr(...) > 0\<close>.\<close>

definition sql_lower :: "string \<Rightarrow> string" where
  "sql_lower = map (\<lambda>c. let n = of_char c :: nat in if 65 \<le> n \<and> n \<le> 90 then char_of (n + 32) else c)"

fun sql_instr :: "string \<Rightarrow> string \<Rightarrow> bool" where
  "sql_instr [] q = (q = [])"
| "sql_instr (c # cs) q = (take (length q) (c # cs) = q \<or> sql_instr cs q)"

text \<open>Rows of equal names come in table order, one of the orders SQL leaves open.\<close>

definition SearchComponents :: "db \<Rightarrow> string \<Rightarrow> int \<Rightarrow> Component list \<times> bool" where
  "SearchComponents s q limit =
     (let out = take (nat (limit + 1))
                  (sort_key co_name
                     (filter (\<lambda>c. sql_instr (sql_lower (co_name c)) (sql_lower q) \<or> q = []) (tbl_component s)));
          hasNext = int (length out) > limit;
          kept = (if hasNext then take (nat limit) out else out)
      in (map (scanComponent s) kept, hasNext))"

definition delete_component :: "uuid \<Rightarrow> db \<Rightarrow> db" where
  "delete_component u s =
     (let s1 = delete_component_releases (\<lambda>r. rl_parent r = u) s in
      s1\<lparr>tbl_component := delete_rows (\<lambda>c. co_uuid c = u) (tbl_component s1),
         tbl_release_component := delete_rows (\<lambda>l. rc_component l = u) (tbl_release_component s1)\<rparr>)"

definition DeleteComponent :: "uuid \<Rightarrow> unit repo_op" where
  "DeleteComponent u =
     runInTx Pool (\<lambda>s.
       if \<not> has_row (\<lambda>c. co_uuid c = u) (tbl_component s) then (Inl ErrNotFound, s)
       else bindR (execR (delete_component u)) (\<lambda>_.
            bindR (execR (deleteOwnerScoped OwnerComponent u)) (\<lambda>_.
            execR (bumpWatermark WatermarkComponents))) s)"

section \<open>Invariant\<close>

text \<open>
  Identities are distinct, and an identifier owned by a product or a component has its owner's row.
\<close>

definition catalog_wf :: "db \<Rightarrow> bool" where
  "catalog_wf s \<longleftrightarrow>
     distinct (map p_uuid (tbl_product s)) \<and> distinct (map co_uuid (tbl_component s))
     \<and> (\<forall>i \<in> set (tbl_identifier s).
          (idr_owner_type i = OwnerProduct \<longrightarrow> idr_owner i \<in> p_uuid ` set (tbl_product s))
          \<and> (idr_owner_type i = OwnerComponent \<longrightarrow> idr_owner i \<in> co_uuid ` set (tbl_component s)))"

section \<open>What a successful operation does\<close>

lemma has_row_key: "has_row (\<lambda>r. key r = u) rows \<longleftrightarrow> u \<in> key ` set rows"
  by auto

lemma insert_product_Inr [simp]:
  "insert_product u name s = (Inr x, s') \<longleftrightarrow>
     u \<notin> p_uuid ` set (tbl_product s) \<and> s' = s\<lparr>tbl_product := tbl_product s @ [\<lparr>p_uuid = u, p_name = name\<rparr>]\<rparr>"
  by (auto simp: insert_product_def)

lemma insert_component_Inr [simp]:
  "insert_component u name s = (Inr x, s') \<longleftrightarrow>
     u \<notin> co_uuid ` set (tbl_component s) \<and> s' = s\<lparr>tbl_component := tbl_component s @ [\<lparr>co_uuid = u, co_name = name\<rparr>]\<rparr>"
  by (auto simp: insert_component_def)

definition with_product :: "uuid \<Rightarrow> string \<Rightarrow> Identifier list \<Rightarrow> db \<Rightarrow> db" where
  "with_product u name ids s =
     bumpWatermark WatermarkProducts
       (s\<lparr>tbl_product := tbl_product s @ [\<lparr>p_uuid = u, p_name = name\<rparr>],
          tbl_identifier := tbl_identifier s @ map (identifier_row_of OwnerProduct u) ids\<rparr>)"

definition with_component :: "uuid \<Rightarrow> string \<Rightarrow> Identifier list \<Rightarrow> db \<Rightarrow> db" where
  "with_component u name ids s =
     bumpWatermark WatermarkComponents
       (s\<lparr>tbl_component := tbl_component s @ [\<lparr>co_uuid = u, co_name = name\<rparr>],
          tbl_identifier := tbl_identifier s @ map (identifier_row_of OwnerComponent u) ids\<rparr>)"

lemma CreateProduct_Inr:
  "CreateProduct u name ids s = (Inr p, s') \<longleftrightarrow>
     u \<notin> p_uuid ` set (tbl_product s) \<and> (\<forall>i \<in> set ids. valid_identifier OwnerProduct i)
     \<and> p = \<lparr>prod_UUID = u, prod_Name = name, prod_Identifiers = ids\<rparr> \<and> s' = with_product u name ids s"
  by (auto simp: CreateProduct_def with_product_def)

lemma ImportProduct_Inr:
  "ImportProduct conn u name ids s = (Inr b, s') \<longleftrightarrow>
     (case getProductTx s u of
        Inr p \<Rightarrow> prod_Name p = name \<and> set (prod_Identifiers p) = set ids \<and> \<not> b \<and> s' = s
      | Inl _ \<Rightarrow> (\<forall>i \<in> set ids. valid_identifier OwnerProduct i) \<and> b \<and> s' = with_product u name ids s)"
  unfolding ImportProduct_def
  by (auto simp: getProductTx_def with_product_def find_row_None split: option.splits dest: find_row_SomeD)

lemma ImportComponent_Inr:
  "ImportComponent conn u name ids s = (Inr b, s') \<longleftrightarrow>
     (case getComponentTx s u of
        Inr c \<Rightarrow> comp_Name c = name \<and> set (comp_Identifiers c) = set ids \<and> \<not> b \<and> s' = s
      | Inl _ \<Rightarrow> (\<forall>i \<in> set ids. valid_identifier OwnerComponent i) \<and> b \<and> s' = with_component u name ids s)"
  unfolding ImportComponent_def
  by (auto simp: getComponentTx_def with_component_def find_row_None split: option.splits dest: find_row_SomeD)

lemma CreateComponent_Inr:
  "CreateComponent u name ids s = (Inr c, s') \<longleftrightarrow>
     componentIdentifierConflictTx s ids = [] \<and> u \<notin> co_uuid ` set (tbl_component s)
     \<and> (\<forall>i \<in> set ids. valid_identifier OwnerComponent i)
     \<and> c = \<lparr>comp_UUID = u, comp_Name = name, comp_Identifiers = ids\<rparr> \<and> s' = with_component u name ids s"
  (is "?l = ?r")
proof (cases "componentIdentifierConflictTx s ids = []")
  case False
  then show ?thesis by (auto simp: CreateComponent_def Let_def split: sum.splits)
next
  case True
  let ?m = "bindR (insert_component u name) (\<lambda>_.
     bindR (insertIdentifiers OwnerComponent u ids) (\<lambda>_.
     bindR (execR (bumpWatermark WatermarkComponents)) (\<lambda>_.
     returnR \<lparr>comp_UUID = u, comp_Name = name, comp_Identifiers = ids\<rparr>)))"
  have "?l \<longleftrightarrow> runInTx Pool ?m s = (Inr c, s')"
    using True by (auto simp: CreateComponent_def Let_def simp del: runInTx_Inr bindR_Inr split: prod.splits sum.splits)
  also have "\<dots> \<longleftrightarrow> ?r" using True by (auto simp: with_component_def)
  finally show ?thesis .
qed

lemma CreateComponent_Inl: "CreateComponent u name ids s = (Inl e, s') \<Longrightarrow> s' = s"
  by (auto simp: CreateComponent_def Let_def runInTx_def split: if_splits sum.splits prod.splits)

lemma DeleteProduct_Inr:
  "DeleteProduct u s = (Inr x, s') \<longleftrightarrow>
     u \<in> p_uuid ` set (tbl_product s)
     \<and> s' = bumpWatermark WatermarkProducts (deleteOwnerScoped OwnerProduct u (delete_product u s))"
  by (auto simp: DeleteProduct_def)

lemma DeleteComponent_Inr:
  "DeleteComponent u s = (Inr x, s') \<longleftrightarrow>
     u \<in> co_uuid ` set (tbl_component s)
     \<and> s' = bumpWatermark WatermarkComponents (deleteOwnerScoped OwnerComponent u (delete_component u s))"
  by (auto simp: DeleteComponent_def)

lemma with_product_frame [simp]:
  "tbl_product (with_product u n ids s) = tbl_product s @ [\<lparr>p_uuid = u, p_name = n\<rparr>]"
  "tbl_component (with_product u n ids s) = tbl_component s"
  "tbl_identifier (with_product u n ids s) = tbl_identifier s @ map (identifier_row_of OwnerProduct u) ids"
  by (simp_all add: with_product_def)

lemma with_component_frame [simp]:
  "tbl_component (with_component u n ids s) = tbl_component s @ [\<lparr>co_uuid = u, co_name = n\<rparr>]"
  "tbl_product (with_component u n ids s) = tbl_product s"
  "tbl_identifier (with_component u n ids s) = tbl_identifier s @ map (identifier_row_of OwnerComponent u) ids"
  by (simp_all add: with_component_def)

lemma delete_product_frame [simp]:
  "tbl_product (delete_product u s) = delete_rows (\<lambda>p. p_uuid p = u) (tbl_product s)"
  "tbl_component (delete_product u s) = tbl_component s"
  "tbl_identifier (delete_product u s) = tbl_identifier s"
  "tbl_product_release (delete_product u s) = delete_rows (\<lambda>r. rl_parent r = u) (tbl_product_release s)"
  "tbl_component_release (delete_product u s) = tbl_component_release s"
  "tbl_collection (delete_product u s) = tbl_collection s"
  "tbl_watermark (delete_product u s) = tbl_watermark s"
  by (simp_all add: delete_product_def delete_product_releases_def Let_def)

lemma delete_component_frame [simp]:
  "tbl_component (delete_component u s) = delete_rows (\<lambda>c. co_uuid c = u) (tbl_component s)"
  "tbl_product (delete_component u s) = tbl_product s"
  "tbl_identifier (delete_component u s) = tbl_identifier s"
  "tbl_component_release (delete_component u s) = delete_rows (\<lambda>r. rl_parent r = u) (tbl_component_release s)"
  "tbl_product_release (delete_component u s) = tbl_product_release s"
  "tbl_collection (delete_component u s) = tbl_collection s"
  "tbl_watermark (delete_component u s) = tbl_watermark s"
  by (simp_all add: delete_component_def delete_component_releases_def Let_def)

section \<open>Reachable catalogues\<close>

lemma wf_with_product:
  "catalog_wf s \<Longrightarrow> u \<notin> p_uuid ` set (tbl_product s) \<Longrightarrow> catalog_wf (with_product u n ids s)"
  by (auto simp: catalog_wf_def identifier_row_of_def)

lemma wf_with_component:
  "catalog_wf s \<Longrightarrow> u \<notin> co_uuid ` set (tbl_component s) \<Longrightarrow> catalog_wf (with_component u n ids s)"
  by (auto simp: catalog_wf_def identifier_row_of_def)

lemma wf_delete_product:
  "catalog_wf s \<Longrightarrow> catalog_wf (bumpWatermark f (deleteOwnerScoped OwnerProduct u (delete_product u s)))"
  unfolding catalog_wf_def by (auto simp: image_iff)

lemma wf_delete_component:
  "catalog_wf s \<Longrightarrow> catalog_wf (bumpWatermark f (deleteOwnerScoped OwnerComponent u (delete_component u s)))"
  unfolding catalog_wf_def by (auto simp: image_iff)

lemma getProductTx_Inl: "getProductTx s u = Inl e \<Longrightarrow> u \<notin> p_uuid ` set (tbl_product s)"
  by (auto simp: getProductTx_def find_row_None split: option.splits)

lemma getComponentTx_Inl: "getComponentTx s u = Inl e \<Longrightarrow> u \<notin> co_uuid ` set (tbl_component s)"
  by (auto simp: getComponentTx_def find_row_None split: option.splits)

text \<open>The databases the catalogue operations lead to, failed calls included.\<close>

inductive catalog_reach :: "db \<Rightarrow> bool" where
  start: "catalog_reach empty_db"
| create_product: "catalog_reach s \<Longrightarrow> catalog_reach (snd (CreateProduct u n ids s))"
| import_product: "catalog_reach s \<Longrightarrow> catalog_reach (snd (ImportProduct Pool u n ids s))"
| delete_product: "catalog_reach s \<Longrightarrow> catalog_reach (snd (DeleteProduct u s))"
| create_component: "catalog_reach s \<Longrightarrow> catalog_reach (snd (CreateComponent u n ids s))"
| import_component: "catalog_reach s \<Longrightarrow> catalog_reach (snd (ImportComponent Pool u n ids s))"
| delete_component: "catalog_reach s \<Longrightarrow> catalog_reach (snd (DeleteComponent u s))"

lemma CreateProduct_wf: "catalog_wf s \<Longrightarrow> catalog_wf (snd (CreateProduct u n ids s))"
  unfolding CreateProduct_def
  by (rule tx.invariant_from_success, fold CreateProduct_def) (auto simp: CreateProduct_Inr wf_with_product)

lemma ImportProduct_wf: "catalog_wf s \<Longrightarrow> catalog_wf (snd (ImportProduct Pool u n ids s))"
  unfolding ImportProduct_def
  by (rule tx.invariant_from_success, fold ImportProduct_def)
     (auto simp: ImportProduct_Inr wf_with_product split: sum.splits dest: getProductTx_Inl)

lemma DeleteProduct_wf: "catalog_wf s \<Longrightarrow> catalog_wf (snd (DeleteProduct u s))"
  unfolding DeleteProduct_def
  by (rule tx.invariant_from_success, fold DeleteProduct_def) (auto simp: DeleteProduct_Inr wf_delete_product)

lemma CreateComponent_wf:
  assumes "catalog_wf s"
  shows "catalog_wf (snd (CreateComponent u n ids s))"
proof -
  obtain r s' where rs: "CreateComponent u n ids s = (r, s')" by (cases "CreateComponent u n ids s")
  with assms have "catalog_wf s'"
    by (cases r) (auto simp: CreateComponent_Inr wf_with_component dest: CreateComponent_Inl)
  with rs show ?thesis by simp
qed

lemma ImportComponent_wf: "catalog_wf s \<Longrightarrow> catalog_wf (snd (ImportComponent Pool u n ids s))"
  unfolding ImportComponent_def
  by (rule tx.invariant_from_success, fold ImportComponent_def)
     (auto simp: ImportComponent_Inr wf_with_component split: sum.splits dest: getComponentTx_Inl)

lemma DeleteComponent_wf: "catalog_wf s \<Longrightarrow> catalog_wf (snd (DeleteComponent u s))"
  unfolding DeleteComponent_def
  by (rule tx.invariant_from_success, fold DeleteComponent_def) (auto simp: DeleteComponent_Inr wf_delete_component)

lemma reach_wf: "catalog_reach s \<Longrightarrow> catalog_wf s"
  by (induction rule: catalog_reach.induct)
     (simp_all add: CreateProduct_wf ImportProduct_wf DeleteProduct_wf CreateComponent_wf ImportComponent_wf
        DeleteComponent_wf, simp add: catalog_wf_def empty_db_def)

section \<open>Properties\<close>

text \<open>
  In every database the catalogue operations can produce, identities are unique and no product or
  component identifier outlives its owner: creation, import and deletion of products and components
  keep the invariant, whether they succeed or fail.
\<close>

theorem catalog_reachable_wf: "catalog_reach s \<Longrightarrow> catalog_wf s"
  by (rule reach_wf)

theorem catalog_reachable_wf_witness:
  "catalog_wf (snd (DeleteProduct ''p1'' (snd (CreateProduct ''p1'' ''n'' [] empty_db))))"
  using catalog_reachable_wf [OF catalog_reach.delete_product [OF catalog_reach.create_product [OF catalog_reach.start]]] .

lemma no_stale_product_identifiers:
  "catalog_wf s \<Longrightarrow> u \<notin> p_uuid ` set (tbl_product s) \<Longrightarrow> listIdentifiers s OwnerProduct u = []"
  by (auto simp: catalog_wf_def listIdentifiers_def filter_empty_conv)

lemma no_stale_component_identifiers:
  "catalog_wf s \<Longrightarrow> u \<notin> co_uuid ` set (tbl_component s) \<Longrightarrow> listIdentifiers s OwnerComponent u = []"
  by (auto simp: catalog_wf_def listIdentifiers_def filter_empty_conv)

lemma listIdentifiers_with_product:
  "listIdentifiers (with_product u n ids s) ot v =
     listIdentifiers s ot v @ (if ot = OwnerProduct \<and> v = u then ids else [])"
  using listIdentifiers_insert [of s OwnerProduct u ids ot v]
    listIdentifiers_cong [of "with_product u n ids s"
      "s\<lparr>tbl_identifier := tbl_identifier s @ map (identifier_row_of OwnerProduct u) ids\<rparr>"] by simp

lemma getProductTx_with_product:
  assumes "catalog_wf s" and "u \<notin> p_uuid ` set (tbl_product s)"
  shows "getProductTx (with_product u n ids s) v =
           (if v = u then Inr \<lparr>prod_UUID = u, prod_Name = n, prod_Identifiers = ids\<rparr> else getProductTx s v)"
proof -
  have "find_row (\<lambda>p. p_uuid p = u) (tbl_product s) = None" using assms by (auto simp: find_row_None)
  then show ?thesis using no_stale_product_identifiers [OF assms]
    by (auto simp: getProductTx_def find_row_append listIdentifiers_with_product split: option.splits)
qed

lemma getComponentTx_with_component:
  assumes "catalog_wf s" and "u \<notin> co_uuid ` set (tbl_component s)"
  shows "getComponentTx (with_component u n ids s) v =
           (if v = u then Inr \<lparr>comp_UUID = u, comp_Name = n, comp_Identifiers = ids\<rparr> else getComponentTx s v)"
proof -
  have "find_row (\<lambda>c. co_uuid c = u) (tbl_component s) = None" using assms by (auto simp: find_row_None)
  moreover have "listIdentifiers (with_component u n ids s) OwnerComponent v =
      listIdentifiers s OwnerComponent v @ (if v = u then ids else [])"
    using listIdentifiers_insert [of s OwnerComponent u ids OwnerComponent v]
      listIdentifiers_cong [of "with_component u n ids s"
        "s\<lparr>tbl_identifier := tbl_identifier s @ map (identifier_row_of OwnerComponent u) ids\<rparr>"] by simp
  ultimately show ?thesis using no_stale_component_identifiers [OF assms]
    by (auto simp: getComponentTx_def find_row_append split: option.splits)
qed

text \<open>
  A product that was created is what a read returns, every other product reads as before, and
  deleting it again makes exactly that product unknown.
\<close>

theorem CreateProduct_roundtrip:
  assumes "catalog_wf s" and "CreateProduct u n ids s = (Inr p, s')"
  shows "getProductTx s' u = Inr p \<and> (\<forall>v. v \<noteq> u \<longrightarrow> getProductTx s' v = getProductTx s v)
    \<and> fst (DeleteProduct u s') = Inr ()
    \<and> (\<forall>v. getProductTx (snd (DeleteProduct u s')) v = getProductTx s v)"
proof -
  from assms(2) have u: "u \<notin> p_uuid ` set (tbl_product s)" and p: "p = \<lparr>prod_UUID = u, prod_Name = n, prod_Identifiers = ids\<rparr>"
    and s': "s' = with_product u n ids s" by (auto simp: CreateProduct_Inr)
  note get = getProductTx_with_product [OF assms(1) u]
  let ?d = "bumpWatermark WatermarkProducts (deleteOwnerScoped OwnerProduct u (delete_product u s'))"
  have del: "DeleteProduct u s' = (Inr (), ?d)" using s' by (simp add: DeleteProduct_Inr)
  have none: "find_row (\<lambda>p. p_uuid p = u) (tbl_product s) = None" using u by (auto simp: find_row_None)
  have tbl: "tbl_product ?d = tbl_product s"
    using u unfolding s' by (auto simp: delete_rows_def filter_id_conv)
  have ids: "listIdentifiers ?d OwnerProduct v = (if v = u then [] else listIdentifiers s' OwnerProduct v)" for v
    using listIdentifiers_deleteOwnerScoped [of OwnerProduct u "delete_product u s'" OwnerProduct v]
      listIdentifiers_cong [of ?d "deleteOwnerScoped OwnerProduct u (delete_product u s')"]
      listIdentifiers_cong [of "delete_product u s'" s'] by simp
  have "getProductTx ?d v = getProductTx s v" for v
    using tbl ids [of v] none listIdentifiers_with_product [of u n ids s OwnerProduct v]
    unfolding getProductTx_def s' by (cases "v = u") (auto split: option.splits)
  with get p s' del show ?thesis by simp
qed

theorem CreateProduct_roundtrip_witness:
  "getProductTx (snd (CreateProduct ''p1'' ''Alpha'' [] empty_db)) ''p1'' =
     Inr \<lparr>prod_UUID = ''p1'', prod_Name = ''Alpha'', prod_Identifiers = []\<rparr>"
proof -
  have "CreateProduct ''p1'' ''Alpha'' [] empty_db =
      (Inr \<lparr>prod_UUID = ''p1'', prod_Name = ''Alpha'', prod_Identifiers = []\<rparr>, with_product ''p1'' ''Alpha'' [] empty_db)"
    by (simp add: CreateProduct_Inr empty_db_def)
  with CreateProduct_roundtrip [OF reach_wf [OF catalog_reach.start] this] show ?thesis by simp
qed

text \<open>
  Importing a product is idempotent and never a merge: a first import of an unknown uuid creates
  it, importing the same content again succeeds without changing anything, and importing different
  content under a known uuid is refused with an identity conflict and changes nothing.
\<close>

theorem ImportProduct_idempotent:
  assumes "catalog_wf s" and "ImportProduct conn u n ids s = (Inr b, s')"
  shows "ImportProduct conn u n ids s' = (Inr False, s')
    \<and> (n' \<noteq> n \<or> set ids' \<noteq> set ids \<longrightarrow> ImportProduct conn u n' ids' s' = (Inl ErrImportIdentityConflict, s'))"
proof -
  obtain p where p: "getProductTx s' u = Inr p" "prod_Name p = n" "set (prod_Identifiers p) = set ids"
  proof (cases "getProductTx s u")
    case (Inl e)
    with assms show thesis
      using getProductTx_with_product [OF assms(1) getProductTx_Inl [OF Inl]] that by (simp add: ImportProduct_Inr)
  next
    case (Inr p)
    with assms show thesis using that by (simp add: ImportProduct_Inr)
  qed
  then show ?thesis by (cases conn) (auto simp: ImportProduct_def runInTx_def)
qed

theorem ImportProduct_idempotent_witness:
  "let s' = snd (ImportProduct Pool ''p1'' ''Alpha'' [] empty_db) in
     ImportProduct Pool ''p1'' ''Alpha'' [] s' = (Inr False, s')
     \<and> ImportProduct Pool ''p1'' ''Beta'' [] s' = (Inl ErrImportIdentityConflict, s')"
proof -
  have "ImportProduct Pool ''p1'' ''Alpha'' [] empty_db = (Inr True, with_product ''p1'' ''Alpha'' [] empty_db)"
    by (simp add: ImportProduct_Inr getProductTx_def empty_db_def)
  with ImportProduct_idempotent [OF reach_wf [OF catalog_reach.start] this, of "''Beta''" "[]"]
  show ?thesis by simp
qed

section \<open>One owner per component identifier\<close>

lemma conflict_none:
  assumes "componentIdentifierConflictTx s ids = []" and "catalog_wf s" and "[] \<notin> co_uuid ` set (tbl_component s)"
    and "i \<in> set ids" and "r \<in> set (tbl_identifier s)" and "idr_owner_type r = OwnerComponent"
  shows "\<not> (idr_type r = IDType i \<and> idr_value r = IDValue i)"
  using assms(1,4)
proof (induction ids)
  case Nil
  then show ?case by simp
next
  case (Cons j ids)
  show ?case
  proof (cases "find_row (\<lambda>r. idr_owner_type r = OwnerComponent \<and> idr_type r = IDType j \<and> idr_value r = IDValue j)
           (tbl_identifier s)")
    case None
    with Cons assms(5,6) show ?thesis by (auto simp: find_row_None)
  next
    case (Some x)
    with Cons.prems(1) have "idr_owner x = []" by simp
    moreover have "idr_owner x \<in> co_uuid ` set (tbl_component s)"
      using find_row_SomeD [OF Some] assms(2) by (auto simp: catalog_wf_def)
    ultimately show ?thesis using assms(3) by simp
  qed
qed

lemma conflict_some:
  assumes "componentIdentifierConflictTx s ids = u" and "u \<noteq> []"
  shows "\<exists>i \<in> set ids. i \<in> set (listIdentifiers s OwnerComponent u)"
  using assms(1)
proof (induction ids)
  case Nil
  with assms(2) show ?case by simp
next
  case (Cons j ids)
  show ?case
  proof (cases "find_row (\<lambda>r. idr_owner_type r = OwnerComponent \<and> idr_type r = IDType j \<and> idr_value r = IDValue j)
           (tbl_identifier s)")
    case None
    with Cons show ?thesis by auto
  next
    case (Some x)
    then have x: "x \<in> set (tbl_identifier s)" "idr_owner_type x = OwnerComponent" "idr_type x = IDType j"
        "idr_value x = IDValue j" by (auto dest: find_row_SomeD)
    moreover have "idr_owner x = u" using Some Cons.prems by simp
    ultimately have "j \<in> set (listIdentifiers s OwnerComponent u)"
      by (auto simp: listIdentifiers_def image_iff intro!: bexI [of _ x])
    then show ?thesis by simp
  qed
qed

lemma CreateComponent_identifiers:
  assumes "catalog_wf s" and "[] \<notin> co_uuid ` set (tbl_component s)"
  shows "CreateComponent u n ids s = (Inr c, s') \<Longrightarrow> i \<in> set ids \<Longrightarrow>
           i \<in> set (listIdentifiers s' OwnerComponent v) \<Longrightarrow> v = u"
    and "i \<in> set ids \<Longrightarrow> i \<in> set (listIdentifiers s OwnerComponent v) \<Longrightarrow>
           \<exists>x. CreateComponent u n ids s = (Inl (ErrComponentIdentifierConflict, Some x), s)
             \<and> (\<exists>j \<in> set ids. j \<in> set (comp_Identifiers x))"
proof -
  assume c: "CreateComponent u n ids s = (Inr c, s')" and i: "i \<in> set ids"
    and l: "i \<in> set (listIdentifiers s' OwnerComponent v)"
  from c have no: "componentIdentifierConflictTx s ids = []" and s': "s' = with_component u n ids s"
    by (auto simp: CreateComponent_Inr)
  show "v = u"
  proof (rule ccontr)
    assume "v \<noteq> u"
    with l s' obtain r where "r \<in> set (tbl_identifier s)" "idr_owner_type r = OwnerComponent"
      "idr_type r = IDType i" "idr_value r = IDValue i"
      by (auto simp: listIdentifiers_def identifier_row_of_def)
    with conflict_none [OF no assms i] show False by blast
  qed
next
  assume i: "i \<in> set ids" and l: "i \<in> set (listIdentifiers s OwnerComponent v)"
  let ?u = "componentIdentifierConflictTx s ids"
  from l obtain r where "r \<in> set (tbl_identifier s)" "idr_owner_type r = OwnerComponent"
    "idr_type r = IDType i" "idr_value r = IDValue i" by (auto simp: listIdentifiers_def)
  with conflict_none [OF _ assms i] have u: "?u \<noteq> []" by blast
  from conflict_some [OF refl u] obtain j where j: "j \<in> set ids" "j \<in> set (listIdentifiers s OwnerComponent ?u)" by blast
  then have "?u \<in> co_uuid ` set (tbl_component s)"
    using no_stale_component_identifiers [OF assms(1), of ?u] by fastforce
  then have "find_row (\<lambda>c. co_uuid c = ?u) (tbl_component s) \<noteq> None" by (auto simp: find_row_None)
  then obtain x where "getComponentTx s ?u = Inr x" "comp_Identifiers x = listIdentifiers s OwnerComponent ?u"
    by (auto simp: getComponentTx_def)
  with u j show "\<exists>x. CreateComponent u n ids s = (Inl (ErrComponentIdentifierConflict, Some x), s)
      \<and> (\<exists>j \<in> set ids. j \<in> set (comp_Identifiers x))"
    by (auto simp: CreateComponent_def Let_def)
qed

text \<open>
  Creating a component enforces "search before create" in the server: on success no other component
  has any of its identifiers; when some component already has one, nothing is created and the caller
  gets that component back with the conflict.
\<close>

theorem CreateComponent_unique_identifiers:
  assumes "catalog_wf s" and "[] \<notin> co_uuid ` set (tbl_component s)"
  shows "(\<forall>c s' i v. CreateComponent u n ids s = (Inr c, s') \<and> i \<in> set ids
            \<and> i \<in> set (listIdentifiers s' OwnerComponent v) \<longrightarrow> v = u)
    \<and> (\<forall>i v. i \<in> set ids \<and> i \<in> set (listIdentifiers s OwnerComponent v) \<longrightarrow>
          (\<exists>x. CreateComponent u n ids s = (Inl (ErrComponentIdentifierConflict, Some x), s)
             \<and> (\<exists>j \<in> set ids. j \<in> set (comp_Identifiers x))))"
  using CreateComponent_identifiers [OF assms] by blast

definition purl :: "string \<Rightarrow> Identifier" where
  "purl v = \<lparr>IDType = ''PURL'', IDValue = v\<rparr>"

theorem CreateComponent_unique_identifiers_witness:
  "let s = snd (CreateComponent ''c1'' ''lib'' [purl ''pkg:a''] empty_db) in
     \<exists>x. CreateComponent ''c2'' ''lib2'' [purl ''pkg:b'', purl ''pkg:a''] s
           = (Inl (ErrComponentIdentifierConflict, Some x), s)"
proof -
  let ?s = "with_component ''c1'' ''lib'' [purl ''pkg:a''] empty_db"
  have s: "CreateComponent ''c1'' ''lib'' [purl ''pkg:a''] empty_db =
      (Inr \<lparr>comp_UUID = ''c1'', comp_Name = ''lib'', comp_Identifiers = [purl ''pkg:a'']\<rparr>, ?s)"
    by (simp add: CreateComponent_Inr empty_db_def purl_def valid_identifier_def identifierOwnerTypes_def identifierTypes_def)
  have "catalog_wf ?s" using CreateComponent_wf [OF reach_wf [OF catalog_reach.start]] s by (metis snd_conv)
  moreover have "[] \<notin> co_uuid ` set (tbl_component ?s)" by (simp add: empty_db_def)
  moreover have "purl ''pkg:a'' \<in> set (listIdentifiers ?s OwnerComponent ''c1'')"
    by (simp add: listIdentifiers_def empty_db_def identifier_row_of_def purl_def)
  ultimately show ?thesis
    using CreateComponent_unique_identifiers [of ?s "''c2''" "''lib2''" "[purl ''pkg:b'', purl ''pkg:a'']"]
    unfolding s Let_def by auto
qed

section \<open>The listings as page sources\<close>

definition scanProduct :: "db \<Rightarrow> product_row \<Rightarrow> Product" where
  "scanProduct s p = \<lparr>prod_UUID = p_uuid p, prod_Name = p_name p,
     prod_Identifiers = listIdentifiers s OwnerProduct (p_uuid p)\<rparr>"

text \<open>The cursor the read API resumes from, with the fields that only clients see left open.\<close>

definition nameCursor :: "string \<Rightarrow> string \<Rightarrow> string \<Rightarrow> string \<Rightarrow> uuid \<Rightarrow> Cursor" where
  "nameCursor sortField sortOrder scope name u =
     \<lparr>cur_SortField = sortField, cur_SortOrder = sortOrder, cur_LastValue = name, cur_LastUUID = u,
      cur_Scope = scope\<rparr>"

definition product_listing :: "string \<Rightarrow> string \<Rightarrow> string \<Rightarrow> db \<Rightarrow> Product list" where
  "product_listing idType idValue sortOrder s =
     map (scanProduct s) (orderByClause sortOrder (\<lambda>p. Some (p_name p)) p_uuid
       (filter (\<lambda>p. appendIdentifierFilter s OwnerProduct idType idValue (p_uuid p)) (tbl_product s)))"

definition component_listing :: "string \<Rightarrow> string \<Rightarrow> string \<Rightarrow> db \<Rightarrow> Component list" where
  "component_listing idType idValue sortOrder s =
     map (scanComponent s) (orderByClause sortOrder (\<lambda>c. Some (co_name c)) co_uuid
       (filter (\<lambda>c. appendIdentifierFilter s OwnerComponent idType idValue (co_uuid c)) (tbl_component s)))"

text \<open>A page of a table with distinct uuids, after the row a cursor names.\<close>

lemma mapped_page_resume:
  assumes "distinct (map uid rows)" and "map f (orderByClause ord (\<lambda>r. Some (key r)) uid (filter P rows)) = xs @ y # ys"
    and "\<And>r. (key' (f r), uid' (f r)) = (key r, uid r)"
  shows "map f (pageRows ord (\<lambda>r. Some (key r)) uid (Some (key' y, uid' y)) n (filter P rows)) = take (nat n) ys"
proof -
  let ?L = "orderByClause ord (\<lambda>r. Some (key r)) uid (filter P rows)"
  from assms(2) obtain as r bs where L: "?L = as @ r # bs" and y: "y = f r" and ys: "ys = map f bs"
    by (auto simp: map_eq_append_conv map_eq_Cons_conv)
  have "distinct (map uid (filter P rows))" using assms(1) by (rule distinct_map_filter)
  from pageRows_resume [OF this _ L, of "key r" n] assms(3) [of r]
  show ?thesis unfolding y ys by (simp add: take_map)
qed

interpretation kp: keyset_source catalog_wf
  "\<lambda>s. QueryProducts s idType idValue ''name'' sortOrder" "product_listing idType idValue sortOrder"
  "\<lambda>p. nameCursor sortField sortOrder' scope (prod_Name p) (prod_UUID p)"
  for idType idValue sortOrder sortField sortOrder' scope
proof unfold_locales
  fix s :: db and n :: int
  show "QueryProducts s idType idValue ''name'' sortOrder None n = Inr (take (nat n) (product_listing idType idValue sortOrder s))"
    by (simp add: QueryProducts_def product_listing_def pageRows_first scanProduct_def [abs_def] take_map)
next
  fix s xs r ys c and n :: int
  assume wf: "catalog_wf s" and L: "product_listing idType idValue sortOrder s = xs @ r # ys"
    and c: "same_position c (nameCursor sortField sortOrder' scope (prod_Name r) (prod_UUID r))"
  have "distinct (map p_uuid (tbl_product s))" using wf by (simp add: catalog_wf_def)
  from mapped_page_resume [OF this L [unfolded product_listing_def], of prod_Name prod_UUID n] c
  show "QueryProducts s idType idValue ''name'' sortOrder (Some c) n = Inr (take (nat n) ys)"
    by (simp add: QueryProducts_def scanProduct_def [abs_def] cursorValue_def same_position_def nameCursor_def)
qed

interpretation kc: keyset_source catalog_wf
  "\<lambda>s. QueryComponents s idType idValue ''name'' sortOrder" "component_listing idType idValue sortOrder"
  "\<lambda>c. nameCursor sortField sortOrder' scope (comp_Name c) (comp_UUID c)"
  for idType idValue sortOrder sortField sortOrder' scope
proof unfold_locales
  fix s :: db and n :: int
  show "QueryComponents s idType idValue ''name'' sortOrder None n = Inr (take (nat n) (component_listing idType idValue sortOrder s))"
    by (simp add: QueryComponents_def component_listing_def pageRows_first take_map)
next
  fix s xs r ys c and n :: int
  assume wf: "catalog_wf s" and L: "component_listing idType idValue sortOrder s = xs @ r # ys"
    and c: "same_position c (nameCursor sortField sortOrder' scope (comp_Name r) (comp_UUID r))"
  have "distinct (map co_uuid (tbl_component s))" using wf by (simp add: catalog_wf_def)
  from mapped_page_resume [OF this L [unfolded component_listing_def], of comp_Name comp_UUID n] c
  show "QueryComponents s idType idValue ''name'' sortOrder (Some c) n = Inr (take (nat n) ys)"
    by (simp add: QueryComponents_def scanComponent_def cursorValue_def same_position_def nameCursor_def)
qed

end
