(* ===== verification/Releases.thy ===== *)
theory Releases
  imports Catalog Collections
begin

text \<open>
  Product releases, component releases and their distributions (\<open>internal/repo/productrelease.go\<close>,
  \<open>componentrelease.go\<close>, \<open>distribution.go\<close>): creation together with the initial collection, import with
  an explicit identity, component links, file uploads, the paged listings and deletion. The receiver of
  an operation that the code runs on the pool only (\<open>r.db\<close>) is \<open>Pool\<close>.
\<close>

section \<open>Times as SQLite compares them\<close>

text \<open>
  The date columns hold RFC 3339 text in UTC, and the listings compare that text. \<open>timeText\<close> writes out
  the text of a stamp (whole seconds since the epoch); the year is padded to four digits.
\<close>

definition digit :: "int \<Rightarrow> char" where
  "digit n = char_of (nat (48 + n mod 10))"

definition pad2 :: "int \<Rightarrow> string" where
  "pad2 n = [digit (n div 10), digit n]"

fun decimal :: "nat \<Rightarrow> string" where
  "decimal n = (if n < 10 then [digit (int n)] else decimal (n div 10) @ [digit (int n)])"

definition pad4 :: "int \<Rightarrow> string" where
  "pad4 n = (let d = decimal (nat \<bar>n\<bar>) in (if n < 0 then ''-'' else []) @ replicate (4 - length d) (CHR ''0'') @ d)"

text \<open>The civil date of a day number (days since 1970-01-01), by 400-year eras starting in March.\<close>

definition civil :: "int \<Rightarrow> int \<times> int \<times> int" where
  "civil days =
     (let z = days + 719468;
          era = z div 146097;
          doe = z mod 146097;
          yoe = (doe - doe div 1460 + doe div 36524 - doe div 146096) div 365;
          doy = doe - (365 * yoe + yoe div 4 - yoe div 100);
          mp = (5 * doy + 2) div 153;
          d = doy - (153 * mp + 2) div 5 + 1;
          m = (if mp < 10 then mp + 3 else mp - 9)
      in (yoe + era * 400 + (if m \<le> 2 then 1 else 0), m, d))"

definition timeText :: "stamp \<Rightarrow> string" where
  "timeText t =
     (let (y, m, d) = civil (t div 86400); sec = t mod 86400
      in pad4 y @ ''-'' @ pad2 m @ ''-'' @ pad2 d @ ''T'' @ pad2 (sec div 3600) @ '':'' @ pad2 (sec mod 3600 div 60)
         @ '':'' @ pad2 (sec mod 60) @ ''Z'')"

lemma timeText_examples:
  "timeText 0 = ''1970-01-01T00:00:00Z''" "timeText 951782400 = ''2000-02-29T00:00:00Z''"
  "timeText 1767225599 = ''2025-12-31T23:59:59Z''"
  by code_simp+

section \<open>Distributions\<close>

definition insert_distribution :: "distribution_row \<Rightarrow> unit repo_op" where
  "insert_distribution d s =
     (if has_row (\<lambda>x. rd_id x = rd_id d) (tbl_distribution s) then (Inl ErrUniqueConstraint, s)
      else if \<not> has_row (\<lambda>r. rl_uuid r = rd_release d) (tbl_component_release s) then (Inl ErrForeignKeyConstraint, s)
      else (Inr (), s\<lparr>tbl_distribution := tbl_distribution s @ [d]\<rparr>))"

definition getDistributionTx :: "db \<Rightarrow> uuid \<Rightarrow> repo_error + ReleaseDistribution" where
  "getDistributionTx s i =
     (case find_row (\<lambda>d. rd_id d = i) (tbl_distribution s) of
        None \<Rightarrow> Inl ErrNotFound
      | Some d \<Rightarrow> Inr
          \<lparr>dist_DistributionID = i, dist_Description = null_str (rd_description d),
           dist_Identifiers = listIdentifiers s OwnerDistribution i, dist_URL = null_str (rd_url d),
           dist_SignatureURL = null_str (rd_signature_url d),
           dist_Checksums = listChecksums s OwnerDistribution i\<rparr>)"

definition listDistributionsForRelease :: "db \<Rightarrow> uuid \<Rightarrow> repo_error + ReleaseDistribution list" where
  "listDistributionsForRelease s u =
     mapE (getDistributionTx s) (map rd_id (filter (\<lambda>d. rd_release d = u) (tbl_distribution s)))"

text \<open>\<open>UPDATE ... SET revision = revision + 1 WHERE uuid = ?\<close> on the two release tables.\<close>

definition bump_component_release :: "uuid \<Rightarrow> db \<Rightarrow> db" where
  "bump_component_release u s =
     s\<lparr>tbl_component_release := update_rows (\<lambda>r. rl_uuid r = u) (\<lambda>r. r\<lparr>rl_revision := rl_revision r + 1\<rparr>) (tbl_component_release s)\<rparr>"

definition bump_product_release :: "uuid \<Rightarrow> db \<Rightarrow> db" where
  "bump_product_release u s =
     s\<lparr>tbl_product_release := update_rows (\<lambda>r. rl_uuid r = u) (\<lambda>r. r\<lparr>rl_revision := rl_revision r + 1\<rparr>) (tbl_product_release s)\<rparr>"

definition CreateDistribution :: "repo_conn \<Rightarrow> uuid \<Rightarrow> uuid \<Rightarrow> string \<Rightarrow> ReleaseDistribution repo_op" where
  "CreateDistribution conn newid componentReleaseUUID description =
     runInTx conn (\<lambda>s.
       if \<not> has_row (\<lambda>r. rl_uuid r = componentReleaseUUID) (tbl_component_release s) then (Inl ErrNotFound, s)
       else bindR (insert_distribution \<lparr>rd_id = newid, rd_release = componentReleaseUUID, rd_description = Some description,
                     rd_url = None, rd_signature_url = None\<rparr>) (\<lambda>_.
            bindR (execR (bump_component_release componentReleaseUUID)) (\<lambda>_.
            bindR (execR (bumpWatermark WatermarkComponentReleases)) (\<lambda>_.
            readR (\<lambda>s. getDistributionTx s newid)))) s)"

record ImportDistributionInput =
  din_DistributionID :: uuid
  din_ComponentReleaseUUID :: uuid
  din_Description :: string
  din_Identifiers :: "Identifier list"
  din_URL :: string
  din_SignatureURL :: string
  din_Checksums :: "Checksum list"

definition distributionComponentReleaseUUIDTx :: "db \<Rightarrow> uuid \<Rightarrow> repo_error + uuid" where
  "distributionComponentReleaseUUIDTx s i =
     (case find_row (\<lambda>d. rd_id d = i) (tbl_distribution s) of
        None \<Rightarrow> Inl (ErrOther ''sql: no rows in result set'')
      | Some d \<Rightarrow> Inr (rd_release d))"

definition ImportDistribution :: "repo_conn \<Rightarrow> ImportDistributionInput \<Rightarrow> bool repo_op" where
  "ImportDistribution conn inp =
     runInTx conn (\<lambda>s.
       case getDistributionTx s (din_DistributionID inp) of
         Inr existing \<Rightarrow>
           (case distributionComponentReleaseUUIDTx s (din_DistributionID inp) of
              Inl err \<Rightarrow> (Inl err, s)
            | Inr existingComponentReleaseUUID \<Rightarrow>
                if existingComponentReleaseUUID \<noteq> din_ComponentReleaseUUID inp
                   \<or> dist_Description existing \<noteq> din_Description inp
                   \<or> \<not> setEqual (dist_Identifiers existing) (din_Identifiers inp)
                   \<or> \<not> setEqual (dist_Checksums existing) (din_Checksums inp)
                then (Inl ErrImportIdentityConflict, s) else (Inr False, s))
       | Inl err \<Rightarrow>
           if err \<noteq> ErrNotFound then (Inl err, s)
           else bindR (insert_distribution
                   \<lparr>rd_id = din_DistributionID inp, rd_release = din_ComponentReleaseUUID inp,
                    rd_description = Some (din_Description inp), rd_url = nullIfEmpty (din_URL inp),
                    rd_signature_url = nullIfEmpty (din_SignatureURL inp)\<rparr>) (\<lambda>_.
                bindR (insertIdentifiers OwnerDistribution (din_DistributionID inp) (din_Identifiers inp)) (\<lambda>_.
                bindR (insertChecksums OwnerDistribution (din_DistributionID inp) (din_Checksums inp)) (\<lambda>_.
                bindR (execR (bump_component_release (din_ComponentReleaseUUID inp))) (\<lambda>_.
                bindR (execR (bumpWatermark WatermarkComponentReleases)) (\<lambda>_.
                returnR True))))) s)"

definition SetDistributionFile :: "repo_conn \<Rightarrow> uuid \<Rightarrow> string \<Rightarrow> string \<Rightarrow> ReleaseDistribution repo_op" where
  "SetDistributionFile conn i url sha256Hex =
     runInTx conn (\<lambda>s.
       if \<not> has_row (\<lambda>d. rd_id d = i) (tbl_distribution s) then (Inl ErrNotFound, s)
       else bindR (execR (\<lambda>s. s\<lparr>tbl_distribution :=
                     update_rows (\<lambda>d. rd_id d = i) (\<lambda>d. d\<lparr>rd_url := Some url\<rparr>) (tbl_distribution s)\<rparr>)) (\<lambda>_.
            bindR (insertChecksums OwnerDistribution i [\<lparr>AlgType = ''SHA-256'', AlgValue = sha256Hex\<rparr>]) (\<lambda>_.
            bindR (readR (\<lambda>s. distributionComponentReleaseUUIDTx s i)) (\<lambda>componentReleaseUUID.
            bindR (execR (bump_component_release componentReleaseUUID)) (\<lambda>_.
            bindR (execR (bumpWatermark WatermarkComponentReleases)) (\<lambda>_.
            readR (\<lambda>s. getDistributionTx s i)))))) s)"

section \<open>Reading releases\<close>

definition listProductReleaseComponents :: "db \<Rightarrow> uuid \<Rightarrow> ComponentRef list" where
  "listProductReleaseComponents s u =
     map (\<lambda>l. \<lparr>ref_UUID = rc_component l, ref_Release = rc_pinned l\<rparr>)
       (filter (\<lambda>l. rc_release l = u) (tbl_release_component s))"

definition getProductReleaseTx :: "db \<Rightarrow> uuid \<Rightarrow> repo_error + ProductRelease" where
  "getProductReleaseTx s u =
     (case find_row (\<lambda>r. rl_uuid r = u) (tbl_product_release s) of
        None \<Rightarrow> Inl ErrNotFound
      | Some r \<Rightarrow> Inr
          \<lparr>prel_UUID = u, prel_Product = rl_parent r, prel_ProductName = null_str (rl_parent_name r),
           prel_Version = rl_version r, prel_CreatedDate = parseTime (rl_created_date r),
           prel_ReleaseDate = parseNullTime (rl_release_date r), prel_PreRelease = Some (rl_pre_release r),
           prel_Identifiers = listIdentifiers s OwnerProductRelease u,
           prel_Components = listProductReleaseComponents s u\<rparr>)"

definition getProductReleaseRevisionTx :: "db \<Rightarrow> uuid \<Rightarrow> repo_error + int" where
  "getProductReleaseRevisionTx s u =
     (case find_row (\<lambda>r. rl_uuid r = u) (tbl_product_release s) of None \<Rightarrow> Inl ErrNotFound | Some r \<Rightarrow> Inr (rl_revision r))"

definition existsProductReleaseTx :: "db \<Rightarrow> uuid \<Rightarrow> bool" where
  "existsProductReleaseTx s u = has_row (\<lambda>r. rl_uuid r = u) (tbl_product_release s)"

definition getComponentReleaseTx :: "db \<Rightarrow> uuid \<Rightarrow> repo_error + ComponentRelease" where
  "getComponentReleaseTx s u =
     (case find_row (\<lambda>r. rl_uuid r = u) (tbl_component_release s) of
        None \<Rightarrow> Inl ErrNotFound
      | Some r \<Rightarrow>
          (case listDistributionsForRelease s u of
             Inl err \<Rightarrow> Inl err
           | Inr distributions \<Rightarrow> Inr
               \<lparr>crel_UUID = u, crel_Component = rl_parent r, crel_ComponentName = null_str (rl_parent_name r),
                crel_Version = rl_version r, crel_CreatedDate = parseTime (rl_created_date r),
                crel_ReleaseDate = parseNullTime (rl_release_date r), crel_PreRelease = Some (rl_pre_release r),
                crel_Identifiers = listIdentifiers s OwnerComponentRelease u,
                crel_Distributions = distributions\<rparr>))"

definition getComponentReleaseRevisionTx :: "db \<Rightarrow> uuid \<Rightarrow> repo_error + int" where
  "getComponentReleaseRevisionTx s u =
     (case find_row (\<lambda>r. rl_uuid r = u) (tbl_component_release s) of None \<Rightarrow> Inl ErrNotFound | Some r \<Rightarrow> Inr (rl_revision r))"

definition existsComponentReleaseTx :: "db \<Rightarrow> uuid \<Rightarrow> bool" where
  "existsComponentReleaseTx s u = has_row (\<lambda>r. rl_uuid r = u) (tbl_component_release s)"

section \<open>Creating and importing\<close>

text \<open>\<open>ProductReleaseInput\<close> and \<open>ComponentReleaseInput\<close> have the same fields.\<close>

record ReleaseInput =
  rin_Version :: string
  rin_CreatedDate :: time
  rin_ReleaseDate :: "time option"
  rin_PreRelease :: bool
  rin_Identifiers :: "Identifier list"

definition release_row_of :: "uuid \<Rightarrow> uuid \<Rightarrow> string \<Rightarrow> ReleaseInput \<Rightarrow> release_row" where
  "release_row_of u parent name inp =
     \<lparr>rl_uuid = u, rl_parent = parent, rl_parent_name = Some name, rl_version = rin_Version inp,
      rl_created_date = formatTime (rin_CreatedDate inp), rl_release_date = formatTimePtr (rin_ReleaseDate inp),
      rl_pre_release = rin_PreRelease inp, rl_revision = 1\<rparr>"

definition insert_product_release :: "release_row \<Rightarrow> unit repo_op" where
  "insert_product_release r s =
     (if has_row (\<lambda>x. rl_uuid x = rl_uuid r) (tbl_product_release s) then (Inl ErrUniqueConstraint, s)
      else if \<not> has_row (\<lambda>p. p_uuid p = rl_parent r) (tbl_product s) then (Inl ErrForeignKeyConstraint, s)
      else (Inr (), s\<lparr>tbl_product_release := tbl_product_release s @ [r]\<rparr>))"

definition insert_component_release :: "release_row \<Rightarrow> unit repo_op" where
  "insert_component_release r s =
     (if has_row (\<lambda>x. rl_uuid x = rl_uuid r) (tbl_component_release s) then (Inl ErrUniqueConstraint, s)
      else if \<not> has_row (\<lambda>c. co_uuid c = rl_parent r) (tbl_component s) then (Inl ErrForeignKeyConstraint, s)
      else (Inr (), s\<lparr>tbl_component_release := tbl_component_release s @ [r]\<rparr>))"

definition initial_collection :: CollectionInput where
  "initial_collection = \<lparr>cin_UpdateReason = Some \<lparr>reason_Type = ''INITIAL_RELEASE'', reason_Comment = []\<rparr>,
     cin_Artifacts = [], cin_CreatedDate = None\<rparr>"

definition CreateProductRelease :: "time \<Rightarrow> uuid \<Rightarrow> uuid \<Rightarrow> ReleaseInput \<Rightarrow> ProductRelease repo_op" where
  "CreateProductRelease now newid productUUID inp s =
     (case find_row (\<lambda>p. p_uuid p = productUUID) (tbl_product s) of
        None \<Rightarrow> (Inl ErrNotFound, s)
      | Some p \<Rightarrow>
          bindR (WithTx Pool (\<lambda>tx.
                   bindR (insert_product_release (release_row_of newid productUUID (p_name p) inp)) (\<lambda>_.
                   bindR (insertIdentifiers OwnerProductRelease newid (rin_Identifiers inp)) (\<lambda>_.
                   bindR (execR (bumpWatermark WatermarkProductReleases)) (\<lambda>_.
                   CreateCollectionForProductRelease tx now newid initial_collection))))) (\<lambda>_.
          readR (\<lambda>s. getProductReleaseTx s newid)) s)"

definition CreateComponentRelease :: "time \<Rightarrow> uuid \<Rightarrow> uuid \<Rightarrow> ReleaseInput \<Rightarrow> ComponentRelease repo_op" where
  "CreateComponentRelease now newid componentUUID inp s =
     (case find_row (\<lambda>c. co_uuid c = componentUUID) (tbl_component s) of
        None \<Rightarrow> (Inl ErrNotFound, s)
      | Some c \<Rightarrow>
          bindR (WithTx Pool (\<lambda>tx.
                   bindR (insert_component_release (release_row_of newid componentUUID (co_name c) inp)) (\<lambda>_.
                   bindR (insertIdentifiers OwnerComponentRelease newid (rin_Identifiers inp)) (\<lambda>_.
                   bindR (execR (bumpWatermark WatermarkComponentReleases)) (\<lambda>_.
                   CreateCollectionForComponentRelease tx now newid initial_collection))))) (\<lambda>_.
          readR (\<lambda>s. getComponentReleaseTx s newid)) s)"

text \<open>The import inputs add the uuid, the parent and its name at the source to the fields above.\<close>

record ImportReleaseInput =
  irel_UUID :: uuid
  irel_Parent :: uuid
  irel_ParentName :: string
  irel_Release :: ReleaseInput

definition productReleaseConflicts :: "ProductRelease \<Rightarrow> ImportReleaseInput \<Rightarrow> bool" where
  "productReleaseConflicts existing inp \<longleftrightarrow>
     prel_Product existing \<noteq> irel_Parent inp
     \<or> prel_Version existing \<noteq> rin_Version (irel_Release inp)
     \<or> prel_CreatedDate existing \<noteq> rin_CreatedDate (irel_Release inp)
     \<or> \<not> timePtrEqual (prel_ReleaseDate existing) (rin_ReleaseDate (irel_Release inp))
     \<or> (prel_PreRelease existing = Some True) \<noteq> rin_PreRelease (irel_Release inp)
     \<or> \<not> setEqual (prel_Identifiers existing) (rin_Identifiers (irel_Release inp))"

definition componentReleaseConflicts :: "ComponentRelease \<Rightarrow> ImportReleaseInput \<Rightarrow> bool" where
  "componentReleaseConflicts existing inp \<longleftrightarrow>
     crel_Component existing \<noteq> irel_Parent inp
     \<or> crel_Version existing \<noteq> rin_Version (irel_Release inp)
     \<or> crel_CreatedDate existing \<noteq> rin_CreatedDate (irel_Release inp)
     \<or> \<not> timePtrEqual (crel_ReleaseDate existing) (rin_ReleaseDate (irel_Release inp))
     \<or> (crel_PreRelease existing = Some True) \<noteq> rin_PreRelease (irel_Release inp)
     \<or> \<not> setEqual (crel_Identifiers existing) (rin_Identifiers (irel_Release inp))"

definition ImportProductRelease :: "repo_conn \<Rightarrow> ImportReleaseInput \<Rightarrow> bool repo_op" where
  "ImportProductRelease conn inp =
     runInTx conn (\<lambda>s.
       case getProductReleaseTx s (irel_UUID inp) of
         Inr existing \<Rightarrow>
           if productReleaseConflicts existing inp then (Inl ErrImportIdentityConflict, s) else (Inr False, s)
       | Inl err \<Rightarrow>
           if err \<noteq> ErrNotFound then (Inl err, s)
           else if existsComponentReleaseTx s (irel_UUID inp) then (Inl ErrCrossTypeUUIDReuse, s)
           else bindR (insert_product_release (release_row_of (irel_UUID inp) (irel_Parent inp) (irel_ParentName inp) (irel_Release inp))) (\<lambda>_.
                bindR (insertIdentifiers OwnerProductRelease (irel_UUID inp) (rin_Identifiers (irel_Release inp))) (\<lambda>_.
                bindR (execR (bumpWatermark WatermarkProductReleases)) (\<lambda>_.
                returnR True))) s)"

definition ImportComponentRelease :: "repo_conn \<Rightarrow> ImportReleaseInput \<Rightarrow> bool repo_op" where
  "ImportComponentRelease conn inp =
     runInTx conn (\<lambda>s.
       case getComponentReleaseTx s (irel_UUID inp) of
         Inr existing \<Rightarrow>
           if componentReleaseConflicts existing inp then (Inl ErrImportIdentityConflict, s) else (Inr False, s)
       | Inl err \<Rightarrow>
           if err \<noteq> ErrNotFound then (Inl err, s)
           else if existsProductReleaseTx s (irel_UUID inp) then (Inl ErrCrossTypeUUIDReuse, s)
           else bindR (insert_component_release (release_row_of (irel_UUID inp) (irel_Parent inp) (irel_ParentName inp) (irel_Release inp))) (\<lambda>_.
                bindR (insertIdentifiers OwnerComponentRelease (irel_UUID inp) (rin_Identifiers (irel_Release inp))) (\<lambda>_.
                bindR (execR (bumpWatermark WatermarkComponentReleases)) (\<lambda>_.
                returnR True))) s)"

section \<open>Component links\<close>

definition link_ok :: "db \<Rightarrow> release_component_row \<Rightarrow> bool" where
  "link_ok s l \<longleftrightarrow>
     has_row (\<lambda>r. rl_uuid r = rc_release l) (tbl_product_release s) \<and> has_row (\<lambda>c. co_uuid c = rc_component l) (tbl_component s)
     \<and> (case rc_pinned l of None \<Rightarrow> True | Some u \<Rightarrow> has_row (\<lambda>r. rl_uuid r = u) (tbl_component_release s))"

definition is_link :: "uuid \<Rightarrow> uuid \<Rightarrow> release_component_row \<Rightarrow> bool" where
  "is_link pr c l \<longleftrightarrow> rc_release l = pr \<and> rc_component l = c"

definition insert_link :: "release_component_row \<Rightarrow> unit repo_op" where
  "insert_link l s =
     (if has_row (is_link (rc_release l) (rc_component l)) (tbl_release_component s) then (Inl ErrUniqueConstraint, s)
      else if \<not> link_ok s l then (Inl ErrForeignKeyConstraint, s)
      else (Inr (), s\<lparr>tbl_release_component := tbl_release_component s @ [l]\<rparr>))"

definition upsert_link :: "release_component_row \<Rightarrow> unit repo_op" where
  "upsert_link l s =
     (if \<not> link_ok s l then (Inl ErrForeignKeyConstraint, s)
      else if has_row (is_link (rc_release l) (rc_component l)) (tbl_release_component s)
      then (Inr (), s\<lparr>tbl_release_component := update_rows (is_link (rc_release l) (rc_component l))
              (\<lambda>old. old\<lparr>rc_pinned := rc_pinned l\<rparr>) (tbl_release_component s)\<rparr>)
      else (Inr (), s\<lparr>tbl_release_component := tbl_release_component s @ [l]\<rparr>))"

definition LinkComponent :: "repo_conn \<Rightarrow> uuid \<Rightarrow> ComponentRef \<Rightarrow> ProductRelease repo_op" where
  "LinkComponent conn productReleaseUUID ref =
     runInTx conn
       (bindR (upsert_link \<lparr>rc_release = productReleaseUUID, rc_component = ref_UUID ref, rc_pinned = ref_Release ref\<rparr>) (\<lambda>_.
        bindR (execR (bump_product_release productReleaseUUID)) (\<lambda>_.
        bindR (execR (bumpWatermark WatermarkProductReleases)) (\<lambda>_.
        readR (\<lambda>s. getProductReleaseTx s productReleaseUUID)))))"

definition ImportComponentLink :: "repo_conn \<Rightarrow> uuid \<Rightarrow> ComponentRef \<Rightarrow> unit repo_op" where
  "ImportComponentLink conn productReleaseUUID ref =
     runInTx conn (\<lambda>s.
       case find_row (is_link productReleaseUUID (ref_UUID ref)) (tbl_release_component s) of
         Some l \<Rightarrow> if \<not> ptrEqual (rc_pinned l) (ref_Release ref) then (Inl ErrImportIdentityConflict, s) else (Inr (), s)
       | None \<Rightarrow>
           bindR (insert_link \<lparr>rc_release = productReleaseUUID, rc_component = ref_UUID ref, rc_pinned = ref_Release ref\<rparr>) (\<lambda>_.
           bindR (execR (bump_product_release productReleaseUUID)) (\<lambda>_.
           execR (bumpWatermark WatermarkProductReleases))) s)"

section \<open>Listings\<close>

text \<open>The column a sort field selects, as the text SQLite orders by; NULL for a release without a date.\<close>

definition releaseSortColumn :: "string \<Rightarrow> string \<Rightarrow> repo_error + (release_row \<Rightarrow> string option)" where
  "releaseSortColumn kind sortField =
     (if sortField = ''createdDate'' \<or> sortField = [] then Inr (\<lambda>r. Some (timeText (rl_created_date r)))
      else if sortField = ''releaseDate'' then Inr (\<lambda>r. map_option timeText (rl_release_date r))
      else if sortField = ''version'' then Inr (\<lambda>r. Some (rl_version r))
      else Inl (ErrOther (''repo: unsupported sortField for '' @ kind @ '': '' @ sortField)))"

definition productReleaseSortColumn :: "string \<Rightarrow> repo_error + (release_row \<Rightarrow> string option)" where
  "productReleaseSortColumn = releaseSortColumn ''productRelease''"

definition componentReleaseSortColumn :: "string \<Rightarrow> repo_error + (release_row \<Rightarrow> string option)" where
  "componentReleaseSortColumn = releaseSortColumn ''componentRelease''"

definition queryProductReleaseUUIDs ::
  "db \<Rightarrow> (release_row \<Rightarrow> bool) \<Rightarrow> (release_row \<Rightarrow> string option) \<Rightarrow> string \<Rightarrow> Cursor option \<Rightarrow> int \<Rightarrow> repo_error + ProductRelease list" where
  "queryProductReleaseUUIDs s sel sortColumn sortOrder cursor limit =
     mapE (getProductReleaseTx s)
       (map rl_uuid (pageRows sortOrder sortColumn rl_uuid (map_option cursorValue cursor) limit
          (filter sel (tbl_product_release s))))"

definition queryComponentReleaseUUIDs ::
  "db \<Rightarrow> (release_row \<Rightarrow> bool) \<Rightarrow> (release_row \<Rightarrow> string option) \<Rightarrow> string \<Rightarrow> Cursor option \<Rightarrow> int \<Rightarrow> repo_error + ComponentRelease list" where
  "queryComponentReleaseUUIDs s sel sortColumn sortOrder cursor limit =
     mapE (getComponentReleaseTx s)
       (map rl_uuid (pageRows sortOrder sortColumn rl_uuid (map_option cursorValue cursor) limit
          (filter sel (tbl_component_release s))))"

definition ListProductReleasesByProduct ::
  "db \<Rightarrow> uuid \<Rightarrow> string \<Rightarrow> string \<Rightarrow> Cursor option \<Rightarrow> int \<Rightarrow> repo_error + ProductRelease list" where
  "ListProductReleasesByProduct s productUUID sortField sortOrder cursor limit =
     (case productReleaseSortColumn sortField of Inl err \<Rightarrow> Inl err | Inr sortColumn \<Rightarrow>
      queryProductReleaseUUIDs s (\<lambda>r. rl_parent r = productUUID) sortColumn sortOrder cursor limit)"

definition QueryProductReleases ::
  "db \<Rightarrow> string \<Rightarrow> string \<Rightarrow> string \<Rightarrow> string \<Rightarrow> Cursor option \<Rightarrow> int \<Rightarrow> repo_error + ProductRelease list" where
  "QueryProductReleases s idType idValue sortField sortOrder cursor limit =
     (case productReleaseSortColumn sortField of Inl err \<Rightarrow> Inl err | Inr sortColumn \<Rightarrow>
      queryProductReleaseUUIDs s (\<lambda>r. appendIdentifierFilter s OwnerProductRelease idType idValue (rl_uuid r))
        sortColumn sortOrder cursor limit)"

definition ListComponentReleasesByComponent ::
  "db \<Rightarrow> uuid \<Rightarrow> string \<Rightarrow> string \<Rightarrow> Cursor option \<Rightarrow> int \<Rightarrow> repo_error + ComponentRelease list" where
  "ListComponentReleasesByComponent s componentUUID sortField sortOrder cursor limit =
     (case componentReleaseSortColumn sortField of Inl err \<Rightarrow> Inl err | Inr sortColumn \<Rightarrow>
      queryComponentReleaseUUIDs s (\<lambda>r. rl_parent r = componentUUID) sortColumn sortOrder cursor limit)"

definition QueryComponentReleases ::
  "db \<Rightarrow> string \<Rightarrow> string \<Rightarrow> string \<Rightarrow> string \<Rightarrow> Cursor option \<Rightarrow> int \<Rightarrow> repo_error + ComponentRelease list" where
  "QueryComponentReleases s idType idValue sortField sortOrder cursor limit =
     (case componentReleaseSortColumn sortField of Inl err \<Rightarrow> Inl err | Inr sortColumn \<Rightarrow>
      queryComponentReleaseUUIDs s (\<lambda>r. appendIdentifierFilter s OwnerComponentRelease idType idValue (rl_uuid r))
        sortColumn sortOrder cursor limit)"

section \<open>Deleting\<close>

definition DeleteProductRelease :: "uuid \<Rightarrow> unit repo_op" where
  "DeleteProductRelease u =
     runInTx Pool (\<lambda>s.
       if \<not> has_row (\<lambda>r. rl_uuid r = u) (tbl_product_release s) then (Inl ErrNotFound, s)
       else bindR (execR (delete_product_releases (\<lambda>r. rl_uuid r = u))) (\<lambda>_.
            bindR (execR (deleteOwnerScoped OwnerProductRelease u)) (\<lambda>_.
            execR (bumpWatermark WatermarkProductReleases))) s)"

definition DeleteComponentRelease :: "uuid \<Rightarrow> unit repo_op" where
  "DeleteComponentRelease u =
     runInTx Pool (\<lambda>s.
       if \<not> has_row (\<lambda>r. rl_uuid r = u) (tbl_component_release s) then (Inl ErrNotFound, s)
       else bindR (execR (delete_component_releases (\<lambda>r. rl_uuid r = u))) (\<lambda>_.
            bindR (execR (deleteOwnerScoped OwnerComponentRelease u)) (\<lambda>_.
            execR (bumpWatermark WatermarkComponentReleases))) s)"

section \<open>Invariant\<close>

text \<open>
  Referential integrity of the release tables: identities are unique, no uuid names both a product and a
  component release, every release has its parent, links and pins lead to existing rows and are at most
  one per component, and every distribution belongs to an existing component release.
\<close>

definition releases_wf :: "db \<Rightarrow> bool" where
  "releases_wf s \<longleftrightarrow>
     distinct (map rl_uuid (tbl_product_release s)) \<and> distinct (map rl_uuid (tbl_component_release s))
     \<and> rl_uuid ` set (tbl_product_release s) \<inter> rl_uuid ` set (tbl_component_release s) = {}
     \<and> (\<forall>r \<in> set (tbl_product_release s). rl_parent r \<in> p_uuid ` set (tbl_product s))
     \<and> (\<forall>r \<in> set (tbl_component_release s). rl_parent r \<in> co_uuid ` set (tbl_component s))
     \<and> distinct (map (\<lambda>l. (rc_release l, rc_component l)) (tbl_release_component s))
     \<and> (\<forall>l \<in> set (tbl_release_component s). link_ok s l)
     \<and> distinct (map rd_id (tbl_distribution s))
     \<and> (\<forall>d \<in> set (tbl_distribution s). rd_release d \<in> rl_uuid ` set (tbl_component_release s))"

text \<open>
  Histories of the catalogue and release operations. A generated release uuid is in use nowhere: the
  generator's promise, which creation relies on and import does not.
\<close>

inductive release_reach :: "db \<Rightarrow> bool" where
  start: "release_reach empty_db"
| create_product: "release_reach s \<Longrightarrow> release_reach (snd (CreateProduct u n ids s))"
| import_product: "release_reach s \<Longrightarrow> release_reach (snd (ImportProduct Pool u n ids s))"
| delete_product: "release_reach s \<Longrightarrow> release_reach (snd (DeleteProduct u s))"
| create_component: "release_reach s \<Longrightarrow> release_reach (snd (CreateComponent u n ids s))"
| import_component: "release_reach s \<Longrightarrow> release_reach (snd (ImportComponent Pool u n ids s))"
| delete_component: "release_reach s \<Longrightarrow> release_reach (snd (DeleteComponent u s))"
| create_product_release: "release_reach s \<Longrightarrow> u \<notin> rl_uuid ` set (tbl_component_release s) \<Longrightarrow>
    release_reach (snd (CreateProductRelease now u p inp s))"
| create_component_release: "release_reach s \<Longrightarrow> u \<notin> rl_uuid ` set (tbl_product_release s) \<Longrightarrow>
    release_reach (snd (CreateComponentRelease now u c inp s))"
| import_product_release: "release_reach s \<Longrightarrow> release_reach (snd (ImportProductRelease Pool iinp s))"
| import_component_release: "release_reach s \<Longrightarrow> release_reach (snd (ImportComponentRelease Pool iinp s))"
| delete_product_release: "release_reach s \<Longrightarrow> release_reach (snd (DeleteProductRelease u s))"
| delete_component_release: "release_reach s \<Longrightarrow> release_reach (snd (DeleteComponentRelease u s))"
| link_component: "release_reach s \<Longrightarrow> release_reach (snd (LinkComponent Pool u ref s))"
| import_link: "release_reach s \<Longrightarrow> release_reach (snd (ImportComponentLink Pool u ref s))"
| create_distribution: "release_reach s \<Longrightarrow> release_reach (snd (CreateDistribution Pool i u d s))"
| import_distribution: "release_reach s \<Longrightarrow> release_reach (snd (ImportDistribution Pool dinp s))"
| upload_distribution: "release_reach s \<Longrightarrow> release_reach (snd (SetDistributionFile Pool i url sha s))"

section \<open>What a successful operation does\<close>

definition with_product_release :: "release_row \<Rightarrow> Identifier list \<Rightarrow> db \<Rightarrow> db" where
  "with_product_release r ids s =
     bumpWatermark WatermarkProductReleases
       (s\<lparr>tbl_product_release := tbl_product_release s @ [r],
          tbl_identifier := tbl_identifier s @ map (identifier_row_of OwnerProductRelease (rl_uuid r)) ids\<rparr>)"

definition with_component_release :: "release_row \<Rightarrow> Identifier list \<Rightarrow> db \<Rightarrow> db" where
  "with_component_release r ids s =
     bumpWatermark WatermarkComponentReleases
       (s\<lparr>tbl_component_release := tbl_component_release s @ [r],
          tbl_identifier := tbl_identifier s @ map (identifier_row_of OwnerComponentRelease (rl_uuid r)) ids\<rparr>)"

lemma with_release_frame [simp]:
  "tbl_product_release (with_product_release r ids s) = tbl_product_release s @ [r]"
  "tbl_component_release (with_product_release r ids s) = tbl_component_release s"
  "tbl_product (with_product_release r ids s) = tbl_product s" "tbl_component (with_product_release r ids s) = tbl_component s"
  "tbl_release_component (with_product_release r ids s) = tbl_release_component s"
  "tbl_distribution (with_product_release r ids s) = tbl_distribution s"
  "tbl_collection (with_product_release r ids s) = tbl_collection s"
  "tbl_collection_artifact (with_product_release r ids s) = tbl_collection_artifact s"
  "tbl_artifact (with_product_release r ids s) = tbl_artifact s"
  "tbl_component_release (with_component_release r ids s) = tbl_component_release s @ [r]"
  "tbl_product_release (with_component_release r ids s) = tbl_product_release s"
  "tbl_product (with_component_release r ids s) = tbl_product s" "tbl_component (with_component_release r ids s) = tbl_component s"
  "tbl_release_component (with_component_release r ids s) = tbl_release_component s"
  "tbl_distribution (with_component_release r ids s) = tbl_distribution s"
  "tbl_collection (with_component_release r ids s) = tbl_collection s"
  "tbl_collection_artifact (with_component_release r ids s) = tbl_collection_artifact s"
  "tbl_artifact (with_component_release r ids s) = tbl_artifact s"
  by (simp_all add: with_product_release_def with_component_release_def)

lemma release_row_of_simps [simp]: "rl_uuid (release_row_of u p n inp) = u" "rl_parent (release_row_of u p n inp) = p"
  by (simp_all add: release_row_of_def)

lemma insert_release_Inr [simp]:
  "insert_product_release r s = (Inr x, s') \<longleftrightarrow>
     rl_uuid r \<notin> rl_uuid ` set (tbl_product_release s) \<and> rl_parent r \<in> p_uuid ` set (tbl_product s)
     \<and> s' = s\<lparr>tbl_product_release := tbl_product_release s @ [r]\<rparr>"
  "insert_component_release r s = (Inr x, s') \<longleftrightarrow>
     rl_uuid r \<notin> rl_uuid ` set (tbl_component_release s) \<and> rl_parent r \<in> co_uuid ` set (tbl_component s)
     \<and> s' = s\<lparr>tbl_component_release := tbl_component_release s @ [r]\<rparr>"
  by (auto simp: insert_product_release_def insert_component_release_def intro: rev_image_eqI)

lemma getProductRelease_Inl: "getProductReleaseTx s u = Inl e \<longleftrightarrow> e = ErrNotFound \<and> u \<notin> rl_uuid ` set (tbl_product_release s)"
  by (auto simp: getProductReleaseTx_def find_row_None split: option.splits dest: find_row_SomeD)

lemma listDistributions_total: "\<exists>ds. listDistributionsForRelease s u = Inr ds"
proof (cases "listDistributionsForRelease s u")
  case (Inl e)
  then obtain d where "d \<in> set (tbl_distribution s)" "getDistributionTx s (rd_id d) = Inl e"
    unfolding listDistributionsForRelease_def by (auto dest!: mapE_Inl)
  then show ?thesis by (auto simp: getDistributionTx_def find_row_None split: option.splits)
qed simp

lemma getComponentRelease_Inl:
  "getComponentReleaseTx s u = Inl e \<longleftrightarrow> e = ErrNotFound \<and> u \<notin> rl_uuid ` set (tbl_component_release s)"
  using listDistributions_total [of s u]
  by (auto simp: getComponentReleaseTx_def find_row_None split: option.splits dest: find_row_SomeD)

text \<open>Creation: the release and its initial collection, or nothing.\<close>

lemma find_row_key_iff: "find_row (\<lambda>p. key p = u) rows = Some r \<Longrightarrow> u \<in> key ` set rows"
  by (auto dest: find_row_SomeD)

lemma CreateProductRelease_Inr:
  "CreateProductRelease now u pu inp s = (Inr x, s') \<longleftrightarrow>
     (\<exists>p c. find_row (\<lambda>p. p_uuid p = pu) (tbl_product s) = Some p \<and> u \<notin> rl_uuid ` set (tbl_product_release s)
        \<and> (\<forall>i \<in> set (rin_Identifiers inp). valid_identifier OwnerProductRelease i)
        \<and> createCollection InTx now u BelongsToProductRelease initial_collection
             (with_product_release (release_row_of u pu (p_name p) inp) (rin_Identifiers inp) s) = (Inr c, s')
        \<and> getProductReleaseTx s' u = Inr x)"
  unfolding CreateProductRelease_def
  by (auto simp: CreateCollectionForProductRelease_def with_product_release_def find_row_key_iff split: option.splits)

lemma CreateComponentRelease_Inr:
  "CreateComponentRelease now u cu inp s = (Inr x, s') \<longleftrightarrow>
     (\<exists>p c. find_row (\<lambda>c. co_uuid c = cu) (tbl_component s) = Some p \<and> u \<notin> rl_uuid ` set (tbl_component_release s)
        \<and> (\<forall>i \<in> set (rin_Identifiers inp). valid_identifier OwnerComponentRelease i)
        \<and> createCollection InTx now u BelongsToComponentRelease initial_collection
             (with_component_release (release_row_of u cu (co_name p) inp) (rin_Identifiers inp) s) = (Inr c, s')
        \<and> getComponentReleaseTx s' u = Inr x)"
  unfolding CreateComponentRelease_def
  by (auto simp: CreateCollectionForComponentRelease_def with_component_release_def find_row_key_iff split: option.splits)

lemma createCollection_releases:
  assumes "createCollection InTx now u bt inp s = (Inr c, s')"
  shows "tbl_product_release s' = tbl_product_release s" "tbl_component_release s' = tbl_component_release s"
    "tbl_product s' = tbl_product s" "tbl_component s' = tbl_component s"
    "tbl_release_component s' = tbl_release_component s" "tbl_distribution s' = tbl_distribution s"
    "tbl_identifier s' = tbl_identifier s"
  using assms unfolding createCollection_Inr by (auto simp: with_collection_def)

interpretation create_prel: atomic_op "CreateProductRelease now u pu inp" for now u pu inp
proof
  fix s e s'
  assume a: "CreateProductRelease now u pu inp s = (Inl e, s')"
  show "s' = s"
  proof (cases "find_row (\<lambda>p. p_uuid p = pu) (tbl_product s)")
    case None
    with a show ?thesis by (simp add: CreateProductRelease_def)
  next
    case (Some p)
    with a show ?thesis
      by (auto simp: CreateProductRelease_def bindR_Inl WithTx_Pool_Inl CreateCollectionForProductRelease_def
          getProductRelease_Inl dest: createCollection_releases(1))
  qed
qed

interpretation create_crel: atomic_op "CreateComponentRelease now u cu inp" for now u cu inp
proof
  fix s e s'
  assume a: "CreateComponentRelease now u cu inp s = (Inl e, s')"
  show "s' = s"
  proof (cases "find_row (\<lambda>c. co_uuid c = cu) (tbl_component s)")
    case None
    with a show ?thesis by (simp add: CreateComponentRelease_def)
  next
    case (Some p)
    with a show ?thesis
      by (auto simp: CreateComponentRelease_def bindR_Inl WithTx_Pool_Inl CreateCollectionForComponentRelease_def
          getComponentRelease_Inl dest: createCollection_releases(2))
  qed
qed

lemma ImportProductRelease_Inr:
  "ImportProductRelease conn inp s = (Inr b, s') \<longleftrightarrow>
     (case getProductReleaseTx s (irel_UUID inp) of
        Inr existing \<Rightarrow> \<not> productReleaseConflicts existing inp \<and> \<not> b \<and> s' = s
      | Inl _ \<Rightarrow> irel_UUID inp \<notin> rl_uuid ` set (tbl_component_release s) \<and> irel_Parent inp \<in> p_uuid ` set (tbl_product s)
          \<and> (\<forall>i \<in> set (rin_Identifiers (irel_Release inp)). valid_identifier OwnerProductRelease i) \<and> b
          \<and> s' = with_product_release (release_row_of (irel_UUID inp) (irel_Parent inp) (irel_ParentName inp) (irel_Release inp))
                   (rin_Identifiers (irel_Release inp)) s)"
proof (cases "getProductReleaseTx s (irel_UUID inp)")
  case (Inl e)
  then have "e = ErrNotFound" "irel_UUID inp \<notin> rl_uuid ` set (tbl_product_release s)" by (simp_all add: getProductRelease_Inl)
  with Inl show ?thesis
    unfolding ImportProductRelease_def
    by (auto simp: existsComponentReleaseTx_def has_row_key with_product_release_def simp del: has_row_iff)
next
  case (Inr x)
  then show ?thesis by (auto simp: ImportProductRelease_def)
qed

lemma ImportComponentRelease_Inr:
  "ImportComponentRelease conn inp s = (Inr b, s') \<longleftrightarrow>
     (case getComponentReleaseTx s (irel_UUID inp) of
        Inr existing \<Rightarrow> \<not> componentReleaseConflicts existing inp \<and> \<not> b \<and> s' = s
      | Inl _ \<Rightarrow> irel_UUID inp \<notin> rl_uuid ` set (tbl_product_release s) \<and> irel_Parent inp \<in> co_uuid ` set (tbl_component s)
          \<and> (\<forall>i \<in> set (rin_Identifiers (irel_Release inp)). valid_identifier OwnerComponentRelease i) \<and> b
          \<and> s' = with_component_release (release_row_of (irel_UUID inp) (irel_Parent inp) (irel_ParentName inp) (irel_Release inp))
                   (rin_Identifiers (irel_Release inp)) s)"
proof (cases "getComponentReleaseTx s (irel_UUID inp)")
  case (Inl e)
  then have "e = ErrNotFound" "irel_UUID inp \<notin> rl_uuid ` set (tbl_component_release s)" by (simp_all add: getComponentRelease_Inl)
  with Inl show ?thesis
    unfolding ImportComponentRelease_def
    by (auto simp: existsProductReleaseTx_def has_row_key with_component_release_def simp del: has_row_iff)
next
  case (Inr x)
  then show ?thesis by (auto simp: ImportComponentRelease_def)
qed

section \<open>Every operation keeps the references intact\<close>

definition same_releases :: "db \<Rightarrow> db \<Rightarrow> bool" where
  "same_releases t s \<longleftrightarrow> tbl_product t = tbl_product s \<and> tbl_component t = tbl_component s
     \<and> tbl_product_release t = tbl_product_release s \<and> tbl_component_release t = tbl_component_release s
     \<and> tbl_release_component t = tbl_release_component s \<and> tbl_distribution t = tbl_distribution s"

lemma link_ok_iff [simp]:
  "link_ok s l \<longleftrightarrow> rc_release l \<in> rl_uuid ` set (tbl_product_release s) \<and> rc_component l \<in> co_uuid ` set (tbl_component s)
     \<and> (\<forall>u. rc_pinned l = Some u \<longrightarrow> u \<in> rl_uuid ` set (tbl_component_release s))"
  unfolding link_ok_def has_row_key by (auto split: option.splits)

lemma wf_same: "same_releases t s \<Longrightarrow> releases_wf t = releases_wf s"
  unfolding releases_wf_def same_releases_def link_ok_iff by simp

lemma wf_add_product:
  assumes "releases_wf s" and "same_releases t (s\<lparr>tbl_product := tbl_product s @ [p]\<rparr>)"
  shows "releases_wf t"
  using assms(1) unfolding wf_same [OF assms(2)] unfolding releases_wf_def by simp

lemma wf_add_component:
  assumes "releases_wf s" and "same_releases t (s\<lparr>tbl_component := tbl_component s @ [p]\<rparr>)"
  shows "releases_wf t"
  using assms(1) unfolding wf_same [OF assms(2)] unfolding releases_wf_def by simp

lemma wf_add_product_release:
  assumes "releases_wf s" and "rl_uuid r \<notin> rl_uuid ` set (tbl_product_release s)" "rl_uuid r \<notin> rl_uuid ` set (tbl_component_release s)"
    and "rl_parent r \<in> p_uuid ` set (tbl_product s)" and "same_releases t (with_product_release r ids s)"
  shows "releases_wf t"
  using assms(1-4) unfolding wf_same [OF assms(5)] unfolding releases_wf_def by simp

lemma wf_add_component_release:
  assumes "releases_wf s" and "rl_uuid r \<notin> rl_uuid ` set (tbl_component_release s)" "rl_uuid r \<notin> rl_uuid ` set (tbl_product_release s)"
    and "rl_parent r \<in> co_uuid ` set (tbl_component s)" and "same_releases t (with_component_release r ids s)"
  shows "releases_wf t"
  using assms(1-4) unfolding wf_same [OF assms(5)] unfolding releases_wf_def by simp

lemma wf_bump:
  "releases_wf (bump_product_release u s) = releases_wf s" "releases_wf (bump_component_release u s) = releases_wf s"
proof -
  let ?f = "\<lambda>r. r\<lparr>rl_revision := rl_revision r + 1\<rparr>"
  have image: "key ` set (update_rows P ?f rows) = key ` set rows" if "\<And>r. key (?f r) = key r"
    for key :: "release_row \<Rightarrow> uuid" and P rows
    using map_update_rows [of key ?f P rows, OF that] by (metis image_set)
  have "rl_uuid ` set (update_rows P ?f rows) = rl_uuid ` set rows" for P and rows :: "release_row list" by (rule image) simp
  moreover have "rl_parent ` set (update_rows P ?f rows) = rl_parent ` set rows" for P and rows :: "release_row list" by (rule image) simp
  then have "(\<forall>r \<in> set (update_rows P ?f rows). rl_parent r \<in> X) \<longleftrightarrow> (\<forall>r \<in> set rows. rl_parent r \<in> X)" for P X and rows :: "release_row list"
    unfolding image_subset_iff [symmetric] by simp
  ultimately show "releases_wf (bump_product_release u s) = releases_wf s" "releases_wf (bump_component_release u s) = releases_wf s"
    unfolding releases_wf_def bump_product_release_def bump_component_release_def by simp_all
qed

lemma wf_add_link:
  assumes "releases_wf s" and "\<not> (\<exists>x \<in> set (tbl_release_component s). is_link (rc_release l) (rc_component l) x)" and "link_ok s l"
  shows "releases_wf (s\<lparr>tbl_release_component := tbl_release_component s @ [l]\<rparr>)"
  using assms unfolding releases_wf_def by (auto simp: is_link_def)

lemma wf_pin_link:
  assumes "releases_wf s" and "\<forall>u. pin = Some u \<longrightarrow> u \<in> rl_uuid ` set (tbl_component_release s)"
  shows "releases_wf (s\<lparr>tbl_release_component := update_rows P (\<lambda>l. l\<lparr>rc_pinned := pin\<rparr>) (tbl_release_component s)\<rparr>)"
proof -
  have "map (\<lambda>l. (rc_release l, rc_component l)) (update_rows P (\<lambda>l. l\<lparr>rc_pinned := pin\<rparr>) (tbl_release_component s)) =
      map (\<lambda>l. (rc_release l, rc_component l)) (tbl_release_component s)"
    by (rule map_update_rows) simp
  with assms show ?thesis unfolding releases_wf_def by (auto simp: set_update_rows)
qed

lemma wf_add_distribution:
  assumes "releases_wf s" and "rd_id d \<notin> rd_id ` set (tbl_distribution s)" and "rd_release d \<in> rl_uuid ` set (tbl_component_release s)"
  shows "releases_wf (s\<lparr>tbl_distribution := tbl_distribution s @ [d]\<rparr>)"
  using assms unfolding releases_wf_def by auto

lemma wf_url:
  assumes "releases_wf s"
  shows "releases_wf (s\<lparr>tbl_distribution := update_rows P (\<lambda>d. d\<lparr>rd_url := x\<rparr>) (tbl_distribution s)\<rparr>)"
  using assms unfolding releases_wf_def by (auto simp: set_update_rows)

lemma delete_releases_frame [simp]:
  "tbl_product (delete_product_releases P s) = tbl_product s" "tbl_component (delete_product_releases P s) = tbl_component s"
  "tbl_product_release (delete_product_releases P s) = delete_rows P (tbl_product_release s)"
  "tbl_component_release (delete_product_releases P s) = tbl_component_release s"
  "tbl_distribution (delete_product_releases P s) = tbl_distribution s"
  "tbl_product (delete_component_releases P s) = tbl_product s" "tbl_component (delete_component_releases P s) = tbl_component s"
  "tbl_component_release (delete_component_releases P s) = delete_rows P (tbl_component_release s)"
  "tbl_product_release (delete_component_releases P s) = tbl_product_release s"
  by (simp_all add: delete_product_releases_def delete_component_releases_def Let_def)

lemma wf_delete_product_releases:
  assumes "releases_wf s"
  shows "releases_wf (delete_product_releases P s)"
proof -
  have keep: "r \<in> rl_uuid ` {x \<in> set (tbl_product_release s). \<not> P x}"
    if "r \<in> rl_uuid ` set (tbl_product_release s)" "r \<notin> rl_uuid ` {x \<in> set (tbl_product_release s). P x}" for r
    using that by auto
  have "tbl_release_component (delete_product_releases P s) =
      delete_rows (\<lambda>l. rc_release l \<in> rl_uuid ` {x \<in> set (tbl_product_release s). P x}) (tbl_release_component s)"
    by (simp add: delete_product_releases_def Let_def)
  with assms keep show ?thesis unfolding releases_wf_def by auto
qed

lemma wf_delete_component_releases:
  assumes "releases_wf s"
  shows "releases_wf (delete_component_releases P s)"
proof -
  let ?gone = "rl_uuid ` {x \<in> set (tbl_component_release s). P x}"
  let ?clear = "update_rows (\<lambda>l. case rc_pinned l of None \<Rightarrow> False | Some u \<Rightarrow> u \<in> ?gone) (\<lambda>l. l\<lparr>rc_pinned := None\<rparr>)"
  have keep: "r \<in> rl_uuid ` {x \<in> set (tbl_component_release s). \<not> P x}"
    if "r \<in> rl_uuid ` set (tbl_component_release s)" "r \<notin> ?gone" for r
    using that by auto
  have links: "tbl_release_component (delete_component_releases P s) = ?clear (tbl_release_component s)"
    and dists: "tbl_distribution (delete_component_releases P s) = delete_rows (\<lambda>d. rd_release d \<in> ?gone) (tbl_distribution s)"
    by (simp_all add: delete_component_releases_def Let_def cong: option.case_cong)
  have keys: "map (\<lambda>l. (rc_release l, rc_component l)) (?clear rows) = map (\<lambda>l. (rc_release l, rc_component l)) rows" for rows
    by (rule map_update_rows) simp
  have "link_ok (delete_component_releases P s) l" if "l \<in> set (?clear (tbl_release_component s))" for l
    using that assms keep unfolding releases_wf_def by (auto simp: set_update_rows split: option.splits)
  with assms keep show ?thesis unfolding releases_wf_def links dists keys by auto
qed

text \<open>One lemma per operation, from its success case; a failed operation changes nothing.\<close>

lemma bump_frame [simp]:
  "same_releases (bumpWatermark f s) t = same_releases s t" "same_releases s s"
  by (simp_all add: same_releases_def)

lemma same_bump: "same_releases (bumpWatermark f s) s" by simp

lemma rwf_bumpWatermark [simp]: "releases_wf (bumpWatermark f s) = releases_wf s"
  by (rule wf_same [OF same_bump])

lemma rwf_deleteOwnerScoped [simp]: "releases_wf (deleteOwnerScoped ot u s) = releases_wf s"
  by (rule wf_same) (simp add: same_releases_def deleteOwnerScoped_def delete_cle_events_def bumpCLERevision_def Let_def)

lemma rwf_identifiers [simp]: "releases_wf (s\<lparr>tbl_identifier := x\<rparr>) = releases_wf s"
  "releases_wf (s\<lparr>tbl_checksum := y\<rparr>) = releases_wf s"
  by (rule wf_same, simp add: same_releases_def)+

lemma rwf_with_product: "releases_wf s \<Longrightarrow> releases_wf (with_product u n ids s)"
  by (rule wf_add_product) (simp_all add: same_releases_def with_product_def)

lemma rwf_with_component: "releases_wf s \<Longrightarrow> releases_wf (with_component u n ids s)"
  by (rule wf_add_component) (simp_all add: same_releases_def with_component_def)

lemma image_without: "key ` {x \<in> A. key x \<noteq> u} = key ` A - {u}"
  by auto

lemma wf_drop_product:
  assumes "releases_wf t" and "\<And>r. r \<in> set (tbl_product_release t) \<Longrightarrow> rl_parent r \<noteq> u"
  shows "releases_wf (t\<lparr>tbl_product := delete_rows (\<lambda>p. p_uuid p = u) (tbl_product t), tbl_product_group_member := m\<rparr>)"
  using assms unfolding releases_wf_def by (simp add: image_without)

lemma wf_drop_component:
  assumes "releases_wf t" and "\<And>r. r \<in> set (tbl_component_release t) \<Longrightarrow> rl_parent r \<noteq> u"
  shows "releases_wf (t\<lparr>tbl_component := delete_rows (\<lambda>c. co_uuid c = u) (tbl_component t),
     tbl_release_component := delete_rows (\<lambda>l. rc_component l = u) (tbl_release_component t)\<rparr>)"
  using assms unfolding releases_wf_def by (simp add: image_without) blast

lemma rwf_delete_product: "releases_wf s \<Longrightarrow> releases_wf (delete_product u s)"
  unfolding delete_product_def Let_def by (rule wf_drop_product [OF wf_delete_product_releases]) simp_all

lemma rwf_delete_component: "releases_wf s \<Longrightarrow> releases_wf (delete_component u s)"
  unfolding delete_component_def Let_def by (rule wf_drop_component [OF wf_delete_component_releases]) simp_all

lemma CreateProductRelease_wf:
  assumes "releases_wf s" and "u \<notin> rl_uuid ` set (tbl_component_release s)"
  shows "releases_wf (snd (CreateProductRelease now u pu inp s))"
proof (rule create_prel.invariant_from_success [where I = releases_wf, OF _ assms(1)])
  fix x s'
  assume "CreateProductRelease now u pu inp s = (Inr x, s')"
  then obtain p c where p: "find_row (\<lambda>p. p_uuid p = pu) (tbl_product s) = Some p" "u \<notin> rl_uuid ` set (tbl_product_release s)"
    and c: "createCollection InTx now u BelongsToProductRelease initial_collection
       (with_product_release (release_row_of u pu (p_name p) inp) (rin_Identifiers inp) s) = (Inr c, s')"
    unfolding CreateProductRelease_Inr by blast
  show "releases_wf s'"
    using createCollection_releases [OF c] p assms(2) find_row_key_iff [OF p(1)]
    by (intro wf_add_product_release [OF assms(1), of "release_row_of u pu (p_name p) inp"]) (auto simp: same_releases_def)
qed

lemma CreateComponentRelease_wf:
  assumes "releases_wf s" and "u \<notin> rl_uuid ` set (tbl_product_release s)"
  shows "releases_wf (snd (CreateComponentRelease now u cu inp s))"
proof (rule create_crel.invariant_from_success [where I = releases_wf, OF _ assms(1)])
  fix x s'
  assume "CreateComponentRelease now u cu inp s = (Inr x, s')"
  then obtain p c where p: "find_row (\<lambda>c. co_uuid c = cu) (tbl_component s) = Some p" "u \<notin> rl_uuid ` set (tbl_component_release s)"
    and c: "createCollection InTx now u BelongsToComponentRelease initial_collection
       (with_component_release (release_row_of u cu (co_name p) inp) (rin_Identifiers inp) s) = (Inr c, s')"
    unfolding CreateComponentRelease_Inr by blast
  show "releases_wf s'"
    using createCollection_releases [OF c] p assms(2) find_row_key_iff [OF p(1)]
    by (intro wf_add_component_release [OF assms(1), of "release_row_of u cu (co_name p) inp"]) (auto simp: same_releases_def)
qed

lemma ImportProductRelease_wf:
  assumes "releases_wf s"
  shows "releases_wf (snd (ImportProductRelease Pool inp s))"
  unfolding ImportProductRelease_def
proof (rule tx.invariant_from_success [where I = releases_wf, OF _ assms], fold ImportProductRelease_def)
  fix b s'
  assume "ImportProductRelease Pool inp s = (Inr b, s')"
  then show "releases_wf s'"
    unfolding ImportProductRelease_Inr using wf_add_product_release [OF assms _ _ _ bump_frame(2)]
    by (cases "getProductReleaseTx s (irel_UUID inp)") (simp_all add: assms getProductRelease_Inl)
qed

lemma ImportComponentRelease_wf:
  assumes "releases_wf s"
  shows "releases_wf (snd (ImportComponentRelease Pool inp s))"
  unfolding ImportComponentRelease_def
proof (rule tx.invariant_from_success [where I = releases_wf, OF _ assms], fold ImportComponentRelease_def)
  fix b s'
  assume "ImportComponentRelease Pool inp s = (Inr b, s')"
  then show "releases_wf s'"
    unfolding ImportComponentRelease_Inr using wf_add_component_release [OF assms _ _ _ bump_frame(2)]
    by (cases "getComponentReleaseTx s (irel_UUID inp)") (simp_all add: assms getComponentRelease_Inl)
qed

lemma DeleteProductRelease_Inr:
  "DeleteProductRelease u s = (Inr x, s') \<longleftrightarrow> u \<in> rl_uuid ` set (tbl_product_release s)
     \<and> s' = bumpWatermark WatermarkProductReleases (deleteOwnerScoped OwnerProductRelease u (delete_product_releases (\<lambda>r. rl_uuid r = u) s))"
  by (auto simp: DeleteProductRelease_def)

lemma DeleteComponentRelease_Inr:
  "DeleteComponentRelease u s = (Inr x, s') \<longleftrightarrow> u \<in> rl_uuid ` set (tbl_component_release s)
     \<and> s' = bumpWatermark WatermarkComponentReleases (deleteOwnerScoped OwnerComponentRelease u (delete_component_releases (\<lambda>r. rl_uuid r = u) s))"
  by (auto simp: DeleteComponentRelease_def)

definition with_link :: "release_component_row \<Rightarrow> db \<Rightarrow> db" where
  "with_link l s =
     bumpWatermark WatermarkProductReleases (bump_product_release (rc_release l)
       (if has_row (is_link (rc_release l) (rc_component l)) (tbl_release_component s)
        then s\<lparr>tbl_release_component := update_rows (is_link (rc_release l) (rc_component l))
               (\<lambda>old. old\<lparr>rc_pinned := rc_pinned l\<rparr>) (tbl_release_component s)\<rparr>
        else s\<lparr>tbl_release_component := tbl_release_component s @ [l]\<rparr>))"

lemma LinkComponent_Inr:
  "LinkComponent conn u ref s = (Inr x, s') \<longleftrightarrow>
     link_ok s \<lparr>rc_release = u, rc_component = ref_UUID ref, rc_pinned = ref_Release ref\<rparr>
     \<and> s' = with_link \<lparr>rc_release = u, rc_component = ref_UUID ref, rc_pinned = ref_Release ref\<rparr> s
     \<and> getProductReleaseTx s' u = Inr x"
  unfolding LinkComponent_def by (auto simp: upsert_link_def with_link_def split: if_splits)

lemma ImportComponentLink_Inr:
  "ImportComponentLink conn u ref s = (Inr x, s') \<longleftrightarrow>
     (case find_row (is_link u (ref_UUID ref)) (tbl_release_component s) of
        Some l \<Rightarrow> rc_pinned l = ref_Release ref \<and> s' = s
      | None \<Rightarrow> link_ok s \<lparr>rc_release = u, rc_component = ref_UUID ref, rc_pinned = ref_Release ref\<rparr>
          \<and> s' = with_link \<lparr>rc_release = u, rc_component = ref_UUID ref, rc_pinned = ref_Release ref\<rparr> s)"
proof (cases "find_row (is_link u (ref_UUID ref)) (tbl_release_component s)")
  case None
  then have "\<not> (\<exists>l \<in> set (tbl_release_component s). is_link u (ref_UUID ref) l)" by (simp add: find_row_None)
  with None show ?thesis
    unfolding ImportComponentLink_def by (simp add: insert_link_def with_link_def del: link_ok_iff)
next
  case (Some l)
  then show ?thesis unfolding ImportComponentLink_def by auto
qed

lemma rwf_with_link: "releases_wf s \<Longrightarrow> link_ok s l \<Longrightarrow> releases_wf (with_link l s)"
  unfolding with_link_def rwf_bumpWatermark wf_bump
  by (auto simp del: link_ok_iff intro!: wf_add_link wf_pin_link) simp

lemma insert_distribution_Inr [simp]:
  "insert_distribution d s = (Inr x, s') \<longleftrightarrow>
     rd_id d \<notin> rd_id ` set (tbl_distribution s) \<and> rd_release d \<in> rl_uuid ` set (tbl_component_release s)
     \<and> s' = s\<lparr>tbl_distribution := tbl_distribution s @ [d]\<rparr>"
  by (auto simp: insert_distribution_def intro: rev_image_eqI)

lemma CreateDistribution_wf: "releases_wf s \<Longrightarrow> releases_wf (snd (CreateDistribution Pool i u d s))"
  unfolding CreateDistribution_def
  by (rule tx.invariant_from_success) (auto simp: wf_bump has_row_key intro!: wf_add_distribution simp del: has_row_iff split: if_splits)

lemma getDistribution_Inl: "getDistributionTx s i = Inl e \<longleftrightarrow> e = ErrNotFound \<and> i \<notin> rd_id ` set (tbl_distribution s)"
  by (auto simp: getDistributionTx_def find_row_None split: option.splits dest: find_row_SomeD)

lemma ImportDistribution_wf: "releases_wf s \<Longrightarrow> releases_wf (snd (ImportDistribution Pool inp s))"
  unfolding ImportDistribution_def
  by (rule tx.invariant_from_success) (auto simp: wf_bump intro!: wf_add_distribution split: sum.splits if_splits)

lemma SetDistributionFile_wf: "releases_wf s \<Longrightarrow> releases_wf (snd (SetDistributionFile Pool i url sha s))"
  unfolding SetDistributionFile_def
  by (rule tx.invariant_from_success) (auto simp: wf_bump intro!: wf_url split: if_splits)

lemma CreateProduct_rwf: "releases_wf s \<Longrightarrow> releases_wf (snd (CreateProduct u n ids s))"
  unfolding CreateProduct_def
  by (rule tx.invariant_from_success, fold CreateProduct_def) (simp_all add: CreateProduct_Inr rwf_with_product)

lemma ImportProduct_rwf: "releases_wf s \<Longrightarrow> releases_wf (snd (ImportProduct Pool u n ids s))"
  unfolding ImportProduct_def
  by (rule tx.invariant_from_success, fold ImportProduct_def) (auto simp: ImportProduct_Inr rwf_with_product split: sum.splits)

lemma DeleteProduct_rwf: "releases_wf s \<Longrightarrow> releases_wf (snd (DeleteProduct u s))"
  unfolding DeleteProduct_def
  by (rule tx.invariant_from_success, fold DeleteProduct_def) (simp_all add: DeleteProduct_Inr rwf_delete_product)

lemma CreateComponent_rwf:
  assumes "releases_wf s"
  shows "releases_wf (snd (CreateComponent u n ids s))"
proof -
  obtain r s' where rs: "CreateComponent u n ids s = (r, s')" by (cases "CreateComponent u n ids s")
  with assms have "releases_wf s'"
    by (cases r) (auto simp: CreateComponent_Inr rwf_with_component dest: CreateComponent_Inl)
  with rs show ?thesis by simp
qed

lemma ImportComponent_rwf: "releases_wf s \<Longrightarrow> releases_wf (snd (ImportComponent Pool u n ids s))"
  unfolding ImportComponent_def
  by (rule tx.invariant_from_success, fold ImportComponent_def) (auto simp: ImportComponent_Inr rwf_with_component split: sum.splits)

lemma DeleteComponent_rwf: "releases_wf s \<Longrightarrow> releases_wf (snd (DeleteComponent u s))"
  unfolding DeleteComponent_def
  by (rule tx.invariant_from_success, fold DeleteComponent_def) (simp_all add: DeleteComponent_Inr rwf_delete_component)

lemma DeleteProductRelease_rwf: "releases_wf s \<Longrightarrow> releases_wf (snd (DeleteProductRelease u s))"
  unfolding DeleteProductRelease_def
  by (rule tx.invariant_from_success, fold DeleteProductRelease_def)
     (simp_all add: DeleteProductRelease_Inr wf_delete_product_releases)

lemma DeleteComponentRelease_rwf: "releases_wf s \<Longrightarrow> releases_wf (snd (DeleteComponentRelease u s))"
  unfolding DeleteComponentRelease_def
  by (rule tx.invariant_from_success, fold DeleteComponentRelease_def)
     (simp_all add: DeleteComponentRelease_Inr wf_delete_component_releases)

lemma LinkComponent_rwf: "releases_wf s \<Longrightarrow> releases_wf (snd (LinkComponent Pool u ref s))"
  unfolding LinkComponent_def
  by (rule tx.invariant_from_success, fold LinkComponent_def) (auto simp: LinkComponent_Inr simp del: link_ok_iff intro: rwf_with_link)

lemma ImportComponentLink_rwf: "releases_wf s \<Longrightarrow> releases_wf (snd (ImportComponentLink Pool u ref s))"
  unfolding ImportComponentLink_def
  by (rule tx.invariant_from_success, fold ImportComponentLink_def)
     (auto simp: ImportComponentLink_Inr simp del: link_ok_iff intro: rwf_with_link split: option.splits)

lemmas rwf_operations = CreateProduct_rwf ImportProduct_rwf DeleteProduct_rwf CreateComponent_rwf ImportComponent_rwf
  DeleteComponent_rwf CreateProductRelease_wf CreateComponentRelease_wf ImportProductRelease_wf ImportComponentRelease_wf
  DeleteProductRelease_rwf DeleteComponentRelease_rwf LinkComponent_rwf ImportComponentLink_rwf CreateDistribution_wf ImportDistribution_wf SetDistributionFile_wf

lemma release_reach_wf: "release_reach s \<Longrightarrow> releases_wf s"
  by (induction rule: release_reach.induct) (simp_all add: rwf_operations, simp add: releases_wf_def empty_db_def)

section \<open>Reading after writing\<close>

lemma collection_wf_cong:
  assumes "tbl_collection t = tbl_collection s" "tbl_collection_artifact t = tbl_collection_artifact s" "tbl_artifact t = tbl_artifact s"
  shows "collection_wf t = collection_wf s"
  using assms by (simp add: collection_wf_def)

lemma initial_insertable:
  "bt \<in> {BelongsToComponentRelease, BelongsToProductRelease} \<Longrightarrow>
     insertable u (next_version u t) bt (cin_UpdateReason initial_collection) (cin_Artifacts initial_collection) t"
  using next_version_fresh [of t u] by (auto simp: insertable_def initial_collection_def collectionUpdateReasons_def)

text \<open>The initial collection always goes in; for a release without earlier versions it is version 1.\<close>

lemma initial_created:
  assumes "collection_wf t" and "bt \<in> {BelongsToComponentRelease, BelongsToProductRelease}" and "u \<notin> c_uuid ` set (tbl_collection t)"
  shows "createCollection InTx now u bt initial_collection t =
    (Inr \<lparr>coll_UUID = u, coll_Version = 1, coll_CreatedDate = parseTime (formatTime now), coll_BelongsTo = bt,
          coll_UpdateReason = Some \<lparr>reason_Type = ''INITIAL_RELEASE'', reason_Comment = []\<rparr>, coll_Artifacts = [],
          coll_EvidenceBundle = None, coll_EvidenceBundleRef = None\<rparr>,
     with_collection u 1 now bt (Some \<lparr>reason_Type = ''INITIAL_RELEASE'', reason_Comment = []\<rparr>) [] t)"
proof -
  have "collection_versions u t = []" using assms(3) by (auto simp: collection_versions_def filter_empty_conv)
  then have v: "next_version u t = 1" by (simp add: next_version_def next_number_def sql_max_def)
  let ?r = "Some \<lparr>reason_Type = ''INITIAL_RELEASE'', reason_Comment = []\<rparr>"
  have ok: "insertable u 1 bt ?r [] t"
    using initial_insertable [OF assms(2), of u t] by (simp add: v initial_collection_def)
  have "scanCollection (with_collection u 1 now bt ?r [] t) (collection_row_of u 1 now bt ?r) =
       Inr \<lparr>coll_UUID = u, coll_Version = 1, coll_CreatedDate = parseTime (formatTime now), coll_BelongsTo = bt,
            coll_UpdateReason = ?r, coll_Artifacts = [], coll_EvidenceBundle = None, coll_EvidenceBundleRef = None\<rparr>"
    by (rule scan_new [OF assms(1) ok, of now]) simp
  with ok show ?thesis
    unfolding createCollection_Inr v
    using getCollection_new(1) [of t u 1] next_version_fresh [of t u] by (simp add: initial_collection_def v)
qed

lemma initial_latest:
  assumes "collection_wf t" and "bt \<in> {BelongsToComponentRelease, BelongsToProductRelease}" and "u \<notin> c_uuid ` set (tbl_collection t)"
    and "createCollection InTx now u bt initial_collection t = (Inr c, s')"
  shows "GetLatestCollection s' u bt = Inr c"
proof -
  have e: "collection_versions u t = []" using assms(3) by (auto simp: collection_versions_def filter_empty_conv)
  then have v: "next_version u t = 1" by (simp add: next_version_def next_number_def sql_max_def)
  from assms(4) have s': "s' = with_collection u 1 (case cin_CreatedDate initial_collection of None \<Rightarrow> now | Some d \<Rightarrow> d) bt
      (cin_UpdateReason initial_collection) (cin_Artifacts initial_collection) t"
    and get: "getCollectionByVersionTx s' u 1 bt = Inr c" unfolding createCollection_Inr v by blast+
  have "latestCollectionVersionTx s' u bt = Some 1" unfolding s' by (rule latest_with_collection) (simp add: e)
  with get show ?thesis by (simp add: GetLatestCollection_def)
qed

text \<open>A release that was just inserted, and every other one.\<close>

lemma listIdentifiers_with_release:
  "listIdentifiers (with_product_release r ids s) ot v = listIdentifiers s ot v @ (if ot = OwnerProductRelease \<and> v = rl_uuid r then ids else [])"
  "listIdentifiers (with_component_release r ids s) ot v = listIdentifiers s ot v @ (if ot = OwnerComponentRelease \<and> v = rl_uuid r then ids else [])"
  using listIdentifiers_insert [of s OwnerProductRelease "rl_uuid r" ids ot v] listIdentifiers_insert [of s OwnerComponentRelease "rl_uuid r" ids ot v]
  by (simp_all add: with_product_release_def with_component_release_def listIdentifiers_def)

definition imported_product_release :: "uuid \<Rightarrow> uuid \<Rightarrow> string \<Rightarrow> ReleaseInput \<Rightarrow> ProductRelease" where
  "imported_product_release u parent name inp =
     \<lparr>prel_UUID = u, prel_Product = parent, prel_ProductName = name, prel_Version = rin_Version inp,
      prel_CreatedDate = parseTime (formatTime (rin_CreatedDate inp)),
      prel_ReleaseDate = map_option (\<lambda>t. parseTime (formatTime t)) (rin_ReleaseDate inp),
      prel_PreRelease = Some (rin_PreRelease inp), prel_Identifiers = rin_Identifiers inp, prel_Components = []\<rparr>"

definition imported_component_release :: "uuid \<Rightarrow> uuid \<Rightarrow> string \<Rightarrow> ReleaseInput \<Rightarrow> ComponentRelease" where
  "imported_component_release u parent name inp =
     \<lparr>crel_UUID = u, crel_Component = parent, crel_ComponentName = name, crel_Version = rin_Version inp,
      crel_CreatedDate = parseTime (formatTime (rin_CreatedDate inp)),
      crel_ReleaseDate = map_option (\<lambda>t. parseTime (formatTime t)) (rin_ReleaseDate inp),
      crel_PreRelease = Some (rin_PreRelease inp), crel_Identifiers = rin_Identifiers inp, crel_Distributions = []\<rparr>"

text \<open>A uuid nothing refers to: no identifier, link or distribution is left of an earlier release.\<close>

definition clean_release :: "string \<Rightarrow> uuid \<Rightarrow> db \<Rightarrow> bool" where
  "clean_release ot u s \<longleftrightarrow> listIdentifiers s ot u = []"

lemma getProductRelease_cong:
  "tbl_product_release t = tbl_product_release s \<Longrightarrow> tbl_identifier t = tbl_identifier s \<Longrightarrow>
   tbl_release_component t = tbl_release_component s \<Longrightarrow> getProductReleaseTx t = getProductReleaseTx s"
  by (intro ext) (simp add: getProductReleaseTx_def listIdentifiers_def listProductReleaseComponents_def split: option.splits)

lemma getComponentRelease_cong:
  assumes "tbl_component_release t = tbl_component_release s" "tbl_identifier t = tbl_identifier s"
    "tbl_distribution t = tbl_distribution s" "tbl_checksum t = tbl_checksum s"
  shows "getComponentReleaseTx t = getComponentReleaseTx s"
proof -
  have "getDistributionTx t = getDistributionTx s"
    using assms by (intro ext) (simp add: getDistributionTx_def listIdentifiers_def listChecksums_def split: option.splits)
  with assms show ?thesis
    by (intro ext) (simp add: getComponentReleaseTx_def listDistributionsForRelease_def listIdentifiers_def split: option.splits sum.splits)
qed

lemma getProductRelease_new:
  assumes "releases_wf s" and "u \<notin> rl_uuid ` set (tbl_product_release s)" and "clean_release OwnerProductRelease u s"
  shows "getProductReleaseTx (with_product_release (release_row_of u p n inp) (rin_Identifiers inp) s) v =
     (if v = u then Inr (imported_product_release u p n inp) else getProductReleaseTx s v)"
proof -
  have "find_row (\<lambda>r. rl_uuid r = u) (tbl_product_release s) = None" using assms(2) by (auto simp: find_row_None)
  moreover have "listProductReleaseComponents s u = []"
    using assms(1,2) by (auto simp: releases_wf_def listProductReleaseComponents_def filter_empty_conv)
  ultimately show ?thesis
    using assms(3)
    by (auto simp: getProductReleaseTx_def find_row_append listIdentifiers_with_release clean_release_def
        imported_product_release_def release_row_of_def listProductReleaseComponents_def formatTimePtr_def parseNullTime_def
        option.map_comp comp_def split: option.splits)
qed

lemma getComponentRelease_new:
  assumes "releases_wf s" and "u \<notin> rl_uuid ` set (tbl_component_release s)" and "clean_release OwnerComponentRelease u s"
  shows "getComponentReleaseTx (with_component_release (release_row_of u p n inp) (rin_Identifiers inp) s) v =
     (if v = u then Inr (imported_component_release u p n inp) else getComponentReleaseTx s v)"
proof -
  let ?t = "with_component_release (release_row_of u p n inp) (rin_Identifiers inp) s"
  have "find_row (\<lambda>r. rl_uuid r = u) (tbl_component_release s) = None" using assms(2) by (auto simp: find_row_None)
  moreover have "filter (\<lambda>d. rd_release d = u) (tbl_distribution s) = []"
    using assms(1,2) by (auto simp: releases_wf_def filter_empty_conv)
  moreover have "tbl_checksum ?t = tbl_checksum s" by (simp add: with_component_release_def)
  then have "getDistributionTx ?t = getDistributionTx s"
    by (intro ext) (simp add: getDistributionTx_def listIdentifiers_with_release listChecksums_def split: option.splits)
  ultimately show ?thesis
    using assms(3)
    by (auto simp: getComponentReleaseTx_def find_row_append listIdentifiers_with_release clean_release_def
        imported_component_release_def release_row_of_def listDistributionsForRelease_def formatTimePtr_def parseNullTime_def
        option.map_comp comp_def split: option.splits sum.splits)
qed

text \<open>An upsert of the row with a given key: that row is there once, the others as they were.\<close>

lemma filter_upsert_same:
  assumes "distinct (map key rows)" and "\<And>r. P r \<longleftrightarrow> key r = k" and "key l = k" and "\<And>r. P r \<Longrightarrow> f r = l"
  shows "filter P (if has_row P rows then update_rows P f rows else rows @ [l]) = [l]"
proof -
  have "filter P (update_rows P f rows) = (if has_row P rows then [l] else [])"
    using assms(1)
  proof (induction rows)
    case (Cons r rows)
    have "\<not> has_row P rows" if "P r" using that Cons.prems assms(2) by (auto simp: image_iff)
    with Cons assms(2-4) show ?case by auto
  qed simp
  moreover have "filter P (rows @ [l]) = [l]" if "\<not> has_row P rows"
    using that assms(2,3) by (auto simp: filter_empty_conv)
  ultimately show ?thesis by simp
qed

lemma filter_upsert_other:
  assumes "\<And>r. P r \<Longrightarrow> \<not> Q r \<and> \<not> Q (f r)" and "\<not> Q l"
  shows "filter Q (if has_row P rows then update_rows P f rows else rows @ [l]) = filter Q rows"
proof -
  have "filter Q (update_rows P f rows) = filter Q rows" using assms(1) by (induction rows) auto
  with assms(2) show ?thesis by simp
qed

lemma map_filter_unpin:
  "map (\<lambda>l. \<lparr>ref_UUID = rc_component l, ref_Release = rc_pinned l\<rparr>) (filter (\<lambda>l. rc_release l = pr)
      (map (\<lambda>l. if rc_pinned l = Some u then l\<lparr>rc_pinned := None\<rparr> else l) rows)) =
   map (\<lambda>ref. if ref_Release ref = Some u then ref\<lparr>ref_Release := None\<rparr> else ref)
      (map (\<lambda>l. \<lparr>ref_UUID = rc_component l, ref_Release = rc_pinned l\<rparr>) (filter (\<lambda>l. rc_release l = pr) rows))"
  by (induction rows) auto

section \<open>Properties\<close>

text \<open>
  C5. Referential integrity of releases: after any history of product, component, release, link and
  distribution operations, failed ones and cascading deletions included, release uuids, component links
  and distribution ids are unique, no uuid names both a product release and a component release, every
  release has its product or component, every component link its product release and its component, every
  pin a component release, and every distribution its component release. Identifiers
  and collections carry no foreign key and are not covered: they outlive a release that is deleted with
  its product (\<open>deleted_product_leaves_release_identifiers\<close>, \<open>deleted_release_keeps_collections\<close>).
\<close>

theorem references_stay_intact:
  assumes "release_reach s"
  shows "releases_wf s"
  using assms by (rule release_reach_wf)

theorem references_stay_intact_witness:
  "releases_wf (snd (DeleteComponent ''c1'' (snd (CreateComponentRelease 0 ''r1'' ''c1''
     \<lparr>rin_Version = ''1'', rin_CreatedDate = 0, rin_ReleaseDate = None, rin_PreRelease = False, rin_Identifiers = []\<rparr>
     (snd (CreateComponent ''c1'' ''lib'' [] empty_db))))))"
proof -
  have "''r1'' \<notin> rl_uuid ` set (tbl_product_release (snd (CreateComponent ''c1'' ''lib'' [] empty_db)))" by code_simp
  then show ?thesis
    by (intro references_stay_intact release_reach.delete_component release_reach.create_component_release
        release_reach.create_component release_reach.start)
qed

text \<open>
  C11. A product release is created together with its first collection: for an existing product, a fresh
  uuid and valid identifiers the call succeeds, the release reads back as given (dates to the second), its
  latest collection is version 1, empty, with reason INITIAL_RELEASE, and no other release or collection
  changes.
\<close>

theorem product_release_created:
  assumes "releases_wf s" and "collection_wf s" and p: "find_row (\<lambda>p. p_uuid p = pu) (tbl_product s) = Some p"
    and fresh: "u \<notin> rl_uuid ` set (tbl_product_release s)" "u \<notin> c_uuid ` set (tbl_collection s)" "clean_release OwnerProductRelease u s"
    and ids: "\<forall>i \<in> set (rin_Identifiers inp). valid_identifier OwnerProductRelease i"
  shows "\<exists>s'. CreateProductRelease now u pu inp s = (Inr (imported_product_release u pu (p_name p) inp), s')
     \<and> GetLatestCollection s' u BelongsToProductRelease =
         Inr \<lparr>coll_UUID = u, coll_Version = 1, coll_CreatedDate = parseTime (formatTime now), coll_BelongsTo = BelongsToProductRelease,
              coll_UpdateReason = Some \<lparr>reason_Type = ''INITIAL_RELEASE'', reason_Comment = []\<rparr>, coll_Artifacts = [],
              coll_EvidenceBundle = None, coll_EvidenceBundleRef = None\<rparr>
     \<and> (\<forall>v. v \<noteq> u \<longrightarrow> getProductReleaseTx s' v = getProductReleaseTx s v)
     \<and> (\<forall>v w bt. v \<noteq> u \<longrightarrow> getCollectionByVersionTx s' v w bt = getCollectionByVersionTx s v w bt)"
proof -
  let ?t = "with_product_release (release_row_of u pu (p_name p) inp) (rin_Identifiers inp) s"
  let ?s' = "with_collection u 1 now BelongsToProductRelease (Some \<lparr>reason_Type = ''INITIAL_RELEASE'', reason_Comment = []\<rparr>) [] ?t"
  have "collection_wf ?t" using assms(2) by (simp add: collection_wf_cong [of ?t s])
  from initial_created [OF this, of BelongsToProductRelease u now] fresh(2)
  have c: "createCollection InTx now u BelongsToProductRelease initial_collection ?t = (Inr \<lparr>coll_UUID = u, coll_Version = 1,
      coll_CreatedDate = parseTime (formatTime now), coll_BelongsTo = BelongsToProductRelease,
      coll_UpdateReason = Some \<lparr>reason_Type = ''INITIAL_RELEASE'', reason_Comment = []\<rparr>, coll_Artifacts = [],
      coll_EvidenceBundle = None, coll_EvidenceBundleRef = None\<rparr>, ?s')" (is "_ = (Inr ?c, _)") by simp
  have get: "getProductReleaseTx ?s' = getProductReleaseTx ?t"
    by (rule getProductRelease_cong) (use createCollection_releases [OF c] in simp_all)
  note new = getProductRelease_new [OF assms(1) fresh(1,3), of pu "p_name p" inp]
  have "CreateProductRelease now u pu inp s = (Inr (imported_product_release u pu (p_name p) inp), ?s')"
    unfolding CreateProductRelease_Inr using p fresh(1) ids c get new by auto
  moreover have "GetLatestCollection ?s' u BelongsToProductRelease = Inr ?c"
    by (rule initial_latest [OF \<open>collection_wf ?t\<close> _ _ c]) (use fresh(2) in simp_all)
  moreover have "getCollectionByVersionTx ?t = getCollectionByVersionTx s"
    by (intro getCollection_cong getArtifact_cong) (simp_all add: with_product_release_def)
  then have "getCollectionByVersionTx ?s' v w bt = getCollectionByVersionTx s v w bt" if "v \<noteq> u" for v w bt
    using that by (simp add: getCollection_other)
  ultimately show ?thesis using get new by auto
qed

text \<open>
  Component releases follow the same rule: for an existing component, a fresh
  uuid and valid identifiers the call succeeds, the release reads back as given (dates to the second), its
  latest collection is version 1, empty, with reason INITIAL_RELEASE, and no other release or collection
  changes.
\<close>

theorem component_release_created:
  assumes "releases_wf s" and "collection_wf s" and p: "find_row (\<lambda>c. co_uuid c = cu) (tbl_component s) = Some p"
    and fresh: "u \<notin> rl_uuid ` set (tbl_component_release s)" "u \<notin> c_uuid ` set (tbl_collection s)" "clean_release OwnerComponentRelease u s"
    and ids: "\<forall>i \<in> set (rin_Identifiers inp). valid_identifier OwnerComponentRelease i"
  shows "\<exists>s'. CreateComponentRelease now u cu inp s = (Inr (imported_component_release u cu (co_name p) inp), s')
     \<and> GetLatestCollection s' u BelongsToComponentRelease =
         Inr \<lparr>coll_UUID = u, coll_Version = 1, coll_CreatedDate = parseTime (formatTime now), coll_BelongsTo = BelongsToComponentRelease,
              coll_UpdateReason = Some \<lparr>reason_Type = ''INITIAL_RELEASE'', reason_Comment = []\<rparr>, coll_Artifacts = [],
              coll_EvidenceBundle = None, coll_EvidenceBundleRef = None\<rparr>
     \<and> (\<forall>v. v \<noteq> u \<longrightarrow> getComponentReleaseTx s' v = getComponentReleaseTx s v)
     \<and> (\<forall>v w bt. v \<noteq> u \<longrightarrow> getCollectionByVersionTx s' v w bt = getCollectionByVersionTx s v w bt)"
proof -
  let ?t = "with_component_release (release_row_of u cu (co_name p) inp) (rin_Identifiers inp) s"
  let ?s' = "with_collection u 1 now BelongsToComponentRelease (Some \<lparr>reason_Type = ''INITIAL_RELEASE'', reason_Comment = []\<rparr>) [] ?t"
  have "collection_wf ?t" using assms(2) by (simp add: collection_wf_cong [of ?t s])
  from initial_created [OF this, of BelongsToComponentRelease u now] fresh(2)
  have c: "createCollection InTx now u BelongsToComponentRelease initial_collection ?t = (Inr \<lparr>coll_UUID = u, coll_Version = 1,
      coll_CreatedDate = parseTime (formatTime now), coll_BelongsTo = BelongsToComponentRelease,
      coll_UpdateReason = Some \<lparr>reason_Type = ''INITIAL_RELEASE'', reason_Comment = []\<rparr>, coll_Artifacts = [],
      coll_EvidenceBundle = None, coll_EvidenceBundleRef = None\<rparr>, ?s')" (is "_ = (Inr ?c, _)") by simp
  have get: "getComponentReleaseTx ?s' = getComponentReleaseTx ?t"
    by (rule getComponentRelease_cong) (use createCollection_releases [OF c] in simp_all)
  note new = getComponentRelease_new [OF assms(1) fresh(1,3), of cu "co_name p" inp]
  have "CreateComponentRelease now u cu inp s = (Inr (imported_component_release u cu (co_name p) inp), ?s')"
    unfolding CreateComponentRelease_Inr using p fresh(1) ids c get new by auto
  moreover have "GetLatestCollection ?s' u BelongsToComponentRelease = Inr ?c"
    by (rule initial_latest [OF \<open>collection_wf ?t\<close> _ _ c]) (use fresh(2) in simp_all)
  moreover have "getCollectionByVersionTx ?t = getCollectionByVersionTx s"
    by (intro getCollection_cong getArtifact_cong) (simp_all add: with_component_release_def)
  then have "getCollectionByVersionTx ?s' v w bt = getCollectionByVersionTx s v w bt" if "v \<noteq> u" for v w bt
    using that by (simp add: getCollection_other)
  ultimately show ?thesis using get new by auto
qed


definition first_release :: "time \<Rightarrow> ReleaseInput" where
  "first_release t = \<lparr>rin_Version = ''1.0'', rin_CreatedDate = t, rin_ReleaseDate = None, rin_PreRelease = False, rin_Identifiers = [purl ''pkg:a'']\<rparr>"

definition alpha_db :: db where
  "alpha_db = snd (CreateComponent ''c1'' ''lib'' [] (snd (CreateProduct ''p1'' ''Alpha'' [] empty_db)))"

lemma alpha_reach: "release_reach alpha_db"
  unfolding alpha_db_def by (intro release_reach.create_component release_reach.create_product release_reach.start)

lemma alpha_tables:
  "tbl_product alpha_db = [\<lparr>p_uuid = ''p1'', p_name = ''Alpha''\<rparr>]" "tbl_component alpha_db = [\<lparr>co_uuid = ''c1'', co_name = ''lib''\<rparr>]"
  "tbl_product_release alpha_db = []" "tbl_component_release alpha_db = []" "tbl_collection alpha_db = []"
  "tbl_collection_artifact alpha_db = []" "tbl_identifier alpha_db = []" "tbl_release_component alpha_db = []"
  by code_simp+

lemma alpha_wf: "collection_wf alpha_db" "clean_release ot u alpha_db"
  by (simp_all add: collection_wf_def clean_release_def listIdentifiers_def alpha_tables)

lemma purl_valid: "valid_identifier OwnerProductRelease (purl v)" "valid_identifier OwnerComponentRelease (purl v)"
  by (simp_all add: valid_identifier_def purl_def identifierOwnerTypes_def identifierTypes_def)

theorem product_release_created_witness:
  "\<exists>s'. CreateProductRelease 5000000000 ''r1'' ''p1'' (first_release 0) alpha_db =
     (Inr (imported_product_release ''r1'' ''p1'' ''Alpha'' (first_release 0)), s')"
  using product_release_created [OF release_reach_wf [OF alpha_reach] alpha_wf(1),
      of "''p1''" "\<lparr>p_uuid = ''p1'', p_name = ''Alpha''\<rparr>" "''r1''" "first_release 0" 5000000000]
  by (auto simp: alpha_tables alpha_wf first_release_def purl_valid)

theorem component_release_created_witness:
  "\<exists>s'. CreateComponentRelease 5000000000 ''r1'' ''c1'' (first_release 0) alpha_db =
     (Inr (imported_component_release ''r1'' ''c1'' ''lib'' (first_release 0)), s')"
  using component_release_created [OF release_reach_wf [OF alpha_reach] alpha_wf(1),
      of "''c1''" "\<lparr>co_uuid = ''c1'', co_name = ''lib''\<rparr>" "''r1''" "first_release 0" 5000000000]
  by (auto simp: alpha_tables alpha_wf first_release_def purl_valid)

definition release_content :: "ImportReleaseInput \<Rightarrow> uuid \<times> string \<times> time \<times> time option \<times> bool \<times> Identifier set" where
  "release_content inp = (irel_Parent inp, rin_Version (irel_Release inp), rin_CreatedDate (irel_Release inp),
     rin_ReleaseDate (irel_Release inp), rin_PreRelease (irel_Release inp), set (rin_Identifiers (irel_Release inp)))"

definition whole_seconds :: "ReleaseInput \<Rightarrow> bool" where
  "whole_seconds inp \<longleftrightarrow> parseTime (formatTime (rin_CreatedDate inp)) = rin_CreatedDate inp
     \<and> (case rin_ReleaseDate inp of None \<Rightarrow> True | Some t \<Rightarrow> parseTime (formatTime t) = t)"

text \<open>
  Importing a product release is idempotent, never a merge, and keeps the two kinds of release apart:
  after an import of a release with whole-second dates, importing it again changes nothing, importing
  different content under its uuid is an identity conflict, and the uuid cannot be taken by a component
  release.
\<close>

theorem ImportProductRelease_idempotent:
  assumes "releases_wf s" and "clean_release OwnerProductRelease (irel_UUID inp) s \<or> irel_UUID inp \<in> rl_uuid ` set (tbl_product_release s)"
    and "whole_seconds (irel_Release inp)" and "ImportProductRelease conn inp s = (Inr b, s')"
  shows "ImportProductRelease conn inp s' = (Inr False, s')
     \<and> (\<forall>inp'. irel_UUID inp' = irel_UUID inp \<and> release_content inp' \<noteq> release_content inp \<longrightarrow>
          ImportProductRelease conn inp' s' = (Inl ErrImportIdentityConflict, s'))
     \<and> (\<forall>inp'. irel_UUID inp' = irel_UUID inp \<longrightarrow> ImportComponentRelease conn inp' s' = (Inl ErrCrossTypeUUIDReuse, s'))"
proof -
  obtain x where x: "getProductReleaseTx s' (irel_UUID inp) = Inr x" "\<not> productReleaseConflicts x inp"
    and no: "irel_UUID inp \<notin> rl_uuid ` set (tbl_component_release s')"
  proof (cases "getProductReleaseTx s (irel_UUID inp)")
    case (Inl e)
    then have u: "irel_UUID inp \<notin> rl_uuid ` set (tbl_product_release s)" by (simp add: getProductRelease_Inl)
    with assms(2) have clean: "clean_release OwnerProductRelease (irel_UUID inp) s" by simp
    from assms(4) Inl have s': "s' = with_product_release (release_row_of (irel_UUID inp) (irel_Parent inp) (irel_ParentName inp) (irel_Release inp))
        (rin_Identifiers (irel_Release inp)) s" "irel_UUID inp \<notin> rl_uuid ` set (tbl_component_release s)"
      by (simp_all add: ImportProductRelease_Inr)
    show thesis
      by (rule that [of "imported_product_release (irel_UUID inp) (irel_Parent inp) (irel_ParentName inp) (irel_Release inp)"])
         (use getProductRelease_new [OF assms(1) u clean] s' assms(3) in
           \<open>auto simp: productReleaseConflicts_def imported_product_release_def whole_seconds_def split: option.splits\<close>)
  next
    case (Inr x)
    with assms(4) have "s' = s" "\<not> productReleaseConflicts x inp" by (simp_all add: ImportProductRelease_Inr)
    moreover have "irel_UUID inp \<in> rl_uuid ` set (tbl_product_release s)"
      using Inr getProductRelease_Inl [of s "irel_UUID inp" ErrNotFound] by auto
    ultimately show thesis using Inr assms(1) by (intro that [of x]) (auto simp: releases_wf_def)
  qed
  have "productReleaseConflicts x inp'" if "release_content inp' \<noteq> release_content inp" for inp'
    using x(2) that by (auto simp: productReleaseConflicts_def release_content_def)
  moreover have "existsProductReleaseTx s' (irel_UUID inp)"
    using x(1) getProductRelease_Inl [of s' "irel_UUID inp" ErrNotFound] by (auto simp: existsProductReleaseTx_def)
  moreover have "getComponentReleaseTx s' (irel_UUID inp) = Inl ErrNotFound" using no by (simp add: getComponentRelease_Inl)
  ultimately show ?thesis
    using x by (cases conn) (auto simp: ImportProductRelease_def ImportComponentRelease_def runInTx_def)
qed

definition import_first :: "time \<Rightarrow> ImportReleaseInput" where
  "import_first t = \<lparr>irel_UUID = ''r1'', irel_Parent = ''p1'', irel_ParentName = ''Alpha'', irel_Release = first_release t\<rparr>"

lemma import_first_ok:
  "ImportProductRelease Pool (import_first t) alpha_db =
     (Inr True, with_product_release (release_row_of ''r1'' ''p1'' ''Alpha'' (first_release t)) [purl ''pkg:a''] alpha_db)"
  by (simp add: ImportProductRelease_Inr import_first_def getProductReleaseTx_def alpha_tables first_release_def purl_valid)

theorem ImportProductRelease_idempotent_witness:
  "\<exists>s'. ImportProductRelease Pool (import_first 0) alpha_db = (Inr True, s')
     \<and> ImportProductRelease Pool (import_first 0) s' = (Inr False, s')
     \<and> ImportProductRelease Pool (import_first 1000000000) s' = (Inl ErrImportIdentityConflict, s')
     \<and> ImportComponentRelease Pool (import_first 0) s' = (Inl ErrCrossTypeUUIDReuse, s')"
proof -
  have "whole_seconds (irel_Release (import_first 0))"
    by (simp add: whole_seconds_def import_first_def first_release_def parseTime_def formatTime_def)
  moreover have "irel_UUID (import_first 1000000000) = irel_UUID (import_first 0)"
    "release_content (import_first 1000000000) \<noteq> release_content (import_first 0)"
    by (simp_all add: import_first_def release_content_def first_release_def)
  ultimately show ?thesis
    using ImportProductRelease_idempotent [OF release_reach_wf [OF alpha_reach] disjI1 [OF alpha_wf(2)] _ import_first_ok [of 0]] import_first_ok [of 0]
    by blast
qed

text \<open>
  Linking a component pins it: the release then lists the component exactly once, with the given pin,
  keeps its other components in order, and has a new revision (so a cached copy is stale); other releases
  read as before. A link imported from a bundle never replaces an existing pin.
\<close>

theorem LinkComponent_pins:
  assumes "releases_wf s" and "LinkComponent conn u ref s = (Inr x, s')"
  shows "filter (\<lambda>r. ref_UUID r = ref_UUID ref) (prel_Components x) = [ref]
     \<and> filter (\<lambda>r. ref_UUID r \<noteq> ref_UUID ref) (prel_Components x) =
         filter (\<lambda>r. ref_UUID r \<noteq> ref_UUID ref) (listProductReleaseComponents s u)
     \<and> (\<exists>n. getProductReleaseRevisionTx s u = Inr n \<and> getProductReleaseRevisionTx s' u = Inr (n + 1))
     \<and> (\<forall>v. v \<noteq> u \<longrightarrow> getProductReleaseTx s' v = getProductReleaseTx s v)
     \<and> (\<forall>ref'. ref_UUID ref' = ref_UUID ref \<longrightarrow> ImportComponentLink conn u ref' s' =
          ((if ref_Release ref' = ref_Release ref then Inr () else Inl ErrImportIdentityConflict), s'))"
proof -
  let ?l = "\<lparr>rc_release = u, rc_component = ref_UUID ref, rc_pinned = ref_Release ref\<rparr>"
  from assms(2) have ok: "link_ok s ?l" and s': "s' = with_link ?l s" and get: "getProductReleaseTx s' u = Inr x"
    unfolding LinkComponent_Inr by blast+
  have links: "tbl_release_component s' = (if has_row (is_link u (ref_UUID ref)) (tbl_release_component s)
      then update_rows (is_link u (ref_UUID ref)) (\<lambda>old. old\<lparr>rc_pinned := ref_Release ref\<rparr>) (tbl_release_component s)
      else tbl_release_component s @ [?l])"
    by (simp add: s' with_link_def bump_product_release_def)
  have rels: "tbl_product_release s' = update_rows (\<lambda>r. rl_uuid r = u) (\<lambda>r. r\<lparr>rl_revision := rl_revision r + 1\<rparr>) (tbl_product_release s)"
    "tbl_identifier s' = tbl_identifier s"
    by (simp_all add: s' with_link_def bump_product_release_def)
  have comps: "prel_Components x = listProductReleaseComponents s' u"
    using get by (auto simp: getProductReleaseTx_def split: option.splits)
  have one: "filter (is_link u (ref_UUID ref)) (tbl_release_component s') = [?l]"
    unfolding links using assms(1)
    by (intro filter_upsert_same [of "\<lambda>l. (rc_release l, rc_component l)" _ _ "(u, ref_UUID ref)"]) (auto simp: releases_wf_def is_link_def)
  have refs: "filter (\<lambda>r. Q (ref_UUID r)) (listProductReleaseComponents t v) =
      map (\<lambda>l. \<lparr>ref_UUID = rc_component l, ref_Release = rc_pinned l\<rparr>) (filter (\<lambda>l. rc_release l = v \<and> Q (rc_component l)) (tbl_release_component t))"
    for Q t v by (simp add: listProductReleaseComponents_def filter_map comp_def conj_commute)
  have other: "filter (\<lambda>l. rc_release l = v \<and> Q (rc_component l)) (tbl_release_component s') =
      filter (\<lambda>l. rc_release l = v \<and> Q (rc_component l)) (tbl_release_component s)" if "v \<noteq> u \<or> \<not> Q (ref_UUID ref)" for v Q
    unfolding links using that by (intro filter_upsert_other) (auto simp: is_link_def)
  have "filter (\<lambda>r. ref_UUID r = ref_UUID ref) (prel_Components x) = [ref]"
    unfolding comps using refs [of "\<lambda>c. c = ref_UUID ref" s' u] one by (simp add: is_link_def [abs_def])
  moreover have "filter (\<lambda>r. ref_UUID r \<noteq> ref_UUID ref) (prel_Components x) =
      filter (\<lambda>r. ref_UUID r \<noteq> ref_UUID ref) (listProductReleaseComponents s u)"
    unfolding comps using refs [of "\<lambda>c. c \<noteq> ref_UUID ref"] other [of u "\<lambda>c. c \<noteq> ref_UUID ref"] by simp
  moreover have "\<exists>n. getProductReleaseRevisionTx s u = Inr n \<and> getProductReleaseRevisionTx s' u = Inr (n + 1)"
    using ok by (auto simp: getProductReleaseRevisionTx_def rels find_row_update_rows split: option.splits
        dest: find_row_SomeD simp: find_row_None)
  moreover have "getProductReleaseTx s' v = getProductReleaseTx s v" if "v \<noteq> u" for v
  proof -
    have "find_row (\<lambda>r. rl_uuid r = v) (tbl_product_release s') = find_row (\<lambda>r. rl_uuid r = v) (tbl_product_release s)"
      unfolding rels using that by (auto simp: find_row_update_rows option.map_id0 dest: find_row_SomeD intro!: map_option_idI)
    then show ?thesis
      using refs [of "\<lambda>_. True"] other [of v "\<lambda>_. True"] that rels(2)
      by (simp add: getProductReleaseTx_def listIdentifiers_def split: option.splits)
  qed
  moreover have "ImportComponentLink conn u ref' s' =
      ((if ref_Release ref' = ref_Release ref then Inr () else Inl ErrImportIdentityConflict), s')" if "ref_UUID ref' = ref_UUID ref" for ref'
  proof -
    have "find_row (is_link u (ref_UUID ref)) (tbl_release_component s') = Some ?l"
      using find_row_filter_same [of "is_link u (ref_UUID ref)" "is_link u (ref_UUID ref)" "tbl_release_component s'"] one
      by (simp add: is_link_def)
    with that show ?thesis by (cases conn) (auto simp: ImportComponentLink_def runInTx_def)
  qed
  ultimately show ?thesis by blast
qed

definition pinned_db :: db where
  "pinned_db = snd (LinkComponent Pool ''r1'' \<lparr>ref_UUID = ''c1'', ref_Release = Some ''cr1''\<rparr>
     (snd (CreateComponentRelease 0 ''cr1'' ''c1'' (first_release 0) (snd (CreateProductRelease 0 ''r1'' ''p1'' (first_release 0) alpha_db)))))"

lemma pinned_reach: "release_reach pinned_db"
proof -
  have "''r1'' \<notin> rl_uuid ` set (tbl_component_release alpha_db)" by (simp add: alpha_tables)
  then have r: "release_reach (snd (CreateProductRelease 0 ''r1'' ''p1'' (first_release 0) alpha_db))"
    by (rule release_reach.create_product_release [OF alpha_reach])
  have "''cr1'' \<notin> rl_uuid ` set (tbl_product_release (snd (CreateProductRelease 0 ''r1'' ''p1'' (first_release 0) alpha_db)))" by code_simp
  then show ?thesis
    unfolding pinned_db_def by (intro release_reach.link_component release_reach.create_component_release r)
qed

theorem LinkComponent_pins_witness:
  "\<exists>x s'. LinkComponent Pool ''r1'' \<lparr>ref_UUID = ''c1'', ref_Release = None\<rparr> pinned_db = (Inr x, s')
     \<and> filter (\<lambda>r. ref_UUID r = ''c1'') (prel_Components x) = [\<lparr>ref_UUID = ''c1'', ref_Release = None\<rparr>]"
proof -
  have "case fst (LinkComponent Pool ''r1'' \<lparr>ref_UUID = ''c1'', ref_Release = None\<rparr> pinned_db) of Inl _ \<Rightarrow> False | Inr _ \<Rightarrow> True"
    by code_simp
  then obtain x where x: "LinkComponent Pool ''r1'' \<lparr>ref_UUID = ''c1'', ref_Release = None\<rparr> pinned_db =
      (Inr x, snd (LinkComponent Pool ''r1'' \<lparr>ref_UUID = ''c1'', ref_Release = None\<rparr> pinned_db))"
    by (auto simp: prod_eq_iff split: sum.splits)
  from LinkComponent_pins [OF release_reach_wf [OF pinned_reach] x] x show ?thesis by auto
qed

text \<open>
  Deleting a component release removes it and its distributions, and every product release that had
  pinned it keeps the component with the pin gone; nothing else in the lists of components changes.
\<close>

theorem DeleteComponentRelease_unpins:
  assumes "DeleteComponentRelease u s = (Inr (), s')"
  shows "getComponentReleaseTx s' u = Inl ErrNotFound
     \<and> (\<forall>v. v \<noteq> u \<longrightarrow> existsComponentReleaseTx s' v = existsComponentReleaseTx s v)
     \<and> (\<forall>d. \<not> (\<exists>x \<in> set (tbl_distribution s). rd_id x = d \<and> rd_release x \<noteq> u) \<longrightarrow> getDistributionTx s' d = Inl ErrNotFound)
     \<and> (\<forall>pr. listProductReleaseComponents s' pr =
          map (\<lambda>ref. if ref_Release ref = Some u then ref\<lparr>ref_Release := None\<rparr> else ref) (listProductReleaseComponents s pr))"
proof -
  let ?unpin = "\<lambda>l. if rc_pinned l = Some u then l\<lparr>rc_pinned := None\<rparr> else l"
  from assms have u: "u \<in> rl_uuid ` set (tbl_component_release s)"
    and s': "s' = bumpWatermark WatermarkComponentReleases (deleteOwnerScoped OwnerComponentRelease u (delete_component_releases (\<lambda>r. rl_uuid r = u) s))"
    by (simp_all add: DeleteComponentRelease_Inr)
  have gone: "x \<in> rl_uuid ` {r \<in> set (tbl_component_release s). rl_uuid r = u} \<longleftrightarrow> x = u"
    "x \<in> (\<lambda>_. u) ` {r \<in> set (tbl_component_release s). rl_uuid r = u} \<longleftrightarrow> x = u" for x
    using u by auto
  have rels: "tbl_component_release s' = delete_rows (\<lambda>r. rl_uuid r = u) (tbl_component_release s)"
    by (simp add: s')
  have dists: "tbl_distribution s' = delete_rows (\<lambda>d. rd_release d = u) (tbl_distribution s)"
    unfolding s' by (simp add: delete_component_releases_def deleteOwnerScoped_def delete_cle_events_def bumpCLERevision_def
        Let_def gone)
  let ?dead = "\<lambda>l. case rc_pinned l of None \<Rightarrow> False | Some x \<Rightarrow> List.member (map rl_uuid (filter (\<lambda>r. rl_uuid r = u) (tbl_component_release s))) x"
  have dead: "?dead = (\<lambda>l. rc_pinned l = Some u)"
    by (intro ext) (simp add: gone split: option.splits)
  have raw: "tbl_release_component s' = update_rows ?dead (\<lambda>l. l\<lparr>rc_pinned := None\<rparr>) (tbl_release_component s)"
    unfolding s' delete_component_releases_def Let_def
    by (simp only: bumpWatermark_frame) (simp add: deleteOwnerScoped_def delete_cle_events_def bumpCLERevision_def Let_def)
  from raw [unfolded dead] have links: "tbl_release_component s' = map ?unpin (tbl_release_component s)" by (simp add: update_rows_def)
  have "getComponentReleaseTx s' u = Inl ErrNotFound" by (auto simp: getComponentRelease_Inl rels)
  moreover have "existsComponentReleaseTx s' v = existsComponentReleaseTx s v" if "v \<noteq> u" for v
    using that by (auto simp: existsComponentReleaseTx_def rels)
  moreover have "getDistributionTx s' d = Inl ErrNotFound" if "\<not> (\<exists>x \<in> set (tbl_distribution s). rd_id x = d \<and> rd_release x \<noteq> u)" for d
    using that by (auto simp: getDistribution_Inl dists)
  moreover have "listProductReleaseComponents s' pr =
      map (\<lambda>ref. if ref_Release ref = Some u then ref\<lparr>ref_Release := None\<rparr> else ref) (listProductReleaseComponents s pr)" for pr
    unfolding listProductReleaseComponents_def links by (rule map_filter_unpin)
  ultimately show ?thesis by blast
qed

theorem DeleteComponentRelease_unpins_witness:
  "listProductReleaseComponents (snd (DeleteComponentRelease ''cr1'' pinned_db)) ''r1'' = [\<lparr>ref_UUID = ''c1'', ref_Release = None\<rparr>]"
proof -
  have "has_row (\<lambda>r. rl_uuid r = ''cr1'') (tbl_component_release pinned_db)" by code_simp
  then have d: "DeleteComponentRelease ''cr1'' pinned_db = (Inr (), snd (DeleteComponentRelease ''cr1'' pinned_db))"
    unfolding DeleteComponentRelease_Inr has_row_key by (simp add: DeleteComponentRelease_def runInTx_def bindR_def execR_def has_row_key del: has_row_iff)
  have l: "listProductReleaseComponents pinned_db ''r1'' = [\<lparr>ref_UUID = ''c1'', ref_Release = Some ''cr1''\<rparr>]" by code_simp
  have "listProductReleaseComponents (snd (DeleteComponentRelease ''cr1'' pinned_db)) ''r1'' =
      map (\<lambda>ref. if ref_Release ref = Some ''cr1'' then ref\<lparr>ref_Release := None\<rparr> else ref) (listProductReleaseComponents pinned_db ''r1'')"
    using DeleteComponentRelease_unpins [OF d] by blast
  then show ?thesis unfolding l by simp
qed

section \<open>What the release operations leave behind\<close>

text \<open>Deleting a release keeps its collections: they have no foreign key to it.\<close>

lemma deleted_release_keeps_collections:
  "DeleteComponentRelease u s = (Inr (), s') \<Longrightarrow> tbl_collection s' = tbl_collection s"
  "DeleteProductRelease u s = (Inr (), s') \<Longrightarrow> tbl_collection s' = tbl_collection s"
  by (simp_all add: DeleteComponentRelease_Inr DeleteProductRelease_Inr delete_component_releases_def delete_product_releases_def Let_def)

text \<open>
  Deleting a product takes its releases along but not their identifiers: a release imported again under
  its old uuid starts with them.
\<close>

lemma deleted_product_leaves_release_identifiers:
  assumes "DeleteProduct p s = (Inr (), s')" and "releases_wf s" and "r \<in> set (tbl_product_release s)" and "rl_parent r = p"
  shows "getProductReleaseTx s' (rl_uuid r) = Inl ErrNotFound"
    and "listIdentifiers s' OwnerProductRelease (rl_uuid r) = listIdentifiers s OwnerProductRelease (rl_uuid r)"
proof -
  from assms(1) have s': "s' = bumpWatermark WatermarkProducts (deleteOwnerScoped OwnerProduct p (delete_product p s))"
    by (simp add: DeleteProduct_Inr)
  have "x = r" if "x \<in> set (tbl_product_release s)" "rl_uuid x = rl_uuid r" for x
    using that assms(2,3) by (auto simp: releases_wf_def distinct_map inj_on_def)
  with assms(4) show "getProductReleaseTx s' (rl_uuid r) = Inl ErrNotFound"
    by (auto simp: getProductRelease_Inl s')
  show "listIdentifiers s' OwnerProductRelease (rl_uuid r) = listIdentifiers s OwnerProductRelease (rl_uuid r)"
    unfolding s' listIdentifiers_def by (intro arg_cong [of _ _ "map _"]) (simp add: filter_delete_rows, rule filter_cong, auto)
qed

text \<open>Deleting a product does not touch the watermark that the release listings' ETags are made of.\<close>

lemma deleted_product_keeps_release_watermark:
  "DeleteProduct u s = (Inr (), s') \<Longrightarrow> getWatermark s' WatermarkProductReleases = getWatermark s WatermarkProductReleases"
  by (auto simp: DeleteProduct_Inr getWatermark_def bumpWatermark_def)

text \<open>Every upload to a distribution adds a checksum; the earlier ones stay.\<close>

lemma upload_accumulates_checksums:
  assumes "SetDistributionFile conn i url sha s = (Inr d, s')"
  shows "dist_Checksums d = listChecksums s OwnerDistribution i @ [\<lparr>AlgType = ''SHA-256'', AlgValue = sha\<rparr>]"
proof -
  have g: "dist_Checksums d = listChecksums s' OwnerDistribution i" if "getDistributionTx s' i = Inr d"
    using that by (auto simp: getDistributionTx_def split: option.splits)
  from assms have "getDistributionTx s' i = Inr d"
    "tbl_checksum s' = tbl_checksum s @ [\<lparr>ck_owner_type = OwnerDistribution, ck_owner = i, ck_alg_type = ''SHA-256'', ck_alg_value = sha\<rparr>]"
    by (auto simp: SetDistributionFile_def bump_component_release_def split: if_splits)
  with g show ?thesis by (simp add: listChecksums_def)
qed

section \<open>The listings as page sources\<close>

text \<open>The cursor value of a release (\<open>internal/api/sortvalue.go\<close>); the empty text for a missing date.\<close>

definition formatSortTime :: "time \<Rightarrow> string" where
  "formatSortTime t = timeText (formatTime t)"

definition productReleaseSortValue :: "ProductRelease \<Rightarrow> string \<Rightarrow> string" where
  "productReleaseSortValue pr sortField =
     (if sortField = ''releaseDate'' then (case prel_ReleaseDate pr of Some d \<Rightarrow> formatSortTime d | None \<Rightarrow> [])
      else if sortField = ''version'' then prel_Version pr
      else formatSortTime (prel_CreatedDate pr))"

definition componentReleaseSortValue :: "ComponentRelease \<Rightarrow> string \<Rightarrow> string" where
  "componentReleaseSortValue cr sortField =
     (if sortField = ''releaseDate'' then (case crel_ReleaseDate cr of Some d \<Rightarrow> formatSortTime d | None \<Rightarrow> [])
      else if sortField = ''version'' then crel_Version cr
      else formatSortTime (crel_CreatedDate cr))"

text \<open>A release row as its query reports it.\<close>

definition scanProductRelease :: "db \<Rightarrow> release_row \<Rightarrow> ProductRelease" where
  "scanProductRelease s r =
     \<lparr>prel_UUID = rl_uuid r, prel_Product = rl_parent r, prel_ProductName = null_str (rl_parent_name r),
      prel_Version = rl_version r, prel_CreatedDate = parseTime (rl_created_date r),
      prel_ReleaseDate = parseNullTime (rl_release_date r), prel_PreRelease = Some (rl_pre_release r),
      prel_Identifiers = listIdentifiers s OwnerProductRelease (rl_uuid r),
      prel_Components = listProductReleaseComponents s (rl_uuid r)\<rparr>"

lemma getProductRelease_row:
  assumes "releases_wf s" and "r \<in> set (tbl_product_release s)"
  shows "getProductReleaseTx s (rl_uuid r) = Inr (scanProductRelease s r)"
proof -
  have "find_row (\<lambda>x. rl_uuid x = rl_uuid r) (tbl_product_release s) = Some r"
    using assms by (intro find_row_key) (auto simp: releases_wf_def)
  then show ?thesis by (simp add: getProductReleaseTx_def scanProductRelease_def)
qed

text \<open>The sort fields whose column is never NULL.\<close>

definition total_sort :: "string \<Rightarrow> bool" where
  "total_sort sortField \<longleftrightarrow> sortField = [] \<or> sortField = ''createdDate'' \<or> sortField = ''version''"

definition sort_key_of :: "string \<Rightarrow> release_row \<Rightarrow> string" where
  "sort_key_of sortField r = (if sortField = ''version'' then rl_version r else timeText (rl_created_date r))"

definition product_release_listing :: "uuid \<Rightarrow> string \<Rightarrow> string \<Rightarrow> db \<Rightarrow> ProductRelease list" where
  "product_release_listing p sortField sortOrder s =
     map (scanProductRelease s) (orderByClause sortOrder (\<lambda>r. Some (sort_key_of sortField r)) rl_uuid
       (filter (\<lambda>r. rl_parent r = p) (tbl_product_release s)))"

lemma pageRows_subset: "set (pageRows ord key uid cur n rows) \<subseteq> set rows"
  by (auto simp: pageRows_def dest!: in_set_takeD)

lemma queryProductReleaseUUIDs_rows:
  assumes "releases_wf s"
  shows "queryProductReleaseUUIDs s sel key ord cur n =
     Inr (map (scanProductRelease s) (pageRows ord key rl_uuid (map_option cursorValue cur) n (filter sel (tbl_product_release s))))"
proof -
  let ?rows = "pageRows ord key rl_uuid (map_option cursorValue cur) n (filter sel (tbl_product_release s))"
  have "mapE (\<lambda>r. getProductReleaseTx s (rl_uuid r)) ?rows = Inr (map (scanProductRelease s) ?rows)"
    using pageRows_subset [of ord key rl_uuid "map_option cursorValue cur" n "filter sel (tbl_product_release s)"]
    by (intro mapE_total getProductRelease_row assms) auto
  moreover have "mapE f (map g xs) = mapE (\<lambda>x. f (g x)) xs" for f :: "uuid \<Rightarrow> repo_error + ProductRelease" and g :: "release_row \<Rightarrow> uuid" and xs
    by (induction xs) (auto split: sum.splits)
  ultimately show ?thesis by (simp add: queryProductReleaseUUIDs_def)
qed

lemma ListProductReleases_rows:
  assumes "releases_wf s" and "total_sort sortField"
  shows "ListProductReleasesByProduct s p sortField ord cur n =
     Inr (map (scanProductRelease s) (pageRows ord (\<lambda>r. Some (sort_key_of sortField r)) rl_uuid (map_option cursorValue cur) n
       (filter (\<lambda>r. rl_parent r = p) (tbl_product_release s))))"
proof -
  have "productReleaseSortColumn sortField = Inr (\<lambda>r. Some (sort_key_of sortField r))"
    using assms(2) by (auto simp: total_sort_def productReleaseSortColumn_def releaseSortColumn_def sort_key_of_def)
  then show ?thesis by (simp add: ListProductReleasesByProduct_def queryProductReleaseUUIDs_rows [OF assms(1)])
qed

lemma sortValue_row:
  "total_sort sortField \<Longrightarrow> productReleaseSortValue (scanProductRelease s r) sortField = sort_key_of sortField r"
  by (auto simp: total_sort_def productReleaseSortValue_def scanProductRelease_def sort_key_of_def formatSortTime_def)

interpretation kpr: keyset_source "\<lambda>s. releases_wf s \<and> total_sort sortField"
  "\<lambda>s. ListProductReleasesByProduct s p sortField sortOrder" "product_release_listing p sortField sortOrder"
  "\<lambda>pr. nameCursor sortField sortOrder' scope (productReleaseSortValue pr sortField) (prel_UUID pr)"
  for p sortField sortOrder sortOrder' scope
proof unfold_locales
  fix s :: db and n :: int
  assume "releases_wf s \<and> total_sort sortField"
  then show "ListProductReleasesByProduct s p sortField sortOrder None n = Inr (take (nat n) (product_release_listing p sortField sortOrder s))"
    by (simp add: ListProductReleases_rows product_release_listing_def pageRows_first take_map)
next
  fix s xs r ys c and n :: int
  assume inv: "releases_wf s \<and> total_sort sortField"
    and L: "product_release_listing p sortField sortOrder s = xs @ r # ys"
    and c: "same_position c (nameCursor sortField sortOrder' scope (productReleaseSortValue r sortField) (prel_UUID r))"
  have "distinct (map rl_uuid (tbl_product_release s))" using inv by (simp add: releases_wf_def)
  from mapped_page_resume [OF this L [unfolded product_release_listing_def], of "\<lambda>pr. productReleaseSortValue pr sortField" prel_UUID n]
  have "map (scanProductRelease s) (pageRows sortOrder (\<lambda>r. Some (sort_key_of sortField r)) rl_uuid
      (Some (productReleaseSortValue r sortField, prel_UUID r)) n (filter (\<lambda>r. rl_parent r = p) (tbl_product_release s))) = take (nat n) ys"
    using inv sortValue_row [of sortField s] by (simp add: scanProductRelease_def)
  with c inv show "ListProductReleasesByProduct s p sortField sortOrder (Some c) n = Inr (take (nat n) ys)"
    by (simp add: ListProductReleases_rows cursorValue_def same_position_def nameCursor_def)
qed

text \<open>
  Ordered by release date, a resumed page compares with the NULL of an undated release, which SQL never
  finds true: no page but the first ever shows one.
\<close>

lemma undated_releases_lost:
  assumes "releases_wf s" and "ListProductReleasesByProduct s p ''releaseDate'' ord (Some c) n = Inr rels" and "x \<in> set rels"
  shows "prel_ReleaseDate x \<noteq> None"
proof -
  have "rels = map (scanProductRelease s) (pageRows ord (\<lambda>r. map_option timeText (rl_release_date r)) rl_uuid (Some (cursorValue c)) n
      (filter (\<lambda>r. rl_parent r = p) (tbl_product_release s)))"
    using assms(1,2) by (simp add: ListProductReleasesByProduct_def productReleaseSortColumn_def releaseSortColumn_def queryProductReleaseUUIDs_rows)
  with assms(3) obtain r where "x = scanProductRelease s r" "whereClause ord (Some (cursorValue c)) (map_option timeText (rl_release_date r)) (rl_uuid r)"
    by (auto simp: pageRows_def dest!: in_set_takeD)
  then show ?thesis by (auto simp: whereClause_def scanProductRelease_def cursorValue_def split: option.splits)
qed

end
