(* ===== verification/Authz.thy ===== *)
theory Authz
  imports "HOL-Library.Product_Lexorder" "HOL-Library.Multiset" Schema
begin

text \<open>
  The policy engine of \<open>internal/authz\<close>: the types of \<open>types.go\<close> and the evaluation of
  \<open>engine.go\<close>. The engine ranks the candidate rules a \<open>Store\<close> returns; the locale \<open>policy_store\<close>
  is that interface, and the theory \<open>AuthzStore\<close> interprets it on the repository's queries.

  The abstract policy \<open>permits\<close> says what the specification says (the narrowest resource scope
  first, then the narrowest subject, a deny wins there, nothing applicable is a deny) without the
  passes of the code; \<open>decide_candidates\<close> is proved to implement it.
\<close>

section \<open>Types\<close>

type_synonym Capability = string
type_synonym ArtifactType = string
type_synonym SubjectType = string

abbreviation SubjectEveryone :: SubjectType where "SubjectEveryone \<equiv> ''everyone''"
abbreviation SubjectAuthenticated :: SubjectType where "SubjectAuthenticated \<equiv> ''authenticated''"
abbreviation SubjectPrincipal :: SubjectType where "SubjectPrincipal \<equiv> ''principal''"

record Principal =
  UserUUID :: uuid

definition IsAuthenticated :: "Principal \<Rightarrow> bool" where
  "IsAuthenticated p \<longleftrightarrow> UserUUID p \<noteq> []"

datatype ResourceScopeType =
    ScopeAllProducts
  | ScopeProductGroup
  | ScopeProduct
  | ScopeReleaseGroup
  | ScopeProductRelease
  | ScopeCollection
  | ScopeArtifact

text \<open>The value \<open>iota\<close> gives each constant; the Go type is compared by it.\<close>

primrec scope_iota :: "ResourceScopeType \<Rightarrow> nat" where
  "scope_iota ScopeAllProducts = 0"
| "scope_iota ScopeProductGroup = 1"
| "scope_iota ScopeProduct = 2"
| "scope_iota ScopeReleaseGroup = 3"
| "scope_iota ScopeProductRelease = 4"
| "scope_iota ScopeCollection = 5"
| "scope_iota ScopeArtifact = 6"

lemma scope_iota_inj [simp]: "scope_iota a = scope_iota b \<longleftrightarrow> a = b"
  by (cases a; cases b) simp_all

instantiation ResourceScopeType :: linorder
begin

definition less_eq_ResourceScopeType :: "ResourceScopeType \<Rightarrow> ResourceScopeType \<Rightarrow> bool" where
  "less_eq_ResourceScopeType a b \<longleftrightarrow> scope_iota a \<le> scope_iota b"

definition less_ResourceScopeType :: "ResourceScopeType \<Rightarrow> ResourceScopeType \<Rightarrow> bool" where
  "less_ResourceScopeType a b \<longleftrightarrow> scope_iota a < scope_iota b"

instance
  by standard (auto simp: less_eq_ResourceScopeType_def less_ResourceScopeType_def)

end

lemmas scope_order_defs = less_eq_ResourceScopeType_def less_ResourceScopeType_def

record Resource =
  ProductUUID :: uuid
  ProductReleaseUUID :: uuid
  ComponentUUID :: uuid
  ComponentReleaseUUID :: uuid
  CollectionUUID :: uuid
  ArtifactUUID :: uuid
  ResArtifactType :: ArtifactType

datatype ReasonCode = ReasonNone | ReasonNoApplicableRule | ReasonExplicitDeny | ReasonExplicitAllow

record Decision =
  Allowed :: bool
  Reason :: ReasonCode
  MatchedEntitlementUUID :: uuid
  MatchedTemplateUUID :: uuid
  MatchedTemplateRevision :: int
  DecResourceScope :: ResourceScopeType
  DecSubjectType :: SubjectType

text \<open>The zero value of the struct, which the literals of the code start from.\<close>

definition zeroDecision :: Decision where
  "zeroDecision =
     \<lparr>Allowed = False, Reason = ReasonNone, MatchedEntitlementUUID = [], MatchedTemplateUUID = [],
      MatchedTemplateRevision = 0, DecResourceScope = ScopeAllProducts, DecSubjectType = []\<rparr>"

section \<open>The engine\<close>

record CandidateRule =
  cand_EntitlementUUID :: uuid
  cand_TemplateUUID :: uuid
  cand_TemplateRevision :: int
  cand_ResourceScope :: ResourceScopeType
  cand_SubjectType :: SubjectType
  cand_Decision :: string

definition subjectRank :: "SubjectType \<Rightarrow> nat" where
  "subjectRank st =
     (if st = SubjectPrincipal then 2 else if st = SubjectAuthenticated then 1 else 0)"

text \<open>The two passes share their shape: the maximum of a key, then the rules that reach it.\<close>

definition at_max :: "('c \<Rightarrow> 'k::linorder) \<Rightarrow> 'c list \<Rightarrow> 'c list" where
  "at_max key cs =
     (let m = foldl (\<lambda>m c. if key c > m then key c else m) (key (hd cs)) (tl cs)
      in filter (\<lambda>c. key c = m) cs)"

definition narrowestByResourceScope :: "CandidateRule list \<Rightarrow> CandidateRule list" where
  "narrowestByResourceScope candidates = at_max cand_ResourceScope candidates"

definition narrowestBySubject :: "CandidateRule list \<Rightarrow> CandidateRule list" where
  "narrowestBySubject candidates = at_max (\<lambda>c. subjectRank (cand_SubjectType c)) candidates"

definition decisionFrom :: "CandidateRule \<Rightarrow> bool \<Rightarrow> ReasonCode \<Rightarrow> Decision" where
  "decisionFrom c allowed reason =
     \<lparr>Allowed = allowed, Reason = reason, MatchedEntitlementUUID = cand_EntitlementUUID c,
      MatchedTemplateUUID = cand_TemplateUUID c, MatchedTemplateRevision = cand_TemplateRevision c,
      DecResourceScope = cand_ResourceScope c, DecSubjectType = cand_SubjectType c\<rparr>"

text \<open>\<open>Decide\<close> after its call to the store, and the whole of it.\<close>

definition decide_candidates :: "CandidateRule list \<Rightarrow> Decision" where
  "decide_candidates candidates =
     (if candidates = [] then zeroDecision\<lparr>Allowed := False, Reason := ReasonNoApplicableRule\<rparr>
      else let final = narrowestBySubject (narrowestByResourceScope candidates)
           in case find_row (\<lambda>c. cand_Decision c = ''deny'') final of
                Some c \<Rightarrow> decisionFrom c False ReasonExplicitDeny
              | None \<Rightarrow> decisionFrom (hd final) True ReasonExplicitAllow)"

definition Decide ::
  "(Principal \<Rightarrow> Capability \<Rightarrow> Resource \<Rightarrow> 'e + CandidateRule list) \<Rightarrow>
   Principal \<Rightarrow> Capability \<Rightarrow> Resource \<Rightarrow> ('e option \<times> Decision)" where
  "Decide rules subject capability resource =
     (case rules subject capability resource of
        Inl e \<Rightarrow> (Some e, zeroDecision)
      | Inr candidates \<Rightarrow> (None, decide_candidates candidates))"

section \<open>The policy it implements\<close>

text \<open>How specific a rule is: its resource scope first, its subject second.\<close>

definition specificity :: "CandidateRule \<Rightarrow> ResourceScopeType \<times> nat" where
  "specificity c = (cand_ResourceScope c, subjectRank (cand_SubjectType c))"

definition most_specific :: "CandidateRule set \<Rightarrow> CandidateRule set" where
  "most_specific C = {c \<in> C. \<forall>d \<in> C. specificity d \<le> specificity c}"

definition permits :: "CandidateRule set \<Rightarrow> bool" where
  "permits C \<longleftrightarrow> C \<noteq> {} \<and> (\<forall>c \<in> most_specific C. cand_Decision c \<noteq> ''deny'')"

section \<open>Lemmas\<close>

lemma foldl_key_max:
  fixes key :: "'c \<Rightarrow> 'k::linorder"
  shows "foldl (\<lambda>m c. if key c > m then key c else m) m cs = Max (insert m (key ` set cs))"
proof (induction cs arbitrary: m)
  case Nil
  then show ?case by simp
next
  case (Cons c cs)
  have "foldl (\<lambda>m c. if key c > m then key c else m) m (c # cs) =
      Max (insert (max m (key c)) (key ` set cs))"
    by (simp add: Cons.IH max_def)
  also have "\<dots> = Max (insert m (key ` set (c # cs)))"
    by (cases "set cs = {}") (simp_all add: max.assoc)
  finally show ?case .
qed

lemma at_max_set:
  fixes key :: "'c \<Rightarrow> 'k::linorder"
  assumes "cs \<noteq> []"
  shows "set (at_max key cs) = {c \<in> set cs. \<forall>d \<in> set cs. key d \<le> key c}"
proof -
  have "insert (key (hd cs)) (key ` set (tl cs)) = key ` set cs" using assms by (cases cs) auto
  then have *: "set (at_max key cs) = {c \<in> set cs. key c = Max (key ` set cs)}"
    by (simp add: at_max_def foldl_key_max Let_def)
  have "key c = Max (key ` set cs) \<longleftrightarrow> (\<forall>d \<in> set cs. key d \<le> key c)" if "c \<in> set cs" for c
    using that assms by (auto intro!: Max_eqI [symmetric])
  with * show ?thesis by auto
qed

lemma at_max_ne: "cs \<noteq> [] \<Longrightarrow> at_max key cs \<noteq> []"
  for key :: "'c \<Rightarrow> 'k::linorder"
proof -
  assume ne: "cs \<noteq> []"
  then have "Max (key ` set cs) \<in> key ` set cs" by (intro Max_in) auto
  then obtain c where "c \<in> set cs" "key c = Max (key ` set cs)" by auto
  with ne have "c \<in> set (at_max key cs)" by (auto simp: at_max_set)
  then show ?thesis by auto
qed

lemma final_tier:
  assumes "cs \<noteq> []"
  shows "set (narrowestBySubject (narrowestByResourceScope cs)) = most_specific (set cs)"
    and "narrowestBySubject (narrowestByResourceScope cs) \<noteq> []"
proof -
  let ?s = "narrowestByResourceScope cs"
  have s: "set ?s = {c \<in> set cs. \<forall>d \<in> set cs. cand_ResourceScope d \<le> cand_ResourceScope c}"
    unfolding narrowestByResourceScope_def by (rule at_max_set [OF assms])
  have ne: "?s \<noteq> []" using assms by (simp add: narrowestByResourceScope_def at_max_ne)
  then show "narrowestBySubject ?s \<noteq> []" by (simp add: narrowestBySubject_def at_max_ne)
  have "set (narrowestBySubject ?s) =
      {c \<in> set ?s. \<forall>d \<in> set ?s. subjectRank (cand_SubjectType d) \<le> subjectRank (cand_SubjectType c)}"
    unfolding narrowestBySubject_def by (rule at_max_set [OF ne])
  also have "\<dots> = most_specific (set cs)"
    unfolding s most_specific_def specificity_def
    by (auto simp: order_le_less dest: leD) (metis order_le_less leD order_trans)+
  finally show "set (narrowestBySubject ?s) = most_specific (set cs)" .
qed

lemma most_specific_ne: "cs \<noteq> [] \<Longrightarrow> most_specific (set cs) \<noteq> {}"
  using final_tier [of cs] by fastforce

lemma most_specific_empty [simp]: "most_specific {} = {}"
  by (simp add: most_specific_def)

lemma most_specific_sub: "most_specific C \<subseteq> C"
  by (auto simp: most_specific_def)

lemma decide_cases:
  assumes "cs \<noteq> []"
  obtains (deny) c where "c \<in> most_specific (set cs)" "cand_Decision c = ''deny''"
      "decide_candidates cs = decisionFrom c False ReasonExplicitDeny"
    | (allow) c where "c \<in> most_specific (set cs)" "\<forall>d \<in> most_specific (set cs). cand_Decision d \<noteq> ''deny''"
      "decide_candidates cs = decisionFrom c True ReasonExplicitAllow"
proof -
  let ?f = "narrowestBySubject (narrowestByResourceScope cs)"
  note tier = final_tier [OF assms]
  show thesis
  proof (cases "find_row (\<lambda>c. cand_Decision c = ''deny'') ?f")
    case None
    with tier have "\<forall>d \<in> most_specific (set cs). cand_Decision d \<noteq> ''deny''" by (simp add: find_row_None)
    moreover have "hd ?f \<in> most_specific (set cs)" using tier by (metis list.set_sel(1))
    ultimately show thesis using assms None by (intro allow) (auto simp: decide_candidates_def Let_def)
  next
    case (Some c)
    with tier have "c \<in> most_specific (set cs)" "cand_Decision c = ''deny''"
      by (auto dest: find_row_SomeD)
    then show thesis using assms Some by (intro deny) (auto simp: decide_candidates_def Let_def)
  qed
qed

lemma decisionFrom_simps [simp]:
  "Allowed (decisionFrom c a r) = a" "Reason (decisionFrom c a r) = r"
  "MatchedEntitlementUUID (decisionFrom c a r) = cand_EntitlementUUID c"
  "DecSubjectType (decisionFrom c a r) = cand_SubjectType c"
  "DecResourceScope (decisionFrom c a r) = cand_ResourceScope c"
  by (simp_all add: decisionFrom_def)

lemma decide_no_candidates [simp]:
  "decide_candidates [] = zeroDecision\<lparr>Reason := ReasonNoApplicableRule\<rparr>"
  by (simp add: decide_candidates_def zeroDecision_def)

lemma decide_allowed_iff: "Allowed (decide_candidates cs) \<longleftrightarrow> permits (set cs)"
proof (cases "cs = []")
  case True
  then show ?thesis by (simp add: permits_def zeroDecision_def)
next
  case False
  then show ?thesis by (cases rule: decide_cases) (auto simp: permits_def)
qed

lemma decide_reason_iff:
  "Reason (decide_candidates cs) =
     (if cs = [] then ReasonNoApplicableRule
      else if permits (set cs) then ReasonExplicitAllow else ReasonExplicitDeny)"
proof (cases "cs = []")
  case False
  then show ?thesis by (cases rule: decide_cases) (auto simp: permits_def)
qed simp

text \<open>A rule less specific than another one has no effect on the outcome.\<close>

lemma permits_insert_broader:
  assumes "d \<in> C" and "specificity c < specificity d"
  shows "permits (insert c C) \<longleftrightarrow> permits C"
proof -
  have "most_specific (insert c C) = most_specific C"
    using assms unfolding most_specific_def by (auto simp del: less_prod_simp less_eq_prod_simp)
  with assms show ?thesis by (auto simp: permits_def)
qed

text \<open>Adding a rule that denies never grants what was denied before.\<close>

lemma permits_insert_deny:
  assumes "cand_Decision c = ''deny''" and "permits (insert c C)"
  shows "permits C"
proof -
  have "c \<notin> most_specific (insert c C)" using assms by (auto simp: permits_def)
  then obtain d where d: "d \<in> C" "specificity c < specificity d"
    by (auto simp: most_specific_def not_le simp del: less_prod_simp less_eq_prod_simp)
  with assms(2) permits_insert_broader [OF d] show ?thesis by simp
qed

section \<open>The store as an interface\<close>

text \<open>
  What \<open>Decide\<close> relies on: under the store's invariant, a candidate rule speaks about a subject type
  that applies to the caller, and says allow or deny.
\<close>

definition subject_types :: "Principal \<Rightarrow> SubjectType list" where
  "subject_types p =
     (if IsAuthenticated p then [SubjectEveryone, SubjectAuthenticated, SubjectPrincipal]
      else [SubjectEveryone])"

locale policy_store =
  fixes inv :: "'s \<Rightarrow> bool"
    and rules :: "'s \<Rightarrow> Principal \<Rightarrow> Capability \<Rightarrow> Resource \<Rightarrow> 'e + CandidateRule list"
  assumes rules_subject: "rules s p cap res = Inr cs \<Longrightarrow> c \<in> set cs \<Longrightarrow>
            cand_SubjectType c \<in> set (subject_types p)"
    and rules_decision: "inv s \<Longrightarrow> rules s p cap res = Inr cs \<Longrightarrow> c \<in> set cs \<Longrightarrow>
            cand_Decision c = ''allow'' \<or> cand_Decision c = ''deny''"
begin

lemma decide_fails_closed: "rules s p cap res = Inl e \<Longrightarrow> Decide (rules s) p cap res = (Some e, zeroDecision)"
  by (simp add: Decide_def)

lemma allowed_has_rule:
  assumes "inv s" and "Decide (rules s) p cap res = (err, d)" and "Allowed d"
  obtains cs c where "rules s p cap res = Inr cs" "err = None" "c \<in> most_specific (set cs)"
    "cand_Decision c = ''allow''" "d = decisionFrom c True ReasonExplicitAllow"
proof (cases "rules s p cap res")
  case (Inl e)
  with assms show thesis by (auto simp: Decide_def zeroDecision_def)
next
  case (Inr cs)
  with assms(2) have e: "err = None" and d: "d = decide_candidates cs" by (auto simp: Decide_def)
  with assms(3) have "cs \<noteq> []" by (auto simp: zeroDecision_def)
  then show thesis
  proof (cases rule: decide_cases)
    case (deny c)
    with d assms(3) show thesis by simp
  next
    case (allow c)
    have "c \<in> set cs" using allow(1) most_specific_sub by blast
    with rules_decision [OF assms(1) Inr] allow have "cand_Decision c = ''allow''" by blast
    with Inr e d allow show thesis by (intro that [of cs c]) auto
  qed
qed

lemma anonymous_only_everyone:
  assumes "inv s" and "\<not> IsAuthenticated p" and "Decide (rules s) p cap res = (err, d)" and "Allowed d"
  shows "DecSubjectType d = SubjectEveryone"
proof -
  obtain cs c where "rules s p cap res = Inr cs" "c \<in> most_specific (set cs)"
    "d = decisionFrom c True ReasonExplicitAllow"
    using allowed_has_rule [OF assms(1,3,4)] by metis
  with rules_subject [of s p cap res cs c] most_specific_sub assms(2) show ?thesis
    by (auto simp: subject_types_def)
qed

end

end
