(* ===== verification/AuthzStore.thy ===== *)
theory AuthzStore
  imports Authz
begin

text \<open>
  The repository's implementation of the policy engine's store (\<open>internal/repo/authzstore.go\<close>): the
  one query every tier goes through, the expansion of a resource through the scopes that contain
  it, and the interpretation of \<open>policy_store\<close> on it.

  The contract of \<open>authz.Store.CandidateRules\<close> is the inductive predicate \<open>covers\<close> (which scopes
  contain a resource) with \<open>applicable\<close> (which entitlements speak to a caller now); the queries are
  proved to return exactly the rules they describe. The instant \<open>now\<close> is one argument for all the
  queries of a call.
\<close>

section \<open>The query\<close>

definition subjectTypeArgs :: "Principal \<Rightarrow> string list" where
  "subjectTypeArgs subject =
     (if IsAuthenticated subject then [SubjectEveryone, SubjectAuthenticated, SubjectPrincipal]
      else [SubjectEveryone])"

text \<open>The WHERE clause, by the table its conditions read.\<close>

definition entitlement_selected ::
  "time \<Rightarrow> Principal \<Rightarrow> string \<Rightarrow> uuid \<Rightarrow> entitlement_row \<Rightarrow> bool" where
  "entitlement_selected now subject resourceType resourceID e \<longleftrightarrow>
     e_resource_type e = resourceType
     \<and> (e_resource_type e = ''all_products'' \<or> sql_eq (e_resource_id e) (Some resourceID))
     \<and> e_status e = ''active''
     \<and> (case e_valid_from e of None \<Rightarrow> True | Some t \<Rightarrow> t \<le> formatTime now)
     \<and> (case e_valid_until e of None \<Rightarrow> True | Some t \<Rightarrow> t \<ge> formatTime now)
     \<and> List.member (subjectTypeArgs subject) (e_subject_type e)
     \<and> (e_subject_type e \<noteq> ''principal'' \<or> sql_eq (e_subject_id e) (Some (UserUUID subject)))"

definition rule_selected :: "Capability \<Rightarrow> ArtifactType \<Rightarrow> template_rule_row \<Rightarrow> bool" where
  "rule_selected capability artifactType r \<longleftrightarrow>
     tc_capability r = capability
     \<and> (tc_artifact_type r = None \<or> sql_eq (tc_artifact_type r) (nullIfEmpty artifactType))"

definition scanCandidate :: "ResourceScopeType \<Rightarrow> entitlement_row \<Rightarrow> template_rule_row \<Rightarrow> CandidateRule" where
  "scanCandidate scope e r =
     \<lparr>cand_EntitlementUUID = e_uuid e, cand_TemplateUUID = e_template e,
      cand_TemplateRevision = e_template_revision e, cand_ResourceScope = scope,
      cand_SubjectType = e_subject_type e, cand_Decision = tc_decision r\<rparr>"

definition candidateRulesAtScope ::
  "db \<Rightarrow> time \<Rightarrow> Principal \<Rightarrow> Capability \<Rightarrow> ArtifactType \<Rightarrow> ResourceScopeType \<Rightarrow> string \<Rightarrow> uuid \<Rightarrow>
   CandidateRule list" where
  "candidateRulesAtScope s now subject capability artifactType scope resourceType resourceID =
     concat (map (\<lambda>e.
        map (scanCandidate scope e)
          (filter (\<lambda>r. tc_template r = e_template e \<and> tc_revision r = e_template_revision e
                        \<and> rule_selected capability artifactType r)
             (tbl_template_rule s)))
        (filter (entitlement_selected now subject resourceType resourceID) (tbl_entitlement s)))"

section \<open>The expansions\<close>

definition ListProductGroupsContaining :: "db \<Rightarrow> uuid \<Rightarrow> uuid list" where
  "ListProductGroupsContaining s productUUID =
     map fst (filter (\<lambda>m. snd m = productUUID) (tbl_product_group_member s))"

definition ListReleaseGroupsContaining :: "db \<Rightarrow> uuid \<Rightarrow> uuid list" where
  "ListReleaseGroupsContaining s releaseUUID =
     map fst (filter (\<lambda>m. snd m = releaseUUID) (tbl_release_group_member s))"

definition listCollectionsContainingArtifact :: "db \<Rightarrow> uuid \<Rightarrow> uuid list" where
  "listCollectionsContainingArtifact s artifactUUID =
     remdups (map ca_uuid (filter (\<lambda>ca. ca_artifact ca = artifactUUID) (tbl_collection_artifact s)))"

definition candidateRulesForComponent ::
  "db \<Rightarrow> time \<Rightarrow> Principal \<Rightarrow> Capability \<Rightarrow> uuid \<Rightarrow> ArtifactType \<Rightarrow> CandidateRule list" where
  "candidateRulesForComponent s now subject capability componentUUID artifactType =
     candidateRulesAtScope s now subject capability artifactType ScopeAllProducts ''all_products'' []
     @ candidateRulesAtScope s now subject capability artifactType ScopeProduct ''component'' componentUUID"

definition candidateRulesForComponentRelease ::
  "db \<Rightarrow> time \<Rightarrow> Principal \<Rightarrow> Capability \<Rightarrow> uuid \<Rightarrow> ArtifactType \<Rightarrow> repo_error + CandidateRule list" where
  "candidateRulesForComponentRelease s now subject capability releaseUUID artifactType =
     (case find_row (\<lambda>r. rl_uuid r = releaseUUID) (tbl_component_release s) of
        None \<Rightarrow> Inl ErrNotFound
      | Some row \<Rightarrow> Inr
          (candidateRulesForComponent s now subject capability (rl_parent row) artifactType
           @ candidateRulesAtScope s now subject capability artifactType ScopeProductRelease
               ''component_release'' releaseUUID))"

definition candidateRulesForProduct ::
  "db \<Rightarrow> time \<Rightarrow> Principal \<Rightarrow> Capability \<Rightarrow> uuid \<Rightarrow> ArtifactType \<Rightarrow> CandidateRule list" where
  "candidateRulesForProduct s now subject capability productUUID artifactType =
     candidateRulesAtScope s now subject capability artifactType ScopeAllProducts ''all_products'' []
     @ concat (map (\<lambda>g. candidateRulesAtScope s now subject capability artifactType
                          ScopeProductGroup ''product_group'' g)
                (ListProductGroupsContaining s productUUID))
     @ candidateRulesAtScope s now subject capability artifactType ScopeProduct ''product'' productUUID"

definition candidateRulesForRelease ::
  "db \<Rightarrow> time \<Rightarrow> Principal \<Rightarrow> Capability \<Rightarrow> uuid \<Rightarrow> ArtifactType \<Rightarrow> repo_error + CandidateRule list" where
  "candidateRulesForRelease s now subject capability releaseUUID artifactType =
     (case find_row (\<lambda>r. rl_uuid r = releaseUUID) (tbl_product_release s) of
        None \<Rightarrow> Inl ErrNotFound
      | Some row \<Rightarrow> Inr
          (candidateRulesForProduct s now subject capability (rl_parent row) artifactType
           @ concat (map (\<lambda>g. candidateRulesAtScope s now subject capability artifactType
                                ScopeReleaseGroup ''release_group'' g)
                      (ListReleaseGroupsContaining s releaseUUID))
           @ candidateRulesAtScope s now subject capability artifactType ScopeProductRelease
               ''product_release'' releaseUUID))"

definition candidateRulesForCollection ::
  "db \<Rightarrow> time \<Rightarrow> Principal \<Rightarrow> Capability \<Rightarrow> uuid \<Rightarrow> ArtifactType \<Rightarrow> repo_error + CandidateRule list" where
  "candidateRulesForCollection s now subject capability collectionUUID artifactType =
     (case find_row (\<lambda>c. c_uuid c = collectionUUID) (tbl_collection s) of
        None \<Rightarrow> Inl ErrNotFound
      | Some c \<Rightarrow>
          (case (if c_belongs_to c = ''PRODUCT_RELEASE''
                 then candidateRulesForRelease s now subject capability collectionUUID artifactType
                 else candidateRulesForComponentRelease s now subject capability collectionUUID artifactType)
           of Inl err \<Rightarrow> Inl err
            | Inr releaseCandidates \<Rightarrow> Inr
                (releaseCandidates
                 @ candidateRulesAtScope s now subject capability artifactType ScopeCollection
                     ''collection'' collectionUUID)))"

text \<open>The loop over the collections, which skips a collection that is not found.\<close>

fun collectionsLoop ::
  "(uuid \<Rightarrow> repo_error + CandidateRule list) \<Rightarrow> uuid list \<Rightarrow> CandidateRule list \<Rightarrow>
   repo_error + CandidateRule list" where
  "collectionsLoop rulesFor [] out = Inr out"
| "collectionsLoop rulesFor (c # cs) out =
     (case rulesFor c of
        Inl err \<Rightarrow> if err = ErrNotFound then collectionsLoop rulesFor cs out else Inl err
      | Inr candidates \<Rightarrow> collectionsLoop rulesFor cs (out @ candidates))"

definition candidateRulesForArtifact ::
  "db \<Rightarrow> time \<Rightarrow> Principal \<Rightarrow> Capability \<Rightarrow> Resource \<Rightarrow> repo_error + CandidateRule list" where
  "candidateRulesForArtifact s now subject capability resource =
     (let out = candidateRulesAtScope s now subject capability (ResArtifactType resource)
                  ScopeAllProducts ''all_products'' []
                @ candidateRulesAtScope s now subject capability (ResArtifactType resource)
                    ScopeArtifact ''artifact'' (ArtifactUUID resource);
          collectionUUIDs =
            (if CollectionUUID resource = []
             then listCollectionsContainingArtifact s (ArtifactUUID resource)
             else [CollectionUUID resource])
      in collectionsLoop
           (\<lambda>c. candidateRulesForCollection s now subject capability c (ResArtifactType resource))
           collectionUUIDs out)"

definition CandidateRules ::
  "db \<Rightarrow> time \<Rightarrow> Principal \<Rightarrow> Capability \<Rightarrow> Resource \<Rightarrow> repo_error + CandidateRule list" where
  "CandidateRules s now subject capability resource =
     (if ArtifactUUID resource \<noteq> [] then candidateRulesForArtifact s now subject capability resource
      else if CollectionUUID resource \<noteq> []
      then candidateRulesForCollection s now subject capability (CollectionUUID resource) (ResArtifactType resource)
      else if ProductReleaseUUID resource \<noteq> []
      then candidateRulesForRelease s now subject capability (ProductReleaseUUID resource) (ResArtifactType resource)
      else if ProductUUID resource \<noteq> []
      then Inr (candidateRulesForProduct s now subject capability (ProductUUID resource) (ResArtifactType resource))
      else if ComponentReleaseUUID resource \<noteq> []
      then candidateRulesForComponentRelease s now subject capability (ComponentReleaseUUID resource) (ResArtifactType resource)
      else if ComponentUUID resource \<noteq> []
      then Inr (candidateRulesForComponent s now subject capability (ComponentUUID resource) (ResArtifactType resource))
      else Inl (ErrOther ''authz: Resource has no identifying field set''))"

section \<open>The contract\<close>

text \<open>What a check is against, once the dispatch on the resource's fields is done.\<close>

datatype target =
    TProduct uuid
  | TRelease uuid
  | TComponent uuid
  | TComponentRelease uuid
  | TCollection uuid
  | TArtifact uuid "uuid option"

definition target_of :: "Resource \<Rightarrow> target option" where
  "target_of r =
     (if ArtifactUUID r \<noteq> [] then Some (TArtifact (ArtifactUUID r) (nullIfEmpty (CollectionUUID r)))
      else if CollectionUUID r \<noteq> [] then Some (TCollection (CollectionUUID r))
      else if ProductReleaseUUID r \<noteq> [] then Some (TRelease (ProductReleaseUUID r))
      else if ProductUUID r \<noteq> [] then Some (TProduct (ProductUUID r))
      else if ComponentReleaseUUID r \<noteq> [] then Some (TComponentRelease (ComponentReleaseUUID r))
      else if ComponentUUID r \<noteq> [] then Some (TComponent (ComponentUUID r))
      else None)"

text \<open>A target whose rows exist; the queries report \<open>ErrNotFound\<close> for any other.\<close>

definition release_exists :: "uuid \<Rightarrow> release_row list \<Rightarrow> bool" where
  "release_exists u rows \<longleftrightarrow> has_row (\<lambda>r. rl_uuid r = u) rows"

fun resolvable :: "db \<Rightarrow> target \<Rightarrow> bool" where
  "resolvable s (TProduct _) = True"
| "resolvable s (TComponent _) = True"
| "resolvable s (TRelease r) = release_exists r (tbl_product_release s)"
| "resolvable s (TComponentRelease r) = release_exists r (tbl_component_release s)"
| "resolvable s (TCollection c) =
     (case find_row (\<lambda>x. c_uuid x = c) (tbl_collection s) of
        None \<Rightarrow> False
      | Some x \<Rightarrow> if c_belongs_to x = ''PRODUCT_RELEASE'' then release_exists c (tbl_product_release s)
                  else release_exists c (tbl_component_release s))"
| "resolvable s (TArtifact _ _) = True"

declare resolvable.simps [simp del]

inductive covers :: "db \<Rightarrow> target \<Rightarrow> ResourceScopeType \<Rightarrow> string \<Rightarrow> uuid \<Rightarrow> bool" for s where
  all_products: "covers s t ScopeAllProducts ''all_products'' []"
| product_group: "(g, p) \<in> set (tbl_product_group_member s) \<Longrightarrow>
    covers s (TProduct p) ScopeProductGroup ''product_group'' g"
| product: "covers s (TProduct p) ScopeProduct ''product'' p"
| component: "covers s (TComponent c) ScopeProduct ''component'' c"
| of_product: "find_row (\<lambda>x. rl_uuid x = r) (tbl_product_release s) = Some row \<Longrightarrow>
    covers s (TProduct (rl_parent row)) sc rt ri \<Longrightarrow> covers s (TRelease r) sc rt ri"
| release_group: "(g, r) \<in> set (tbl_release_group_member s) \<Longrightarrow>
    covers s (TRelease r) ScopeReleaseGroup ''release_group'' g"
| release: "covers s (TRelease r) ScopeProductRelease ''product_release'' r"
| of_component: "find_row (\<lambda>x. rl_uuid x = r) (tbl_component_release s) = Some row \<Longrightarrow>
    covers s (TComponent (rl_parent row)) sc rt ri \<Longrightarrow> covers s (TComponentRelease r) sc rt ri"
| component_release: "covers s (TComponentRelease r) ScopeProductRelease ''component_release'' r"
| of_release: "find_row (\<lambda>x. c_uuid x = c) (tbl_collection s) = Some row \<Longrightarrow>
    c_belongs_to row = ''PRODUCT_RELEASE'' \<Longrightarrow> covers s (TRelease c) sc rt ri \<Longrightarrow>
    covers s (TCollection c) sc rt ri"
| of_component_release: "find_row (\<lambda>x. c_uuid x = c) (tbl_collection s) = Some row \<Longrightarrow>
    c_belongs_to row \<noteq> ''PRODUCT_RELEASE'' \<Longrightarrow> covers s (TComponentRelease c) sc rt ri \<Longrightarrow>
    covers s (TCollection c) sc rt ri"
| collection: "covers s (TCollection c) ScopeCollection ''collection'' c"
| artifact: "covers s (TArtifact a c) ScopeArtifact ''artifact'' a"
| of_known_collection: "resolvable s (TCollection c) \<Longrightarrow> covers s (TCollection c) sc rt ri \<Longrightarrow>
    covers s (TArtifact a (Some c)) sc rt ri"
| of_some_collection: "ca \<in> set (tbl_collection_artifact s) \<Longrightarrow> ca_artifact ca = a \<Longrightarrow>
    resolvable s (TCollection (ca_uuid ca)) \<Longrightarrow> covers s (TCollection (ca_uuid ca)) sc rt ri \<Longrightarrow>
    covers s (TArtifact a None) sc rt ri"

inductive_simps covers_product: "covers s (TProduct p) sc rt ri"
inductive_simps covers_component: "covers s (TComponent c) sc rt ri"
inductive_simps covers_release: "covers s (TRelease r) sc rt ri"
inductive_simps covers_component_release: "covers s (TComponentRelease r) sc rt ri"
inductive_simps covers_collection: "covers s (TCollection c) sc rt ri"
inductive_simps covers_artifact: "covers s (TArtifact a c) sc rt ri"

definition applicable :: "time \<Rightarrow> Principal \<Rightarrow> entitlement_row \<Rightarrow> bool" where
  "applicable now subject e \<longleftrightarrow>
     e_status e = ''active''
     \<and> (\<forall>t. e_valid_from e = Some t \<longrightarrow> t \<le> formatTime now)
     \<and> (\<forall>t. e_valid_until e = Some t \<longrightarrow> formatTime now \<le> t)
     \<and> (e_subject_type e = SubjectEveryone
        \<or> (IsAuthenticated subject
           \<and> (e_subject_type e = SubjectAuthenticated
              \<or> (e_subject_type e = SubjectPrincipal \<and> e_subject_id e = Some (UserUUID subject)))))"

definition speaks_to :: "Capability \<Rightarrow> ArtifactType \<Rightarrow> entitlement_row \<Rightarrow> template_rule_row \<Rightarrow> bool" where
  "speaks_to capability artifactType e r \<longleftrightarrow>
     tc_template r = e_template e \<and> tc_revision r = e_template_revision e \<and> tc_capability r = capability
     \<and> (tc_artifact_type r = None \<or> (artifactType \<noteq> [] \<and> tc_artifact_type r = Some artifactType))"

definition granted_at :: "entitlement_row \<Rightarrow> string \<Rightarrow> uuid \<Rightarrow> bool" where
  "granted_at e resourceType resourceID \<longleftrightarrow>
     e_resource_type e = resourceType \<and> (resourceType = ''all_products'' \<or> e_resource_id e = Some resourceID)"

definition candidates_for ::
  "db \<Rightarrow> time \<Rightarrow> Principal \<Rightarrow> Capability \<Rightarrow> ArtifactType \<Rightarrow> target \<Rightarrow> CandidateRule set" where
  "candidates_for s now subject capability artifactType t =
     {scanCandidate sc e r | sc rt ri e r.
        covers s t sc rt ri \<and> e \<in> set (tbl_entitlement s) \<and> r \<in> set (tbl_template_rule s)
        \<and> granted_at e rt ri \<and> applicable now subject e \<and> speaks_to capability artifactType e r}"

section \<open>The queries implement the contract\<close>

lemma release_exists_iff: "release_exists u rows \<longleftrightarrow> find_row (\<lambda>r. rl_uuid r = u) rows \<noteq> None"
  by (auto simp: release_exists_def find_None_iff)

lemma selected_iff:
  "entitlement_selected now p rt ri e \<longleftrightarrow> granted_at e rt ri \<and> applicable now p e"
  by (auto simp: entitlement_selected_def granted_at_def applicable_def subjectTypeArgs_def
      split: option.splits if_splits)

lemma rule_selected_iff:
  "tc_template r = e_template e \<and> tc_revision r = e_template_revision e \<and> rule_selected cap at r \<longleftrightarrow>
     speaks_to cap at e r"
  by (auto simp: rule_selected_def speaks_to_def nullIfEmpty_def)

definition tier ::
  "db \<Rightarrow> time \<Rightarrow> Principal \<Rightarrow> Capability \<Rightarrow> ArtifactType \<Rightarrow> ResourceScopeType \<Rightarrow> string \<Rightarrow> uuid \<Rightarrow>
   CandidateRule set" where
  "tier s now p cap at sc rt ri =
     {scanCandidate sc e r | e r. e \<in> set (tbl_entitlement s) \<and> r \<in> set (tbl_template_rule s)
        \<and> granted_at e rt ri \<and> applicable now p e \<and> speaks_to cap at e r}"

lemma atScope_set:
  "set (candidateRulesAtScope s now p cap at sc rt ri) = tier s now p cap at sc rt ri"
  unfolding candidateRulesAtScope_def tier_def selected_iff rule_selected_iff by auto

lemma in_candidates:
  "x \<in> candidates_for s now p cap at t \<longleftrightarrow>
     (\<exists>sc rt ri. covers s t sc rt ri \<and> x \<in> tier s now p cap at sc rt ri)"
  unfolding candidates_for_def tier_def by blast

lemmas candidates_unfold = in_candidates conj_disj_distribR ex_disj_distrib

lemma component_candidates:
  "set (candidateRulesForComponent s now p cap c at) = candidates_for s now p cap at (TComponent c)"
  by (rule set_eqI) (simp add: candidates_unfold covers_component candidateRulesForComponent_def atScope_set)

lemma product_candidates:
  "set (candidateRulesForProduct s now p cap u at) = candidates_for s now p cap at (TProduct u)"
  by (rule set_eqI)
     (force simp: candidates_unfold covers_product candidateRulesForProduct_def atScope_set ListProductGroupsContaining_def)

lemma component_release_candidates:
  assumes "candidateRulesForComponentRelease s now p cap u at = Inr cs"
  shows "set cs = candidates_for s now p cap at (TComponentRelease u)"
proof -
  obtain row where row: "find_row (\<lambda>r. rl_uuid r = u) (tbl_component_release s) = Some row"
    using assms by (auto simp: candidateRulesForComponentRelease_def split: option.splits)
  have "candidates_for s now p cap at (TComponentRelease u) =
      candidates_for s now p cap at (TComponent (rl_parent row))
      \<union> tier s now p cap at ScopeProductRelease ''component_release'' u"
    using row by (intro set_eqI) (auto simp: candidates_unfold covers_component_release covers_component)
  moreover have "cs = candidateRulesForComponent s now p cap (rl_parent row) at
      @ candidateRulesAtScope s now p cap at ScopeProductRelease ''component_release'' u"
    using assms row by (simp add: candidateRulesForComponentRelease_def)
  ultimately show ?thesis by (simp add: component_candidates atScope_set)
qed

lemma release_candidates:
  assumes "candidateRulesForRelease s now p cap u at = Inr cs"
  shows "set cs = candidates_for s now p cap at (TRelease u)"
proof -
  obtain row where row: "find_row (\<lambda>r. rl_uuid r = u) (tbl_product_release s) = Some row"
    using assms by (auto simp: candidateRulesForRelease_def split: option.splits)
  have "candidates_for s now p cap at (TRelease u) =
      candidates_for s now p cap at (TProduct (rl_parent row))
      \<union> (\<Union>g \<in> {g. (g, u) \<in> set (tbl_release_group_member s)}. tier s now p cap at ScopeReleaseGroup ''release_group'' g)
      \<union> tier s now p cap at ScopeProductRelease ''product_release'' u"
    using row by (intro set_eqI) (auto simp: candidates_unfold covers_release; blast intro: covers.all_products)
  moreover have "cs = candidateRulesForProduct s now p cap (rl_parent row) at
      @ concat (map (\<lambda>g. candidateRulesAtScope s now p cap at ScopeReleaseGroup ''release_group'' g)
          (ListReleaseGroupsContaining s u))
      @ candidateRulesAtScope s now p cap at ScopeProductRelease ''product_release'' u"
    using assms row by (simp add: candidateRulesForRelease_def)
  moreover have "set (ListReleaseGroupsContaining s u) = {g. (g, u) \<in> set (tbl_release_group_member s)}"
    by (force simp: ListReleaseGroupsContaining_def)
  ultimately show ?thesis by (simp add: product_candidates atScope_set Un_assoc)
qed

lemma collection_candidates:
  assumes "candidateRulesForCollection s now p cap u at = Inr cs"
  shows "set cs = candidates_for s now p cap at (TCollection u)"
proof -
  obtain row where row: "find_row (\<lambda>c. c_uuid c = u) (tbl_collection s) = Some row"
    using assms by (auto simp: candidateRulesForCollection_def split: option.splits)
  let ?t = "if c_belongs_to row = ''PRODUCT_RELEASE'' then TRelease u else TComponentRelease u"
  have "candidates_for s now p cap at (TCollection u) =
      candidates_for s now p cap at ?t \<union> tier s now p cap at ScopeCollection ''collection'' u"
    using row by (intro set_eqI) (auto simp: candidates_unfold covers_collection intro: covers.all_products)
  moreover obtain rs where "cs = rs @ candidateRulesAtScope s now p cap at ScopeCollection ''collection'' u"
    and "set rs = candidates_for s now p cap at ?t"
    using assms row unfolding candidateRulesForCollection_def
    by (cases "c_belongs_to row = ''PRODUCT_RELEASE''")
       (auto split: sum.splits dest: release_candidates component_release_candidates)
  ultimately show ?thesis by (simp add: atScope_set)
qed

lemma collection_not_found:
  "candidateRulesForCollection s now p cap u at = Inl err \<Longrightarrow> err = ErrNotFound \<and> \<not> resolvable s (TCollection u)"
  by (auto simp: candidateRulesForCollection_def candidateRulesForRelease_def
      candidateRulesForComponentRelease_def release_exists_iff resolvable.simps
      split: option.splits if_splits)

lemma collection_found:
  "candidateRulesForCollection s now p cap u at = Inr cs \<Longrightarrow> resolvable s (TCollection u)"
  by (auto simp: candidateRulesForCollection_def candidateRulesForRelease_def
      candidateRulesForComponentRelease_def release_exists_iff resolvable.simps
      split: option.splits if_splits sum.splits)

lemma collectionsLoop_set:
  assumes "\<And>c err. rulesFor c = Inl err \<Longrightarrow> err = ErrNotFound"
  shows "\<exists>cs. collectionsLoop rulesFor us out = Inr cs
           \<and> set cs = set out \<union> {x. \<exists>u \<in> set us. \<exists>c. rulesFor u = Inr c \<and> x \<in> set c}"
proof (induction us arbitrary: out)
  case Nil
  then show ?case by simp
next
  case (Cons u us)
  show ?case
  proof (cases "rulesFor u")
    case (Inl err)
    with assms Cons [of out] show ?thesis by auto
  next
    case (Inr c)
    with Cons [of "out @ c"] show ?thesis by auto
  qed
qed

lemma artifact_candidates:
  assumes "candidateRulesForArtifact s now p cap res = Inr cs"
  shows "set cs = candidates_for s now p cap (ResArtifactType res)
           (TArtifact (ArtifactUUID res) (nullIfEmpty (CollectionUUID res)))"
proof -
  let ?at = "ResArtifactType res" and ?a = "ArtifactUUID res" and ?c = "CollectionUUID res"
  let ?us = "if ?c = [] then listCollectionsContainingArtifact s ?a else [?c]"
  let ?for = "\<lambda>c. candidateRulesForCollection s now p cap c ?at"
  have found: "(\<exists>c. ?for u = Inr c \<and> x \<in> set c) \<longleftrightarrow>
      resolvable s (TCollection u) \<and> x \<in> candidates_for s now p cap ?at (TCollection u)" for u x
    by (cases "?for u") (auto dest: collection_not_found collection_found collection_candidates)
  have "set cs = tier s now p cap ?at ScopeAllProducts ''all_products'' []
      \<union> tier s now p cap ?at ScopeArtifact ''artifact'' ?a
      \<union> {x. \<exists>u \<in> set ?us. resolvable s (TCollection u) \<and> x \<in> candidates_for s now p cap ?at (TCollection u)}"
    using assms collectionsLoop_set [of ?for ?us] collection_not_found
    unfolding found [symmetric] candidateRulesForArtifact_def Let_def
    by (metis (no_types, lifting) Inr_inject atScope_set set_append)
  also have "\<dots> = candidates_for s now p cap ?at (TArtifact ?a (nullIfEmpty ?c))"
    unfolding listCollectionsContainingArtifact_def nullIfEmpty_def
    by (rule set_eqI, cases "?c = []")
       (auto simp: candidates_unfold covers_artifact)
  finally show ?thesis .
qed

lemma CandidateRules_spec:
  assumes "CandidateRules s now p cap res = Inr cs"
  shows "\<exists>t. target_of res = Some t \<and> set cs = candidates_for s now p cap (ResArtifactType res) t"
  using assms unfolding CandidateRules_def target_of_def
  by (auto simp: product_candidates component_candidates split: if_splits
      dest: release_candidates component_release_candidates collection_candidates artifact_candidates)

lemma CandidateRules_error:
  "(\<exists>e. CandidateRules s now p cap res = Inl e) \<longleftrightarrow>
     (case target_of res of None \<Rightarrow> True | Some t \<Rightarrow> \<not> resolvable s t)"
proof -
  have art: "\<exists>cs. candidateRulesForArtifact s now p cap res = Inr cs"
    using collectionsLoop_set [of "\<lambda>c. candidateRulesForCollection s now p cap c (ResArtifactType res)"]
      collection_not_found unfolding candidateRulesForArtifact_def Let_def by blast
  have coll: "(\<exists>e. candidateRulesForCollection s now p cap u at = Inl e) \<longleftrightarrow> \<not> resolvable s (TCollection u)" for u at
    by (cases "candidateRulesForCollection s now p cap u at") (auto dest: collection_not_found collection_found)
  have rel: "(\<exists>e. candidateRulesForRelease s now p cap u at = Inl e) \<longleftrightarrow> \<not> resolvable s (TRelease u)"
    "(\<exists>e. candidateRulesForComponentRelease s now p cap u at = Inl e) \<longleftrightarrow> \<not> resolvable s (TComponentRelease u)"
    for u at
    by (auto simp: candidateRulesForRelease_def candidateRulesForComponentRelease_def
        resolvable.simps release_exists_iff split: option.splits)
  show ?thesis
    using art coll rel unfolding CandidateRules_def target_of_def
    by (auto simp: resolvable.simps split: if_splits)
qed

lemma CandidateRules_member:
  assumes "CandidateRules s now p cap res = Inr cs" and "c \<in> set cs"
  obtains sc e r where "c = scanCandidate sc e r" "e \<in> set (tbl_entitlement s)" "r \<in> set (tbl_template_rule s)"
    "applicable now p e" "speaks_to cap (ResArtifactType res) e r"
  using CandidateRules_spec [OF assms(1)] assms(2) by (auto simp: candidates_for_def)

section \<open>The repository as the engine's store\<close>

text \<open>The CHECK constraint of \<open>template_capability_rule.decision\<close>.\<close>

definition rules_checked :: "db \<Rightarrow> bool" where
  "rules_checked s \<longleftrightarrow> list_all (\<lambda>r. tc_decision r = ''allow'' \<or> tc_decision r = ''deny'') (tbl_template_rule s)"

interpretation ps: policy_store rules_checked "\<lambda>s. CandidateRules s now" for now
proof unfold_locales
  fix s p cap res cs c
  assume "CandidateRules s now p cap res = Inr cs" "c \<in> set cs"
  then show "cand_SubjectType c \<in> set (subject_types p)"
    by (rule CandidateRules_member) (auto simp: applicable_def subject_types_def scanCandidate_def)
next
  fix s p cap res cs c
  assume "rules_checked s" "CandidateRules s now p cap res = Inr cs" "c \<in> set cs"
  then show "cand_Decision c = ''allow'' \<or> cand_Decision c = ''deny''"
    by (elim CandidateRules_member) (auto simp: rules_checked_def list_all_iff scanCandidate_def)
qed

lemma decide_refines:
  "Allowed (snd (Decide (CandidateRules s now) p cap res)) \<longleftrightarrow>
     (\<exists>t. target_of res = Some t \<and> resolvable s t
        \<and> permits (candidates_for s now p cap (ResArtifactType res) t))"
proof (cases "CandidateRules s now p cap res")
  case (Inl e)
  with CandidateRules_error [of s now p cap res]
  show ?thesis by (auto simp: Decide_def zeroDecision_def split: option.splits)
next
  case (Inr cs)
  with CandidateRules_error [of s now p cap res] CandidateRules_spec [OF Inr]
  show ?thesis by (auto simp: Decide_def decide_allowed_iff split: option.splits)
qed

section \<open>The documented policy\<close>

text \<open>
  What the repository's documents say beyond the ranking of one set of rules: migration 0005 has
  per-type rules override the type-agnostic rule of the same capability in the same template
  revision, and the comment of \<open>candidateRulesForArtifact\<close> has an artifact that several collections
  share reachable if any one of them grants access.
\<close>

definition overridden :: "db \<Rightarrow> ArtifactType \<Rightarrow> template_rule_row \<Rightarrow> bool" where
  "overridden s artifactType r \<longleftrightarrow>
     tc_artifact_type r = None \<and> artifactType \<noteq> []
     \<and> (\<exists>r' \<in> set (tbl_template_rule s). tc_artifact_type r' = Some artifactType
          \<and> tc_template r' = tc_template r \<and> tc_revision r' = tc_revision r
          \<and> tc_capability r' = tc_capability r)"

definition documented_rules ::
  "db \<Rightarrow> time \<Rightarrow> Principal \<Rightarrow> Capability \<Rightarrow> ArtifactType \<Rightarrow> target \<Rightarrow> CandidateRule set" where
  "documented_rules s now subject capability artifactType t =
     {scanCandidate sc e r | sc rt ri e r.
        covers s t sc rt ri \<and> e \<in> set (tbl_entitlement s) \<and> r \<in> set (tbl_template_rule s)
        \<and> granted_at e rt ri \<and> applicable now subject e \<and> speaks_to capability artifactType e r
        \<and> \<not> overridden s artifactType r}"

definition containing :: "db \<Rightarrow> uuid \<Rightarrow> uuid set" where
  "containing s a =
     {ca_uuid ca | ca. ca \<in> set (tbl_collection_artifact s) \<and> ca_artifact ca = a
        \<and> resolvable s (TCollection (ca_uuid ca))}"

fun documented_grant ::
  "db \<Rightarrow> time \<Rightarrow> Principal \<Rightarrow> Capability \<Rightarrow> ArtifactType \<Rightarrow> target \<Rightarrow> bool" where
  "documented_grant s now p cap at (TArtifact a None) \<longleftrightarrow>
     (if containing s a = {} then permits (documented_rules s now p cap at (TArtifact a None))
      else \<exists>c \<in> containing s a. permits (documented_rules s now p cap at (TArtifact a (Some c))))"
| "documented_grant s now p cap at t \<longleftrightarrow> permits (documented_rules s now p cap at t)"

text \<open>Where the two documents and the ranking cannot disagree.\<close>

definition overrides_agree :: "db \<Rightarrow> bool" where
  "overrides_agree s \<longleftrightarrow>
     (\<forall>r \<in> set (tbl_template_rule s). \<forall>r' \<in> set (tbl_template_rule s).
        tc_artifact_type r = None \<and> tc_artifact_type r' \<noteq> None \<and> tc_template r' = tc_template r
        \<and> tc_revision r' = tc_revision r \<and> tc_capability r' = tc_capability r \<longrightarrow> tc_decision r' = tc_decision r)"

definition unshared :: "db \<Rightarrow> target \<Rightarrow> bool" where
  "unshared s t \<longleftrightarrow> (\<forall>a c d. t = TArtifact a None \<longrightarrow> c \<in> containing s a \<longrightarrow> d \<in> containing s a \<longrightarrow> c = d)"

lemma documented_sub: "documented_rules s now p cap at t \<subseteq> candidates_for s now p cap at t"
  unfolding documented_rules_def candidates_for_def by blast

text \<open>An overridden rule's candidate has a counterpart of the same rank from the rule that overrides it.\<close>

lemma documented_counterpart:
  assumes "x \<in> candidates_for s now p cap at t"
  shows "\<exists>y \<in> documented_rules s now p cap at t. specificity y = specificity x
           \<and> (overrides_agree s \<longrightarrow> y = x)"
proof -
  from assms obtain sc rt ri e r where x: "x = scanCandidate sc e r"
    and h: "covers s t sc rt ri" "e \<in> set (tbl_entitlement s)" "r \<in> set (tbl_template_rule s)"
      "granted_at e rt ri" "applicable now p e" "speaks_to cap at e r"
    unfolding candidates_for_def by blast
  show ?thesis
  proof (cases "overridden s at r")
    case False
    with x h show ?thesis unfolding documented_rules_def by blast
  next
    case True
    then obtain r' where r': "r' \<in> set (tbl_template_rule s)" "tc_artifact_type r' = Some at"
        "tc_template r' = tc_template r" "tc_revision r' = tc_revision r"
        "tc_capability r' = tc_capability r" and at: "at \<noteq> []" "tc_artifact_type r = None"
      unfolding overridden_def by blast
    have "speaks_to cap at e r'" "\<not> overridden s at r'"
      using h(6) r' at by (auto simp: speaks_to_def overridden_def)
    with h r' have "scanCandidate sc e r' \<in> documented_rules s now p cap at t"
      unfolding documented_rules_def by blast
    moreover have "specificity (scanCandidate sc e r') = specificity x"
      by (simp add: x scanCandidate_def specificity_def)
    moreover have "overrides_agree s \<longrightarrow> scanCandidate sc e r' = x"
      using h(3) r' at by (auto simp: overrides_agree_def x scanCandidate_def)
    ultimately show ?thesis by blast
  qed
qed

lemma overrides_agree_rules:
  "overrides_agree s \<Longrightarrow> documented_rules s now p cap at t = candidates_for s now p cap at t"
  by (rule antisym [OF documented_sub subsetI]) (metis documented_counterpart)

text \<open>A subset with a rule of the top rank keeps the decision to allow.\<close>

lemma permits_subset:
  assumes "permits C" "D \<subseteq> C" "d \<in> D" "d' \<in> most_specific C" "specificity d = specificity d'"
  shows "permits D"
proof -
  have top: "\<forall>c \<in> C. specificity c \<le> specificity d" using assms by (auto simp: most_specific_def)
  have "most_specific D \<subseteq> most_specific C"
  proof
    fix x assume x: "x \<in> most_specific D"
    then have "specificity d \<le> specificity x" using assms(3) by (simp add: most_specific_def)
    with x assms(2) top show "x \<in> most_specific C"
      unfolding most_specific_def by (auto intro: order_trans)
  qed
  with assms show ?thesis by (auto simp: permits_def)
qed

lemma permits_documented:
  assumes "permits (candidates_for s now p cap at t)" and "most_specific (candidates_for s now p cap at t) \<noteq> {}"
  shows "permits (documented_rules s now p cap at t)"
proof -
  from assms(2) obtain d where d: "d \<in> most_specific (candidates_for s now p cap at t)" by blast
  then have "d \<in> candidates_for s now p cap at t" using most_specific_sub by blast
  from documented_counterpart [OF this] obtain y
    where "y \<in> documented_rules s now p cap at t" "specificity y = specificity d" by blast
  then show ?thesis using permits_subset [OF assms(1) documented_sub _ d] by simp
qed

text \<open>The rules of an artifact are those of its collections together.\<close>

lemma artifact_rules:
  assumes "c \<in> containing s a"
  shows "candidates_for s now p cap at (TArtifact a None) =
     (\<Union>d \<in> containing s a. candidates_for s now p cap at (TArtifact a (Some d)))"
proof (rule set_eqI)
  fix x
  have "covers s (TArtifact a None) sc rt ri \<longleftrightarrow>
      (\<exists>d \<in> containing s a. covers s (TArtifact a (Some d)) sc rt ri)" for sc rt ri
    using assms unfolding containing_def covers_artifact by auto
  then show "x \<in> candidates_for s now p cap at (TArtifact a None) \<longleftrightarrow>
      x \<in> (\<Union>d \<in> containing s a. candidates_for s now p cap at (TArtifact a (Some d)))"
    unfolding UN_iff in_candidates by blast
qed

lemma artifact_member:
  "x \<in> candidates_for s now p cap at (TArtifact a None) \<Longrightarrow> c \<in> containing s a \<Longrightarrow>
     \<exists>d \<in> containing s a. x \<in> candidates_for s now p cap at (TArtifact a (Some d))"
  by (simp add: artifact_rules)

text \<open>A found resource has finitely many rules, so a nonempty set of them has a top rank.\<close>

lemma candidates_finite:
  assumes "target_of res = Some t" "resolvable s t"
  shows "\<exists>cs. candidates_for s now p cap (ResArtifactType res) t = set cs"
  using assms CandidateRules_error [of s now p cap res] CandidateRules_spec [of s now p cap res]
  by (cases "CandidateRules s now p cap res") auto

lemma documented_plain:
  assumes "\<not> (\<exists>a. t = TArtifact a None \<and> containing s a \<noteq> {})"
  shows "documented_grant s now p cap at t = permits (documented_rules s now p cap at t)"
proof (cases t)
  case (TArtifact a c)
  with assms show ?thesis by (cases c) simp_all
qed simp_all

lemma granted_is_documented:
  assumes t: "target_of res = Some t" "resolvable s t"
    and ok: "permits (candidates_for s now p cap (ResArtifactType res) t)"
  shows "documented_grant s now p cap (ResArtifactType res) t"
proof -
  let ?at = "ResArtifactType res" and ?C = "candidates_for s now p cap (ResArtifactType res)"
  obtain cs where cs: "?C t = set cs" using candidates_finite [OF t] by blast
  have "cs \<noteq> []" using ok cs by (auto simp: permits_def)
  then have ne: "most_specific (?C t) \<noteq> {}" unfolding cs by (rule most_specific_ne)
  show ?thesis
  proof (cases "\<exists>a. t = TArtifact a None \<and> containing s a \<noteq> {}")
    case False
    with permits_documented [OF ok ne] show ?thesis by (simp add: documented_plain)
  next
    case True
    then obtain a where a: "t = TArtifact a None" and "containing s a \<noteq> {}" by blast
    then obtain c0 where c0: "c0 \<in> containing s a" by blast
    from ne obtain d where d: "d \<in> most_specific (?C t)" by blast
    then have "d \<in> ?C t" using most_specific_sub by blast
    from artifact_member [OF this [unfolded a] c0] obtain c where c: "c \<in> containing s a"
      "d \<in> ?C (TArtifact a (Some c))" by blast
    have sub: "?C (TArtifact a (Some c)) \<subseteq> ?C t"
      unfolding a artifact_rules [OF c(1)] using c(1) by (rule UN_upper)
    have "permits (?C (TArtifact a (Some c)))" by (rule permits_subset [OF ok sub c(2) d refl])
    moreover have "d \<in> most_specific (?C (TArtifact a (Some c)))"
      using d c(2) sub by (auto simp: most_specific_def)
    ultimately have "permits (documented_rules s now p cap ?at (TArtifact a (Some c)))"
      using permits_documented by blast
    with c(1) a show ?thesis by auto
  qed
qed

lemma documented_is_granted:
  assumes "overrides_agree s" "unshared s t" "documented_grant s now p cap at t"
  shows "permits (candidates_for s now p cap at t)"
proof (cases "\<exists>a. t = TArtifact a None \<and> containing s a \<noteq> {}")
  case False
  with assms show ?thesis by (simp add: documented_plain overrides_agree_rules)
next
  case True
  then obtain a where a: "t = TArtifact a None" and "containing s a \<noteq> {}" by blast
  with assms obtain c where c: "c \<in> containing s a"
    and ok: "permits (candidates_for s now p cap at (TArtifact a (Some c)))"
    by (auto simp: overrides_agree_rules)
  have "containing s a = {c}" using assms(2) a c unfolding unshared_def by blast
  with artifact_rules [OF c] ok a show ?thesis by simp
qed

text \<open>
  C1. The server never grants more than the documented policy, and nothing less where the documents
  agree with each other. Documented: the most specific resource scope, then the most specific subject,
  deny over allow, default deny, over the active, unexpired entitlements that apply to the caller and
  whose scope contains the resource, where a rule for an artifact type overrides the type-agnostic
  rule of its template, and an artifact shared by several collections is reachable through any one of
  them. Every request Decide allows over the repository's queries is allowed by that policy. A request
  the policy allows is allowed by Decide provided no template revision has a type-agnostic rule and a
  typed rule of the opposite decision, and, for an artifact asked for without a collection, at most
  one collection contains it.
\<close>

theorem Decide_refines_policy:
  "(Allowed (snd (Decide (CandidateRules s now) p cap res)) \<longrightarrow>
      (\<exists>t. target_of res = Some t \<and> resolvable s t
         \<and> documented_grant s now p cap (ResArtifactType res) t))
   \<and> (\<forall>t. target_of res = Some t \<and> resolvable s t \<and> overrides_agree s \<and> unshared s t
         \<and> documented_grant s now p cap (ResArtifactType res) t \<longrightarrow>
      Allowed (snd (Decide (CandidateRules s now) p cap res)))"
  unfolding decide_refines using granted_is_documented documented_is_granted by blast

lemma resolvable_entitlement [simp]: "resolvable (s\<lparr>tbl_entitlement := es\<rparr>) t = resolvable s t"
  by (cases t) (auto simp: resolvable.simps split: option.splits)

lemma covers_entitlement [simp]: "covers (s\<lparr>tbl_entitlement := es\<rparr>) t sc rt ri = covers s t sc rt ri"
proof
  show "covers (s\<lparr>tbl_entitlement := es\<rparr>) t sc rt ri \<Longrightarrow> covers s t sc rt ri"
    by (induction rule: covers.induct) (auto intro: covers.intros)
  show "covers s t sc rt ri \<Longrightarrow> covers (s\<lparr>tbl_entitlement := es\<rparr>) t sc rt ri"
    by (induction rule: covers.induct) (auto intro: covers.intros)
qed

lemma candidates_only_applicable:
  "candidates_for (s\<lparr>tbl_entitlement := filter (applicable now p) (tbl_entitlement s)\<rparr>) now p cap at t =
     candidates_for s now p cap at t"
  unfolding candidates_for_def by (intro Collect_cong iff_exI) auto

text \<open>
  An entitlement that is suspended or revoked, outside its validity window, or held by another
  principal has no influence: deleting every such entitlement changes no decision.
\<close>

theorem Decide_ignores_inapplicable:
  "Allowed (snd (Decide (CandidateRules (s\<lparr>tbl_entitlement := filter (applicable now p) (tbl_entitlement s)\<rparr>) now) p cap res)) =
     Allowed (snd (Decide (CandidateRules s now) p cap res))"
  unfolding decide_refines candidates_only_applicable by simp

text \<open>
  An anonymous caller is only ever let in by an active, unexpired entitlement for everyone whose
  template says allow, and the decision names that entitlement.
\<close>

theorem anonymous_needs_everyone_grant:
  assumes "rules_checked s" and "\<not> IsAuthenticated p"
    and "Decide (CandidateRules s now) p cap res = (err, d)" and "Allowed d"
  shows "DecSubjectType d = SubjectEveryone \<and>
     (\<exists>e \<in> set (tbl_entitlement s). \<exists>r \<in> set (tbl_template_rule s).
        e_uuid e = MatchedEntitlementUUID d \<and> e_subject_type e = SubjectEveryone
        \<and> applicable now p e \<and> speaks_to cap (ResArtifactType res) e r \<and> tc_decision r = ''allow'')"
proof -
  have every: "DecSubjectType d = SubjectEveryone"
    by (rule ps.anonymous_only_everyone [OF assms])
  from assms(1,3,4) obtain cs c where cs: "CandidateRules s now p cap res = Inr cs"
    and c: "c \<in> most_specific (set cs)" "cand_Decision c = ''allow''"
    and d: "d = decisionFrom c True ReasonExplicitAllow"
    by (rule ps.allowed_has_rule)
  have "c \<in> set cs" using c most_specific_sub by blast
  with cs obtain sc e r where "c = scanCandidate sc e r" "e \<in> set (tbl_entitlement s)"
    "r \<in> set (tbl_template_rule s)" "applicable now p e" "speaks_to cap (ResArtifactType res) e r"
    by (rule CandidateRules_member)
  with every c d show ?thesis by (auto simp: scanCandidate_def)
qed

section \<open>Concrete databases\<close>

definition entitlement_on :: "uuid \<Rightarrow> string \<Rightarrow> uuid option \<Rightarrow> uuid \<Rightarrow> entitlement_row" where
  "entitlement_on u rt ri t =
     \<lparr>e_uuid = u, e_subject_type = SubjectEveryone, e_subject_id = None, e_template = t,
      e_template_revision = 1, e_resource_type = rt, e_resource_id = ri, e_status = ''active'',
      e_valid_from = None, e_valid_until = None, e_granting_authority = ''admin'', e_created_at = 0,
      e_created_by = None, e_revision = 1\<rparr>"

definition rule_of :: "uuid \<Rightarrow> Capability \<Rightarrow> string \<Rightarrow> template_rule_row" where
  "rule_of t cap d =
     \<lparr>tc_template = t, tc_revision = 1, tc_capability = cap, tc_artifact_type = None, tc_decision = d\<rparr>"

definition no_resource :: Resource where
  "no_resource =
     \<lparr>ProductUUID = [], ProductReleaseUUID = [], ComponentUUID = [], ComponentReleaseUUID = [],
      CollectionUUID = [], ArtifactUUID = [], ResArtifactType = []\<rparr>"

definition public_db :: db where
  "public_db = empty_db\<lparr>tbl_entitlement := [entitlement_on ''e1'' ''all_products'' None ''t1''],
     tbl_template_rule := [rule_of ''t1'' ''product.read'' ''allow'']\<rparr>"

lemmas example_defs = entitlement_on_def rule_of_def no_resource_def empty_db_def

lemma public_db_decision:
  "Decide (CandidateRules public_db 0) \<lparr>UserUUID = []\<rparr> ''product.read'' (no_resource\<lparr>ProductUUID := ''p1''\<rparr>) =
     (None, \<lparr>Allowed = True, Reason = ReasonExplicitAllow, MatchedEntitlementUUID = ''e1'',
             MatchedTemplateUUID = ''t1'', MatchedTemplateRevision = 1,
             DecResourceScope = ScopeAllProducts, DecSubjectType = SubjectEveryone\<rparr>)"
  by code_simp

theorem Decide_refines_policy_witness:
  "overrides_agree public_db \<and> unshared public_db (TProduct ''p1'')
   \<and> documented_grant public_db 0 \<lparr>UserUUID = []\<rparr> ''product.read'' [] (TProduct ''p1'')
   \<and> Allowed (snd (Decide (CandidateRules public_db 0) \<lparr>UserUUID = []\<rparr> ''product.read''
       (no_resource\<lparr>ProductUUID := ''p1''\<rparr>)))"
proof -
  let ?D = "Decide (CandidateRules public_db 0) \<lparr>UserUUID = []\<rparr> ''product.read'' (no_resource\<lparr>ProductUUID := ''p1''\<rparr>)"
  have t: "target_of (no_resource\<lparr>ProductUUID := ''p1''\<rparr>) = Some (TProduct ''p1'')"
    "ResArtifactType (no_resource\<lparr>ProductUUID := ''p1''\<rparr>) = []"
    by (simp_all add: target_of_def no_resource_def)
  have pre: "overrides_agree public_db" "unshared public_db (TProduct ''p1'')"
    by (simp_all add: overrides_agree_def unshared_def public_db_def example_defs)
  have "Allowed (snd ?D)" unfolding public_db_decision by simp
  then have "documented_grant public_db 0 \<lparr>UserUUID = []\<rparr> ''product.read'' [] (TProduct ''p1'')"
    using Decide_refines_policy [of public_db 0 "\<lparr>UserUUID = []\<rparr>" "''product.read''" "no_resource\<lparr>ProductUUID := ''p1''\<rparr>"] t
    by auto
  moreover from this pre t have "Allowed (snd ?D)"
    using Decide_refines_policy [of public_db 0 "\<lparr>UserUUID = []\<rparr>" "''product.read''" "no_resource\<lparr>ProductUUID := ''p1''\<rparr>"]
    by (simp add: resolvable.simps)
  ultimately show ?thesis using pre by blast
qed

theorem anonymous_needs_everyone_grant_witness:
  "\<exists>e \<in> set (tbl_entitlement public_db). e_uuid e = ''e1'' \<and> e_subject_type e = SubjectEveryone"
  using anonymous_needs_everyone_grant [OF _ _ public_db_decision]
  by (auto simp: rules_checked_def public_db_def example_defs IsAuthenticated_def)

text \<open>
  Two component releases share an artifact; one release's collection grants its download to everyone,
  the other one's collection denies it.
\<close>

definition release_of :: "uuid \<Rightarrow> uuid \<Rightarrow> release_row" where
  "release_of u p =
     \<lparr>rl_uuid = u, rl_parent = p, rl_parent_name = None, rl_version = ''1'', rl_created_date = 0,
      rl_release_date = None, rl_pre_release = False, rl_revision = 1\<rparr>"

definition collection_of :: "uuid \<Rightarrow> collection_row" where
  "collection_of u =
     \<lparr>c_uuid = u, c_version = 1, c_date = 0, c_belongs_to = ''COMPONENT_RELEASE'',
      c_reason_type = None, c_reason_comment = None\<rparr>"

definition shared_db :: db where
  "shared_db = empty_db\<lparr>
     tbl_component_release := [release_of ''c1'' ''k'', release_of ''c2'' ''k''],
     tbl_collection := [collection_of ''c1'', collection_of ''c2''],
     tbl_collection_artifact :=
       [\<lparr>ca_uuid = ''c1'', ca_version = 1, ca_artifact = ''a'', ca_artifact_version = 1\<rparr>,
        \<lparr>ca_uuid = ''c2'', ca_version = 1, ca_artifact = ''a'', ca_artifact_version = 1\<rparr>],
     tbl_entitlement :=
       [entitlement_on ''e1'' ''collection'' (Some ''c1'') ''t1'',
        entitlement_on ''e2'' ''collection'' (Some ''c2'') ''t2''],
     tbl_template_rule := [rule_of ''t1'' ''artifact.download'' ''allow'',
                           rule_of ''t2'' ''artifact.download'' ''deny'']\<rparr>"

text \<open>
  The comment of \<open>candidateRulesForArtifact\<close> says a shared artifact is reachable if any of its
  relationships grants access. The union of the candidates is ranked as one set, so the deny that
  belongs to the other collection wins: the artifact is reached through \<open>c1\<close> and refused without a
  collection.
\<close>

lemma shared_artifact_denied_by_other_collection:
  "Allowed (snd (Decide (CandidateRules shared_db 0) \<lparr>UserUUID = []\<rparr> ''artifact.download''
      (no_resource\<lparr>ArtifactUUID := ''a'', CollectionUUID := ''c1''\<rparr>)))
   \<and> \<not> Allowed (snd (Decide (CandidateRules shared_db 0) \<lparr>UserUUID = []\<rparr> ''artifact.download''
      (no_resource\<lparr>ArtifactUUID := ''a''\<rparr>)))"
  by code_simp

end
