(* ===== verification/Api.thy ===== *)
theory Api
  imports Releases AuthzStore
begin

text \<open>
  The consumer read API (\<open>internal/api\<close>): authorization of a request, conditional requests, and the
  handlers of products, components, releases, collections and artifacts. A handler is a function of the
  database and the request to a response; it reads one database, so no write of another request falls
  between its queries. \<open>None\<close> stands for a handler that never answers.
\<close>

section \<open>Requests and responses\<close>

text \<open>
  A request: path and query parameters, the page token as its two codecs decode it, the caller the
  middleware resolved, whether it sent an invalid token, its \<open>If-None-Match\<close> lines and the time.
\<close>

record web_request =
  web_params :: request
  web_token :: "page_token option"
  web_principal :: Principal
  web_invalid_bearer :: bool
  web_if_none_match :: "string list"
  web_now :: time

text \<open>A response: the ETag and Cache-Control of a success, the message of a bad request.\<close>

datatype 'a response =
    OK string string 'a
  | NotModified string string
  | BadRequestTyped string
  | InvalidPage bad_request
  | NotFound
  | UnauthorizedBearer bool
  | InternalError repo_error

record 'a paginated =
  pg_Results :: "'a list"
  pg_HasNext :: bool
  pg_NextPageToken :: "page_token option"

section \<open>Path parameters\<close>

text \<open>The pattern of \<open>internal/idgen\<close>: groups of 8, 4, 4, 4 and 12 lower-case hexadecimal digits.\<close>

definition Valid :: "string \<Rightarrow> bool" where
  "Valid s \<longleftrightarrow> length s = 36
     \<and> list_all (\<lambda>(i, c). if List.member [8, 13, 18, 23] i then c = CHR ''-'' else is_hex c) (zip [0..<36] s)"

definition PathUUID :: "request \<Rightarrow> string \<Rightarrow> param_error + uuid" where
  "PathUUID r name = (let v = req_path r name in if \<not> Valid v then Inl ErrInvalidParam else Inr v)"

section \<open>Conditional requests\<close>

text \<open>\<open>strconv.Itoa\<close> and \<open>FormatInt\<close> in base 10.\<close>

definition itoa :: "int \<Rightarrow> string" where
  "itoa n = (if n < 0 then CHR ''-'' # decimal (nat (- n)) else decimal (nat n))"

definition BuildETag :: "string list \<Rightarrow> string" where
  "BuildETag parts = CHR 0x22 # pageScope parts @ [CHR 0x22]"

definition MatchesIfNoneMatch :: "string list \<Rightarrow> string \<Rightarrow> bool" where
  "MatchesIfNoneMatch headerValues current =
     (let want = trimPrefix current ''W/'' in
      list_ex (\<lambda>line. list_ex (\<lambda>raw. let v = trimSpace raw in v = ''*'' \<or> trimPrefix v ''W/'' = want) (split_at (CHR '','') line))
        headerValues)"

definition GetPrincipalEntitlementWatermark :: "db \<Rightarrow> uuid \<Rightarrow> int" where
  "GetPrincipalEntitlementWatermark s userUUID =
     (case sql_max (map e_revision (filter (\<lambda>e. e_status e = ''active''
             \<and> (List.member [''everyone'', ''authenticated''] (e_subject_type e)
                \<or> (e_subject_type e = ''principal'' \<and> sql_eq (e_subject_id e) (Some userUUID)))) (tbl_entitlement s))) of
        None \<Rightarrow> 0 | Some m \<Rightarrow> m)"

definition authzCacheSuffix :: "db \<Rightarrow> Principal \<Rightarrow> string" where
  "authzCacheSuffix s p =
     (if \<not> IsAuthenticated p then ''anon''
      else ''u:'' @ UserUUID p @ '':'' @ itoa (GetPrincipalEntitlementWatermark s (UserUUID p)))"

definition cacheControlRevalidate :: string where
  "cacheControlRevalidate = ''public, max-age=60, stale-while-revalidate=300''"

definition cacheControlFor :: "Principal \<Rightarrow> string \<Rightarrow> string" where
  "cacheControlFor p base = (if \<not> IsAuthenticated p then base else replace_first base ''public'' ''private'')"

text \<open>What follows an unmatched condition gets the two headers it set.\<close>

definition conditional ::
  "db \<Rightarrow> web_request \<Rightarrow> string \<Rightarrow> string list \<Rightarrow> (string \<Rightarrow> string \<Rightarrow> 'a response) \<Rightarrow> 'a response" where
  "conditional s r cacheControlBase parts rest =
     (let etag = BuildETag (parts @ [authzCacheSuffix s (web_principal r)]);
          cacheControl = cacheControlFor (web_principal r) cacheControlBase
      in if MatchesIfNoneMatch (web_if_none_match r) etag then NotModified etag cacheControl
         else rest etag cacheControl)"

definition cursorPart :: "Cursor option \<Rightarrow> string" where
  "cursorPart c = (case c of None \<Rightarrow> [] | Some c \<Rightarrow> cur_LastValue c @ ''|'' @ cur_LastUUID c)"

section \<open>Authorization\<close>

definition decide :: "db \<Rightarrow> web_request \<Rightarrow> Capability \<Rightarrow> Resource \<Rightarrow> repo_error + bool" where
  "decide s r capability resource =
     (case Decide (CandidateRules s (web_now r)) (web_principal r) capability resource of
        (Some err, _) \<Rightarrow> Inl err
      | (None, decision) \<Rightarrow> Inr (Allowed decision))"

definition writeAuthzDenial :: "web_request \<Rightarrow> 'a response" where
  "writeAuthzDenial r =
     (if \<not> IsAuthenticated (web_principal r) then UnauthorizedBearer (web_invalid_bearer r) else NotFound)"

definition authorize :: "db \<Rightarrow> web_request \<Rightarrow> Capability \<Rightarrow> Resource \<Rightarrow> 'a response \<Rightarrow> 'a response" where
  "authorize s r capability resource rest =
     (case decide s r capability resource of
        Inl err \<Rightarrow> InternalError err
      | Inr allowed \<Rightarrow> if \<not> allowed then writeAuthzDenial r else rest)"

abbreviation CapProductDiscover :: Capability where "CapProductDiscover \<equiv> ''product.discover''"
abbreviation CapProductRead :: Capability where "CapProductRead \<equiv> ''product.read''"
abbreviation CapReleaseRead :: Capability where "CapReleaseRead \<equiv> ''release.read''"
abbreviation CapCollectionRead :: Capability where "CapCollectionRead \<equiv> ''collection.read''"
abbreviation CapArtifactMetadataRead :: Capability where "CapArtifactMetadataRead \<equiv> ''artifact.metadata.read''"

text \<open>The repeated check of a query's error: 404 for \<open>ErrNotFound\<close>, 500 for any other.\<close>

definition fetched :: "repo_error + 'x \<Rightarrow> ('x \<Rightarrow> 'a response) \<Rightarrow> 'a response" where
  "fetched q rest =
     (case q of Inl err \<Rightarrow> if err = ErrNotFound then NotFound else InternalError err | Inr x \<Rightarrow> rest x)"

definition withPathUUID :: "web_request \<Rightarrow> (uuid \<Rightarrow> 'a response) \<Rightarrow> 'a response" where
  "withPathUUID r rest =
     (case PathUUID (web_params r) ''uuid'' of Inl _ \<Rightarrow> BadRequestTyped ''invalid uuid'' | Inr u \<Rightarrow> rest u)"

section \<open>Single objects\<close>

definition getProduct :: "db \<Rightarrow> web_request \<Rightarrow> Product response" where
  "getProduct s r =
     withPathUUID r (\<lambda>u.
     fetched (existsProductTx s u) (\<lambda>_.
     authorize s r CapProductRead (no_resource\<lparr>ProductUUID := u\<rparr>)
     (conditional s r cacheControlRevalidate [''product'', u] (\<lambda>etag cc.
     fetched (getProductTx s u) (OK etag cc)))))"

definition getComponent :: "db \<Rightarrow> web_request \<Rightarrow> Component response" where
  "getComponent s r =
     withPathUUID r (\<lambda>u.
     fetched (existsComponentTx s u) (\<lambda>_.
     authorize s r CapProductRead (no_resource\<lparr>ComponentUUID := u\<rparr>)
     (conditional s r cacheControlRevalidate [''component'', u] (\<lambda>etag cc.
     fetched (getComponentTx s u) (OK etag cc)))))"

definition collectionArtifactETagParts :: "int list \<Rightarrow> string list" where
  "collectionArtifactETagParts revisions = map itoa revisions"

definition getProductRelease :: "db \<Rightarrow> web_request \<Rightarrow> (ProductRelease \<times> Collection) response" where
  "getProductRelease s r =
     withPathUUID r (\<lambda>u.
     fetched (getProductReleaseRevisionTx s u) (\<lambda>revision.
     case latestCollectionVersionTx s u BelongsToProductRelease of None \<Rightarrow> NotFound | Some latestVersion \<Rightarrow>
     authorize s r CapReleaseRead (no_resource\<lparr>ProductReleaseUUID := u\<rparr>)
     (authorize s r CapCollectionRead (no_resource\<lparr>CollectionUUID := u\<rparr>)
     (conditional s r cacheControlRevalidate
        ([''productRelease'', u, itoa revision, itoa latestVersion]
         @ collectionArtifactETagParts (CollectionArtifactRevisions s u latestVersion)) (\<lambda>etag cc.
     fetched (getProductReleaseTx s u) (\<lambda>pr.
     fetched (GetLatestCollection s u BelongsToProductRelease) (\<lambda>latest.
     OK etag cc (pr, latest))))))))"

definition getComponentReleaseWithCollection :: "db \<Rightarrow> web_request \<Rightarrow> (ComponentRelease \<times> Collection) response" where
  "getComponentReleaseWithCollection s r =
     withPathUUID r (\<lambda>u.
     fetched (getComponentReleaseRevisionTx s u) (\<lambda>revision.
     case latestCollectionVersionTx s u BelongsToComponentRelease of None \<Rightarrow> NotFound | Some latestVersion \<Rightarrow>
     authorize s r CapReleaseRead (no_resource\<lparr>ComponentReleaseUUID := u\<rparr>)
     (authorize s r CapCollectionRead (no_resource\<lparr>CollectionUUID := u\<rparr>)
     (conditional s r cacheControlRevalidate
        ([''componentRelease'', u, itoa revision, itoa latestVersion]
         @ collectionArtifactETagParts (CollectionArtifactRevisions s u latestVersion)) (\<lambda>etag cc.
     fetched (getComponentReleaseTx s u) (\<lambda>cr.
     fetched (GetLatestCollection s u BelongsToComponentRelease) (\<lambda>latest.
     OK etag cc (cr, latest))))))))"

definition latestCollection :: "db \<Rightarrow> web_request \<Rightarrow> string \<Rightarrow> Collection response" where
  "latestCollection s r belongsTo =
     withPathUUID r (\<lambda>u.
     case latestCollectionVersionTx s u belongsTo of None \<Rightarrow> NotFound | Some version \<Rightarrow>
     authorize s r CapCollectionRead (no_resource\<lparr>CollectionUUID := u\<rparr>)
     (conditional s r cacheControlRevalidate
        ([''collection-latest'', belongsTo, u, itoa version]
         @ collectionArtifactETagParts (CollectionArtifactRevisions s u version)) (\<lambda>etag cc.
     fetched (GetLatestCollection s u belongsTo) (OK etag cc))))"

definition getCollectionByVersion :: "db \<Rightarrow> web_request \<Rightarrow> string \<Rightarrow> Collection response" where
  "getCollectionByVersion s r belongsTo =
     withPathUUID r (\<lambda>u.
     case PathPositiveInt (web_params r) ''collectionVersion'' of
       Inl _ \<Rightarrow> BadRequestTyped ''invalid collectionVersion''
     | Inr version \<Rightarrow>
         fetched (existsCollectionVersionTx s u version belongsTo) (\<lambda>_.
         authorize s r CapCollectionRead (no_resource\<lparr>CollectionUUID := u\<rparr>)
         (conditional s r cacheControlRevalidate
            ([''collection'', belongsTo, u, itoa version]
             @ collectionArtifactETagParts (CollectionArtifactRevisions s u version)) (\<lambda>etag cc.
         fetched (getCollectionByVersionTx s u version belongsTo) (OK etag cc)))))"

definition getLatestArtifact :: "db \<Rightarrow> web_request \<Rightarrow> Artifact response" where
  "getLatestArtifact s r =
     withPathUUID r (\<lambda>u.
     case LatestArtifactVersion s u of None \<Rightarrow> NotFound | Some version \<Rightarrow>
     fetched (GetArtifactType s u version) (\<lambda>artifactType.
     authorize s r CapArtifactMetadataRead (no_resource\<lparr>ArtifactUUID := u, ResArtifactType := artifactType\<rparr>)
     (fetched (getArtifactRevisionTx s u version) (\<lambda>revision.
     conditional s r cacheControlRevalidate [''artifact'', u, itoa version, itoa revision] (\<lambda>etag cc.
     fetched (GetArtifactLatest s u) (OK etag cc))))))"

definition getArtifactByVersion :: "db \<Rightarrow> web_request \<Rightarrow> Artifact response" where
  "getArtifactByVersion s r =
     withPathUUID r (\<lambda>u.
     case PathPositiveInt (web_params r) ''artifactVersion'' of
       Inl _ \<Rightarrow> BadRequestTyped ''invalid artifactVersion''
     | Inr version \<Rightarrow>
         fetched (GetArtifactType s u version) (\<lambda>artifactType.
         authorize s r CapArtifactMetadataRead (no_resource\<lparr>ArtifactUUID := u, ResArtifactType := artifactType\<rparr>)
         (fetched (getArtifactRevisionTx s u version) (\<lambda>revision.
         conditional s r cacheControlRevalidate [''artifact'', u, itoa version, itoa revision] (\<lambda>etag cc.
         fetched (getArtifactByVersionTx s u version) (OK etag cc))))))"

section \<open>Lists\<close>

text \<open>
  The part the list handlers share, from \<open>filterAuthorized\<close> to the response. A page that is empty but
  has a successor would index out of range.
\<close>

definition writePage ::
  "(Cursor option \<Rightarrow> int \<Rightarrow> repo_error + 'a list) \<Rightarrow> ('a \<Rightarrow> string) \<Rightarrow> ('a \<Rightarrow> uuid) \<Rightarrow> ('a \<Rightarrow> repo_error + bool) \<Rightarrow>
   pageParams \<Rightarrow> string \<Rightarrow> string \<Rightarrow> string \<Rightarrow> 'a paginated response option" where
  "writePage fetch sortValue uid authorized pp scope etag cc =
     (case filterAuthorized fetch
             (\<lambda>x. \<lparr>cur_SortField = pp_SortField pp, cur_SortOrder = pp_SortOrder pp, cur_LastValue = sortValue x,
                   cur_LastUUID = uid x, cur_Scope = []\<rparr>)
             authorized (pp_Cursor pp) (pp_PageSize pp) of
        None \<Rightarrow> None
      | Some (Inl err) \<Rightarrow> Some (InternalError err)
      | Some (Inr (page, hasNext)) \<Rightarrow>
          if hasNext \<and> page = [] then Some (InternalError (ErrOther ''panic: index out of range''))
          else Some (OK etag cc
            \<lparr>pg_Results = page, pg_HasNext = hasNext,
             pg_NextPageToken =
               (if hasNext then nextPageToken True (pp_SortField pp) (pp_SortOrder pp) (sortValue (last page)) (uid (last page)) scope
                else None)\<rparr>))"

text \<open>The conditional request of a list, before the rows are read.\<close>

definition conditionalList ::
  "db \<Rightarrow> web_request \<Rightarrow> string list \<Rightarrow> (string \<Rightarrow> string \<Rightarrow> 'a response option) \<Rightarrow> 'a response option" where
  "conditionalList s r parts rest =
     (case conditional s r cacheControlRevalidate parts (\<lambda>etag cc. OK etag cc ()) of
        NotModified etag cc \<Rightarrow> Some (NotModified etag cc)
      | OK etag cc _ \<Rightarrow> rest etag cc
      | _ \<Rightarrow> None)"

definition withPageParams ::
  "web_request \<Rightarrow> string list \<Rightarrow> string \<Rightarrow> (pageParams \<Rightarrow> 'a response option) \<Rightarrow> 'a response option" where
  "withPageParams r allowed scope rest =
     (case parsePageParams (web_params r) (web_token r) allowed scope of Inl e \<Rightarrow> Some (InvalidPage e) | Inr pp \<Rightarrow> rest pp)"

definition queryProducts :: "db \<Rightarrow> web_request \<Rightarrow> Product paginated response option" where
  "queryProducts s r =
     (case IDFilter (web_params r) of Inl _ \<Rightarrow> Some (BadRequestTyped ''invalid idType'') | Inr (idType, idValue) \<Rightarrow>
      let scope = pageScope [''products'', idType, idValue] in
      withPageParams r [''name''] scope (\<lambda>pp.
      conditionalList s r [''products'', idType, idValue, pp_SortField pp, pp_SortOrder pp, cursorPart (pp_Cursor pp),
                           itoa (getWatermark s WatermarkProducts)] (\<lambda>etag cc.
      writePage (QueryProducts s idType idValue (pp_SortField pp) (pp_SortOrder pp)) prod_Name prod_UUID
        (\<lambda>p. decide s r CapProductRead (no_resource\<lparr>ProductUUID := prod_UUID p\<rparr>)) pp scope etag cc)))"

definition queryComponents :: "db \<Rightarrow> web_request \<Rightarrow> Component paginated response option" where
  "queryComponents s r =
     (case IDFilter (web_params r) of Inl _ \<Rightarrow> Some (BadRequestTyped ''invalid idType'') | Inr (idType, idValue) \<Rightarrow>
      let scope = pageScope [''components'', idType, idValue] in
      withPageParams r [''name''] scope (\<lambda>pp.
      conditionalList s r [''components'', idType, idValue, pp_SortField pp, pp_SortOrder pp, cursorPart (pp_Cursor pp),
                           itoa (getWatermark s WatermarkComponents)] (\<lambda>etag cc.
      writePage (QueryComponents s idType idValue (pp_SortField pp) (pp_SortOrder pp)) comp_Name comp_UUID
        (\<lambda>c. decide s r CapProductRead (no_resource\<lparr>ComponentUUID := comp_UUID c\<rparr>)) pp scope etag cc)))"

definition releaseSortFields :: "string list" where
  "releaseSortFields = [''createdDate'', ''releaseDate'', ''version'']"

definition queryProductReleases :: "db \<Rightarrow> web_request \<Rightarrow> ProductRelease paginated response option" where
  "queryProductReleases s r =
     (case IDFilter (web_params r) of Inl _ \<Rightarrow> Some (BadRequestTyped ''invalid idType'') | Inr (idType, idValue) \<Rightarrow>
      let scope = pageScope [''productReleases'', idType, idValue] in
      withPageParams r releaseSortFields scope (\<lambda>pp.
      conditionalList s r [''productReleases'', idType, idValue, pp_SortField pp, pp_SortOrder pp, cursorPart (pp_Cursor pp),
                           itoa (getWatermark s WatermarkProductReleases)] (\<lambda>etag cc.
      writePage (QueryProductReleases s idType idValue (pp_SortField pp) (pp_SortOrder pp))
        (\<lambda>pr. productReleaseSortValue pr (pp_SortField pp)) prel_UUID
        (\<lambda>pr. decide s r CapReleaseRead (no_resource\<lparr>ProductReleaseUUID := prel_UUID pr\<rparr>)) pp scope etag cc)))"

definition queryComponentReleases :: "db \<Rightarrow> web_request \<Rightarrow> ComponentRelease paginated response option" where
  "queryComponentReleases s r =
     (case IDFilter (web_params r) of Inl _ \<Rightarrow> Some (BadRequestTyped ''invalid idType'') | Inr (idType, idValue) \<Rightarrow>
      let scope = pageScope [''componentReleases'', idType, idValue] in
      withPageParams r releaseSortFields scope (\<lambda>pp.
      conditionalList s r [''componentReleases'', idType, idValue, pp_SortField pp, pp_SortOrder pp, cursorPart (pp_Cursor pp),
                           itoa (getWatermark s WatermarkComponentReleases)] (\<lambda>etag cc.
      writePage (QueryComponentReleases s idType idValue (pp_SortField pp) (pp_SortOrder pp))
        (\<lambda>cr. componentReleaseSortValue cr (pp_SortField pp)) crel_UUID
        (\<lambda>cr. decide s r CapReleaseRead (no_resource\<lparr>ComponentReleaseUUID := crel_UUID cr\<rparr>)) pp scope etag cc)))"

text \<open>A guard written for a single response, in front of a list.\<close>

definition guarded :: "unit response \<Rightarrow> 'a response option \<Rightarrow> 'a response option" where
  "guarded g rest =
     (case g of OK _ _ _ \<Rightarrow> rest | NotModified e c \<Rightarrow> Some (NotModified e c) | BadRequestTyped m \<Rightarrow> Some (BadRequestTyped m)
      | InvalidPage b \<Rightarrow> Some (InvalidPage b) | NotFound \<Rightarrow> Some NotFound | UnauthorizedBearer b \<Rightarrow> Some (UnauthorizedBearer b)
      | InternalError e \<Rightarrow> Some (InternalError e))"

definition listReleasesByProduct :: "db \<Rightarrow> web_request \<Rightarrow> ProductRelease paginated response option" where
  "listReleasesByProduct s r =
     (case PathUUID (web_params r) ''uuid'' of Inl _ \<Rightarrow> Some (BadRequestTyped ''invalid uuid'') | Inr u \<Rightarrow>
      guarded (fetched (getProductTx s u) (\<lambda>_. OK [] [] ()))
      (guarded (authorize s r CapProductDiscover (no_resource\<lparr>ProductUUID := u\<rparr>) (OK [] [] ()))
      (let scope = pageScope [''product/releases'', u] in
       withPageParams r releaseSortFields scope (\<lambda>pp.
       conditionalList s r [''productReleases'', u, pp_SortField pp, pp_SortOrder pp, cursorPart (pp_Cursor pp),
                            itoa (getWatermark s WatermarkProductReleases)] (\<lambda>etag cc.
       writePage (ListProductReleasesByProduct s u (pp_SortField pp) (pp_SortOrder pp))
         (\<lambda>pr. productReleaseSortValue pr (pp_SortField pp)) prel_UUID
         (\<lambda>pr. decide s r CapReleaseRead (no_resource\<lparr>ProductReleaseUUID := prel_UUID pr\<rparr>)) pp scope etag cc)))))"

definition listReleasesByComponent :: "db \<Rightarrow> web_request \<Rightarrow> ComponentRelease paginated response option" where
  "listReleasesByComponent s r =
     (case PathUUID (web_params r) ''uuid'' of Inl _ \<Rightarrow> Some (BadRequestTyped ''invalid uuid'') | Inr u \<Rightarrow>
      guarded (fetched (getComponentTx s u) (\<lambda>_. OK [] [] ()))
      (guarded (authorize s r CapProductDiscover (no_resource\<lparr>ComponentUUID := u\<rparr>) (OK [] [] ()))
      (let scope = pageScope [''component/releases'', u] in
       withPageParams r releaseSortFields scope (\<lambda>pp.
       conditionalList s r [''componentReleases'', u, pp_SortField pp, pp_SortOrder pp, cursorPart (pp_Cursor pp),
                            itoa (getWatermark s WatermarkComponentReleases)] (\<lambda>etag cc.
       writePage (ListComponentReleasesByComponent s u (pp_SortField pp) (pp_SortOrder pp))
         (\<lambda>cr. componentReleaseSortValue cr (pp_SortField pp)) crel_UUID
         (\<lambda>cr. decide s r CapReleaseRead (no_resource\<lparr>ComponentReleaseUUID := crel_UUID cr\<rparr>)) pp scope etag cc)))))"

definition collectionSortValue :: "Collection \<Rightarrow> string" where
  "collectionSortValue c = itoa (coll_Version c)"

definition listCollections :: "db \<Rightarrow> web_request \<Rightarrow> string \<Rightarrow> Collection paginated response" where
  "listCollections s r belongsTo =
     withPathUUID r (\<lambda>u.
     authorize s r CapCollectionRead (no_resource\<lparr>CollectionUUID := u\<rparr>)
     (let scope = pageScope [if belongsTo = BelongsToComponentRelease then ''componentRelease/collections''
                             else ''productRelease/collections'', u] in
      case parsePageParams (web_params r) (web_token r) [''version''] scope of Inl e \<Rightarrow> InvalidPage e | Inr pp \<Rightarrow>
      conditional s r cacheControlRevalidate
        [''collections'', belongsTo, u, pp_SortOrder pp, cursorPart (pp_Cursor pp), itoa (getWatermark s WatermarkCollections)] (\<lambda>etag cc.
      case ListCollections s u (pp_SortOrder pp) (pp_Cursor pp) (pp_PageSize pp + 1) belongsTo of
        Inl err \<Rightarrow> InternalError err
      | Inr rows \<Rightarrow>
          (let (page, hasNext) = splitPage rows (pp_PageSize pp) in
           if hasNext \<and> page = [] then InternalError (ErrOther ''panic: index out of range'')
           else OK etag cc
             \<lparr>pg_Results = page, pg_HasNext = hasNext,
              pg_NextPageToken =
                (if hasNext then nextPageToken True (pp_SortField pp) (pp_SortOrder pp) (collectionSortValue (last page)) (coll_UUID (last page)) scope
                 else None)\<rparr>))))"

section \<open>What a decision means\<close>

text \<open>The policy of \<open>decide_refines\<close>, for the caller and the instant of a request.\<close>

definition may :: "db \<Rightarrow> web_request \<Rightarrow> Capability \<Rightarrow> Resource \<Rightarrow> bool" where
  "may s r cap res \<longleftrightarrow>
     (\<exists>t. target_of res = Some t \<and> resolvable s t
        \<and> permits (candidates_for s (web_now r) (web_principal r) cap (ResArtifactType res) t))"

lemma decide_resolvable:
  assumes "target_of res = Some t" and "resolvable s t"
  shows "decide s r cap res = Inr (may s r cap res)"
proof -
  obtain cs where "CandidateRules s (web_now r) (web_principal r) cap res = Inr cs"
    using CandidateRules_error [of s "web_now r" "web_principal r" cap res] assms
    by (cases "CandidateRules s (web_now r) (web_principal r) cap res") auto
  then have "decide s r cap res = Inr (Allowed (snd (Decide (CandidateRules s (web_now r)) (web_principal r) cap res)))"
    by (simp add: decide_def Decide_def)
  then show ?thesis by (simp add: decide_refines may_def)
qed

lemma decide_may: "decide s r cap res = Inr ok \<Longrightarrow> ok = may s r cap res"
  using decide_refines [of s "web_now r" "web_principal r" cap res]
  by (auto simp: decide_def may_def split: prod.splits option.splits)

lemma may_token [simp]: "may s (r\<lparr>web_token := t\<rparr>) cap res = may s r cap res"
  by (simp add: may_def)

lemma decide_token [simp]: "decide s (r\<lparr>web_token := t\<rparr>) cap res = decide s r cap res"
  by (simp add: decide_def)

section \<open>Following the page tokens\<close>

text \<open>
  A client that sends the token of each page with the next request, everything else unchanged, until a
  page has none.
\<close>

inductive client_walk :: "(web_request \<Rightarrow> 'a paginated response option) \<Rightarrow> web_request \<Rightarrow> 'a list list \<Rightarrow> bool" for handler where
  no_more: "handler r = Some (OK etag cc pg) \<Longrightarrow> pg_NextPageToken pg = None \<Longrightarrow> client_walk handler r [pg_Results pg]"
| follow: "handler r = Some (OK etag cc pg) \<Longrightarrow> pg_NextPageToken pg = Some t \<Longrightarrow>
     client_walk handler (r\<lparr>web_token := Some t\<rparr>) rest \<Longrightarrow> client_walk handler r (pg_Results pg # rest)"

lemma client_walk_page:
  "handler r = Some (OK etag cc pg) \<Longrightarrow> client_walk handler r pages \<longleftrightarrow>
     (case pg_NextPageToken pg of
        None \<Rightarrow> pages = [pg_Results pg]
      | Some t \<Rightarrow> \<exists>rest. pages = pg_Results pg # rest \<and> client_walk handler (r\<lparr>web_token := Some t\<rparr>) rest)"
  by (subst client_walk.simps) (auto split: option.splits)

lemma client_walk_deterministic: "client_walk handler r ps \<Longrightarrow> client_walk handler r qs \<Longrightarrow> qs = ps"
proof (induction r ps arbitrary: qs rule: client_walk.induct)
  case (no_more r etag cc pg)
  then show ?case by (simp add: client_walk_page)
next
  case (follow r etag cc pg t rest)
  from follow.prems follow.hyps(1,2) obtain rest' where
    "qs = pg_Results pg # rest'" "client_walk handler (r\<lparr>web_token := Some t\<rparr>) rest'"
    by (auto simp: client_walk_page)
  with follow.IH show ?case by simp
qed

text \<open>A cursor a token of this listing can carry.\<close>

definition token_for :: "string \<Rightarrow> string \<Rightarrow> string \<Rightarrow> Cursor option \<Rightarrow> bool" where
  "token_for sortField sortOrder scope c \<longleftrightarrow>
     (case c of None \<Rightarrow> True
      | Some d \<Rightarrow> cur_SortField d = sortField \<and> cur_SortOrder d = sortOrder \<and> cur_Scope d = scope \<and> cur_LastUUID d \<noteq> [])"

lemma SortOrder_values: "SortOrder q = Inr v \<Longrightarrow> v = ''asc'' \<or> v = ''desc''"
  by (auto simp: SortOrder_def Let_def split: if_splits)

lemma SortField_allowed: "SortField q allowed = Inr v \<Longrightarrow> v \<in> set allowed"
  by (auto simp: SortField_def Let_def split: if_splits list.splits)

lemma PageSize_range: "PageSize q = Inr n \<Longrightarrow> 1 \<le> n \<and> n \<le> 100"
  by (auto simp: PageSize_def Let_def split: if_splits option.splits)

lemma parsePageParams_token:
  assumes "PageSize q = Inr n" and "SortField q allowed = Inr fld" and "SortOrder q = Inr ord"
    and "[] \<notin> set allowed" and "scope \<noteq> []" and "token_for fld ord scope c"
  shows "parsePageParams q (map_option Encode c) allowed scope =
           Inr \<lparr>pp_PageSize = n, pp_SortField = fld, pp_SortOrder = ord, pp_Cursor = c\<rparr>"
proof -
  have "fld \<noteq> []" using SortField_allowed [OF assms(2)] assms(4) by auto
  moreover have "ord \<noteq> []" using SortOrder_values [OF assms(3)] by auto
  ultimately show ?thesis using assms
    by (cases c) (auto simp: parsePageParams_def token_for_def Decode_Encode)
qed

lemma filterAuthorizedLoop_more:
  assumes "filterAuthorizedLoop fetch toCursor authorized n c page = Some (Inr (rows, True))" and "1 \<le> n"
  shows "rows \<noteq> []"
proof -
  have "\<forall>rows. Inr (rows', True) = (Inr (rows, True) :: repo_error + _) \<longrightarrow> 1 \<le> n \<longrightarrow> rows \<noteq> []"
    if "filterAuthorizedLoop fetch toCursor authorized n c page = Some (Inr (rows', True))" for rows'
    by (rule filterAuthorizedLoop.raw_induct
          [where P = "\<lambda>_ _ _ n _ _ y. \<forall>rows. y = Inr (rows, True) \<longrightarrow> 1 \<le> n \<longrightarrow> rows \<noteq> []", OF _ that])
       (auto simp: splitPage_def split: sum.splits if_splits)
  with assms show ?thesis by blast
qed

text \<open>
  The interface of a list endpoint: over a page source, its handler answers a request whose token is
  absent or its own with one page. \<open>asks\<close> is what the endpoint demands of the request besides.
\<close>

locale list_endpoint = keyset_source inv fetch listing "\<lambda>x. nameCursor sortField sortOrder [] (sortValue x) (uid x)"
  for inv :: "db \<Rightarrow> bool" and fetch :: "db \<Rightarrow> Cursor option \<Rightarrow> int \<Rightarrow> repo_error + 'a list" and listing :: "db \<Rightarrow> 'a list"
    and sortField sortOrder :: string and sortValue :: "'a \<Rightarrow> string" and uid :: "'a \<Rightarrow> uuid" +
  fixes handler :: "db \<Rightarrow> web_request \<Rightarrow> 'a paginated response option"
    and asks :: "db \<Rightarrow> web_request \<Rightarrow> bool" and pageSize :: int and scope :: string
    and authorized :: "db \<Rightarrow> web_request \<Rightarrow> 'a \<Rightarrow> repo_error + bool"
  assumes handler_page: "asks s r \<Longrightarrow> token_for sortField sortOrder scope c \<Longrightarrow>
      \<exists>etag cc. handler s (r\<lparr>web_token := map_option Encode c\<rparr>) =
        writePage (fetch s) sortValue uid (authorized s r)
          \<lparr>pp_PageSize = pageSize, pp_SortField = sortField, pp_SortOrder = sortOrder, pp_Cursor = c\<rparr> scope etag cc"
    and pageSize_pos: "asks s r \<Longrightarrow> 1 \<le> pageSize"
begin

abbreviation "page s r c \<equiv> filterAuthorized (fetch s) (\<lambda>x. nameCursor sortField sortOrder [] (sortValue x) (uid x)) (authorized s r) c pageSize"
abbreviation "next_cursor x \<equiv> nameCursor sortField sortOrder scope (sortValue x) (uid x)"

lemma handler_answers:
  assumes "asks s r" and "token_for sortField sortOrder scope c" and "page s r c = Some (Inr (rows, hn))"
  shows "\<exists>etag cc. handler s (r\<lparr>web_token := map_option Encode c\<rparr>) =
     Some (OK etag cc \<lparr>pg_Results = rows, pg_HasNext = hn,
       pg_NextPageToken = (if hn then Some (Encode (next_cursor (last rows))) else None)\<rparr>)"
proof -
  have "hn \<Longrightarrow> rows \<noteq> []"
    using assms(3) pageSize_pos [OF assms(1)] by (auto simp: filterAuthorized_def dest: filterAuthorizedLoop_more)
  with handler_page [OF assms(1,2)] assms(3) show ?thesis
    by (auto simp: writePage_def nameCursor_def nextPageToken_def)
qed

lemma walk_client_walk:
  assumes "walk (page s r) next_cursor c pages" and "asks s r" and "token_for sortField sortOrder scope c"
    and "\<forall>pg \<in> set pages. \<forall>x \<in> set pg. uid x \<noteq> []"
  shows "client_walk (handler s) (r\<lparr>web_token := map_option Encode c\<rparr>) pages"
  using assms
proof (induction c pages rule: walk.induct)
  case (last_page c rows)
  from handler_answers [OF last_page.prems(1,2) last_page.hyps] obtain etag cc where
    "handler s (r\<lparr>web_token := map_option Encode c\<rparr>) = Some (OK etag cc \<lparr>pg_Results = rows, pg_HasNext = False, pg_NextPageToken = None\<rparr>)"
    by auto
  then show ?case by (simp add: client_walk_page)
next
  case (next_page c rows rest)
  from handler_answers [OF next_page.prems(1,2) next_page.hyps(1)] obtain etag cc where
    h: "handler s (r\<lparr>web_token := map_option Encode c\<rparr>) =
      Some (OK etag cc \<lparr>pg_Results = rows, pg_HasNext = True, pg_NextPageToken = Some (Encode (next_cursor (last rows)))\<rparr>)"
    by auto
  have "rows \<noteq> []"
    using next_page.hyps(1) pageSize_pos [OF next_page.prems(1)] by (auto simp: filterAuthorized_def dest: filterAuthorizedLoop_more)
  then have "token_for sortField sortOrder scope (Some (next_cursor (last rows)))"
    using next_page.prems(3) by (simp add: token_for_def nameCursor_def)
  with next_page have "client_walk (handler s) (r\<lparr>web_token := Some (Encode (next_cursor (last rows)))\<rparr>) rest" by simp
  with h show ?case by (simp add: client_walk_page)
qed

theorem client_walk_complete:
  assumes "inv s" and "asks s r" and "web_token r = None"
    and "\<forall>x \<in> set (listing s). uid x \<noteq> [] \<and> authorized s r x = Inr (p x)"
  shows "\<exists>pages. (\<forall>ps. client_walk (handler s) r ps \<longleftrightarrow> ps = pages)
           \<and> concat pages = filter p (listing s) \<and> (\<forall>pg \<in> set pages. int (length pg) \<le> pageSize)"
proof -
  have pos: "same_position (next_cursor x) (nameCursor sortField sortOrder [] (sortValue x) (uid x))" for x
    by (simp add: same_position_def nameCursor_def)
  obtain pages where w: "walk (page s r) next_cursor None pages" and c: "concat pages = filter p (listing s)"
    and sz: "\<forall>pg \<in> set pages. int (length pg) \<le> pageSize"
    using walk_after [of s pageSize next_cursor "[]" "listing s" None "authorized s r" p]
      assms pageSize_pos [OF assms(2)] pos by (auto simp: after_rows_def)
  have "uid x \<noteq> []" if "pg \<in> set pages" "x \<in> set pg" for pg x
  proof -
    from that have "x \<in> set (concat pages)" by auto
    with c assms(4) show ?thesis by auto
  qed
  with walk_client_walk [OF w assms(2)] have "client_walk (handler s) (r\<lparr>web_token := None\<rparr>) pages"
    by (simp add: token_for_def)
  moreover have "r\<lparr>web_token := None\<rparr> = r" using assms(3) by simp
  ultimately have "client_walk (handler s) r pages" by metis
  with c sz client_walk_deterministic show ?thesis by metis
qed

end

section \<open>The list endpoints as walks\<close>

definition page_request :: "web_request \<Rightarrow> string list \<Rightarrow> int \<Rightarrow> string \<Rightarrow> string \<Rightarrow> bool" where
  "page_request r allowed n sortField sortOrder \<longleftrightarrow>
     web_if_none_match r = [] \<and> PageSize (web_params r) = Inr n \<and> SortField (web_params r) allowed = Inr sortField
     \<and> SortOrder (web_params r) = Inr sortOrder"

lemma page_request_pos: "page_request r allowed n sortField sortOrder \<Longrightarrow> 1 \<le> n"
  by (auto simp: page_request_def dest: PageSize_range)

lemma conditionalList_fresh:
  "web_if_none_match r = [] \<Longrightarrow> \<exists>etag cc. conditionalList s r parts rest = rest etag cc"
  by (auto simp: conditionalList_def conditional_def MatchesIfNoneMatch_def)

lemma withPageParams_page:
  assumes "page_request r allowed n sortField sortOrder" and "token_for sortField sortOrder scope c"
    and "[] \<notin> set allowed" and "scope \<noteq> []"
  shows "withPageParams (r\<lparr>web_token := map_option Encode c\<rparr>) allowed scope rest =
           rest \<lparr>pp_PageSize = n, pp_SortField = sortField, pp_SortOrder = sortOrder, pp_Cursor = c\<rparr>"
  using assms parsePageParams_token [of "web_params r" n allowed sortField sortOrder scope c]
  by (simp add: withPageParams_def page_request_def)

lemma pageScope_not_empty: "p \<noteq> [] \<Longrightarrow> pageScope (p # ps) \<noteq> []"
  by (simp add: pageScope_def)

definition asks_products :: "string \<Rightarrow> string \<Rightarrow> string \<Rightarrow> int \<Rightarrow> db \<Rightarrow> web_request \<Rightarrow> bool" where
  "asks_products idType idValue sortOrder n s r \<longleftrightarrow>
     page_request r [''name''] n ''name'' sortOrder \<and> IDFilter (web_params r) = Inr (idType, idValue)"

definition asks_releases :: "uuid \<Rightarrow> string \<Rightarrow> string \<Rightarrow> int \<Rightarrow> db \<Rightarrow> web_request \<Rightarrow> bool" where
  "asks_releases u sortField sortOrder n s r \<longleftrightarrow>
     page_request r releaseSortFields n sortField sortOrder \<and> PathUUID (web_params r) ''uuid'' = Inr u
     \<and> existsProductTx s u = Inr () \<and> decide s r CapProductDiscover (no_resource\<lparr>ProductUUID := u\<rparr>) = Inr True"

text \<open>The part the handlers share between the request and \<open>writePage\<close>.\<close>

lemma list_page:
  assumes "page_request r allowed n sortField sortOrder" and "token_for sortField sortOrder scope c"
    and "[] \<notin> set allowed" and "scope \<noteq> []"
  shows "\<exists>etag cc. withPageParams (r\<lparr>web_token := map_option Encode c\<rparr>) allowed scope
           (\<lambda>pp. conditionalList s (r\<lparr>web_token := map_option Encode c\<rparr>) (parts pp) (k pp)) =
         k \<lparr>pp_PageSize = n, pp_SortField = sortField, pp_SortOrder = sortOrder, pp_Cursor = c\<rparr> etag cc"
  using assms conditionalList_fresh [of "r\<lparr>web_token := map_option Encode c\<rparr>"]
  by (simp add: withPageParams_page) (simp add: page_request_def)

interpretation lp: list_endpoint catalog_wf "\<lambda>s. QueryProducts s idType idValue ''name'' sortOrder"
  "product_listing idType idValue sortOrder" "''name''" sortOrder prod_Name prod_UUID queryProducts
  "asks_products idType idValue sortOrder n" n "pageScope [''products'', idType, idValue]"
  "\<lambda>s r p. decide s r CapProductRead (no_resource\<lparr>ProductUUID := prod_UUID p\<rparr>)"
  for idType idValue sortOrder n
proof unfold_locales
  fix s r c assume a: "asks_products idType idValue sortOrder n s r"
    and c: "token_for ''name'' sortOrder (pageScope [''products'', idType, idValue]) c"
  let ?r = "r\<lparr>web_token := map_option Encode c\<rparr>" and ?scope = "pageScope [''products'', idType, idValue]"
  let ?parts = "\<lambda>pp. [''products'', idType, idValue, pp_SortField pp, pp_SortOrder pp, cursorPart (pp_Cursor pp),
      itoa (getWatermark s WatermarkProducts)]"
  let ?k = "\<lambda>pp. writePage (QueryProducts s idType idValue (pp_SortField pp) (pp_SortOrder pp)) prod_Name prod_UUID
      (\<lambda>p. decide s r CapProductRead (no_resource\<lparr>ProductUUID := prod_UUID p\<rparr>)) pp ?scope"
  have "queryProducts s ?r = withPageParams ?r [''name''] ?scope (\<lambda>pp. conditionalList s ?r (?parts pp) (?k pp))"
    using a by (simp add: queryProducts_def asks_products_def Let_def)
  with a list_page [OF _ c, of r "[''name'']" n s ?parts ?k]
  show "\<exists>etag cc. queryProducts s (r\<lparr>web_token := map_option Encode c\<rparr>) =
      writePage (QueryProducts s idType idValue ''name'' sortOrder) prod_Name prod_UUID
        (\<lambda>p. decide s r CapProductRead (no_resource\<lparr>ProductUUID := prod_UUID p\<rparr>))
        \<lparr>pp_PageSize = n, pp_SortField = ''name'', pp_SortOrder = sortOrder, pp_Cursor = c\<rparr>
        (pageScope [''products'', idType, idValue]) etag cc"
    by (simp add: asks_products_def pageScope_not_empty)
next
  show "1 \<le> n" if "asks_products idType idValue sortOrder n s r" for s r
    using that by (auto simp: asks_products_def dest: page_request_pos)
qed

interpretation lc: list_endpoint catalog_wf "\<lambda>s. QueryComponents s idType idValue ''name'' sortOrder"
  "component_listing idType idValue sortOrder" "''name''" sortOrder comp_Name comp_UUID queryComponents
  "asks_products idType idValue sortOrder n" n "pageScope [''components'', idType, idValue]"
  "\<lambda>s r c. decide s r CapProductRead (no_resource\<lparr>ComponentUUID := comp_UUID c\<rparr>)"
  for idType idValue sortOrder n
proof unfold_locales
  fix s r c assume a: "asks_products idType idValue sortOrder n s r"
    and c: "token_for ''name'' sortOrder (pageScope [''components'', idType, idValue]) c"
  let ?r = "r\<lparr>web_token := map_option Encode c\<rparr>" and ?scope = "pageScope [''components'', idType, idValue]"
  let ?parts = "\<lambda>pp. [''components'', idType, idValue, pp_SortField pp, pp_SortOrder pp, cursorPart (pp_Cursor pp),
      itoa (getWatermark s WatermarkComponents)]"
  let ?k = "\<lambda>pp. writePage (QueryComponents s idType idValue (pp_SortField pp) (pp_SortOrder pp)) comp_Name comp_UUID
      (\<lambda>p. decide s r CapProductRead (no_resource\<lparr>ComponentUUID := comp_UUID p\<rparr>)) pp ?scope"
  have "queryComponents s ?r = withPageParams ?r [''name''] ?scope (\<lambda>pp. conditionalList s ?r (?parts pp) (?k pp))"
    using a by (simp add: queryComponents_def asks_products_def Let_def)
  with a list_page [OF _ c, of r "[''name'']" n s ?parts ?k]
  show "\<exists>etag cc. queryComponents s (r\<lparr>web_token := map_option Encode c\<rparr>) =
      writePage (QueryComponents s idType idValue ''name'' sortOrder) comp_Name comp_UUID
        (\<lambda>p. decide s r CapProductRead (no_resource\<lparr>ComponentUUID := comp_UUID p\<rparr>))
        \<lparr>pp_PageSize = n, pp_SortField = ''name'', pp_SortOrder = sortOrder, pp_Cursor = c\<rparr>
        (pageScope [''components'', idType, idValue]) etag cc"
    by (simp add: asks_products_def pageScope_not_empty)
next
  show "1 \<le> n" if "asks_products idType idValue sortOrder n s r" for s r
    using that by (auto simp: asks_products_def dest: page_request_pos)
qed

interpretation lr: list_endpoint "\<lambda>s. releases_wf s \<and> total_sort sortField"
  "\<lambda>s. ListProductReleasesByProduct s u sortField sortOrder" "product_release_listing u sortField sortOrder"
  sortField sortOrder "\<lambda>pr. productReleaseSortValue pr sortField" prel_UUID listReleasesByProduct
  "asks_releases u sortField sortOrder n" n "pageScope [''product/releases'', u]"
  "\<lambda>s r pr. decide s r CapReleaseRead (no_resource\<lparr>ProductReleaseUUID := prel_UUID pr\<rparr>)"
  for u sortField sortOrder n
proof unfold_locales
  fix s r c assume a: "asks_releases u sortField sortOrder n s r"
    and c: "token_for sortField sortOrder (pageScope [''product/releases'', u]) c"
  let ?r = "r\<lparr>web_token := map_option Encode c\<rparr>"
  let ?scope = "pageScope [''product/releases'', u]"
  let ?parts = "\<lambda>pp. [''productReleases'', u, pp_SortField pp, pp_SortOrder pp, cursorPart (pp_Cursor pp),
      itoa (getWatermark s WatermarkProductReleases)]"
  let ?k = "\<lambda>pp. writePage (ListProductReleasesByProduct s u (pp_SortField pp) (pp_SortOrder pp))
      (\<lambda>pr. productReleaseSortValue pr (pp_SortField pp)) prel_UUID
      (\<lambda>pr. decide s r CapReleaseRead (no_resource\<lparr>ProductReleaseUUID := prel_UUID pr\<rparr>)) pp ?scope"
  have "\<exists>p. getProductTx s u = Inr p"
    using a by (auto simp: asks_releases_def existsProductTx_def getProductTx_def find_row_None split: option.splits if_splits)
  then have "listReleasesByProduct s ?r = withPageParams ?r releaseSortFields ?scope (\<lambda>pp. conditionalList s ?r (?parts pp) (?k pp))"
    using a by (auto simp: listReleasesByProduct_def asks_releases_def fetched_def guarded_def authorize_def Let_def)
  with a list_page [OF _ c, of r releaseSortFields n s ?parts ?k]
  show "\<exists>etag cc. listReleasesByProduct s ?r =
      writePage (ListProductReleasesByProduct s u sortField sortOrder) (\<lambda>pr. productReleaseSortValue pr sortField) prel_UUID
        (\<lambda>pr. decide s r CapReleaseRead (no_resource\<lparr>ProductReleaseUUID := prel_UUID pr\<rparr>))
        \<lparr>pp_PageSize = n, pp_SortField = sortField, pp_SortOrder = sortOrder, pp_Cursor = c\<rparr>
        (pageScope [''product/releases'', u]) etag cc"
    by (simp add: asks_releases_def releaseSortFields_def pageScope_not_empty)
next
  show "1 \<le> n" if "asks_releases u sortField sortOrder n s r" for s r
    using that by (auto simp: asks_releases_def dest: page_request_pos)
qed

section \<open>A response needs a grant\<close>

text \<open>Whether a handler gave the representation or confirmed the client's copy of it.\<close>

fun answered :: "'a response \<Rightarrow> bool" where
  "answered (OK _ _ _) = True"
| "answered (NotModified _ _) = True"
| "answered _ = False"

lemma answered_fetched: "answered (fetched q rest) \<Longrightarrow> \<exists>x. q = Inr x \<and> answered (rest x)"
  by (auto simp: fetched_def split: sum.splits if_splits)

lemma answered_authorize:
  "answered (authorize s r cap res rest) \<Longrightarrow> may s r cap res \<and> answered rest"
  by (auto simp: authorize_def writeAuthzDenial_def split: sum.splits if_splits dest: decide_may)

lemma answered_withPathUUID:
  "answered (withPathUUID r rest) \<Longrightarrow> answered (rest (req_path (web_params r) ''uuid''))"
  by (auto simp: withPathUUID_def PathUUID_def Let_def split: if_splits)

lemmas answeredD = answered_withPathUUID answered_fetched answered_authorize

lemma answered_products:
  "answered (getProduct s r) \<Longrightarrow> may s r CapProductRead (no_resource\<lparr>ProductUUID := req_path (web_params r) ''uuid''\<rparr>)"
  "answered (getComponent s r) \<Longrightarrow> may s r CapProductRead (no_resource\<lparr>ComponentUUID := req_path (web_params r) ''uuid''\<rparr>)"
  by (auto simp: getProduct_def getComponent_def dest!: answeredD)

lemma answered_releases:
  "answered (getProductRelease s r) \<Longrightarrow> may s r CapReleaseRead (no_resource\<lparr>ProductReleaseUUID := req_path (web_params r) ''uuid''\<rparr>)
     \<and> may s r CapCollectionRead (no_resource\<lparr>CollectionUUID := req_path (web_params r) ''uuid''\<rparr>)"
  "answered (getComponentReleaseWithCollection s r) \<Longrightarrow>
     may s r CapReleaseRead (no_resource\<lparr>ComponentReleaseUUID := req_path (web_params r) ''uuid''\<rparr>)
     \<and> may s r CapCollectionRead (no_resource\<lparr>CollectionUUID := req_path (web_params r) ''uuid''\<rparr>)"
  by (auto simp: getProductRelease_def getComponentReleaseWithCollection_def split: option.splits dest!: answeredD)

lemma answered_collections:
  "answered (latestCollection s r bt) \<or> answered (getCollectionByVersion s r bt) \<or> answered (listCollections s r bt) \<Longrightarrow>
     may s r CapCollectionRead (no_resource\<lparr>CollectionUUID := req_path (web_params r) ''uuid''\<rparr>)"
  by (auto simp: latestCollection_def getCollectionByVersion_def listCollections_def
      split: option.splits sum.splits dest!: answeredD)

lemma answered_artifacts:
  "answered (getLatestArtifact s r) \<Longrightarrow> \<exists>v ty. LatestArtifactVersion s (req_path (web_params r) ''uuid'') = Some v
     \<and> GetArtifactType s (req_path (web_params r) ''uuid'') v = Inr ty
     \<and> may s r CapArtifactMetadataRead (no_resource\<lparr>ArtifactUUID := req_path (web_params r) ''uuid'', ResArtifactType := ty\<rparr>)"
  "answered (getArtifactByVersion s r) \<Longrightarrow> \<exists>v ty. PathPositiveInt (web_params r) ''artifactVersion'' = Inr v
     \<and> GetArtifactType s (req_path (web_params r) ''uuid'') v = Inr ty
     \<and> may s r CapArtifactMetadataRead (no_resource\<lparr>ArtifactUUID := req_path (web_params r) ''uuid'', ResArtifactType := ty\<rparr>)"
  by (fastforce simp: getLatestArtifact_def getArtifactByVersion_def split: option.splits sum.splits dest!: answeredD)+

text \<open>
  C15. No consumer endpoint for a single object answers, neither with its content nor by confirming a
  cached copy, unless the policy allows the caller to read that object: a product or component needs
  product.read on it, a release needs release.read on the release and collection.read on its collection,
  a collection collection.read, and an artifact artifact.metadata.read for the type of that version.
\<close>

theorem answer_needs_grant:
  assumes "u = req_path (web_params r) ''uuid''"
  shows "(answered (getProduct s r) \<longrightarrow> may s r CapProductRead (no_resource\<lparr>ProductUUID := u\<rparr>))
    \<and> (answered (getComponent s r) \<longrightarrow> may s r CapProductRead (no_resource\<lparr>ComponentUUID := u\<rparr>))
    \<and> (answered (getProductRelease s r) \<longrightarrow>
         may s r CapReleaseRead (no_resource\<lparr>ProductReleaseUUID := u\<rparr>) \<and> may s r CapCollectionRead (no_resource\<lparr>CollectionUUID := u\<rparr>))
    \<and> (answered (getComponentReleaseWithCollection s r) \<longrightarrow>
         may s r CapReleaseRead (no_resource\<lparr>ComponentReleaseUUID := u\<rparr>) \<and> may s r CapCollectionRead (no_resource\<lparr>CollectionUUID := u\<rparr>))
    \<and> (answered (latestCollection s r bt) \<or> answered (getCollectionByVersion s r bt) \<or> answered (listCollections s r bt) \<longrightarrow>
         may s r CapCollectionRead (no_resource\<lparr>CollectionUUID := u\<rparr>))
    \<and> (answered (getLatestArtifact s r) \<longrightarrow> (\<exists>v ty. LatestArtifactVersion s u = Some v \<and> GetArtifactType s u v = Inr ty
         \<and> may s r CapArtifactMetadataRead (no_resource\<lparr>ArtifactUUID := u, ResArtifactType := ty\<rparr>)))
    \<and> (answered (getArtifactByVersion s r) \<longrightarrow> (\<exists>v ty. PathPositiveInt (web_params r) ''artifactVersion'' = Inr v
         \<and> GetArtifactType s u v = Inr ty
         \<and> may s r CapArtifactMetadataRead (no_resource\<lparr>ArtifactUUID := u, ResArtifactType := ty\<rparr>)))"
  unfolding assms
  by (intro conjI impI answered_products answered_releases answered_collections answered_artifacts)

section \<open>What a denied caller sees\<close>

lemma getProduct_cases:
  assumes "PathUUID (web_params r) ''uuid'' = Inr u"
  shows "getProduct s r =
    (if \<not> has_row (\<lambda>p. p_uuid p = u) (tbl_product s) then NotFound
     else if \<not> may s r CapProductRead (no_resource\<lparr>ProductUUID := u\<rparr>) then writeAuthzDenial r
     else conditional s r cacheControlRevalidate [''product'', u]
       (\<lambda>etag cc. fetched (getProductTx s u) (OK etag cc)))"
proof -
  have "length u = 36" using assms by (auto simp: PathUUID_def Valid_def Let_def split: if_splits)
  then have "target_of (no_resource\<lparr>ProductUUID := u\<rparr>) = Some (TProduct u)"
    by (auto simp: target_of_def no_resource_def)
  from decide_resolvable [OF this, of s r] show ?thesis
    using assms by (auto simp: getProduct_def withPathUUID_def fetched_def existsProductTx_def authorize_def resolvable.simps)
qed

lemma getComponent_cases:
  assumes "PathUUID (web_params r) ''uuid'' = Inr u"
  shows "getComponent s r =
    (if \<not> has_row (\<lambda>c. co_uuid c = u) (tbl_component s) then NotFound
     else if \<not> may s r CapProductRead (no_resource\<lparr>ComponentUUID := u\<rparr>) then writeAuthzDenial r
     else conditional s r cacheControlRevalidate [''component'', u]
       (\<lambda>etag cc. fetched (getComponentTx s u) (OK etag cc)))"
proof -
  have "length u = 36" using assms by (auto simp: PathUUID_def Valid_def Let_def split: if_splits)
  then have "target_of (no_resource\<lparr>ComponentUUID := u\<rparr>) = Some (TComponent u)"
    by (auto simp: target_of_def no_resource_def)
  from decide_resolvable [OF this, of s r] show ?thesis
    using assms by (auto simp: getComponent_def withPathUUID_def fetched_def existsComponentTx_def authorize_def resolvable.simps)
qed

text \<open>
  A product or component the caller may not read looks like one that does not exist to every
  authenticated caller: the answer is 404 in both cases. An anonymous caller gets 401 for an existing
  object, with the invalid-token challenge exactly when it sent an invalid token.
\<close>

theorem denied_is_concealed:
  assumes "PathUUID (web_params r) ''uuid'' = Inr u"
  shows "(\<not> may s r CapProductRead (no_resource\<lparr>ProductUUID := u\<rparr>) \<longrightarrow>
      getProduct s r = (if IsAuthenticated (web_principal r) \<or> \<not> has_row (\<lambda>p. p_uuid p = u) (tbl_product s)
         then NotFound else UnauthorizedBearer (web_invalid_bearer r)))
    \<and> (\<not> may s r CapProductRead (no_resource\<lparr>ComponentUUID := u\<rparr>) \<longrightarrow>
      getComponent s r = (if IsAuthenticated (web_principal r) \<or> \<not> has_row (\<lambda>c. co_uuid c = u) (tbl_component s)
         then NotFound else UnauthorizedBearer (web_invalid_bearer r)))"
  using assms by (simp add: getProduct_cases getComponent_cases writeAuthzDenial_def)

text \<open>
  The list of a release's collections authorizes before it looks: an unknown uuid fails the policy query
  and answers 500, while an existing one the caller may not read answers 404, so the two can be told apart.
\<close>

lemma unknown_collections_disclosed:
  assumes "PathUUID (web_params r) ''uuid'' = Inr u" and "IsAuthenticated (web_principal r)"
  shows "(\<not> resolvable s (TCollection u) \<longrightarrow> (\<exists>e. listCollections s r bt = InternalError e))
    \<and> (resolvable s (TCollection u) \<and> \<not> may s r CapCollectionRead (no_resource\<lparr>CollectionUUID := u\<rparr>) \<longrightarrow>
         listCollections s r bt = NotFound)"
proof -
  have "length u = 36" using assms by (auto simp: PathUUID_def Valid_def Let_def split: if_splits)
  then have t: "target_of (no_resource\<lparr>CollectionUUID := u\<rparr>) = Some (TCollection u)"
    by (auto simp: target_of_def no_resource_def)
  have "\<exists>e. decide s r CapCollectionRead (no_resource\<lparr>CollectionUUID := u\<rparr>) = Inl e" if "\<not> resolvable s (TCollection u)"
    using that t CandidateRules_error [of s "web_now r" "web_principal r" CapCollectionRead "no_resource\<lparr>CollectionUUID := u\<rparr>"]
    by (auto simp: decide_def Decide_def)
  with decide_resolvable [OF t, of s r CapCollectionRead] assms show ?thesis
    by (auto simp: listCollections_def withPathUUID_def authorize_def writeAuthzDenial_def)
qed

section \<open>Revalidation\<close>

lemma trimSpace_quoted: "trimSpace (CHR 0x22 # xs @ [CHR 0x22]) = CHR 0x22 # xs @ [CHR 0x22]"
  by (simp add: trimSpace_def is_space_def Let_def)

lemma Match_own_ETag:
  assumes "CHR '','' \<notin> set (pageScope parts)"
  shows "MatchesIfNoneMatch [BuildETag parts] (BuildETag parts)"
proof -
  have "split_at (CHR '','') (BuildETag parts) = [BuildETag parts]"
    using assms by (intro split_at_free) (simp add: BuildETag_def)
  moreover have "trimSpace (BuildETag parts) = BuildETag parts"
    by (simp add: BuildETag_def trimSpace_quoted)
  ultimately show ?thesis by (simp add: MatchesIfNoneMatch_def)
qed

text \<open>A number is readable off its text, which holds no separator.\<close>

lemma digit_value: "of_char (digit k) = 48 + k mod 10"
proof -
  have "nat (48 + k mod 10) < 256" "0 \<le> 48 + k mod 10" by linarith+
  then have "of_char (digit k) = (nat (48 + k mod 10) :: nat)" by (simp add: digit_def)
  with \<open>0 \<le> 48 + k mod 10\<close> show ?thesis by (metis int_nat_eq of_nat_of_char)
qed

lemma digits_value_snoc: "digits_value (ds @ [c]) = digits_value ds * 10 + (of_char c - 48)"
  by (simp add: digits_value_def)

lemma digits_value_decimal: "digits_value (decimal n) = int n"
proof (induction n rule: less_induct)
  case (less n)
  show ?case
  proof (cases "n < 10")
    case True
    then show ?thesis by (subst decimal.simps) (simp add: digits_value_def digit_value del: decimal.simps)
  next
    case False
    then have "digits_value (decimal n) = digits_value (decimal (n div 10)) * 10 + int n mod 10"
      by (subst decimal.simps) (simp add: digits_value_snoc digit_value del: decimal.simps)
    with less [of "n div 10"] False show ?thesis by (simp add: of_nat_div del: decimal.simps)
  qed
qed

lemma digit_is_digit: "is_digit (digit k)"
proof -
  have "of_char (digit k) = nat (48 + k mod 10)" by (simp add: digit_def)
  then show ?thesis unfolding is_digit_def by linarith
qed

lemma decimal_is_digit: "c \<in> set (decimal n) \<Longrightarrow> is_digit c"
proof (induction n arbitrary: c rule: less_induct)
  case (less n)
  have "c \<in> set (if n < 10 then [digit (int n)] else decimal (n div 10) @ [digit (int n)])"
    using less.prems by (subst (asm) decimal.simps)
  with less.IH [of "n div 10" c] show ?case by (auto simp: digit_is_digit simp del: decimal.simps split: if_splits)
qed

lemma decimal_no_sign: "CHR ''-'' \<notin> set (decimal n)" and decimal_no_colon: "CHR '':'' \<notin> set (decimal n)"
  using decimal_is_digit [of "CHR ''-''" n] decimal_is_digit [of "CHR '':''" n] by (auto simp: is_digit_def simp del: decimal.simps)

lemma itoa_no_colon: "CHR '':'' \<notin> set (itoa n)"
  using decimal_no_colon by (simp add: itoa_def del: decimal.simps)

lemma itoa_inj [simp]: "itoa m = itoa n \<longleftrightarrow> m = n"
proof
  assume eq: "itoa m = itoa n"
  have hd: "decimal k \<noteq> CHR ''-'' # xs" for k xs using decimal_no_sign [of k] by (metis list.set_intros(1))
  have nn: "nat a = nat b" if "decimal (nat a) = decimal (nat b)" for a b
    using that by (metis digits_value_decimal of_nat_eq_iff)
  show "m = n"
  proof (cases "m < 0"; cases "n < 0")
    assume "m < 0" "n < 0"
    with eq have "nat (- m) = nat (- n)" by (intro nn) (simp add: itoa_def del: decimal.simps)
    with \<open>m < 0\<close> \<open>n < 0\<close> show ?thesis by simp
  next
    assume "\<not> m < 0" "\<not> n < 0"
    with eq have "nat m = nat n" by (intro nn) (simp add: itoa_def del: decimal.simps)
    with \<open>\<not> m < 0\<close> \<open>\<not> n < 0\<close> show ?thesis by simp
  qed (use eq hd hd [symmetric] in \<open>auto simp: itoa_def simp del: decimal.simps\<close>)
qed simp

lemma itoa_no_comma: "CHR '','' \<notin> set (itoa n)"
  using decimal_is_digit [of "CHR '',''"] by (auto simp: itoa_def is_digit_def simp del: decimal.simps)

lemma Valid_chars:
  assumes "Valid u" and "c \<in> set u"
  shows "c = CHR ''-'' \<or> is_hex c"
proof -
  from assms(2) obtain i where i: "i < length u" "u ! i = c" by (auto simp: in_set_conv_nth)
  from assms(1) have len: "length u = 36"
    and all: "\<forall>x \<in> set (zip [0..<36] u). case x of (i, c) \<Rightarrow> if List.member [8, 13, 18, 23] i then c = CHR ''-'' else is_hex c"
    unfolding Valid_def list_all_iff by blast+
  have "(i, c) \<in> set (zip [0..<36] u)"
    using i len by (auto simp: set_zip intro!: exI [of _ i])
  from bspec [OF all this] show ?thesis by (auto split: if_splits)
qed

lemma Valid_no_comma: "Valid u \<Longrightarrow> CHR '','' \<notin> set u" and Valid_no_colon: "Valid u \<Longrightarrow> CHR '':'' \<notin> set u"
  by (auto dest!: Valid_chars simp: is_hex_def)

lemma pageScope_no_comma: "(\<And>p. p \<in> set parts \<Longrightarrow> CHR '','' \<notin> set p) \<Longrightarrow> CHR '','' \<notin> set (pageScope parts)"
  by (cases parts) (auto simp: pageScope_def)

lemma authzCacheSuffix_no_comma:
  "CHR '','' \<notin> set (UserUUID p) \<Longrightarrow> CHR '','' \<notin> set (authzCacheSuffix s p)"
  using itoa_no_comma by (simp add: authzCacheSuffix_def)

lemma authzCacheSuffix_cong: "authzCacheSuffix s (web_principal (r\<lparr>web_if_none_match := x\<rparr>)) = authzCacheSuffix s (web_principal r)"
  by simp

lemma may_if_none_match [simp]: "may s (r\<lparr>web_if_none_match := x\<rparr>) cap res = may s r cap res"
  by (simp add: may_def)

lemma conditional_revalidates:
  assumes "conditional s r base parts rest = OK etag cc x" and "\<And>e c. rest e c = OK e c x \<or> \<not> answered (rest e c)"
    and "\<forall>p \<in> set parts. CHR '','' \<notin> set p" and "CHR '','' \<notin> set (UserUUID (web_principal r))"
  shows "conditional s (r\<lparr>web_if_none_match := [etag]\<rparr>) base parts rest' = NotModified etag cc"
proof -
  let ?parts = "parts @ [authzCacheSuffix s (web_principal r)]"
  have e: "etag = BuildETag ?parts" and c: "cc = cacheControlFor (web_principal r) base"
    using assms(1) assms(2) [of "BuildETag ?parts" "cacheControlFor (web_principal r) base"]
    by (auto simp: conditional_def Let_def split: if_splits)
  have "CHR '','' \<notin> set (pageScope ?parts)"
    using assms(3,4) authzCacheSuffix_no_comma by (intro pageScope_no_comma) auto
  from Match_own_ETag [OF this] show ?thesis by (simp add: conditional_def Let_def e c)
qed

text \<open>
  Revalidation round trip: sending back the ETag a product was answered with, everything else
  unchanged, is answered 304 with the same ETag.
\<close>

theorem product_revalidates:
  assumes "getProduct s r = OK etag cc p" and "CHR '','' \<notin> set (UserUUID (web_principal r))"
  shows "getProduct s (r\<lparr>web_if_none_match := [etag]\<rparr>) = NotModified etag cc"
proof -
  obtain u where u: "PathUUID (web_params r) ''uuid'' = Inr u"
    using assms(1) by (auto simp: getProduct_def withPathUUID_def split: sum.splits)
  then have "Valid u" by (auto simp: PathUUID_def Let_def split: if_splits)
  have c: "conditional s r cacheControlRevalidate [''product'', u] (\<lambda>etag cc. fetched (getProductTx s u) (OK etag cc)) = OK etag cc p"
    and ex: "has_row (\<lambda>p. p_uuid p = u) (tbl_product s)" and ok: "may s r CapProductRead (no_resource\<lparr>ProductUUID := u\<rparr>)"
    using assms(1) by (auto simp: getProduct_cases [OF u] writeAuthzDenial_def split: if_splits)
  have "\<And>e c. fetched (getProductTx s u) (OK e c) = OK e c p \<or> \<not> answered (fetched (getProductTx s u) (OK e c))"
    using c by (auto simp: conditional_def fetched_def Let_def split: if_splits sum.splits)
  from conditional_revalidates [OF c this] assms(2) Valid_no_comma [OF \<open>Valid u\<close>] ex ok u
  show ?thesis by (simp add: getProduct_cases)
qed

text \<open>
  An entitlement whose revision is not above the caller's watermark, which a new one (revision 1) never is
  once the caller has any, leaves every ETag as it was; for an anonymous caller no entitlement changes it.
\<close>

lemma sql_max_snoc_le: "sql_max xs = Some m \<Longrightarrow> x \<le> m \<Longrightarrow> sql_max (xs @ [x]) = Some m"
  by (rule sql_max_eqI) (auto dest: sql_max_in sql_max_ge)

lemma new_entitlement_keeps_etag:
  assumes "e_revision e \<le> GetPrincipalEntitlementWatermark s (UserUUID p)" and "0 < GetPrincipalEntitlementWatermark s (UserUUID p)"
  shows "authzCacheSuffix (s\<lparr>tbl_entitlement := tbl_entitlement s @ [e]\<rparr>) p = authzCacheSuffix s p"
proof -
  let ?P = "\<lambda>e. e_status e = ''active'' \<and> (List.member [''everyone'', ''authenticated''] (e_subject_type e)
      \<or> (e_subject_type e = ''principal'' \<and> sql_eq (e_subject_id e) (Some (UserUUID p))))"
  obtain m where m: "sql_max (map e_revision (filter ?P (tbl_entitlement s))) = Some m"
    using assms(2) unfolding GetPrincipalEntitlementWatermark_def
    by (cases "sql_max (map e_revision (filter ?P (tbl_entitlement s)))") (auto simp: sql_max_def)
  with assms(1) have le: "e_revision e \<le> m" by (simp add: GetPrincipalEntitlementWatermark_def)
  have "sql_max (map e_revision (filter ?P (tbl_entitlement s @ [e]))) = Some m"
    using m sql_max_snoc_le [OF m le] by (cases "?P e") auto
  with m show ?thesis by (simp add: authzCacheSuffix_def GetPrincipalEntitlementWatermark_def del: filter_append)
qed

lemma anonymous_etag_constant: "\<not> IsAuthenticated p \<Longrightarrow> authzCacheSuffix s p = authzCacheSuffix s' p"
  by (simp add: authzCacheSuffix_def)

text \<open>A comma in a part, such as a product name in a cursor, makes an ETag its own client cannot send back.\<close>

lemma comma_never_revalidates:
  "\<not> MatchesIfNoneMatch [BuildETag [''products'', ''CPE'', ''a,b'']] (BuildETag [''products'', ''CPE'', ''a,b''])"
  by code_simp

section \<open>What a client that follows the tokens gets\<close>

lemma decide_product:
  "u \<noteq> [] \<Longrightarrow> decide s r cap (no_resource\<lparr>ProductUUID := u\<rparr>) = Inr (may s r cap (no_resource\<lparr>ProductUUID := u\<rparr>))"
  by (rule decide_resolvable [of _ "TProduct u"]) (simp_all add: target_of_def no_resource_def resolvable.simps)

lemma decide_component:
  "u \<noteq> [] \<Longrightarrow> decide s r cap (no_resource\<lparr>ComponentUUID := u\<rparr>) = Inr (may s r cap (no_resource\<lparr>ComponentUUID := u\<rparr>))"
  by (rule decide_resolvable [of _ "TComponent u"]) (simp_all add: target_of_def no_resource_def resolvable.simps)

lemma decide_release:
  "u \<noteq> [] \<Longrightarrow> u \<in> rl_uuid ` set (tbl_product_release s) \<Longrightarrow>
     decide s r cap (no_resource\<lparr>ProductReleaseUUID := u\<rparr>) = Inr (may s r cap (no_resource\<lparr>ProductReleaseUUID := u\<rparr>))"
  by (rule decide_resolvable [of _ "TRelease u"])
     (auto simp: target_of_def no_resource_def resolvable.simps release_exists_def)

text \<open>
  Listing products is complete and leaks nothing: a client that follows the page tokens of
  GET /products always reaches a last page, there is one such sequence of pages, and together they hold
  exactly the matching products the caller may read, each once and in order; no page is longer than asked.
\<close>

theorem products_walk_complete:
  assumes "catalog_wf s" and "\<forall>p \<in> set (tbl_product s). p_uuid p \<noteq> []"
    and "asks_products idType idValue sortOrder n s r" and "web_token r = None"
  shows "\<exists>pages. (\<forall>ps. client_walk (queryProducts s) r ps \<longleftrightarrow> ps = pages)
    \<and> concat pages = filter (\<lambda>p. may s r CapProductRead (no_resource\<lparr>ProductUUID := prod_UUID p\<rparr>)) (product_listing idType idValue sortOrder s)
    \<and> list_all (\<lambda>pg. int (length pg) \<le> n) pages"
proof -
  have "\<forall>p \<in> set (product_listing idType idValue sortOrder s). prod_UUID p \<noteq> []
      \<and> decide s r CapProductRead (no_resource\<lparr>ProductUUID := prod_UUID p\<rparr>) =
        Inr (may s r CapProductRead (no_resource\<lparr>ProductUUID := prod_UUID p\<rparr>))"
    using assms(2) by (auto simp: product_listing_def scanProduct_def intro!: decide_product)
  from lp.client_walk_complete [OF assms(1,3,4) this] show ?thesis by (simp add: list_all_iff)
qed

text \<open>The same for the components of GET /components.\<close>

lemma components_walk_complete:
  assumes "catalog_wf s" and "\<forall>c \<in> set (tbl_component s). co_uuid c \<noteq> []"
    and "asks_products idType idValue sortOrder n s r" and "web_token r = None"
  shows "\<exists>pages. (\<forall>ps. client_walk (queryComponents s) r ps \<longleftrightarrow> ps = pages)
    \<and> concat pages = filter (\<lambda>c. may s r CapProductRead (no_resource\<lparr>ComponentUUID := comp_UUID c\<rparr>)) (component_listing idType idValue sortOrder s)
    \<and> list_all (\<lambda>pg. int (length pg) \<le> n) pages"
proof -
  have "\<forall>c \<in> set (component_listing idType idValue sortOrder s). comp_UUID c \<noteq> []
      \<and> decide s r CapProductRead (no_resource\<lparr>ComponentUUID := comp_UUID c\<rparr>) =
        Inr (may s r CapProductRead (no_resource\<lparr>ComponentUUID := comp_UUID c\<rparr>))"
    using assms(2) by (auto simp: component_listing_def scanComponent_def intro!: decide_component)
  from lc.client_walk_complete [OF assms(1,3,4) this] show ?thesis by (simp add: list_all_iff)
qed

text \<open>
  Walking GET /product/{uuid}/releases by creation date or version, as a caller that may discover the
  product, ends and yields exactly the releases of the product the caller may read, each once and in
  order. (By release date this fails: undated releases are only ever on a first page.)
\<close>

theorem releases_walk_complete:
  assumes "releases_wf s" and "\<forall>pr \<in> set (tbl_product_release s). rl_uuid pr \<noteq> []"
    and "sortField \<noteq> ''releaseDate''" and "asks_releases u sortField sortOrder n s r" and "web_token r = None"
  shows "\<exists>pages. (\<forall>ps. client_walk (listReleasesByProduct s) r ps \<longleftrightarrow> ps = pages)
    \<and> concat pages = filter (\<lambda>pr. may s r CapReleaseRead (no_resource\<lparr>ProductReleaseUUID := prel_UUID pr\<rparr>))
        (product_release_listing u sortField sortOrder s)
    \<and> list_all (\<lambda>pg. int (length pg) \<le> n) pages"
proof -
  have "sortField \<in> set releaseSortFields"
    using assms(4) by (auto simp: asks_releases_def page_request_def dest: SortField_allowed)
  then have sort: "total_sort sortField" using assms(3) by (auto simp: releaseSortFields_def total_sort_def)
  have "\<forall>pr \<in> set (product_release_listing u sortField sortOrder s). prel_UUID pr \<noteq> []
      \<and> decide s r CapReleaseRead (no_resource\<lparr>ProductReleaseUUID := prel_UUID pr\<rparr>) =
        Inr (may s r CapReleaseRead (no_resource\<lparr>ProductReleaseUUID := prel_UUID pr\<rparr>))"
    using assms(2) by (auto simp: product_release_listing_def scanProductRelease_def intro!: decide_release)
  with sort assms show ?thesis
    using lr.client_walk_complete [of s sortField u sortOrder n r] by (simp add: list_all_iff)
qed

section \<open>A concrete shop\<close>

text \<open>
  Two products; everyone may read and discover all of them and their releases, except that reading the
  second one is denied. A visitor asks for pages of one row.
\<close>

definition uuid1 :: uuid where "uuid1 = ''00000000-0000-4000-8000-000000000001''"
definition uuid2 :: uuid where "uuid2 = ''00000000-0000-4000-8000-000000000002''"

definition shop_db :: db where
  "shop_db = empty_db\<lparr>
     tbl_product := [\<lparr>p_uuid = uuid1, p_name = ''Widget''\<rparr>, \<lparr>p_uuid = uuid2, p_name = ''Gadget''\<rparr>],
     tbl_component := [\<lparr>co_uuid = uuid1, co_name = ''Library''\<rparr>],
     tbl_product_release := [release_of ''r1'' uuid1, release_of ''r2'' uuid1, release_of ''r3'' uuid2],
     tbl_entitlement := [entitlement_on ''e1'' ''all_products'' None ''t1'', entitlement_on ''e2'' ''product'' (Some uuid2) ''t2''],
     tbl_template_rule := [rule_of ''t1'' CapProductRead ''allow'', rule_of ''t1'' CapProductDiscover ''allow'',
       rule_of ''t1'' CapReleaseRead ''allow'', rule_of ''t2'' CapProductRead ''deny'']\<rparr>"

definition visitor :: "uuid \<Rightarrow> web_request" where
  "visitor u = \<lparr>web_params = \<lparr>req_path = (\<lambda>_. u), req_query = (\<lambda>k. if k = ''pageSize'' then ''1'' else [])\<rparr>,
     web_token = None, web_principal = \<lparr>UserUUID = []\<rparr>, web_invalid_bearer = False, web_if_none_match = [], web_now = 0\<rparr>"

lemmas shop_defs = shop_db_def visitor_def uuid1_def uuid2_def empty_db_def

lemma shop_wf: "catalog_wf shop_db" "releases_wf shop_db"
  by (simp_all add: shop_defs catalog_wf_def releases_wf_def release_of_def)

lemma shop_asks:
  "asks_products [] [] ''asc'' 1 shop_db (visitor u)"
  "asks_releases uuid1 ''createdDate'' ''asc'' 1 shop_db (visitor uuid1)"
  by code_simp+

lemma may_product: "u \<noteq> [] \<Longrightarrow> may s r cap (no_resource\<lparr>ProductUUID := u\<rparr>) \<longleftrightarrow> decide s r cap (no_resource\<lparr>ProductUUID := u\<rparr>) = Inr True"
  by (simp add: decide_product)

lemma may_component: "u \<noteq> [] \<Longrightarrow> may s r cap (no_resource\<lparr>ComponentUUID := u\<rparr>) \<longleftrightarrow> decide s r cap (no_resource\<lparr>ComponentUUID := u\<rparr>) = Inr True"
  by (simp add: decide_component)

lemma shop_ids:
  "\<forall>p \<in> set (tbl_product shop_db). p_uuid p \<noteq> []" "\<forall>c \<in> set (tbl_component shop_db). co_uuid c \<noteq> []"
  "\<forall>pr \<in> set (tbl_product_release shop_db). rl_uuid pr \<noteq> []" "web_token (visitor u) = None"
  by (simp_all add: shop_defs release_of_def)

lemma shop_visible:
  "filter (\<lambda>p. may shop_db (visitor uuid1) CapProductRead (no_resource\<lparr>ProductUUID := prod_UUID p\<rparr>)) (product_listing [] [] ''asc'' shop_db) =
     [\<lparr>prod_UUID = uuid1, prod_Name = ''Widget'', prod_Identifiers = []\<rparr>]"
proof -
  have L: "product_listing [] [] ''asc'' shop_db =
      [\<lparr>prod_UUID = uuid2, prod_Name = ''Gadget'', prod_Identifiers = []\<rparr>, \<lparr>prod_UUID = uuid1, prod_Name = ''Widget'', prod_Identifiers = []\<rparr>]"
    by code_simp
  have "decide shop_db (visitor uuid1) CapProductRead (no_resource\<lparr>ProductUUID := uuid1\<rparr>) = Inr True"
    and "decide shop_db (visitor uuid1) CapProductRead (no_resource\<lparr>ProductUUID := uuid2\<rparr>) = Inr False"
    by code_simp+
  then show ?thesis unfolding L by (simp add: may_product uuid1_def uuid2_def)
qed

theorem products_walk_complete_witness:
  "\<exists>pages. client_walk (queryProducts shop_db) (visitor uuid1) pages
     \<and> concat pages = [\<lparr>prod_UUID = uuid1, prod_Name = ''Widget'', prod_Identifiers = []\<rparr>]"
  using products_walk_complete [OF shop_wf(1) shop_ids(1) shop_asks(1) shop_ids(4), of uuid1] unfolding shop_visible
  by blast

lemma shop_components:
  "filter (\<lambda>c. may shop_db (visitor uuid1) CapProductRead (no_resource\<lparr>ComponentUUID := comp_UUID c\<rparr>)) (component_listing [] [] ''asc'' shop_db) =
     [\<lparr>comp_UUID = uuid1, comp_Name = ''Library'', comp_Identifiers = []\<rparr>]"
proof -
  have L: "component_listing [] [] ''asc'' shop_db = [\<lparr>comp_UUID = uuid1, comp_Name = ''Library'', comp_Identifiers = []\<rparr>]"
    by code_simp
  have "decide shop_db (visitor uuid1) CapProductRead (no_resource\<lparr>ComponentUUID := uuid1\<rparr>) = Inr True" by code_simp
  then show ?thesis unfolding L by (simp add: may_component uuid1_def)
qed

lemma components_walk_example:
  "\<exists>pages. client_walk (queryComponents shop_db) (visitor uuid1) pages
     \<and> concat pages = [\<lparr>comp_UUID = uuid1, comp_Name = ''Library'', comp_Identifiers = []\<rparr>]"
  using components_walk_complete [OF shop_wf(1) shop_ids(2) shop_asks(1) shop_ids(4), of uuid1] unfolding shop_components
  by blast

theorem releases_walk_complete_witness:
  "\<exists>pages. client_walk (listReleasesByProduct shop_db) (visitor uuid1) pages \<and> list_all (\<lambda>pg. length pg \<le> 1) pages"
  using releases_walk_complete [OF shop_wf(2) shop_ids(3) _ shop_asks(2) shop_ids(4)] by auto

lemma shop_answers:
  "getProduct shop_db (visitor uuid1) =
     OK (CHR 0x22 # ''product:00000000-0000-4000-8000-000000000001:anon'' @ [CHR 0x22]) cacheControlRevalidate
       \<lparr>prod_UUID = uuid1, prod_Name = ''Widget'', prod_Identifiers = []\<rparr>"
  by code_simp

theorem answer_needs_grant_witness:
  "may shop_db (visitor uuid1) CapProductRead (no_resource\<lparr>ProductUUID := uuid1\<rparr>)"
  using answer_needs_grant [of uuid1 "visitor uuid1" shop_db] shop_answers by (simp add: visitor_def)

theorem product_revalidates_witness:
  "getProduct shop_db ((visitor uuid1)\<lparr>web_if_none_match := [CHR 0x22 # ''product:00000000-0000-4000-8000-000000000001:anon'' @ [CHR 0x22]]\<rparr>) =
     NotModified (CHR 0x22 # ''product:00000000-0000-4000-8000-000000000001:anon'' @ [CHR 0x22]) cacheControlRevalidate"
  by (rule product_revalidates [OF shop_answers]) (simp add: visitor_def)

lemma shop_denies:
  "decide shop_db (visitor uuid2) CapProductRead (no_resource\<lparr>ProductUUID := uuid2\<rparr>) = Inr False"
  by code_simp

theorem denied_is_concealed_witness:
  "getProduct shop_db (visitor uuid2) = UnauthorizedBearer False
   \<and> getProduct shop_db ((visitor uuid2)\<lparr>web_principal := \<lparr>UserUUID = ''someone''\<rparr>\<rparr>) = NotFound"
proof -
  have p: "PathUUID (web_params (visitor uuid2)) ''uuid'' = Inr uuid2" by code_simp
  have d: "decide shop_db ((visitor uuid2)\<lparr>web_principal := \<lparr>UserUUID = ''someone''\<rparr>\<rparr>) CapProductRead (no_resource\<lparr>ProductUUID := uuid2\<rparr>) = Inr False"
    by code_simp
  have e: "has_row (\<lambda>p. p_uuid p = uuid2) (tbl_product shop_db)" by code_simp
  have v: "web_principal (visitor uuid2) = \<lparr>UserUUID = []\<rparr>" "web_invalid_bearer (visitor uuid2) = False" by (simp_all add: visitor_def)
  have "uuid2 \<noteq> []" by (simp add: uuid2_def)
  with denied_is_concealed [OF p, of shop_db] shop_denies e v
  have "getProduct shop_db (visitor uuid2) = UnauthorizedBearer False" by (simp add: may_product IsAuthenticated_def)
  moreover from \<open>uuid2 \<noteq> []\<close> p d
    denied_is_concealed [of "(visitor uuid2)\<lparr>web_principal := \<lparr>UserUUID = ''someone''\<rparr>\<rparr>" uuid2 shop_db]
  have "getProduct shop_db ((visitor uuid2)\<lparr>web_principal := \<lparr>UserUUID = ''someone''\<rparr>\<rparr>) = NotFound"
    by (simp add: may_product IsAuthenticated_def)
  ultimately show ?thesis ..
qed

end
