(* ===== verification/Cle.thy ===== *)
theory Cle
  imports Api
begin

text \<open>
  Common Lifecycle Enumeration (\<open>internal/repo/cle.go\<close> and the handlers of \<open>internal/api/cle.go\<close>): events
  and support definitions of a product, component or release, their numbering, import under a given id,
  and the revision that backs the ETag. The rows of an event's parts are inserted in the transaction
  that inserted the event, so their foreign key holds there.
\<close>

section \<open>Statements\<close>

record CLEEventInput =
  cei_Type :: string
  cei_Effective :: time
  cei_Published :: time
  cei_Version :: string
  cei_Versions :: "CLEVersionSpecifier list"
  cei_SupportID :: string
  cei_License :: string
  cei_SupersededByVersion :: string
  cei_Identifiers :: "Identifier list"
  cei_EventID :: "int option"
  cei_Reason :: string
  cei_Description :: string
  cei_References :: "string list"

definition cleOwnerTypes :: "string list" where
  "cleOwnerTypes = [OwnerProduct, OwnerProductRelease, OwnerComponent, OwnerComponentRelease]"

definition cleEventTypes :: "string list" where
  "cleEventTypes =
     [''released'', ''endOfDevelopment'', ''endOfSupport'', ''endOfLife'', ''endOfDistribution'', ''endOfMarketing'',
      ''supersededBy'', ''componentRenamed'', ''withdrawn'']"

definition insert_cle_event :: "cle_event_row \<Rightarrow> unit repo_op" where
  "insert_cle_event r s =
     (if \<not> List.member cleOwnerTypes (ce_owner_type r) \<or> \<not> List.member cleEventTypes (ce_type r) then (Inl ErrCheckConstraint, s)
      else if has_row (\<lambda>x. ce_owner_type x = ce_owner_type r \<and> ce_owner x = ce_owner r \<and> ce_id x = ce_id r) (tbl_cle_event s)
      then (Inl ErrUniqueConstraint, s)
      else (Inr (), s\<lparr>tbl_cle_event := tbl_cle_event s @ [r]\<rparr>))"

definition insert_cle_version :: "string \<Rightarrow> uuid \<Rightarrow> int \<Rightarrow> CLEVersionSpecifier \<Rightarrow> unit repo_op" where
  "insert_cle_version ownerType ownerUUID eventID v s =
     (Inr (), s\<lparr>tbl_cle_version := tbl_cle_version s @
        [\<lparr>cv_owner_type = ownerType, cv_owner = ownerUUID, cv_event = eventID, cv_version = nullIfEmpty (vs_Version v),
          cv_range = nullIfEmpty (vs_Range v)\<rparr>]\<rparr>)"

definition insert_cle_identifier :: "string \<Rightarrow> uuid \<Rightarrow> int \<Rightarrow> Identifier \<Rightarrow> unit repo_op" where
  "insert_cle_identifier ownerType ownerUUID eventID i s =
     (if \<not> List.member identifierTypes (IDType i) then (Inl ErrCheckConstraint, s)
      else (Inr (), s\<lparr>tbl_cle_identifier := tbl_cle_identifier s @
        [\<lparr>ci_owner_type = ownerType, ci_owner = ownerUUID, ci_event = eventID, ci_type = IDType i, ci_value = IDValue i\<rparr>]\<rparr>))"

definition insertCLEEventIdentifiers :: "string \<Rightarrow> uuid \<Rightarrow> int \<Rightarrow> Identifier list \<Rightarrow> unit repo_op" where
  "insertCLEEventIdentifiers ownerType ownerUUID eventID ids =
     forR (\<lambda>i. case validateComplianceDocumentIdentifier i False of
                 Some e \<Rightarrow> failR e
               | None \<Rightarrow> insert_cle_identifier ownerType ownerUUID eventID i) ids"

definition insert_cle_reference :: "string \<Rightarrow> uuid \<Rightarrow> int \<Rightarrow> string \<Rightarrow> unit repo_op" where
  "insert_cle_reference ownerType ownerUUID eventID ref s =
     (Inr (), s\<lparr>tbl_cle_reference := tbl_cle_reference s @
        [\<lparr>cf_owner_type = ownerType, cf_owner = ownerUUID, cf_event = eventID, cf_uri = ref\<rparr>]\<rparr>)"

definition insert_cle_support :: "string \<Rightarrow> uuid \<Rightarrow> CLESupportDefinition \<Rightarrow> unit repo_op" where
  "insert_cle_support ownerType ownerUUID d s =
     (if \<not> List.member cleOwnerTypes ownerType then (Inl ErrCheckConstraint, s)
      else if has_row (\<lambda>x. cs_owner_type x = ownerType \<and> cs_owner x = ownerUUID \<and> cs_id x = sd_ID d) (tbl_cle_support s)
      then (Inl ErrUniqueConstraint, s)
      else (Inr (), s\<lparr>tbl_cle_support := tbl_cle_support s @
        [\<lparr>cs_owner_type = ownerType, cs_owner = ownerUUID, cs_id = sd_ID d, cs_description = sd_Description d,
          cs_url = nullIfEmpty (sd_URL d)\<rparr>]\<rparr>))"

section \<open>Reading\<close>

definition owner_events :: "db \<Rightarrow> string \<Rightarrow> uuid \<Rightarrow> cle_event_row list" where
  "owner_events s ownerType ownerUUID = filter (\<lambda>r. ce_owner_type r = ownerType \<and> ce_owner r = ownerUUID) (tbl_cle_event s)"

definition owner_versions :: "db \<Rightarrow> string \<Rightarrow> uuid \<Rightarrow> cle_version_row list" where
  "owner_versions s ownerType ownerUUID = filter (\<lambda>r. cv_owner_type r = ownerType \<and> cv_owner r = ownerUUID) (tbl_cle_version s)"

definition owner_identifiers :: "db \<Rightarrow> string \<Rightarrow> uuid \<Rightarrow> cle_identifier_row list" where
  "owner_identifiers s ownerType ownerUUID = filter (\<lambda>r. ci_owner_type r = ownerType \<and> ci_owner r = ownerUUID) (tbl_cle_identifier s)"

definition owner_references :: "db \<Rightarrow> string \<Rightarrow> uuid \<Rightarrow> cle_reference_row list" where
  "owner_references s ownerType ownerUUID = filter (\<lambda>r. cf_owner_type r = ownerType \<and> cf_owner r = ownerUUID) (tbl_cle_reference s)"

definition owner_support :: "db \<Rightarrow> string \<Rightarrow> uuid \<Rightarrow> cle_support_row list" where
  "owner_support s ownerType ownerUUID = filter (\<lambda>r. cs_owner_type r = ownerType \<and> cs_owner r = ownerUUID) (tbl_cle_support s)"

definition listCLEEventVersions :: "db \<Rightarrow> string \<Rightarrow> uuid \<Rightarrow> int \<Rightarrow> CLEVersionSpecifier list" where
  "listCLEEventVersions s ownerType ownerUUID eventID =
     map (\<lambda>r. \<lparr>vs_Version = null_str (cv_version r), vs_Range = null_str (cv_range r)\<rparr>)
       (filter (\<lambda>r. cv_event r = eventID) (owner_versions s ownerType ownerUUID))"

definition listCLEEventIdentifiers :: "db \<Rightarrow> string \<Rightarrow> uuid \<Rightarrow> int \<Rightarrow> Identifier list" where
  "listCLEEventIdentifiers s ownerType ownerUUID eventID =
     map (\<lambda>r. \<lparr>IDType = ci_type r, IDValue = ci_value r\<rparr>)
       (filter (\<lambda>r. ci_event r = eventID) (owner_identifiers s ownerType ownerUUID))"

definition listCLEEventReferences :: "db \<Rightarrow> string \<Rightarrow> uuid \<Rightarrow> int \<Rightarrow> string list" where
  "listCLEEventReferences s ownerType ownerUUID eventID =
     map cf_uri (filter (\<lambda>r. cf_event r = eventID) (owner_references s ownerType ownerUUID))"

definition listCLESupportDefinitions :: "db \<Rightarrow> string \<Rightarrow> uuid \<Rightarrow> CLESupportDefinition list" where
  "listCLESupportDefinitions s ownerType ownerUUID =
     map (\<lambda>r. \<lparr>sd_ID = cs_id r, sd_Description = cs_description r, sd_URL = null_str (cs_url r)\<rparr>) (owner_support s ownerType ownerUUID)"

definition getCLEEventTx :: "db \<Rightarrow> string \<Rightarrow> uuid \<Rightarrow> int \<Rightarrow> repo_error + CLEEvent" where
  "getCLEEventTx s ownerType ownerUUID i =
     (case find_row (\<lambda>r. ce_id r = i) (owner_events s ownerType ownerUUID) of
        None \<Rightarrow> Inl ErrNotFound
      | Some r \<Rightarrow> Inr
          \<lparr>ev_ID = i, ev_Type = ce_type r, ev_Effective = parseTime (ce_effective r), ev_Published = parseTime (ce_published r),
           ev_Version = null_str (ce_version r), ev_Versions = listCLEEventVersions s ownerType ownerUUID i,
           ev_SupportID = null_str (ce_support_id r), ev_License = null_str (ce_license r),
           ev_SupersededByVersion = null_str (ce_superseded r), ev_Identifiers = listCLEEventIdentifiers s ownerType ownerUUID i,
           ev_EventID = ce_event_ref r, ev_Reason = null_str (ce_reason r), ev_Description = null_str (ce_description r),
           ev_References = listCLEEventReferences s ownerType ownerUUID i\<rparr>)"

fun getCLEEvents :: "db \<Rightarrow> string \<Rightarrow> uuid \<Rightarrow> int list \<Rightarrow> repo_error + CLEEvent list" where
  "getCLEEvents s ownerType ownerUUID [] = Inr []"
| "getCLEEvents s ownerType ownerUUID (i # ids) =
     (case getCLEEventTx s ownerType ownerUUID i of Inl err \<Rightarrow> Inl err | Inr e \<Rightarrow>
      case getCLEEvents s ownerType ownerUUID ids of Inl err \<Rightarrow> Inl err | Inr es \<Rightarrow> Inr (e # es))"

definition cle_ids :: "string \<Rightarrow> uuid \<Rightarrow> db \<Rightarrow> int list" where
  "cle_ids ownerType ownerUUID s = map ce_id (owner_events s ownerType ownerUUID)"

definition getCLETx :: "db \<Rightarrow> string \<Rightarrow> uuid \<Rightarrow> repo_error + CLE" where
  "getCLETx s ownerType ownerUUID =
     (case getCLEEvents s ownerType ownerUUID (rev (sort (cle_ids ownerType ownerUUID s))) of
        Inl err \<Rightarrow> Inl err
      | Inr events \<Rightarrow>
          (let defs = listCLESupportDefinitions s ownerType ownerUUID
           in Inr \<lparr>cle_Events = events, cle_Definitions = (if length defs > 0 then Some defs else None)\<rparr>))"

definition getCLERevisionTx :: "db \<Rightarrow> string \<Rightarrow> uuid \<Rightarrow> int" where
  "getCLERevisionTx s ownerType ownerUUID = (case tbl_cle_revision s (ownerType, ownerUUID) of None \<Rightarrow> 0 | Some r \<Rightarrow> r)"

section \<open>Writing\<close>

text \<open>The inserts of one event under a given id, as creation and import have them, up to the revision.\<close>

definition insertCLEEvent :: "string \<Rightarrow> uuid \<Rightarrow> int \<Rightarrow> CLEEventInput \<Rightarrow> unit repo_op" where
  "insertCLEEvent ownerType ownerUUID i e =
     bindR (insert_cle_event
       \<lparr>ce_owner_type = ownerType, ce_owner = ownerUUID, ce_id = i, ce_type = cei_Type e, ce_effective = formatTime (cei_Effective e),
        ce_published = formatTime (cei_Published e), ce_version = nullIfEmpty (cei_Version e), ce_support_id = nullIfEmpty (cei_SupportID e),
        ce_license = nullIfEmpty (cei_License e), ce_superseded = nullIfEmpty (cei_SupersededByVersion e), ce_event_ref = cei_EventID e,
        ce_reason = nullIfEmpty (cei_Reason e), ce_description = nullIfEmpty (cei_Description e)\<rparr>) (\<lambda>_.
     bindR (forR (insert_cle_version ownerType ownerUUID i) (cei_Versions e)) (\<lambda>_.
     bindR (insertCLEEventIdentifiers ownerType ownerUUID i (cei_Identifiers e)) (\<lambda>_.
     bindR (forR (insert_cle_reference ownerType ownerUUID i) (cei_References e)) (\<lambda>_.
     execR (bumpCLERevision ownerType ownerUUID)))))"

definition CreateCLEEvent :: "repo_conn \<Rightarrow> string \<Rightarrow> uuid \<Rightarrow> CLEEventInput \<Rightarrow> CLEEvent repo_op" where
  "CreateCLEEvent c ownerType ownerUUID inp =
     runInTx c
       (bindR (readR (\<lambda>s. Inr (sql_max (cle_ids ownerType ownerUUID s)))) (\<lambda>maxID.
        let i = (case maxID of None \<Rightarrow> 1 | Some m \<Rightarrow> m + 1) in
        bindR (insertCLEEvent ownerType ownerUUID i inp) (\<lambda>_.
        readR (\<lambda>s. getCLEEventTx s ownerType ownerUUID i))))"

definition cleEventConflicts :: "CLEEvent \<Rightarrow> CLEEvent \<Rightarrow> bool" where
  "cleEventConflicts existing e \<longleftrightarrow>
     ev_Type existing \<noteq> ev_Type e \<or> ev_Effective existing \<noteq> ev_Effective e \<or> ev_Published existing \<noteq> ev_Published e
     \<or> ev_Version existing \<noteq> ev_Version e \<or> \<not> setEqual (ev_Versions existing) (ev_Versions e) \<or> ev_SupportID existing \<noteq> ev_SupportID e
     \<or> ev_License existing \<noteq> ev_License e \<or> ev_SupersededByVersion existing \<noteq> ev_SupersededByVersion e
     \<or> \<not> setEqual (ev_Identifiers existing) (ev_Identifiers e) \<or> \<not> ptrEqual (ev_EventID existing) (ev_EventID e)
     \<or> ev_Reason existing \<noteq> ev_Reason e \<or> ev_Description existing \<noteq> ev_Description e
     \<or> \<not> setEqual (ev_References existing) (ev_References e)"

definition event_input :: "CLEEvent \<Rightarrow> CLEEventInput" where
  "event_input e =
     \<lparr>cei_Type = ev_Type e, cei_Effective = ev_Effective e, cei_Published = ev_Published e, cei_Version = ev_Version e,
      cei_Versions = ev_Versions e, cei_SupportID = ev_SupportID e, cei_License = ev_License e,
      cei_SupersededByVersion = ev_SupersededByVersion e, cei_Identifiers = ev_Identifiers e, cei_EventID = ev_EventID e,
      cei_Reason = ev_Reason e, cei_Description = ev_Description e, cei_References = ev_References e\<rparr>"

definition ImportCLEEvent :: "repo_conn \<Rightarrow> string \<Rightarrow> uuid \<Rightarrow> CLEEvent \<Rightarrow> bool repo_op" where
  "ImportCLEEvent c ownerType ownerUUID e =
     runInTx c (\<lambda>s.
       case getCLEEventTx s ownerType ownerUUID (ev_ID e) of
         Inr existing \<Rightarrow> if cleEventConflicts existing e then (Inl ErrImportIdentityConflict, s) else (Inr False, s)
       | Inl err \<Rightarrow>
           if err \<noteq> ErrNotFound then (Inl err, s)
           else bindR (insertCLEEvent ownerType ownerUUID (ev_ID e) (event_input e)) (\<lambda>_. returnR True) s)"

definition CreateCLESupportDefinition :: "repo_conn \<Rightarrow> string \<Rightarrow> uuid \<Rightarrow> CLESupportDefinition \<Rightarrow> CLESupportDefinition repo_op" where
  "CreateCLESupportDefinition c ownerType ownerUUID d =
     runInTx c
       (bindR (insert_cle_support ownerType ownerUUID d) (\<lambda>_.
        bindR (execR (bumpCLERevision ownerType ownerUUID)) (\<lambda>_. returnR d)))"

definition ImportCLESupportDefinition :: "repo_conn \<Rightarrow> string \<Rightarrow> uuid \<Rightarrow> CLESupportDefinition \<Rightarrow> bool repo_op" where
  "ImportCLESupportDefinition c ownerType ownerUUID d =
     runInTx c (\<lambda>s.
       case find_row (\<lambda>r. cs_id r = sd_ID d) (owner_support s ownerType ownerUUID) of
         Some r \<Rightarrow> if cs_description r \<noteq> sd_Description d \<or> null_str (cs_url r) \<noteq> sd_URL d
                   then (Inl ErrImportIdentityConflict, s) else (Inr False, s)
       | None \<Rightarrow> bindR (insert_cle_support ownerType ownerUUID d) (\<lambda>_.
                 bindR (execR (bumpCLERevision ownerType ownerUUID)) (\<lambda>_. returnR True)) s)"

section \<open>Handlers\<close>

abbreviation CapLifecycleHistoryRead :: Capability where "CapLifecycleHistoryRead \<equiv> ''lifecycle.history.read''"

definition writeCLE :: "db \<Rightarrow> web_request \<Rightarrow> string \<Rightarrow> uuid \<Rightarrow> CLE response" where
  "writeCLE s r ownerType ownerUUID =
     (let revision = getCLERevisionTx s ownerType ownerUUID in
      conditional s r cacheControlRevalidate [''cle'', ownerType, ownerUUID, itoa revision] (\<lambda>etag cc.
      case getCLETx s ownerType ownerUUID of Inl err \<Rightarrow> InternalError err | Inr cle \<Rightarrow> OK etag cc cle))"

definition cleByProduct :: "db \<Rightarrow> web_request \<Rightarrow> CLE response" where
  "cleByProduct s r =
     withPathUUID r (\<lambda>u. fetched (getProductTx s u) (\<lambda>_.
       authorize s r CapLifecycleHistoryRead (no_resource\<lparr>ProductUUID := u\<rparr>) (writeCLE s r OwnerProduct u)))"

definition cleByProductRelease :: "db \<Rightarrow> web_request \<Rightarrow> CLE response" where
  "cleByProductRelease s r =
     withPathUUID r (\<lambda>u. fetched (getProductReleaseTx s u) (\<lambda>_.
       authorize s r CapLifecycleHistoryRead (no_resource\<lparr>ProductReleaseUUID := u\<rparr>) (writeCLE s r OwnerProductRelease u)))"

definition cleByComponent :: "db \<Rightarrow> web_request \<Rightarrow> CLE response" where
  "cleByComponent s r =
     withPathUUID r (\<lambda>u. fetched (getComponentTx s u) (\<lambda>_.
       authorize s r CapLifecycleHistoryRead (no_resource\<lparr>ComponentUUID := u\<rparr>) (writeCLE s r OwnerComponent u)))"

definition cleByComponentRelease :: "db \<Rightarrow> web_request \<Rightarrow> CLE response" where
  "cleByComponentRelease s r =
     withPathUUID r (\<lambda>u. fetched (getComponentReleaseTx s u) (\<lambda>_.
       authorize s r CapLifecycleHistoryRead (no_resource\<lparr>ComponentReleaseUUID := u\<rparr>) (writeCLE s r OwnerComponentRelease u)))"

section \<open>What one event's inserts do\<close>

definition event_row :: "string \<Rightarrow> uuid \<Rightarrow> int \<Rightarrow> CLEEventInput \<Rightarrow> cle_event_row" where
  "event_row ot u i e =
     \<lparr>ce_owner_type = ot, ce_owner = u, ce_id = i, ce_type = cei_Type e, ce_effective = formatTime (cei_Effective e),
      ce_published = formatTime (cei_Published e), ce_version = nullIfEmpty (cei_Version e), ce_support_id = nullIfEmpty (cei_SupportID e),
      ce_license = nullIfEmpty (cei_License e), ce_superseded = nullIfEmpty (cei_SupersededByVersion e), ce_event_ref = cei_EventID e,
      ce_reason = nullIfEmpty (cei_Reason e), ce_description = nullIfEmpty (cei_Description e)\<rparr>"

definition version_rows :: "string \<Rightarrow> uuid \<Rightarrow> int \<Rightarrow> CLEVersionSpecifier list \<Rightarrow> cle_version_row list" where
  "version_rows ot u i vs = map (\<lambda>v. \<lparr>cv_owner_type = ot, cv_owner = u, cv_event = i, cv_version = nullIfEmpty (vs_Version v),
     cv_range = nullIfEmpty (vs_Range v)\<rparr>) vs"

definition identifier_rows :: "string \<Rightarrow> uuid \<Rightarrow> int \<Rightarrow> Identifier list \<Rightarrow> cle_identifier_row list" where
  "identifier_rows ot u i ids = map (\<lambda>x. \<lparr>ci_owner_type = ot, ci_owner = u, ci_event = i, ci_type = IDType x, ci_value = IDValue x\<rparr>) ids"

definition reference_rows :: "string \<Rightarrow> uuid \<Rightarrow> int \<Rightarrow> string list \<Rightarrow> cle_reference_row list" where
  "reference_rows ot u i refs = map (\<lambda>x. \<lparr>cf_owner_type = ot, cf_owner = u, cf_event = i, cf_uri = x\<rparr>) refs"

definition with_event :: "string \<Rightarrow> uuid \<Rightarrow> int \<Rightarrow> CLEEventInput \<Rightarrow> db \<Rightarrow> db" where
  "with_event ot u i e s = bumpCLERevision ot u (s\<lparr>tbl_cle_event := tbl_cle_event s @ [event_row ot u i e],
     tbl_cle_version := tbl_cle_version s @ version_rows ot u i (cei_Versions e),
     tbl_cle_identifier := tbl_cle_identifier s @ identifier_rows ot u i (cei_Identifiers e),
     tbl_cle_reference := tbl_cle_reference s @ reference_rows ot u i (cei_References e)\<rparr>)"

lemma insert_versions_Inr:
  "forR (insert_cle_version ot u i) vs s = (Inr (), s') \<longleftrightarrow> s' = s\<lparr>tbl_cle_version := tbl_cle_version s @ version_rows ot u i vs\<rparr>"
proof -
  have "forR (insert_cle_version ot u i) vs s = (Inr (), s') \<longleftrightarrow> (\<forall>v \<in> set vs. (None :: repo_error option) = None)
      \<and> s' = (\<lambda>g s. s\<lparr>tbl_cle_version := g (tbl_cle_version s)\<rparr>) (\<lambda>rows. rows @ map (\<lambda>v. \<lparr>cv_owner_type = ot, cv_owner = u,
          cv_event = i, cv_version = nullIfEmpty (vs_Version v), cv_range = nullIfEmpty (vs_Range v)\<rparr>) vs) s"
    by (rule forR_append_rows) (auto simp: insert_cle_version_def)
  then show ?thesis by (simp add: version_rows_def)
qed

lemma insert_references_Inr:
  "forR (insert_cle_reference ot u i) refs s = (Inr (), s') \<longleftrightarrow> s' = s\<lparr>tbl_cle_reference := tbl_cle_reference s @ reference_rows ot u i refs\<rparr>"
proof -
  have "forR (insert_cle_reference ot u i) refs s = (Inr (), s') \<longleftrightarrow> (\<forall>v \<in> set refs. (None :: repo_error option) = None)
      \<and> s' = (\<lambda>g s. s\<lparr>tbl_cle_reference := g (tbl_cle_reference s)\<rparr>) (\<lambda>rows. rows @ map (\<lambda>x. \<lparr>cf_owner_type = ot, cf_owner = u,
          cf_event = i, cf_uri = x\<rparr>) refs) s"
    by (rule forR_append_rows) (auto simp: insert_cle_reference_def)
  then show ?thesis by (simp add: reference_rows_def)
qed

lemma insertCLEEventIdentifiers_Inr:
  "insertCLEEventIdentifiers ot u i ids s = (Inr (), s') \<longleftrightarrow>
     (\<forall>x \<in> set ids. IDType x \<in> set identifierTypes \<and> IDType x \<noteq> ''COMPLIANCE_DOCUMENT'')
     \<and> s' = s\<lparr>tbl_cle_identifier := tbl_cle_identifier s @ identifier_rows ot u i ids\<rparr>"
proof -
  let ?chk = "\<lambda>x. if IDType x = ''COMPLIANCE_DOCUMENT'' then Some ErrComplianceDocumentWrongOwner
      else if IDType x \<notin> set identifierTypes then Some ErrCheckConstraint else None"
  have "insertCLEEventIdentifiers ot u i ids s = (Inr (), s') \<longleftrightarrow> (\<forall>x \<in> set ids. ?chk x = None)
      \<and> s' = (\<lambda>g s. s\<lparr>tbl_cle_identifier := g (tbl_cle_identifier s)\<rparr>) (\<lambda>rows. rows @ map (\<lambda>x. \<lparr>ci_owner_type = ot, ci_owner = u,
          ci_event = i, ci_type = IDType x, ci_value = IDValue x\<rparr>) ids) s"
    unfolding insertCLEEventIdentifiers_def
    by (rule forR_append_rows) (auto simp: insert_cle_identifier_def validateComplianceDocumentIdentifier_def failR_def)
  also have "(\<forall>x \<in> set ids. ?chk x = None) \<longleftrightarrow> (\<forall>x \<in> set ids. IDType x \<in> set identifierTypes \<and> IDType x \<noteq> ''COMPLIANCE_DOCUMENT'')"
    by auto
  finally show ?thesis by (simp add: identifier_rows_def)
qed

definition event_ok :: "string \<Rightarrow> CLEEventInput \<Rightarrow> bool" where
  "event_ok ot e \<longleftrightarrow> ot \<in> set cleOwnerTypes \<and> cei_Type e \<in> set cleEventTypes
     \<and> list_all (\<lambda>x. IDType x \<in> set identifierTypes \<and> IDType x \<noteq> ''COMPLIANCE_DOCUMENT'') (cei_Identifiers e)"

lemma insertCLEEvent_Inr:
  "insertCLEEvent ot u i e s = (Inr (), s') \<longleftrightarrow>
     event_ok ot e \<and> i \<notin> set (cle_ids ot u s) \<and> s' = with_event ot u i e s"
  by (auto simp: insertCLEEvent_def insert_cle_event_def insert_versions_Inr insert_references_Inr insertCLEEventIdentifiers_Inr
      event_ok_def list_all_iff cle_ids_def owner_events_def with_event_def event_row_def bumpCLERevision_def)

section \<open>What an owner's reads depend on\<close>

definition cle_view :: "db \<Rightarrow> string \<Rightarrow> uuid \<Rightarrow> _" where
  "cle_view s ot u = (owner_events s ot u, owner_versions s ot u, owner_identifiers s ot u, owner_references s ot u, owner_support s ot u)"

lemma getCLEEventTx_view: "cle_view s ot u = cle_view s' ot u \<Longrightarrow> getCLEEventTx s ot u i = getCLEEventTx s' ot u i"
  by (simp add: cle_view_def getCLEEventTx_def listCLEEventVersions_def listCLEEventIdentifiers_def listCLEEventReferences_def split: option.splits)

lemma getCLEEvents_view: "cle_view s ot u = cle_view s' ot u \<Longrightarrow> getCLEEvents s ot u ids = getCLEEvents s' ot u ids"
  by (induction ids) (simp_all add: getCLEEventTx_view [of s ot u s'] split: sum.splits)

lemma getCLETx_view: "cle_view s ot u = cle_view s' ot u \<Longrightarrow> getCLETx s ot u = getCLETx s' ot u"
  unfolding getCLETx_def by (simp add: getCLEEvents_view [of s ot u s'] cle_ids_def listCLESupportDefinitions_def cle_view_def split: sum.splits)

section \<open>Writes move the revision\<close>

lemma view_bump [simp]: "cle_view (bumpCLERevision ot u s) ot' u' = cle_view s ot' u'"
  by (simp add: cle_view_def bumpCLERevision_def owner_events_def owner_versions_def owner_identifiers_def owner_references_def owner_support_def)

lemma revision_bump:
  "getCLERevisionTx (bumpCLERevision ot u s) ot' u' = getCLERevisionTx s ot' u' + (if ot' = ot \<and> u' = u then 1 else 0)"
  by (auto simp: getCLERevisionTx_def bumpCLERevision_def split: option.splits)

lemma revision_event_tables [simp]:
  "getCLERevisionTx (s\<lparr>tbl_cle_event := a, tbl_cle_version := b, tbl_cle_identifier := c, tbl_cle_reference := d\<rparr>) ot u = getCLERevisionTx s ot u"
  "getCLERevisionTx (s\<lparr>tbl_cle_support := e\<rparr>) ot u = getCLERevisionTx s ot u"
  "getCLERevisionTx (s\<lparr>tbl_identifier := f\<rparr>) ot u = getCLERevisionTx s ot u"
  by (simp_all add: getCLERevisionTx_def)

text \<open>A change either keeps an owner's view and revision or raises the revision.\<close>

definition tracked :: "db \<Rightarrow> db \<Rightarrow> bool" where
  "tracked s s' \<longleftrightarrow> (\<forall>ot u. getCLERevisionTx s ot u < getCLERevisionTx s' ot u
     \<or> (getCLERevisionTx s' ot u = getCLERevisionTx s ot u \<and> cle_view s' ot u = cle_view s ot u))"

lemma tracked_refl [simp]: "tracked s s"
  by (simp add: tracked_def)

lemma tracked_trans: "tracked s s' \<Longrightarrow> tracked s' s'' \<Longrightarrow> tracked s s''"
  unfolding tracked_def by (metis less_trans)

lemma with_event_other: "\<not> (ot' = ot \<and> u' = u) \<Longrightarrow> cle_view (with_event ot u i e s) ot' u' = cle_view s ot' u'"
  by (auto simp: with_event_def cle_view_def owner_events_def owner_versions_def owner_identifiers_def owner_references_def owner_support_def
      event_row_def version_rows_def identifier_rows_def reference_rows_def bumpCLERevision_def filter_empty_conv)

lemma with_event_tracked: "tracked s (with_event ot u i e s)"
  unfolding tracked_def using with_event_other [of _ ot _ u i e s] by (auto simp: with_event_def revision_bump)

lemma insert_cle_support_Inr:
  "insert_cle_support ot u d s = (Inr x, s') \<Longrightarrow> ot \<in> set cleOwnerTypes \<and> sd_ID d \<notin> cs_id ` set (owner_support s ot u)
     \<and> s' = s\<lparr>tbl_cle_support := tbl_cle_support s @ [\<lparr>cs_owner_type = ot, cs_owner = u, cs_id = sd_ID d, cs_description = sd_Description d,
          cs_url = nullIfEmpty (sd_URL d)\<rparr>]\<rparr>"
  by (auto simp: insert_cle_support_def owner_support_def split: if_splits)

lemma support_tracked:
  assumes "insert_cle_support ot u d s = (Inr x, s')"
  shows "tracked s (bumpCLERevision ot u s')"
proof -
  have "cle_view s' ot' u' = cle_view s ot' u'" if "\<not> (ot' = ot \<and> u' = u)" for ot' u'
    using insert_cle_support_Inr [OF assms] that
    by (auto simp: cle_view_def owner_events_def owner_versions_def owner_identifiers_def owner_references_def owner_support_def)
  with insert_cle_support_Inr [OF assms] show ?thesis by (auto simp: tracked_def revision_bump)
qed

lemma delete_tracked: "tracked s (deleteOwnerScoped ot u s)"
proof -
  have "cle_view (deleteOwnerScoped ot u s) ot' u' = cle_view s ot' u'" if "\<not> (ot' = ot \<and> u' = u)" for ot' u'
    using that unfolding deleteOwnerScoped_def Let_def
    by (auto simp: cle_view_def delete_cle_events_def bumpCLERevision_def owner_events_def owner_versions_def owner_identifiers_def
        owner_references_def owner_support_def filter_delete_rows intro!: filter_cong)
  moreover have "getCLERevisionTx (deleteOwnerScoped ot u s) ot' u' = getCLERevisionTx s ot' u' + (if ot' = ot \<and> u' = u then 1 else 0)" for ot' u'
    unfolding deleteOwnerScoped_def Let_def revision_bump by (simp add: delete_cle_events_def getCLERevisionTx_def)
  ultimately show ?thesis by (auto simp: tracked_def)
qed

text \<open>The writes of \<open>cle.go\<close>, the deletion of an owner, and any change that leaves the lifecycle tables alone.\<close>

inductive cle_step :: "db \<Rightarrow> db \<Rightarrow> bool" where
  create: "cle_step s (snd (CreateCLEEvent Pool ot u inp s))"
| import_event: "cle_step s (snd (ImportCLEEvent Pool ot u e s))"
| create_def: "cle_step s (snd (CreateCLESupportDefinition Pool ot u d s))"
| import_def: "cle_step s (snd (ImportCLESupportDefinition Pool ot u d s))"
| delete: "cle_step s (deleteOwnerScoped ot u s)"
| elsewhere: "tbl_cle_event s' = tbl_cle_event s \<Longrightarrow> tbl_cle_version s' = tbl_cle_version s \<Longrightarrow> tbl_cle_identifier s' = tbl_cle_identifier s \<Longrightarrow>
    tbl_cle_reference s' = tbl_cle_reference s \<Longrightarrow> tbl_cle_support s' = tbl_cle_support s \<Longrightarrow> tbl_cle_revision s' = tbl_cle_revision s \<Longrightarrow> cle_step s s'"

definition cle_history :: "db \<Rightarrow> db \<Rightarrow> bool" where
  "cle_history = cle_step\<^sup>*\<^sup>*"

lemma CreateCLEEvent_tracked: "tracked s (snd (CreateCLEEvent Pool ot u inp s))"
  unfolding CreateCLEEvent_def
  by (rule tx.invariant_from_success) (auto simp: Let_def insertCLEEvent_Inr with_event_tracked)

lemma ImportCLEEvent_tracked: "tracked s (snd (ImportCLEEvent Pool ot u e s))"
  unfolding ImportCLEEvent_def
  by (rule tx.invariant_from_success) (auto simp: insertCLEEvent_Inr with_event_tracked split: sum.splits if_splits)

lemma CreateCLESupportDefinition_tracked: "tracked s (snd (CreateCLESupportDefinition Pool ot u d s))"
  unfolding CreateCLESupportDefinition_def
  by (rule tx.invariant_from_success) (auto simp: support_tracked)

lemma ImportCLESupportDefinition_tracked: "tracked s (snd (ImportCLESupportDefinition Pool ot u d s))"
  unfolding ImportCLESupportDefinition_def
  by (rule tx.invariant_from_success) (auto simp: support_tracked split: option.splits if_splits)

lemma cle_step_tracked: "cle_step s s' \<Longrightarrow> tracked s s'"
proof (induction rule: cle_step.induct)
  case (elsewhere s' s)
  then show ?case
    by (simp add: tracked_def getCLERevisionTx_def cle_view_def owner_events_def owner_versions_def owner_identifiers_def
        owner_references_def owner_support_def)
qed (simp_all add: CreateCLEEvent_tracked ImportCLEEvent_tracked CreateCLESupportDefinition_tracked ImportCLESupportDefinition_tracked delete_tracked)

lemma cle_history_tracked: "cle_history s s' \<Longrightarrow> tracked s s'"
  unfolding cle_history_def by (induction rule: rtranclp_induct) (auto intro: tracked_trans cle_step_tracked)

section \<open>A 304 is current\<close>

lemma Match_same_ETag:
  assumes "MatchesIfNoneMatch [BuildETag ps] (BuildETag qs)" and "CHR '','' \<notin> set (pageScope ps)"
  shows "pageScope ps = pageScope qs"
proof -
  have "split_at (CHR '','') (BuildETag ps) = [BuildETag ps]"
    using assms(2) by (intro split_at_free) (simp add: BuildETag_def)
  moreover have "trimSpace (BuildETag ps) = BuildETag ps" by (simp add: BuildETag_def trimSpace_quoted)
  ultimately show ?thesis using assms(1)
    by (auto simp: MatchesIfNoneMatch_def BuildETag_def trimPrefix_def)
qed

lemma writeCLE_OK:
  assumes "writeCLE s r ot u = OK etag cc cle"
  shows "etag = BuildETag ([''cle'', ot, u, itoa (getCLERevisionTx s ot u)] @ [authzCacheSuffix s (web_principal r)]) \<and> getCLETx s ot u = Inr cle"
  using assms by (auto simp: writeCLE_def conditional_def Let_def split: if_splits sum.splits)

lemma writeCLE_NotModified:
  assumes "writeCLE s r ot u = NotModified etag cc"
  shows "MatchesIfNoneMatch (web_if_none_match r) (BuildETag ([''cle'', ot, u, itoa (getCLERevisionTx s ot u)] @ [authzCacheSuffix s (web_principal r)]))"
  using assms by (auto simp: writeCLE_def conditional_def Let_def split: if_splits sum.splits)

text \<open>
  C18. A 304 for a lifecycle document is never stale: whatever lifecycle events and definitions were
  recorded or imported and whatever was deleted since, if the server confirms the ETag of an earlier
  answer, the document it would send now is the one it sent then.
\<close>

theorem cle_not_modified_is_current:
  assumes "Valid u" and "ot \<in> set cleOwnerTypes" and "CHR '','' \<notin> set (UserUUID (web_principal r))"
    and "writeCLE s r ot u = OK etag cc cle" and "cle_history s s'"
    and "writeCLE s' (r\<lparr>web_if_none_match := [etag], web_now := later\<rparr>) ot u = NotModified etag' cc'"
  shows "getCLETx s' ot u = Inr cle"
proof -
  let ?parts = "\<lambda>s. [''cle'', ot, u, itoa (getCLERevisionTx s ot u)] @ [authzCacheSuffix s (web_principal r)]"
  note first = writeCLE_OK [OF assms(4)]
  have ot: "CHR '','' \<notin> set ot" "CHR '':'' \<notin> set ot" using assms(2) by (auto simp: cleOwnerTypes_def)
  have "CHR '','' \<notin> set (pageScope (?parts s))"
    using ot Valid_no_comma [OF assms(1)] itoa_no_comma authzCacheSuffix_no_comma [OF assms(3)]
    by (intro pageScope_no_comma) auto
  moreover have "MatchesIfNoneMatch [BuildETag (?parts s)] (BuildETag (?parts s'))"
    using writeCLE_NotModified [OF assms(6)] first by simp
  ultimately have "pageScope (?parts s) = pageScope (?parts s')" by (rule Match_same_ETag [rotated])
  moreover have "\<forall>p \<in> set (butlast (?parts x)). CHR '':'' \<notin> set p" for x
    using ot Valid_no_colon [OF assms(1)] itoa_no_colon by auto
  ultimately have "?parts s = ?parts s'" by (intro pageScope_inj) simp_all
  then have "getCLERevisionTx s' ot u = getCLERevisionTx s ot u" by simp
  with cle_history_tracked [OF assms(5)] have "cle_view s ot u = cle_view s' ot u"
    unfolding tracked_def by (metis less_irrefl)
  from getCLETx_view [OF this] first show ?thesis by simp
qed

text \<open>A lifecycle document, or the confirmation of one, needs the capability to read lifecycle history on its owner.\<close>

lemma lifecycle_needs_grant:
  fixes r :: web_request
  defines "u \<equiv> req_path (web_params r) ''uuid''"
  shows "answered (cleByProduct s r) \<Longrightarrow> may s r CapLifecycleHistoryRead (no_resource\<lparr>ProductUUID := u\<rparr>)"
    and "answered (cleByProductRelease s r) \<Longrightarrow> may s r CapLifecycleHistoryRead (no_resource\<lparr>ProductReleaseUUID := u\<rparr>)"
    and "answered (cleByComponent s r) \<Longrightarrow> may s r CapLifecycleHistoryRead (no_resource\<lparr>ComponentUUID := u\<rparr>)"
    and "answered (cleByComponentRelease s r) \<Longrightarrow> may s r CapLifecycleHistoryRead (no_resource\<lparr>ComponentReleaseUUID := u\<rparr>)"
  unfolding u_def cleByProduct_def cleByProductRelease_def cleByComponent_def cleByComponentRelease_def
  by (auto dest!: answeredD)

section \<open>Recording and importing events\<close>

lemma filter_owner [simp]:
  "owner_events (with_event ot u i e s) ot u = owner_events s ot u @ [event_row ot u i e]"
  "owner_versions (with_event ot u i e s) ot u = owner_versions s ot u @ version_rows ot u i (cei_Versions e)"
  "owner_identifiers (with_event ot u i e s) ot u = owner_identifiers s ot u @ identifier_rows ot u i (cei_Identifiers e)"
  "owner_references (with_event ot u i e s) ot u = owner_references s ot u @ reference_rows ot u i (cei_References e)"
  "owner_support (with_event ot u i e s) ot u = owner_support s ot u"
  by (simp_all add: with_event_def bumpCLERevision_def owner_events_def owner_versions_def owner_identifiers_def owner_references_def
      owner_support_def event_row_def version_rows_def identifier_rows_def reference_rows_def filter_map comp_def)

text \<open>No part of an event is left over from another event of the same id.\<close>

definition parts_owned :: "string \<Rightarrow> uuid \<Rightarrow> db \<Rightarrow> bool" where
  "parts_owned ot u s \<longleftrightarrow>
     cv_event ` set (owner_versions s ot u) \<subseteq> set (cle_ids ot u s)
     \<and> ci_event ` set (owner_identifiers s ot u) \<subseteq> set (cle_ids ot u s)
     \<and> cf_event ` set (owner_references s ot u) \<subseteq> set (cle_ids ot u s) \<and> distinct (cle_ids ot u s)"

text \<open>An event as it reads back: its times to the second.\<close>

definition stored_event :: "int \<Rightarrow> CLEEventInput \<Rightarrow> CLEEvent" where
  "stored_event i e =
     \<lparr>ev_ID = i, ev_Type = cei_Type e, ev_Effective = parseTime (formatTime (cei_Effective e)),
      ev_Published = parseTime (formatTime (cei_Published e)), ev_Version = cei_Version e, ev_Versions = cei_Versions e,
      ev_SupportID = cei_SupportID e, ev_License = cei_License e, ev_SupersededByVersion = cei_SupersededByVersion e,
      ev_Identifiers = cei_Identifiers e, ev_EventID = cei_EventID e, ev_Reason = cei_Reason e, ev_Description = cei_Description e,
      ev_References = cei_References e\<rparr>"

lemma with_event_get:
  assumes "parts_owned ot u s" and "i \<notin> set (cle_ids ot u s)"
  shows "getCLEEventTx (with_event ot u i e s) ot u j = (if j = i then Inr (stored_event i e) else getCLEEventTx s ot u j)"
proof -
  have old: "filter (\<lambda>r. cv_event r = i) (owner_versions s ot u) = []" "filter (\<lambda>r. ci_event r = i) (owner_identifiers s ot u) = []"
    "filter (\<lambda>r. cf_event r = i) (owner_references s ot u) = []" "find_row (\<lambda>r. ce_id r = i) (owner_events s ot u) = None"
    using assms by (auto simp: parts_owned_def filter_empty_conv cle_ids_def find_row_None)
  have [simp]: "\<lparr>vs_Version = vs_Version v, vs_Range = vs_Range v\<rparr> = (v :: CLEVersionSpecifier)" for v by simp
  show ?thesis
    using old by (auto simp: getCLEEventTx_def listCLEEventVersions_def listCLEEventIdentifiers_def listCLEEventReferences_def
        find_row_append event_row_def version_rows_def identifier_rows_def reference_rows_def filter_map comp_def stored_event_def
        split: option.splits)
qed

lemma with_event_parts: "parts_owned ot u s \<Longrightarrow> i \<notin> set (cle_ids ot u s) \<Longrightarrow> parts_owned ot u (with_event ot u i e s)"
  by (auto simp: parts_owned_def cle_ids_def event_row_def version_rows_def identifier_rows_def reference_rows_def)

lemma insort_snoc: "x < n \<Longrightarrow> insort x (ys @ [n]) = insort x ys @ [n :: 'a::linorder]"
  by (induction ys) auto

lemma sort_snoc: "\<forall>x \<in> set xs. x < n \<Longrightarrow> sort (xs @ [n]) = sort xs @ [n :: 'a::linorder]"
  by (induction xs) (auto simp: insort_snoc)

lemma getCLEEvents_cong:
  "(\<And>i. i \<in> set ids \<Longrightarrow> getCLEEventTx s ot u i = getCLEEventTx s' ot u i) \<Longrightarrow> getCLEEvents s ot u ids = getCLEEvents s' ot u ids"
  by (induction ids) (simp_all split: sum.splits)

lemma CreateCLEEvent_eval:
  assumes "parts_owned ot u s" and "event_ok ot inp"
  shows "CreateCLEEvent Pool ot u inp s =
           (Inr (stored_event (next_number (cle_ids ot u s)) inp), with_event ot u (next_number (cle_ids ot u s)) inp s)"
proof -
  let ?n = "next_number (cle_ids ot u s)"
  have new: "?n \<notin> set (cle_ids ot u s)" using next_number_gt [of _ "cle_ids ot u s"] by auto
  have "insertCLEEvent ot u ?n inp s = (Inr (), with_event ot u ?n inp s)"
    using assms(2) new by (simp add: insertCLEEvent_Inr)
  then show ?thesis
    using with_event_get [OF assms(1) new, of inp ?n]
    by (simp add: CreateCLEEvent_def runInTx_def Let_def bindR_def readR_def flip: next_number_def)
qed

text \<open>
  Recording a lifecycle event always succeeds on valid input, for every owner type: the event gets the
  owner's next number, reads back as given (times to the second), comes first in the owner's document
  before the events it had, and bumps the revision; every other owner's document is untouched.
\<close>

theorem cle_event_recorded:
  assumes "parts_owned ot u s" and "event_ok ot inp" and "getCLETx s ot u = Inr cle"
  defines "i \<equiv> next_number (cle_ids ot u s)" and "s' \<equiv> snd (CreateCLEEvent Pool ot u inp s)"
  shows "fst (CreateCLEEvent Pool ot u inp s) = Inr (stored_event i inp)
    \<and> getCLETx s' ot u = Inr (cle\<lparr>cle_Events := stored_event i inp # cle_Events cle\<rparr>)
    \<and> getCLERevisionTx s' ot u = getCLERevisionTx s ot u + 1
    \<and> (\<forall>ot' u'. (ot', u') \<noteq> (ot, u) \<longrightarrow> getCLETx s' ot' u' = getCLETx s ot' u') \<and> parts_owned ot u s'"
proof -
  note run = CreateCLEEvent_eval [OF assms(1,2), folded i_def]
  have s': "s' = with_event ot u i inp s" by (simp add: s'_def run)
  have lt: "\<forall>x \<in> set (cle_ids ot u s). x < i" using next_number_gt by (auto simp: i_def)
  then have new: "i \<notin> set (cle_ids ot u s)" by auto
  note get = with_event_get [OF assms(1) new, of inp, folded s']
  have ids: "rev (sort (cle_ids ot u s')) = i # rev (sort (cle_ids ot u s))"
    using sort_snoc [OF lt] by (simp add: s' cle_ids_def event_row_def)
  have same: "getCLEEvents s' ot u (rev (sort (cle_ids ot u s))) = getCLEEvents s ot u (rev (sort (cle_ids ot u s)))"
    using new by (intro getCLEEvents_cong) (auto simp: get)
  have defs: "listCLESupportDefinitions s' ot u = listCLESupportDefinitions s ot u"
    by (simp add: listCLESupportDefinitions_def s')
  have "getCLETx s' ot u = Inr (cle\<lparr>cle_Events := stored_event i inp # cle_Events cle\<rparr>)"
    using assms(3) unfolding getCLETx_def ids
    by (auto simp: get same defs Let_def split: sum.splits)
  moreover have "getCLERevisionTx s' ot u = getCLERevisionTx s ot u + 1"
    by (simp add: s' with_event_def revision_bump)
  moreover have "getCLETx s' ot' u' = getCLETx s ot' u'" if "(ot', u') \<noteq> (ot, u)" for ot' u'
    using that by (intro getCLETx_view) (auto simp: s' with_event_other)
  ultimately show ?thesis using with_event_parts [OF assms(1) new] by (simp add: run s')
qed

interpretation ce: numbered "cle_ids ot u" "CreateCLEEvent Pool ot u inp" ev_ID for ot u inp
proof unfold_locales
  fix s e s'
  assume "CreateCLEEvent Pool ot u inp s = (Inr e, s')"
  then have "s' = with_event ot u (next_number (cle_ids ot u s)) inp s" and "getCLEEventTx s' ot u (next_number (cle_ids ot u s)) = Inr e"
    by (auto simp: CreateCLEEvent_def Let_def insertCLEEvent_Inr next_number_def)
  then show "ev_ID e = next_number (cle_ids ot u s) \<and> cle_ids ot u s' = cle_ids ot u s @ [next_number (cle_ids ot u s)]"
    by (auto simp: cle_ids_def event_row_def getCLEEventTx_def split: option.splits)
next
  fix s e s'
  assume "CreateCLEEvent Pool ot u inp s = (Inl e, s')"
  then show "cle_ids ot u s' = cle_ids ot u s" by (simp add: CreateCLEEvent_def runInTx_Pool_Inl)
qed

text \<open>
  Importing an event whose times are whole seconds creates it once; importing it again changes nothing, and
  other content under its id is an identity conflict.
\<close>

lemma ImportCLEEvent_idempotent:
  assumes "parts_owned ot u s" and "event_ok ot (event_input e)" and "ev_ID e \<notin> set (cle_ids ot u s)"
    and "parseTime (formatTime (ev_Effective e)) = ev_Effective e" and "parseTime (formatTime (ev_Published e)) = ev_Published e"
  defines "s' \<equiv> snd (ImportCLEEvent Pool ot u e s)"
  shows "fst (ImportCLEEvent Pool ot u e s) = Inr True \<and> getCLEEventTx s' ot u (ev_ID e) = Inr e
    \<and> ImportCLEEvent Pool ot u e s' = (Inr False, s')
    \<and> (\<forall>e'. ev_ID e' = ev_ID e \<and> cleEventConflicts e e' \<longrightarrow> ImportCLEEvent Pool ot u e' s' = (Inl ErrImportIdentityConflict, s'))"
proof -
  have none: "getCLEEventTx s ot u (ev_ID e) = Inl ErrNotFound"
  proof -
    have "find_row (\<lambda>r. ce_id r = ev_ID e) (owner_events s ot u) = None"
      unfolding find_row_None using assms(3) by (force simp: cle_ids_def)
    then show ?thesis by (simp add: getCLEEventTx_def)
  qed
  have "insertCLEEvent ot u (ev_ID e) (event_input e) s = (Inr (), with_event ot u (ev_ID e) (event_input e) s)"
    using assms(2,3) by (simp add: insertCLEEvent_Inr)
  with none have run: "ImportCLEEvent Pool ot u e s = (Inr True, with_event ot u (ev_ID e) (event_input e) s)"
    by (simp add: ImportCLEEvent_def runInTx_def bindR_def returnR_def)
  have "stored_event (ev_ID e) (event_input e) = e"
    using assms(4,5) by (simp add: stored_event_def event_input_def)
  with with_event_get [OF assms(1,3), of "event_input e" "ev_ID e"] run
  have get: "getCLEEventTx s' ot u (ev_ID e) = Inr e" by (simp add: s'_def)
  have "\<not> cleEventConflicts e e" by (simp add: cleEventConflicts_def)
  with get run show ?thesis by (simp add: s'_def ImportCLEEvent_def runInTx_def)
qed

section \<open>An example\<close>

definition release_event :: CLEEventInput where
  "release_event = \<lparr>cei_Type = ''released'', cei_Effective = 5000000000, cei_Published = 6000000000, cei_Version = ''1.0'', cei_Versions = [],
     cei_SupportID = [], cei_License = [], cei_SupersededByVersion = [], cei_Identifiers = [], cei_EventID = None, cei_Reason = [],
     cei_Description = [], cei_References = [''https://example.org'']\<rparr>"

theorem cle_event_recorded_witness:
  "fst (CreateCLEEvent Pool OwnerProduct uuid1 release_event shop_db) = Inr (stored_event 1 release_event)
   \<and> getCLETx (snd (CreateCLEEvent Pool OwnerProduct uuid1 release_event shop_db)) OwnerProduct uuid1 =
       Inr \<lparr>cle_Events = [stored_event 1 release_event], cle_Definitions = None\<rparr>"
proof -
  have tables: "tbl_cle_event shop_db = []" "tbl_cle_version shop_db = []" "tbl_cle_identifier shop_db = []" "tbl_cle_reference shop_db = []"
    "tbl_cle_support shop_db = []"
    by (simp_all add: shop_db_def empty_db_def)
  have ids: "cle_ids OwnerProduct uuid1 shop_db = []" by (simp add: cle_ids_def owner_events_def tables)
  have n: "next_number (cle_ids OwnerProduct uuid1 shop_db) = 1" by (simp add: ids next_number_def sql_max_def)
  have "parts_owned OwnerProduct uuid1 shop_db"
    by (simp add: parts_owned_def ids owner_versions_def owner_identifiers_def owner_references_def tables)
  moreover have "event_ok OwnerProduct release_event"
    by (simp add: event_ok_def release_event_def cleOwnerTypes_def cleEventTypes_def)
  moreover have "getCLETx shop_db OwnerProduct uuid1 = Inr \<lparr>cle_Events = [], cle_Definitions = None\<rparr>"
    by (simp add: getCLETx_def ids listCLESupportDefinitions_def owner_support_def tables)
  ultimately show ?thesis using cle_event_recorded [of OwnerProduct uuid1 shop_db release_event] n by simp
qed

lemma shop_cle:
  "writeCLE shop_db (visitor uuid1) OwnerProduct uuid1 =
     OK (CHR 0x22 # ''cle:PRODUCT:00000000-0000-4000-8000-000000000001:0:anon'' @ [CHR 0x22]) cacheControlRevalidate
       \<lparr>cle_Events = [], cle_Definitions = None\<rparr>"
  by code_simp

text \<open>Meanwhile an event is recorded for a component of the same uuid.\<close>

definition busy_db :: db where
  "busy_db = snd (CreateCLEEvent Pool OwnerComponent uuid1 release_event shop_db)"

lemma shop_cle_again:
  "writeCLE busy_db ((visitor uuid1)\<lparr>web_if_none_match := [CHR 0x22 # ''cle:PRODUCT:00000000-0000-4000-8000-000000000001:0:anon'' @ [CHR 0x22]],
       web_now := 7\<rparr>) OwnerProduct uuid1 =
     NotModified (CHR 0x22 # ''cle:PRODUCT:00000000-0000-4000-8000-000000000001:0:anon'' @ [CHR 0x22]) cacheControlRevalidate"
  by code_simp

theorem cle_not_modified_is_current_witness:
  "getCLETx busy_db OwnerProduct uuid1 = Inr \<lparr>cle_Events = [], cle_Definitions = None\<rparr>"
proof (rule cle_not_modified_is_current [OF _ _ _ shop_cle _ shop_cle_again])
  show "Valid uuid1" by code_simp
  show "cle_history shop_db busy_db" unfolding cle_history_def busy_db_def by (rule r_into_rtranclp) (rule cle_step.create)
qed (simp_all add: cleOwnerTypes_def visitor_def)

end
