(* ===== verification/Entitlements.thy ===== *)
theory Entitlements
  imports AuthzStore Wire
begin

text \<open>
  Administration of access (\<open>internal/repo/template.go\<close>, \<open>entitlement.go\<close>, \<open>productgroup.go\<close>,
  \<open>releasegroup.go\<close>): versioned templates of capability rules, entitlements that pin one revision, and the
  groups an entitlement can name. The tables are those the policy engine reads, so what an administrative
  operation does to decisions is proved over \<open>Decide\<close>. Times the schema stamps itself (milliseconds) are
  kept to the second, like every other time column.
\<close>

section \<open>Data\<close>

record TemplateCapabilityRule =
  rule_Capability :: Capability
  rule_ArtifactType :: ArtifactType
  rule_Decision :: string

record Template =
  tmpl_UUID :: uuid
  tmpl_Name :: string
  tmpl_Description :: string
  tmpl_ActiveRevision :: int
  tmpl_CreatedAt :: time

record TemplateRevision =
  trev_TemplateUUID :: uuid
  trev_Revision :: int
  trev_CreatedAt :: time
  trev_CreatedBy :: string
  trev_Comment :: string
  trev_Rules :: "TemplateCapabilityRule list"

record Group =
  grp_UUID :: uuid
  grp_Name :: string
  grp_Description :: string
  grp_CreatedAt :: time

record Entitlement =
  ent_UUID :: uuid
  ent_SubjectType :: SubjectType
  ent_SubjectID :: string
  ent_TemplateUUID :: uuid
  ent_TemplateRevision :: int
  ent_ResourceType :: string
  ent_ResourceID :: string
  ent_Status :: string
  ent_ValidFrom :: "time option"
  ent_ValidUntil :: "time option"
  ent_GrantingAuthority :: string
  ent_CreatedAt :: time
  ent_CreatedBy :: string
  ent_Revision :: int

record EntitlementInput =
  enin_SubjectType :: SubjectType
  enin_SubjectID :: string
  enin_TemplateUUID :: uuid
  enin_TemplateRevision :: int
  enin_ResourceType :: string
  enin_ResourceID :: string
  enin_ValidFrom :: "time option"
  enin_ValidUntil :: "time option"
  enin_GrantingAuthority :: string

record EntitlementFilter =
  ef_SubjectType :: string
  ef_SubjectID :: string
  ef_ResourceType :: string
  ef_ResourceID :: string

section \<open>Statements\<close>

definition capabilities :: "string list" where
  "capabilities =
     [''product.discover'', ''product.read'', ''release.discover'', ''release.read'', ''lifecycle.current.read'',
      ''lifecycle.history.read'', ''collection.discover'', ''collection.read'', ''collection.download'',
      ''artifact.discover'', ''artifact.metadata.read'', ''artifact.download'']"

definition resourceTypes :: "string list" where
  "resourceTypes =
     [''all_products'', ''product_group'', ''product'', ''release_group'', ''product_release'', ''collection'',
      ''artifact'', ''component'', ''component_release'']"

definition user_ref_ok :: "db \<Rightarrow> uuid option \<Rightarrow> bool" where
  "user_ref_ok s u = (case u of None \<Rightarrow> True | Some v \<Rightarrow> has_row (\<lambda>r. u_uuid r = v) (tbl_user s))"

definition insert_template :: "stamp \<Rightarrow> uuid \<Rightarrow> string \<Rightarrow> string option \<Rightarrow> unit repo_op" where
  "insert_template at u name description s =
     (if has_row (\<lambda>t. t_uuid t = u \<or> t_name t = name) (tbl_template s) then (Inl ErrUniqueConstraint, s)
      else (Inr (), s\<lparr>tbl_template := tbl_template s @
        [\<lparr>t_uuid = u, t_name = name, t_description = description, t_active_revision = None, t_created_at = at\<rparr>]\<rparr>))"

definition insert_template_revision :: "template_revision_row \<Rightarrow> unit repo_op" where
  "insert_template_revision r s =
     (if has_row (\<lambda>x. tr_template x = tr_template r \<and> tr_revision x = tr_revision r) (tbl_template_revision s)
      then (Inl ErrUniqueConstraint, s)
      else if \<not> has_row (\<lambda>t. t_uuid t = tr_template r) (tbl_template s) \<or> \<not> user_ref_ok s (tr_created_by r)
      then (Inl ErrForeignKeyConstraint, s)
      else (Inr (), s\<lparr>tbl_template_revision := tbl_template_revision s @ [r]\<rparr>))"

text \<open>The UNIQUE constraint does not compare NULL artifact types.\<close>

definition insert_template_rule :: "template_rule_row \<Rightarrow> unit repo_op" where
  "insert_template_rule r s =
     (if \<not> List.member capabilities (tc_capability r)
         \<or> (case tc_artifact_type r of None \<Rightarrow> False | Some ty \<Rightarrow> \<not> List.member artifactTypes ty)
         \<or> \<not> List.member [''allow'', ''deny''] (tc_decision r)
      then (Inl ErrCheckConstraint, s)
      else if has_row (\<lambda>x. tc_template x = tc_template r \<and> tc_revision x = tc_revision r
                           \<and> tc_capability x = tc_capability r \<and> sql_eq (tc_artifact_type x) (tc_artifact_type r)) (tbl_template_rule s)
      then (Inl ErrUniqueConstraint, s)
      else if \<not> has_row (\<lambda>x. tr_template x = tc_template r \<and> tr_revision x = tc_revision r) (tbl_template_revision s)
      then (Inl ErrForeignKeyConstraint, s)
      else (Inr (), s\<lparr>tbl_template_rule := tbl_template_rule s @ [r]\<rparr>))"

definition insert_entitlement :: "entitlement_row \<Rightarrow> unit repo_op" where
  "insert_entitlement e s =
     (if \<not> List.member [''everyone'', ''authenticated'', ''principal''] (e_subject_type e)
         \<or> \<not> List.member resourceTypes (e_resource_type e) \<or> \<not> List.member [''active'', ''suspended'', ''revoked''] (e_status e)
         \<or> (e_subject_type e = ''principal'') \<noteq> (e_subject_id e \<noteq> None)
         \<or> (e_resource_type e = ''all_products'') \<noteq> (e_resource_id e = None)
      then (Inl ErrCheckConstraint, s)
      else if has_row (\<lambda>x. e_uuid x = e_uuid e) (tbl_entitlement s) then (Inl ErrUniqueConstraint, s)
      else if \<not> user_ref_ok s (e_subject_id e) \<or> \<not> user_ref_ok s (e_created_by e)
         \<or> \<not> has_row (\<lambda>t. t_uuid t = e_template e) (tbl_template s)
         \<or> \<not> has_row (\<lambda>r. tr_template r = e_template e \<and> tr_revision r = e_template_revision e) (tbl_template_revision s)
      then (Inl ErrForeignKeyConstraint, s)
      else (Inr (), s\<lparr>tbl_entitlement := tbl_entitlement s @ [e]\<rparr>))"

section \<open>Templates\<close>

definition scanTemplate :: "template_row \<Rightarrow> Template" where
  "scanTemplate t =
     \<lparr>tmpl_UUID = t_uuid t, tmpl_Name = t_name t, tmpl_Description = null_str (t_description t),
      tmpl_ActiveRevision = (case t_active_revision t of None \<Rightarrow> 0 | Some v \<Rightarrow> v), tmpl_CreatedAt = parseTime (t_created_at t)\<rparr>"

definition GetTemplate :: "db \<Rightarrow> uuid \<Rightarrow> repo_error + Template" where
  "GetTemplate s u =
     (case find_row (\<lambda>t. t_uuid t = u) (tbl_template s) of None \<Rightarrow> Inl ErrNotFound | Some t \<Rightarrow> Inr (scanTemplate t))"

definition existsTemplateTx :: "db \<Rightarrow> uuid \<Rightarrow> repo_error + unit" where
  "existsTemplateTx s u = (if has_row (\<lambda>t. t_uuid t = u) (tbl_template s) then Inr () else Inl ErrNotFound)"

definition insertTemplateRevisionTx ::
  "time \<Rightarrow> uuid \<Rightarrow> int \<Rightarrow> TemplateCapabilityRule list \<Rightarrow> string \<Rightarrow> string \<Rightarrow> TemplateRevision repo_op" where
  "insertTemplateRevisionTx now templateUUID revision rules createdBy cmt =
     bindR (insert_template_revision
              \<lparr>tr_template = templateUUID, tr_revision = revision, tr_created_at = formatTime now,
               tr_created_by = nullIfEmpty createdBy, tr_comment = nullIfEmpty cmt\<rparr>) (\<lambda>_.
     bindR (forR (\<lambda>rule. insert_template_rule
              \<lparr>tc_template = templateUUID, tc_revision = revision, tc_capability = rule_Capability rule,
               tc_artifact_type = nullIfEmpty (rule_ArtifactType rule), tc_decision = rule_Decision rule\<rparr>) rules) (\<lambda>_.
     returnR \<lparr>trev_TemplateUUID = templateUUID, trev_Revision = revision, trev_CreatedAt = now, trev_CreatedBy = createdBy,
              trev_Comment = cmt, trev_Rules = rules\<rparr>))"

definition CreateTemplate ::
  "repo_conn \<Rightarrow> time \<Rightarrow> uuid \<Rightarrow> string \<Rightarrow> string \<Rightarrow> TemplateCapabilityRule list \<Rightarrow> string \<Rightarrow> string \<Rightarrow>
   (Template \<times> TemplateRevision) repo_op" where
  "CreateTemplate c now newid name description rules createdBy cmt =
     bindR (runInTx c
       (bindR (insert_template (formatTime now) newid name (nullIfEmpty description)) (\<lambda>_.
        insertTemplateRevisionTx now newid 1 rules createdBy cmt))) (\<lambda>rev.
     bindR (readR (\<lambda>s. GetTemplate s newid)) (\<lambda>t. returnR (t, rev)))"

definition template_revisions :: "uuid \<Rightarrow> db \<Rightarrow> int list" where
  "template_revisions u s = map tr_revision (filter (\<lambda>r. tr_template r = u) (tbl_template_revision s))"

definition CreateTemplateRevision ::
  "repo_conn \<Rightarrow> time \<Rightarrow> uuid \<Rightarrow> TemplateCapabilityRule list \<Rightarrow> string \<Rightarrow> string \<Rightarrow> TemplateRevision repo_op" where
  "CreateTemplateRevision c now templateUUID rules createdBy cmt =
     runInTx c
       (bindR (readR (\<lambda>s. existsTemplateTx s templateUUID)) (\<lambda>_.
        bindR (readR (\<lambda>s. Inr (case sql_max (template_revisions templateUUID s) of None \<Rightarrow> 0 | Some m \<Rightarrow> m))) (\<lambda>maxRevision.
        insertTemplateRevisionTx now templateUUID (maxRevision + 1) rules createdBy cmt)))"

definition ActivateTemplateRevision :: "repo_conn \<Rightarrow> uuid \<Rightarrow> int \<Rightarrow> unit repo_op" where
  "ActivateTemplateRevision c templateUUID revision =
     runInTx c (\<lambda>s.
       if \<not> has_row (\<lambda>r. tr_template r = templateUUID \<and> tr_revision r = revision) (tbl_template_revision s) then (Inl ErrNotFound, s)
       else if \<not> has_row (\<lambda>t. t_uuid t = templateUUID) (tbl_template s) then (Inl ErrNotFound, s)
       else (Inr (), s\<lparr>tbl_template := update_rows (\<lambda>t. t_uuid t = templateUUID) (\<lambda>t. t\<lparr>t_active_revision := Some revision\<rparr>) (tbl_template s)\<rparr>))"

definition listTemplateCapabilityRules :: "db \<Rightarrow> uuid \<Rightarrow> int \<Rightarrow> TemplateCapabilityRule list" where
  "listTemplateCapabilityRules s templateUUID revision =
     map (\<lambda>r. \<lparr>rule_Capability = tc_capability r, rule_ArtifactType = null_str (tc_artifact_type r), rule_Decision = tc_decision r\<rparr>)
       (filter (\<lambda>r. tc_template r = templateUUID \<and> tc_revision r = revision) (tbl_template_rule s))"

definition GetTemplateRevision :: "db \<Rightarrow> uuid \<Rightarrow> int \<Rightarrow> repo_error + TemplateRevision" where
  "GetTemplateRevision s templateUUID revision =
     (case find_row (\<lambda>r. tr_template r = templateUUID \<and> tr_revision r = revision) (tbl_template_revision s) of
        None \<Rightarrow> Inl ErrNotFound
      | Some r \<Rightarrow> Inr \<lparr>trev_TemplateUUID = templateUUID, trev_Revision = revision, trev_CreatedAt = parseTime (tr_created_at r),
          trev_CreatedBy = null_str (tr_created_by r), trev_Comment = null_str (tr_comment r),
          trev_Rules = listTemplateCapabilityRules s templateUUID revision\<rparr>)"

definition ListTemplates :: "db \<Rightarrow> Template list" where
  "ListTemplates s = map scanTemplate (sort_key t_name (tbl_template s))"

text \<open>
  Deleting a template: RESTRICT on the entitlements that name it, CASCADE to its revisions and from
  those to their rules.
\<close>

definition DeleteTemplate :: "uuid \<Rightarrow> unit repo_op" where
  "DeleteTemplate u s =
     (if \<not> has_row (\<lambda>t. t_uuid t = u) (tbl_template s) then (Inl ErrNotFound, s)
      else if has_row (\<lambda>e. e_template e = u) (tbl_entitlement s) then (Inl ErrTemplateInUse, s)
      else (Inr (), s\<lparr>tbl_template := delete_rows (\<lambda>t. t_uuid t = u) (tbl_template s),
                      tbl_template_revision := delete_rows (\<lambda>r. tr_template r = u) (tbl_template_revision s),
                      tbl_template_rule := delete_rows (\<lambda>r. tc_template r = u) (tbl_template_rule s)\<rparr>))"

section \<open>Entitlements\<close>

definition scanEntitlement :: "entitlement_row \<Rightarrow> Entitlement" where
  "scanEntitlement e =
     \<lparr>ent_UUID = e_uuid e, ent_SubjectType = e_subject_type e, ent_SubjectID = null_str (e_subject_id e),
      ent_TemplateUUID = e_template e, ent_TemplateRevision = e_template_revision e, ent_ResourceType = e_resource_type e,
      ent_ResourceID = null_str (e_resource_id e), ent_Status = e_status e, ent_ValidFrom = parseNullTime (e_valid_from e),
      ent_ValidUntil = parseNullTime (e_valid_until e), ent_GrantingAuthority = e_granting_authority e,
      ent_CreatedAt = parseTime (e_created_at e), ent_CreatedBy = null_str (e_created_by e), ent_Revision = e_revision e\<rparr>"

definition GetEntitlement :: "db \<Rightarrow> uuid \<Rightarrow> repo_error + Entitlement" where
  "GetEntitlement s u =
     (case find_row (\<lambda>e. e_uuid e = u) (tbl_entitlement s) of None \<Rightarrow> Inl ErrNotFound | Some e \<Rightarrow> Inr (scanEntitlement e))"

definition CreateEntitlement :: "repo_conn \<Rightarrow> time \<Rightarrow> uuid \<Rightarrow> EntitlementInput \<Rightarrow> string \<Rightarrow> Entitlement repo_op" where
  "CreateEntitlement c now newid inp createdBy =
     bindR (runInTx c
       (bindR (insert_entitlement
          \<lparr>e_uuid = newid, e_subject_type = enin_SubjectType inp, e_subject_id = nullIfEmpty (enin_SubjectID inp),
           e_template = enin_TemplateUUID inp, e_template_revision = enin_TemplateRevision inp,
           e_resource_type = enin_ResourceType inp, e_resource_id = nullIfEmpty (enin_ResourceID inp), e_status = ''active'',
           e_valid_from = formatTimePtr (enin_ValidFrom inp), e_valid_until = formatTimePtr (enin_ValidUntil inp),
           e_granting_authority = enin_GrantingAuthority inp, e_created_at = formatTime now, e_created_by = nullIfEmpty createdBy,
           e_revision = 1\<rparr>) (\<lambda>_.
        execR (bumpWatermark WatermarkEntitlements)))) (\<lambda>_.
     readR (\<lambda>s. GetEntitlement s newid))"

definition entitlementListLimit :: nat where "entitlementListLimit = 1000"

definition ListEntitlements :: "db \<Rightarrow> EntitlementFilter \<Rightarrow> Entitlement list" where
  "ListEntitlements s f =
     map scanEntitlement (take entitlementListLimit (sort_key e_created_at (filter (\<lambda>e.
       (ef_SubjectType f = [] \<or> e_subject_type e = ef_SubjectType f)
       \<and> (ef_SubjectID f = [] \<or> sql_eq (e_subject_id e) (Some (ef_SubjectID f)))
       \<and> (ef_ResourceType f = [] \<or> e_resource_type e = ef_ResourceType f)
       \<and> (ef_ResourceID f = [] \<or> sql_eq (e_resource_id e) (Some (ef_ResourceID f)))) (tbl_entitlement s))))"

text \<open>The UPDATE of one entitlement with the next revision, and the statements after it.\<close>

definition update_entitlement :: "repo_conn \<Rightarrow> (entitlement_row \<Rightarrow> entitlement_row) \<Rightarrow> uuid \<Rightarrow> Entitlement repo_op" where
  "update_entitlement c f u =
     runInTx c (\<lambda>s.
       if \<not> has_row (\<lambda>e. e_uuid e = u) (tbl_entitlement s) then (Inl ErrNotFound, s)
       else bindR (execR (\<lambda>s. bumpWatermark WatermarkEntitlements
                (s\<lparr>tbl_entitlement := update_rows (\<lambda>e. e_uuid e = u) (\<lambda>e. (f e)\<lparr>e_revision := e_revision e + 1\<rparr>) (tbl_entitlement s)\<rparr>)))
              (\<lambda>_. readR (\<lambda>s. GetEntitlement s u)) s)"

definition UpdateEntitlementStatus :: "repo_conn \<Rightarrow> uuid \<Rightarrow> string \<Rightarrow> Entitlement repo_op" where
  "UpdateEntitlementStatus c u status s =
     (if has_row (\<lambda>e. e_uuid e = u) (tbl_entitlement s) \<and> \<not> List.member [''active'', ''suspended'', ''revoked''] status
      then (Inl ErrCheckConstraint, s)
      else update_entitlement c (\<lambda>e. e\<lparr>e_status := status\<rparr>) u s)"

definition UpdateEntitlementValidity :: "repo_conn \<Rightarrow> uuid \<Rightarrow> time option \<Rightarrow> time option \<Rightarrow> Entitlement repo_op" where
  "UpdateEntitlementValidity c u validFrom validUntil =
     update_entitlement c (\<lambda>e. e\<lparr>e_valid_from := formatTimePtr validFrom, e_valid_until := formatTimePtr validUntil\<rparr>) u"

definition DeleteEntitlement :: "repo_conn \<Rightarrow> uuid \<Rightarrow> unit repo_op" where
  "DeleteEntitlement c u =
     runInTx c (\<lambda>s.
       if \<not> has_row (\<lambda>e. e_uuid e = u) (tbl_entitlement s) then (Inl ErrNotFound, s)
       else (Inr (), bumpWatermark WatermarkEntitlements (s\<lparr>tbl_entitlement := delete_rows (\<lambda>e. e_uuid e = u) (tbl_entitlement s)\<rparr>)))"

section \<open>Groups\<close>

definition scanGroup :: "group_row \<Rightarrow> Group" where
  "scanGroup g = \<lparr>grp_UUID = g_uuid g, grp_Name = g_name g, grp_Description = null_str (g_description g),
     grp_CreatedAt = parseTime (g_created_at g)\<rparr>"

definition GetProductGroup :: "db \<Rightarrow> uuid \<Rightarrow> repo_error + Group" where
  "GetProductGroup s u =
     (case find_row (\<lambda>g. g_uuid g = u) (tbl_product_group s) of None \<Rightarrow> Inl ErrNotFound | Some g \<Rightarrow> Inr (scanGroup g))"

definition CreateProductGroup :: "time \<Rightarrow> uuid \<Rightarrow> string \<Rightarrow> string \<Rightarrow> Group repo_op" where
  "CreateProductGroup now newid name description =
     bindR (\<lambda>s. if has_row (\<lambda>g. g_uuid g = newid \<or> g_name g = name) (tbl_product_group s) then (Inl ErrUniqueConstraint, s)
            else (Inr (), s\<lparr>tbl_product_group := tbl_product_group s @
              [\<lparr>g_uuid = newid, g_name = name, g_description = nullIfEmpty description, g_created_at = formatTime now\<rparr>]\<rparr>)) (\<lambda>_.
     readR (\<lambda>s. GetProductGroup s newid))"

definition ListProductGroups :: "db \<Rightarrow> Group list" where
  "ListProductGroups s = map scanGroup (sort_key g_name (tbl_product_group s))"

definition DeleteProductGroup :: "uuid \<Rightarrow> unit repo_op" where
  "DeleteProductGroup u s =
     (if \<not> has_row (\<lambda>g. g_uuid g = u) (tbl_product_group s) then (Inl ErrNotFound, s)
      else (Inr (), s\<lparr>tbl_product_group := delete_rows (\<lambda>g. g_uuid g = u) (tbl_product_group s),
                      tbl_product_group_member := delete_rows (\<lambda>(g, _). g = u) (tbl_product_group_member s)\<rparr>))"

definition AddProductGroupMember :: "uuid \<Rightarrow> uuid \<Rightarrow> unit repo_op" where
  "AddProductGroupMember groupUUID productUUID s =
     (if List.member (tbl_product_group_member s) (groupUUID, productUUID) then (Inr (), s)
      else if \<not> has_row (\<lambda>g. g_uuid g = groupUUID) (tbl_product_group s) \<or> \<not> has_row (\<lambda>p. p_uuid p = productUUID) (tbl_product s)
      then (Inl ErrForeignKeyConstraint, s)
      else (Inr (), s\<lparr>tbl_product_group_member := tbl_product_group_member s @ [(groupUUID, productUUID)]\<rparr>))"

definition RemoveProductGroupMember :: "uuid \<Rightarrow> uuid \<Rightarrow> unit repo_op" where
  "RemoveProductGroupMember groupUUID productUUID s =
     (if \<not> List.member (tbl_product_group_member s) (groupUUID, productUUID) then (Inl ErrNotFound, s)
      else (Inr (), s\<lparr>tbl_product_group_member := delete_rows (\<lambda>m. m = (groupUUID, productUUID)) (tbl_product_group_member s)\<rparr>))"

definition ListProductGroupMembers :: "db \<Rightarrow> uuid \<Rightarrow> uuid list" where
  "ListProductGroupMembers s groupUUID = sort (map snd (filter (\<lambda>(g, _). g = groupUUID) (tbl_product_group_member s)))"

definition GetReleaseGroup :: "db \<Rightarrow> uuid \<Rightarrow> repo_error + Group" where
  "GetReleaseGroup s u =
     (case find_row (\<lambda>g. g_uuid g = u) (tbl_release_group s) of None \<Rightarrow> Inl ErrNotFound | Some g \<Rightarrow> Inr (scanGroup g))"

definition CreateReleaseGroup :: "time \<Rightarrow> uuid \<Rightarrow> string \<Rightarrow> string \<Rightarrow> Group repo_op" where
  "CreateReleaseGroup now newid name description =
     bindR (\<lambda>s. if has_row (\<lambda>g. g_uuid g = newid \<or> g_name g = name) (tbl_release_group s) then (Inl ErrUniqueConstraint, s)
            else (Inr (), s\<lparr>tbl_release_group := tbl_release_group s @
              [\<lparr>g_uuid = newid, g_name = name, g_description = nullIfEmpty description, g_created_at = formatTime now\<rparr>]\<rparr>)) (\<lambda>_.
     readR (\<lambda>s. GetReleaseGroup s newid))"

definition ListReleaseGroups :: "db \<Rightarrow> Group list" where
  "ListReleaseGroups s = map scanGroup (sort_key g_name (tbl_release_group s))"

definition DeleteReleaseGroup :: "uuid \<Rightarrow> unit repo_op" where
  "DeleteReleaseGroup u s =
     (if \<not> has_row (\<lambda>g. g_uuid g = u) (tbl_release_group s) then (Inl ErrNotFound, s)
      else (Inr (), s\<lparr>tbl_release_group := delete_rows (\<lambda>g. g_uuid g = u) (tbl_release_group s),
                      tbl_release_group_member := delete_rows (\<lambda>(g, _). g = u) (tbl_release_group_member s)\<rparr>))"

definition AddReleaseGroupMember :: "uuid \<Rightarrow> uuid \<Rightarrow> unit repo_op" where
  "AddReleaseGroupMember groupUUID productReleaseUUID s =
     (if List.member (tbl_release_group_member s) (groupUUID, productReleaseUUID) then (Inr (), s)
      else if \<not> has_row (\<lambda>g. g_uuid g = groupUUID) (tbl_release_group s) \<or> \<not> has_row (\<lambda>r. rl_uuid r = productReleaseUUID) (tbl_product_release s)
      then (Inl ErrForeignKeyConstraint, s)
      else (Inr (), s\<lparr>tbl_release_group_member := tbl_release_group_member s @ [(groupUUID, productReleaseUUID)]\<rparr>))"

definition RemoveReleaseGroupMember :: "uuid \<Rightarrow> uuid \<Rightarrow> unit repo_op" where
  "RemoveReleaseGroupMember groupUUID productReleaseUUID s =
     (if \<not> List.member (tbl_release_group_member s) (groupUUID, productReleaseUUID) then (Inl ErrNotFound, s)
      else (Inr (), s\<lparr>tbl_release_group_member := delete_rows (\<lambda>m. m = (groupUUID, productReleaseUUID)) (tbl_release_group_member s)\<rparr>))"

definition ListReleaseGroupMembers :: "db \<Rightarrow> uuid \<Rightarrow> uuid list" where
  "ListReleaseGroupMembers s groupUUID = sort (map snd (filter (\<lambda>(g, _). g = groupUUID) (tbl_release_group_member s)))"

section \<open>What a successful operation does\<close>

lemma insert_template_rule_Inr:
  "insert_template_rule r s = (Inr x, s') \<longleftrightarrow>
     tc_capability r \<in> set capabilities \<and> (\<forall>ty. tc_artifact_type r = Some ty \<longrightarrow> ty \<in> set artifactTypes)
     \<and> (tc_decision r = ''allow'' \<or> tc_decision r = ''deny'')
     \<and> \<not> (\<exists>y \<in> set (tbl_template_rule s). tc_template y = tc_template r \<and> tc_revision y = tc_revision r
            \<and> tc_capability y = tc_capability r \<and> sql_eq (tc_artifact_type y) (tc_artifact_type r))
     \<and> (\<exists>y \<in> set (tbl_template_revision s). tr_template y = tc_template r \<and> tr_revision y = tc_revision r)
     \<and> s' = s\<lparr>tbl_template_rule := tbl_template_rule s @ [r]\<rparr>"
  by (auto simp: insert_template_rule_def split: option.splits)

lemma insert_template_revision_Inr:
  "insert_template_revision r s = (Inr x, s') \<longleftrightarrow>
     \<not> (\<exists>y \<in> set (tbl_template_revision s). tr_template y = tr_template r \<and> tr_revision y = tr_revision r)
     \<and> (\<exists>t \<in> set (tbl_template s). t_uuid t = tr_template r) \<and> user_ref_ok s (tr_created_by r)
     \<and> s' = s\<lparr>tbl_template_revision := tbl_template_revision s @ [r]\<rparr>"
  by (auto simp: insert_template_revision_def)

definition rule_rows :: "uuid \<Rightarrow> int \<Rightarrow> TemplateCapabilityRule list \<Rightarrow> template_rule_row list" where
  "rule_rows u n rules = map (\<lambda>rule. \<lparr>tc_template = u, tc_revision = n, tc_capability = rule_Capability rule,
     tc_artifact_type = nullIfEmpty (rule_ArtifactType rule), tc_decision = rule_Decision rule\<rparr>) rules"

text \<open>A new revision: its row, and its rules after those of every other revision.\<close>

lemma insertTemplateRevisionTx_Inr:
  assumes "insertTemplateRevisionTx now u n rules by cmt s = (Inr tr, s')"
  shows "\<exists>row. tr_template row = u \<and> tr_revision row = n \<and> (\<exists>t \<in> set (tbl_template s). t_uuid t = u)
    \<and> s' = s\<lparr>tbl_template_revision := tbl_template_revision s @ [row], tbl_template_rule := tbl_template_rule s @ rule_rows u n rules\<rparr>
    \<and> list_all (\<lambda>r. tc_decision r = ''allow'' \<or> tc_decision r = ''deny'') (rule_rows u n rules)
    \<and> tr = \<lparr>trev_TemplateUUID = u, trev_Revision = n, trev_CreatedAt = now, trev_CreatedBy = by, trev_Comment = cmt, trev_Rules = rules\<rparr>"
proof -
  let ?row = "\<lparr>tr_template = u, tr_revision = n, tr_created_at = formatTime now, tr_created_by = nullIfEmpty by, tr_comment = nullIfEmpty cmt\<rparr>"
  let ?f = "\<lambda>rule. insert_template_rule \<lparr>tc_template = u, tc_revision = n, tc_capability = rule_Capability rule,
               tc_artifact_type = nullIfEmpty (rule_ArtifactType rule), tc_decision = rule_Decision rule\<rparr>"
  obtain s1 where 1: "insert_template_revision ?row s = (Inr (), s1)" and 2: "forR ?f rules s1 = (Inr (), s')"
    and tv: "tr = \<lparr>trev_TemplateUUID = u, trev_Revision = n, trev_CreatedAt = now, trev_CreatedBy = by, trev_Comment = cmt, trev_Rules = rules\<rparr>"
    using assms by (auto simp: insertTemplateRevisionTx_def)
  have s': "s' = s1\<lparr>tbl_template_rule := tbl_template_rule s1 @ rule_rows u n rules\<rparr>"
    using forR_appends [OF 2, of "\<lambda>g s. s\<lparr>tbl_template_rule := g (tbl_template_rule s)\<rparr>"
        "\<lambda>rule. \<lparr>tc_template = u, tc_revision = n, tc_capability = rule_Capability rule,
               tc_artifact_type = nullIfEmpty (rule_ArtifactType rule), tc_decision = rule_Decision rule\<rparr>"]
    by (simp add: insert_template_rule_Inr comp_def rule_rows_def)
  have dec: "forR ?f rules s1 = (Inr (), s') \<Longrightarrow> list_all (\<lambda>r. tc_decision r = ''allow'' \<or> tc_decision r = ''deny'') (rule_rows u n rules)" for s1 s'
    by (induction rules arbitrary: s1) (auto simp: rule_rows_def insert_template_rule_Inr)
  from 1 s' tv dec [OF 2] show ?thesis
    by (intro exI [of _ ?row]) (simp add: insert_template_revision_Inr)
qed

section \<open>What a decision depends on\<close>

definition same_resources :: "db \<Rightarrow> db \<Rightarrow> bool" where
  "same_resources s s' \<longleftrightarrow>
     tbl_product_group_member s' = tbl_product_group_member s \<and> tbl_release_group_member s' = tbl_release_group_member s
     \<and> tbl_product_release s' = tbl_product_release s \<and> tbl_component_release s' = tbl_component_release s
     \<and> tbl_collection s' = tbl_collection s \<and> tbl_collection_artifact s' = tbl_collection_artifact s"

lemma same_resources_refl [simp]: "same_resources s s"
  by (simp add: same_resources_def)

lemma same_resources_sym: "same_resources s s' \<Longrightarrow> same_resources s' s"
  by (simp add: same_resources_def)

lemma resolvable_same: "same_resources s s' \<Longrightarrow> resolvable s' t = resolvable s t"
  by (cases t) (auto simp: same_resources_def resolvable.simps split: option.splits)

lemma covers_same:
  assumes "same_resources s s'" and "covers s t sc rt ri"
  shows "covers s' t sc rt ri"
proof -
  have eqs: "tbl_product_group_member s' = tbl_product_group_member s" "tbl_release_group_member s' = tbl_release_group_member s"
    "tbl_product_release s' = tbl_product_release s" "tbl_component_release s' = tbl_component_release s"
    "tbl_collection s' = tbl_collection s" "tbl_collection_artifact s' = tbl_collection_artifact s"
    using assms(1) by (simp_all add: same_resources_def)
  note eqs = eqs resolvable_same [OF assms(1)]
  from assms(2) show ?thesis
  proof (induction rule: covers.induct)
    case (of_product r row sc rt ri)
    then show ?case by (intro covers.of_product [of r s' row]) (simp_all add: eqs)
  next
    case (of_component r row sc rt ri)
    then show ?case by (intro covers.of_component [of r s' row]) (simp_all add: eqs)
  next
    case (of_release c row sc rt ri)
    then show ?case by (intro covers.of_release [of c s' row]) (simp_all add: eqs)
  next
    case (of_component_release c row sc rt ri)
    then show ?case by (intro covers.of_component_release [of c s' row]) (simp_all add: eqs)
  next
    case (of_known_collection c sc rt ri a)
    then show ?case by (intro covers.of_known_collection) (simp_all add: eqs)
  next
    case (of_some_collection ca a sc rt ri)
    then show ?case by (intro covers.of_some_collection [of ca s' a]) (simp_all add: eqs)
  qed (simp_all add: eqs covers.all_products covers.product_group covers.product covers.component covers.release_group
      covers.release covers.component_release covers.collection covers.artifact)
qed

text \<open>The entitlements that apply, and the rules they pin, decide.\<close>

lemma same_entitlement: "e \<in> A \<Longrightarrow> \<exists>e' \<in> A. e'\<lparr>e_revision := e_revision e\<rparr> = (e :: entitlement_row)"
  by (rule bexI [of _ e]) simp_all

definition same_grants :: "time \<Rightarrow> Principal \<Rightarrow> db \<Rightarrow> db \<Rightarrow> bool" where
  "same_grants now p s s' \<longleftrightarrow>
     (\<forall>e r. e \<in> set (tbl_entitlement s) \<and> r \<in> set (tbl_template_rule s) \<and> applicable now p e
        \<and> tc_template r = e_template e \<and> tc_revision r = e_template_revision e \<longrightarrow>
        (\<exists>e' \<in> set (tbl_entitlement s'). r \<in> set (tbl_template_rule s') \<and> e'\<lparr>e_revision := e_revision e\<rparr> = e))"

lemma candidates_mono:
  assumes "same_resources s s'" and "same_grants now p s s'"
  shows "candidates_for s now p cap at t \<subseteq> candidates_for s' now p cap at t"
proof
  fix x assume "x \<in> candidates_for s now p cap at t"
  then obtain sc rt ri e r where x: "x = scanCandidate sc e r" "covers s t sc rt ri" "e \<in> set (tbl_entitlement s)"
    "r \<in> set (tbl_template_rule s)" "granted_at e rt ri" "applicable now p e" "speaks_to cap at e r"
    by (auto simp: candidates_for_def)
  then obtain e' where e': "e' \<in> set (tbl_entitlement s')" "r \<in> set (tbl_template_rule s')" "e'\<lparr>e_revision := e_revision e\<rparr> = e"
    using assms(2) unfolding same_grants_def speaks_to_def by blast
  obtain n where e: "e = e'\<lparr>e_revision := n\<rparr>" using e'(3) by metis
  have "x = scanCandidate sc e' r" "granted_at e' rt ri" "applicable now p e'" "speaks_to cap at e' r"
    using x unfolding e by (simp_all add: scanCandidate_def granted_at_def applicable_def speaks_to_def)
  with covers_same [OF assms(1) x(2)] e'(1,2) show "x \<in> candidates_for s' now p cap at t"
    unfolding candidates_for_def by blast
qed

lemma decision_same:
  assumes "same_resources s s'" and "same_grants now p s s'" and "same_grants now p s' s"
  shows "Allowed (snd (Decide (CandidateRules s' now) p cap res)) = Allowed (snd (Decide (CandidateRules s now) p cap res))"
proof -
  have "candidates_for s' now p cap at t = candidates_for s now p cap at t" for at t
    using candidates_mono [OF assms(1,2)] candidates_mono [OF same_resources_sym [OF assms(1)] assms(3)] by blast
  then show ?thesis by (simp add: decide_refines resolvable_same [OF assms(1)])
qed

section \<open>The invariant of the access tables\<close>

definition has_revision :: "db \<Rightarrow> uuid \<Rightarrow> int \<Rightarrow> bool" where
  "has_revision s u n \<longleftrightarrow> (\<exists>r \<in> set (tbl_template_revision s). tr_template r = u \<and> tr_revision r = n)"

definition entitlements_wf :: "db \<Rightarrow> bool" where
  "entitlements_wf s \<longleftrightarrow>
     distinct (map t_uuid (tbl_template s)) \<and> distinct (map t_name (tbl_template s))
     \<and> (\<forall>r \<in> set (tbl_template_revision s). \<exists>t \<in> set (tbl_template s). t_uuid t = tr_template r)
     \<and> (\<forall>r \<in> set (tbl_template_rule s). has_revision s (tc_template r) (tc_revision r))
     \<and> rules_checked s
     \<and> distinct (map e_uuid (tbl_entitlement s))
     \<and> (\<forall>e \<in> set (tbl_entitlement s). has_revision s (e_template e) (e_template_revision e))"

lemma next_revision_fresh:
  assumes "has_revision s u n"
  shows "n < (case sql_max (template_revisions u s) of None \<Rightarrow> 0 | Some m \<Rightarrow> m) + 1"
proof -
  from assms have "n \<in> set (template_revisions u s)" by (auto simp: has_revision_def template_revisions_def)
  then show ?thesis using sql_max_ge [of "template_revisions u s"]
    by (cases "sql_max (template_revisions u s)") auto
qed

text \<open>A change that keeps the invariant and, for every caller and instant, what is granted.\<close>

definition harmless :: "db \<Rightarrow> db \<Rightarrow> bool" where
  "harmless s s' \<longleftrightarrow> entitlements_wf s' \<and> same_resources s s' \<and> (\<forall>t p. same_grants t p s s' \<and> same_grants t p s' s)"

lemma same_grants_refl: "tbl_entitlement s' = tbl_entitlement s \<Longrightarrow> tbl_template_rule s' = tbl_template_rule s \<Longrightarrow> same_grants t p s s'"
  by (simp add: same_grants_def same_entitlement)

lemma harmless_refl: "entitlements_wf s \<Longrightarrow> harmless s s"
  by (simp add: harmless_def same_resources_def same_grants_refl)

text \<open>A revision nobody pins yet is added without touching any decision.\<close>

lemma add_revision:
  assumes wf: "entitlements_wf s" and ins: "insertTemplateRevisionTx now u n rules actor cmt s = (Inr v, s')" and new: "\<not> has_revision s u n"
  shows "harmless s s'"
proof -
  obtain row where row: "tr_template row = u" "tr_revision row = n" "\<exists>t \<in> set (tbl_template s). t_uuid t = u"
    and s': "s' = s\<lparr>tbl_template_revision := tbl_template_revision s @ [row], tbl_template_rule := tbl_template_rule s @ rule_rows u n rules\<rparr>"
    and dec: "list_all (\<lambda>r. tc_decision r = ''allow'' \<or> tc_decision r = ''deny'') (rule_rows u n rules)"
    using insertTemplateRevisionTx_Inr [OF ins] by blast
  have rows: "tc_template r = u \<and> tc_revision r = n" if "r \<in> set (rule_rows u n rules)" for r
    using that by (auto simp: rule_rows_def)
  have "entitlements_wf s'"
    using wf row rows dec by (auto simp: entitlements_wf_def has_revision_def rules_checked_def s')
  moreover have "same_grants t p s' s" for t p
    using wf new by (auto simp: same_grants_def entitlements_wf_def s' same_entitlement dest!: rows)
  ultimately show ?thesis by (auto simp: harmless_def same_resources_def same_grants_def s' same_entitlement)
qed

section \<open>Editing templates\<close>

text \<open>Every operation of \<open>template.go\<close> that writes, successful or not.\<close>

inductive template_step :: "db \<Rightarrow> db \<Rightarrow> bool" where
  create: "template_step s (snd (CreateTemplate Pool now u n d rules actor c s))"
| revise: "template_step s (snd (CreateTemplateRevision Pool now u rules actor c s))"
| activate: "template_step s (snd (ActivateTemplateRevision Pool u n s))"
| delete: "template_step s (snd (DeleteTemplate u s))"

definition template_history :: "db \<Rightarrow> db \<Rightarrow> bool" where
  "template_history = template_step\<^sup>*\<^sup>*"

lemma CreateTemplate_snd:
  "snd (CreateTemplate Pool now u n d rules actor c s) =
     snd (runInTx Pool (bindR (insert_template (formatTime now) u n (nullIfEmpty d)) (\<lambda>_. insertTemplateRevisionTx now u 1 rules actor c)) s)"
  by (auto simp: CreateTemplate_def bindR_def readR_def returnR_def split: prod.splits sum.splits)

lemma CreateTemplate_harmless:
  assumes wf: "entitlements_wf s"
  shows "harmless s (snd (CreateTemplate Pool now u n d rules actor c s))"
  unfolding CreateTemplate_snd
proof (rule tx.invariant_from_success)
  show "harmless s s" using wf by (rule harmless_refl)
next
  fix v s2
  assume "runInTx Pool (bindR (insert_template (formatTime now) u n (nullIfEmpty d)) (\<lambda>_. insertTemplateRevisionTx now u 1 rules actor c)) s = (Inr v, s2)"
  then obtain s1 where ins: "insert_template (formatTime now) u n (nullIfEmpty d) s = (Inr (), s1)"
    and rv: "insertTemplateRevisionTx now u 1 rules actor c s1 = (Inr v, s2)" by auto
  obtain row where row: "t_uuid row = u" "t_name row = n" and s1: "s1 = s\<lparr>tbl_template := tbl_template s @ [row]\<rparr>"
    and new: "\<forall>t \<in> set (tbl_template s). t_uuid t \<noteq> u \<and> t_name t \<noteq> n"
    using ins by (force simp: insert_template_def split: if_splits)
  have none: "\<not> has_revision s1 u 1" using wf new by (auto simp: entitlements_wf_def has_revision_def s1)
  have "entitlements_wf s1"
    using wf new row by (auto simp: entitlements_wf_def has_revision_def rules_checked_def s1)
  from add_revision [OF this rv none] show "harmless s s2"
    unfolding harmless_def same_grants_def same_resources_def by (auto simp: s1)
qed

lemma CreateTemplateRevision_harmless:
  assumes wf: "entitlements_wf s"
  shows "harmless s (snd (CreateTemplateRevision Pool now u rules actor c s))"
  unfolding CreateTemplateRevision_def
proof (rule tx.invariant_from_success, goal_cases)
  case (1 v s2)
  then have "insertTemplateRevisionTx now u ((case sql_max (template_revisions u s) of None \<Rightarrow> 0 | Some m \<Rightarrow> m) + 1) rules actor c s = (Inr v, s2)"
    by auto
  then show ?case by (rule add_revision [OF wf]) (use next_revision_fresh in blast)
next
  case 2
  show ?case using wf by (rule harmless_refl)
qed

lemma ActivateTemplateRevision_harmless:
  assumes "entitlements_wf s"
  shows "harmless s (snd (ActivateTemplateRevision Pool u n s))"
proof -
  let ?upd = "update_rows (\<lambda>t. t_uuid t = u) (\<lambda>t. t\<lparr>t_active_revision := Some n\<rparr>)"
  have k: "\<And>rows. map t_uuid (?upd rows) = map t_uuid rows" "\<And>rows. map t_name (?upd rows) = map t_name rows"
    by (simp_all add: update_rows_def)
  have ex: "(\<exists>t \<in> set (?upd rows). t_uuid t = x) \<longleftrightarrow> (\<exists>t \<in> set rows. t_uuid t = x)" for rows x
    by (induction rows) auto
  have "entitlements_wf (s\<lparr>tbl_template := ?upd (tbl_template s)\<rparr>)"
    using assms by (simp add: entitlements_wf_def k ex has_revision_def rules_checked_def)
  then have "harmless s (s\<lparr>tbl_template := ?upd (tbl_template s)\<rparr>)"
    by (simp add: harmless_def same_resources_def same_grants_refl)
  with assms show ?thesis by (auto simp: ActivateTemplateRevision_def runInTx_def intro: harmless_refl)
qed

lemma DeleteTemplate_harmless:
  assumes wf: "entitlements_wf s"
  shows "harmless s (snd (DeleteTemplate u s))"
proof (cases "has_row (\<lambda>t. t_uuid t = u) (tbl_template s) \<and> \<not> has_row (\<lambda>e. e_template e = u) (tbl_entitlement s)")
  case True
  then have s': "snd (DeleteTemplate u s) = s\<lparr>tbl_template := delete_rows (\<lambda>t. t_uuid t = u) (tbl_template s),
      tbl_template_revision := delete_rows (\<lambda>r. tr_template r = u) (tbl_template_revision s),
      tbl_template_rule := delete_rows (\<lambda>r. tc_template r = u) (tbl_template_rule s)\<rparr>" (is "_ = ?s")
    by (auto simp: DeleteTemplate_def)
  have free: "\<forall>e \<in> set (tbl_entitlement s). e_template e \<noteq> u" using True by auto
  have hr: "has_revision ?s x n \<longleftrightarrow> has_revision s x n \<and> x \<noteq> u" for x n
    by (auto simp: has_revision_def)
  have "entitlements_wf ?s"
    using wf free unfolding entitlements_wf_def hr rules_checked_def list_all_iff by (simp, metis)
  moreover have "same_grants t p s ?s" "same_grants t p ?s s" for t p
    using free by (auto simp: same_grants_def delete_rows_def same_entitlement)
  ultimately show ?thesis unfolding s' by (simp add: harmless_def same_resources_def)
next
  case False
  then have "snd (DeleteTemplate u s) = s" by (auto simp: DeleteTemplate_def)
  with wf show ?thesis by (simp add: harmless_refl)
qed

lemma template_step_harmless: "template_step s s' \<Longrightarrow> entitlements_wf s \<Longrightarrow> harmless s s'"
  by (cases rule: template_step.cases)
     (auto intro: CreateTemplate_harmless CreateTemplateRevision_harmless ActivateTemplateRevision_harmless DeleteTemplate_harmless)

text \<open>
  Not even activation reaches a decision: an entitlement names its revision, and no query reads
  \<open>active_revision\<close>, although the comment of \<open>CreateTemplate\<close> has activation make a revision take
  effect.
\<close>

lemma template_history_keeps_decisions:
  assumes "entitlements_wf s" and "template_history s s'"
  shows "Allowed (snd (Decide (CandidateRules s' now) p cap res)) = Allowed (snd (Decide (CandidateRules s now) p cap res))
    \<and> entitlements_wf s'"
  using assms(2)[unfolded template_history_def] assms(1)
proof (induction rule: rtranclp_induct)
  case base
  then show ?case by simp
next
  case (step s1 s2)
  then have IH: "Allowed (snd (Decide (CandidateRules s1 now) p cap res)) = Allowed (snd (Decide (CandidateRules s now) p cap res))"
    and wf: "entitlements_wf s1" by auto
  from template_step_harmless [OF step.hyps(2) wf] decision_same [of s1 s2 now p cap res] IH
  show ?case by (simp add: harmless_def)
qed

text \<open>The edits of a template that are no activation.\<close>

inductive template_edit :: "db \<Rightarrow> db \<Rightarrow> bool" where
  create: "template_edit s (snd (CreateTemplate Pool now u n d rules actor c s))"
| revise: "template_edit s (snd (CreateTemplateRevision Pool now u rules actor c s))"
| delete: "template_edit s (snd (DeleteTemplate u s))"

lemma template_edit_step: "template_edit s s' \<Longrightarrow> template_step s s'"
  by (cases rule: template_edit.cases) (auto intro: template_step.intros)

lemma template_edits_history: "template_edit\<^sup>*\<^sup>* s s' \<Longrightarrow> template_history s s'"
  unfolding template_history_def by (rule mono_rtranclp [rule_format, OF template_edit_step])

text \<open>
  C16. Writing templates never changes what an existing entitlement grants: over any sequence of template
  creations, new revisions and deletions, every authorization decision stays what it was, because an
  entitlement pins one revision, revisions are immutable, and a template in use cannot go.
\<close>

theorem template_edits_change_no_decision:
  assumes "entitlements_wf s" and "template_edit\<^sup>*\<^sup>* s s'"
  shows "Allowed (snd (Decide (CandidateRules s' now) p cap res)) = Allowed (snd (Decide (CandidateRules s now) p cap res))
    \<and> entitlements_wf s'"
  using assms(1) template_edits_history [OF assms(2)] by (rule template_history_keeps_decisions)

section \<open>Granting and revoking\<close>

lemma bumpWatermark_tables [simp]:
  "tbl_entitlement (bumpWatermark f s) = tbl_entitlement s" "tbl_template_rule (bumpWatermark f s) = tbl_template_rule s"
  "tbl_template (bumpWatermark f s) = tbl_template s" "tbl_template_revision (bumpWatermark f s) = tbl_template_revision s"
  "tbl_user (bumpWatermark f s) = tbl_user s" "same_resources (bumpWatermark f s) s' = same_resources s s'"
  "same_resources s (bumpWatermark f s') = same_resources s s'"
  by (simp_all add: bumpWatermark_def same_resources_def)

lemma same_resources_entitlement [simp]:
  "same_resources (s\<lparr>tbl_entitlement := es\<rparr>) s' = same_resources s s'" "same_resources s (s'\<lparr>tbl_entitlement := es\<rparr>) = same_resources s s'"
  by (simp_all add: same_resources_def)

definition set_status :: "string \<Rightarrow> entitlement_row \<Rightarrow> entitlement_row" where
  "set_status status e = e\<lparr>e_status := status, e_revision := e_revision e + 1\<rparr>"

lemma UpdateEntitlementStatus_Inr:
  assumes "UpdateEntitlementStatus Pool u status s = (Inr x, s')"
  shows "s' = bumpWatermark WatermarkEntitlements
      (s\<lparr>tbl_entitlement := update_rows (\<lambda>e. e_uuid e = u) (set_status status) (tbl_entitlement s)\<rparr>)
    \<and> (\<exists>e \<in> set (tbl_entitlement s). e_uuid e = u) \<and> GetEntitlement s' u = Inr x \<and> status \<in> {''active'', ''suspended'', ''revoked''}"
  using assms by (auto simp: UpdateEntitlementStatus_def update_entitlement_def set_status_def [abs_def] split: if_splits)

lemma uuid_survives:
  "\<exists>e \<in> set rows. e_uuid e = u \<Longrightarrow> \<exists>e \<in> set (update_rows (\<lambda>e. e_uuid e = u) (set_status status) rows). e_uuid e = u"
  by (induction rows) (auto simp: set_status_def)

lemma UpdateEntitlementStatus_ok:
  assumes "\<exists>e \<in> set (tbl_entitlement s). e_uuid e = u" and "status \<in> {''active'', ''suspended'', ''revoked''}"
  obtains x s' where "UpdateEntitlementStatus Pool u status s = (Inr x, s')"
proof -
  obtain row where "find_row (\<lambda>e. e_uuid e = u) (tbl_entitlement s) = Some row"
    using assms(1) by (cases "find_row (\<lambda>e. e_uuid e = u) (tbl_entitlement s)") (auto simp: find_row_None)
  then have "find_row (\<lambda>e. e_uuid e = u) (update_rows (\<lambda>e. e_uuid e = u) (set_status status) (tbl_entitlement s)) \<noteq> None"
    by (simp add: find_row_update_rows set_status_def)
  then have "\<exists>x s'. UpdateEntitlementStatus Pool u status s = (Inr x, s')"
    using assms by (auto simp: UpdateEntitlementStatus_def update_entitlement_def runInTx_def bindR_def execR_def readR_def
        GetEntitlement_def set_status_def [abs_def] split: option.splits)
  with that show thesis by blast
qed

lemma DeleteEntitlement_snd:
  "snd (DeleteEntitlement Pool u s) =
     (if has_row (\<lambda>e. e_uuid e = u) (tbl_entitlement s)
      then bumpWatermark WatermarkEntitlements (s\<lparr>tbl_entitlement := delete_rows (\<lambda>e. e_uuid e = u) (tbl_entitlement s)\<rparr>) else s)"
  by (auto simp: DeleteEntitlement_def runInTx_def)

lemma inactive_same_grants:
  assumes "status \<noteq> ''active''"
  shows "same_grants now p (s\<lparr>tbl_entitlement := update_rows (\<lambda>e. e_uuid e = u) (set_status status) (tbl_entitlement s)\<rparr>)
           (s\<lparr>tbl_entitlement := delete_rows (\<lambda>e. e_uuid e = u) (tbl_entitlement s)\<rparr>)"
    and "same_grants now p (s\<lparr>tbl_entitlement := delete_rows (\<lambda>e. e_uuid e = u) (tbl_entitlement s)\<rparr>)
           (s\<lparr>tbl_entitlement := update_rows (\<lambda>e. e_uuid e = u) (set_status status) (tbl_entitlement s)\<rparr>)"
  using assms
  by (auto simp: same_grants_def set_update_rows set_status_def applicable_def intro: same_entitlement bexI [of _ "_ :: entitlement_row"])

lemma same_grants_bump [simp]:
  "same_grants now p (bumpWatermark f s) s' = same_grants now p s s'" "same_grants now p s (bumpWatermark f s') = same_grants now p s s'"
  by (simp_all add: same_grants_def)

lemma suspended_like_deleted:
  assumes "UpdateEntitlementStatus Pool u status s = (Inr x, s1)" and "status \<noteq> ''active''"
  shows "Allowed (snd (Decide (CandidateRules s1 now) p cap res)) =
         Allowed (snd (Decide (CandidateRules (snd (DeleteEntitlement Pool u s)) now) p cap res))"
proof -
  note upd = UpdateEntitlementStatus_Inr [OF assms(1)]
  have del: "snd (DeleteEntitlement Pool u s) =
      bumpWatermark WatermarkEntitlements (s\<lparr>tbl_entitlement := delete_rows (\<lambda>e. e_uuid e = u) (tbl_entitlement s)\<rparr>)"
    using upd by (auto simp: DeleteEntitlement_snd)
  show ?thesis unfolding upd [THEN conjunct1] del
    by (rule decision_same) (simp_all add: inactive_same_grants [OF assms(2)])
qed

text \<open>Two updates of the same rows that together change only revisions.\<close>

lemma update_rows_twice:
  "(\<And>r. P (f r) = P r) \<Longrightarrow> update_rows P g (update_rows P f rows) = update_rows P (g \<circ> f) rows"
  by (induction rows) auto

lemma revision_only:
  assumes "\<And>e. e \<in> set (tbl_entitlement s) \<Longrightarrow> P e \<Longrightarrow> (f e)\<lparr>e_revision := e_revision e\<rparr> = e"
  shows "same_grants now p s (s\<lparr>tbl_entitlement := update_rows P f (tbl_entitlement s)\<rparr>)"
    and "same_grants now p (s\<lparr>tbl_entitlement := update_rows P f (tbl_entitlement s)\<rparr>) s"
proof -
  let ?es = "set (update_rows P f (tbl_entitlement s))"
  have "\<exists>e' \<in> ?es. e'\<lparr>e_revision := e_revision e\<rparr> = e" if "e \<in> set (tbl_entitlement s)" for e
    using that assms [OF that] by (cases "P e") (force simp: set_update_rows)+
  then show "same_grants now p s (s\<lparr>tbl_entitlement := update_rows P f (tbl_entitlement s)\<rparr>)"
    by (simp add: same_grants_def)
  have "\<exists>e' \<in> set (tbl_entitlement s). e'\<lparr>e_revision := e_revision e\<rparr> = e" if e: "e \<in> ?es" for e
  proof (cases "e \<in> set (tbl_entitlement s)")
    case True
    then show ?thesis by (rule same_entitlement)
  next
    case False
    with e obtain r where r: "r \<in> set (tbl_entitlement s)" "P r" "e = f r" by (auto simp: set_update_rows)
    then have "r\<lparr>e_revision := e_revision e\<rparr> = e"
      using assms [OF r(1,2)] by (metis (no_types, lifting) entitlement_row.surjective entitlement_row.update_convs(14) entitlement_row.select_convs(14))
    with r(1) show ?thesis by blast
  qed
  then show "same_grants now p (s\<lparr>tbl_entitlement := update_rows P f (tbl_entitlement s)\<rparr>) s"
    by (simp add: same_grants_def)
qed

text \<open>
  C17. Suspending or revoking an entitlement takes effect at once and completely: every later decision is
  the one it would be if the entitlement had been deleted, and making it active again restores the
  decisions from before.
\<close>

theorem revocation_takes_effect:
  assumes "entitlements_wf s" and "GetEntitlement s u = Inr e" and "ent_Status e = ''active''"
    and "UpdateEntitlementStatus Pool u status s = (Inr x, s1)" and "status \<noteq> ''active''"
    and "UpdateEntitlementStatus Pool u ''active'' s1 = (Inr y, s2)"
  shows "ent_Status x = status \<and> ent_Revision x = ent_Revision e + 1
    \<and> Allowed (snd (Decide (CandidateRules s1 now) p cap res)) =
      Allowed (snd (Decide (CandidateRules (snd (DeleteEntitlement Pool u s)) now) p cap res))
    \<and> Allowed (snd (Decide (CandidateRules s2 now) p cap res)) = Allowed (snd (Decide (CandidateRules s now) p cap res))"
proof (intro conjI)
  note upd = UpdateEntitlementStatus_Inr [OF assms(4)] and upd2 = UpdateEntitlementStatus_Inr [OF assms(6)]
  obtain row where row: "find_row (\<lambda>e. e_uuid e = u) (tbl_entitlement s) = Some row" "e = scanEntitlement row"
    using assms(2) by (auto simp: GetEntitlement_def split: option.splits)
  have "find_row (\<lambda>e. e_uuid e = u) (tbl_entitlement s1) = Some (set_status status row)"
    using row(1) find_row_SomeD [OF row(1)] upd by (simp add: find_row_update_rows set_status_def)
  with upd have x: "x = scanEntitlement (set_status status row)" by (simp add: GetEntitlement_def)
  show "ent_Status x = status" "ent_Revision x = ent_Revision e + 1"
    using row(2) x by (simp_all add: scanEntitlement_def set_status_def)
  show "Allowed (snd (Decide (CandidateRules s1 now) p cap res)) =
      Allowed (snd (Decide (CandidateRules (snd (DeleteEntitlement Pool u s)) now) p cap res))"
    by (rule suspended_like_deleted [OF assms(4,5)])
  have active: "e_status r = ''active''" if "r \<in> set (tbl_entitlement s)" "e_uuid r = u" for r
  proof -
    have "r = row" using that find_row_SomeD [OF row(1)] assms(1)
      by (auto simp: entitlements_wf_def distinct_map inj_on_def)
    with row(2) assms(3) show ?thesis by (simp add: scanEntitlement_def)
  qed
  show "Allowed (snd (Decide (CandidateRules s2 now) p cap res)) = Allowed (snd (Decide (CandidateRules s now) p cap res))"
  proof -
    let ?f = "set_status ''active'' \<circ> set_status status"
    have s2: "s2 = bumpWatermark WatermarkEntitlements (bumpWatermark WatermarkEntitlements
        (s\<lparr>tbl_entitlement := update_rows (\<lambda>e. e_uuid e = u) ?f (tbl_entitlement s)\<rparr>))"
      using upd upd2 update_rows_twice [of "\<lambda>e. e_uuid e = u" "set_status status" "set_status ''active''"]
      by (simp add: set_status_def bumpWatermark_def)
    have "(?f r)\<lparr>e_revision := e_revision r\<rparr> = r" if "r \<in> set (tbl_entitlement s)" "e_uuid r = u" for r
      using active [OF that] by (cases r) (simp add: set_status_def)
    from revision_only [of s "\<lambda>e. e_uuid e = u" ?f, OF this] show ?thesis unfolding s2
      by (intro decision_same) simp_all
  qed
qed

section \<open>Histories of the access tables\<close>

lemma insert_entitlement_Inr:
  "insert_entitlement e s = (Inr x, s') \<Longrightarrow>
     has_revision s (e_template e) (e_template_revision e) \<and> e_uuid e \<notin> e_uuid ` set (tbl_entitlement s)
     \<and> s' = s\<lparr>tbl_entitlement := tbl_entitlement s @ [e]\<rparr>"
  by (auto simp: insert_entitlement_def has_revision_def split: if_splits)

lemma wf_cong:
  "tbl_template s' = tbl_template s \<Longrightarrow> tbl_template_revision s' = tbl_template_revision s \<Longrightarrow>
   tbl_template_rule s' = tbl_template_rule s \<Longrightarrow> tbl_entitlement s' = tbl_entitlement s \<Longrightarrow> entitlements_wf s' = entitlements_wf s"
  by (simp add: entitlements_wf_def has_revision_def rules_checked_def)

lemma CreateEntitlement_wf:
  assumes "entitlements_wf s"
  shows "entitlements_wf (snd (CreateEntitlement Pool now u inp actor s))"
proof -
  have "snd (CreateEntitlement Pool now u inp actor s) = s \<or>
      (\<exists>e x s1. insert_entitlement e s = (Inr x, s1) \<and> snd (CreateEntitlement Pool now u inp actor s) = bumpWatermark WatermarkEntitlements s1)"
    by (auto simp: CreateEntitlement_def bindR_def readR_def execR_def runInTx_def split: prod.splits sum.splits)
  with assms show ?thesis
    by (auto simp: entitlements_wf_def has_revision_def rules_checked_def dest!: insert_entitlement_Inr)
qed

lemma update_entitlement_wf:
  assumes "entitlements_wf s" and "\<And>e. e_uuid (f e) = e_uuid e \<and> e_template (f e) = e_template e \<and> e_template_revision (f e) = e_template_revision e"
  shows "entitlements_wf (snd (update_entitlement Pool f u s))"
proof -
  let ?es = "update_rows (\<lambda>e. e_uuid e = u) (\<lambda>e. (f e)\<lparr>e_revision := e_revision e + 1\<rparr>) (tbl_entitlement s)"
  have "snd (update_entitlement Pool f u s) = s \<or>
      snd (update_entitlement Pool f u s) = bumpWatermark WatermarkEntitlements (s\<lparr>tbl_entitlement := ?es\<rparr>)"
    by (auto simp: update_entitlement_def runInTx_def bindR_def execR_def readR_def split: sum.splits)
  moreover have "entitlements_wf (bumpWatermark WatermarkEntitlements (s\<lparr>tbl_entitlement := ?es\<rparr>))"
    using assms by (auto simp: entitlements_wf_def has_revision_def rules_checked_def set_update_rows)
  ultimately show ?thesis using assms(1) by auto
qed

lemma UpdateEntitlementStatus_wf: "entitlements_wf s \<Longrightarrow> entitlements_wf (snd (UpdateEntitlementStatus Pool u status s))"
  by (auto simp: UpdateEntitlementStatus_def intro: update_entitlement_wf)

lemma UpdateEntitlementValidity_wf: "entitlements_wf s \<Longrightarrow> entitlements_wf (snd (UpdateEntitlementValidity Pool u f t s))"
  unfolding UpdateEntitlementValidity_def by (rule update_entitlement_wf) simp_all

lemma DeleteEntitlement_wf: "entitlements_wf s \<Longrightarrow> entitlements_wf (snd (DeleteEntitlement Pool u s))"
  by (auto simp: DeleteEntitlement_snd entitlements_wf_def has_revision_def rules_checked_def)

inductive access_reach :: "db \<Rightarrow> bool" where
  start: "access_reach empty_db"
| template: "access_reach s \<Longrightarrow> template_step s s' \<Longrightarrow> access_reach s'"
| grant: "access_reach s \<Longrightarrow> access_reach (snd (CreateEntitlement Pool now u inp actor s))"
| status: "access_reach s \<Longrightarrow> access_reach (snd (UpdateEntitlementStatus Pool u st s))"
| validity: "access_reach s \<Longrightarrow> access_reach (snd (UpdateEntitlementValidity Pool u f t s))"
| revoke: "access_reach s \<Longrightarrow> access_reach (snd (DeleteEntitlement Pool u s))"
| elsewhere: "access_reach s \<Longrightarrow> tbl_template s' = tbl_template s \<Longrightarrow> tbl_template_revision s' = tbl_template_revision s \<Longrightarrow>
    tbl_template_rule s' = tbl_template_rule s \<Longrightarrow> tbl_entitlement s' = tbl_entitlement s \<Longrightarrow> access_reach s'"

text \<open>
  Whatever the administration did, entitlements pin revisions that exist and every rule says allow or
  deny, which is what the policy engine relies on.
\<close>

lemma access_reach_wf: "access_reach s \<Longrightarrow> entitlements_wf s"
proof (induction rule: access_reach.induct)
  case start
  then show ?case by (simp add: entitlements_wf_def rules_checked_def empty_db_def)
next
  case (template s s')
  then show ?case using template_step_harmless by (simp add: harmless_def)
next
  case (elsewhere s s')
  then show ?case using wf_cong [of s' s] by blast
qed (auto intro: CreateEntitlement_wf UpdateEntitlementStatus_wf UpdateEntitlementValidity_wf DeleteEntitlement_wf)

interpretation tr: numbered "template_revisions u" "CreateTemplateRevision Pool now u rules actor c" trev_Revision
  for u now rules actor c
proof unfold_locales
  fix s x s'
  assume "CreateTemplateRevision Pool now u rules actor c s = (Inr x, s')"
  moreover have "(case sql_max (template_revisions u s) of None \<Rightarrow> 0 | Some m \<Rightarrow> m) + 1 = next_number (template_revisions u s)"
    by (simp add: next_number_def sql_max_def split: list.splits)
  ultimately have "insertTemplateRevisionTx now u (next_number (template_revisions u s)) rules actor c s = (Inr x, s')"
    by (auto simp: CreateTemplateRevision_def)
  from insertTemplateRevisionTx_Inr [OF this]
  show "trev_Revision x = next_number (template_revisions u s) \<and> template_revisions u s' = template_revisions u s @ [next_number (template_revisions u s)]"
    by (auto simp: template_revisions_def)
next
  fix s e s'
  assume "CreateTemplateRevision Pool now u rules actor c s = (Inl e, s')"
  then show "template_revisions u s' = template_revisions u s"
    by (simp add: CreateTemplateRevision_def runInTx_Pool_Inl)
qed

section \<open>Examples\<close>

text \<open>Everyone may read all products through revision 1 of a template; a second revision then denies it.\<close>

definition pinned_db :: db where
  "pinned_db = public_db\<lparr>tbl_template := [\<lparr>t_uuid = ''t1'', t_name = ''Public'', t_description = None, t_active_revision = Some 1, t_created_at = 0\<rparr>],
     tbl_template_revision := [\<lparr>tr_template = ''t1'', tr_revision = 1, tr_created_at = 0, tr_created_by = None, tr_comment = None\<rparr>]\<rparr>"

definition deny_read :: "TemplateCapabilityRule list" where
  "deny_read = [\<lparr>rule_Capability = ''product.read'', rule_ArtifactType = [], rule_Decision = ''deny''\<rparr>]"

lemma pinned_db_wf: "entitlements_wf pinned_db"
  by (simp add: pinned_db_def public_db_def entitlements_wf_def has_revision_def rules_checked_def example_defs)

definition revised_db :: db where
  "revised_db = snd (CreateTemplateRevision Pool 0 ''t1'' deny_read [] [] pinned_db)"

theorem template_edits_change_no_decision_witness:
  "Allowed (snd (Decide (CandidateRules revised_db 0) \<lparr>UserUUID = []\<rparr> ''product.read'' (no_resource\<lparr>ProductUUID := ''p1''\<rparr>))) =
     Allowed (snd (Decide (CandidateRules pinned_db 0) \<lparr>UserUUID = []\<rparr> ''product.read'' (no_resource\<lparr>ProductUUID := ''p1''\<rparr>)))
   \<and> map tc_decision (tbl_template_rule revised_db) = [''allow'', ''deny'']"
proof
  have "template_edit\<^sup>*\<^sup>* pinned_db revised_db"
    unfolding revised_db_def by (rule r_into_rtranclp) (rule template_edit.revise)
  from template_edits_change_no_decision [OF pinned_db_wf this]
  show "Allowed (snd (Decide (CandidateRules revised_db 0) \<lparr>UserUUID = []\<rparr> ''product.read'' (no_resource\<lparr>ProductUUID := ''p1''\<rparr>))) =
     Allowed (snd (Decide (CandidateRules pinned_db 0) \<lparr>UserUUID = []\<rparr> ''product.read'' (no_resource\<lparr>ProductUUID := ''p1''\<rparr>)))" by blast
  show "map tc_decision (tbl_template_rule revised_db) = [''allow'', ''deny'']" by code_simp
qed

theorem revocation_takes_effect_witness:
  "\<exists>x s1. UpdateEntitlementStatus Pool ''e1'' ''revoked'' pinned_db = (Inr x, s1) \<and> ent_Status x = ''revoked'' \<and> ent_Revision x = 2
     \<and> Allowed (snd (Decide (CandidateRules s1 0) \<lparr>UserUUID = []\<rparr> ''product.read'' (no_resource\<lparr>ProductUUID := ''p1''\<rparr>))) =
       Allowed (snd (Decide (CandidateRules (snd (DeleteEntitlement Pool ''e1'' pinned_db)) 0) \<lparr>UserUUID = []\<rparr> ''product.read''
         (no_resource\<lparr>ProductUUID := ''p1''\<rparr>)))"
proof -
  obtain e where e: "GetEntitlement pinned_db ''e1'' = Inr e" "ent_Status e = ''active''" "ent_Revision e = 1"
    by (simp add: GetEntitlement_def pinned_db_def public_db_def example_defs scanEntitlement_def)
  have ex: "\<exists>e \<in> set (tbl_entitlement pinned_db). e_uuid e = ''e1''"
    by (simp add: pinned_db_def public_db_def example_defs)
  then obtain x s1 where x: "UpdateEntitlementStatus Pool ''e1'' ''revoked'' pinned_db = (Inr x, s1)"
    by (rule UpdateEntitlementStatus_ok [of pinned_db "''e1''" "''revoked''"]) simp
  then have "\<exists>e \<in> set (tbl_entitlement s1). e_uuid e = ''e1''"
    using UpdateEntitlementStatus_Inr [OF x] ex by (simp add: uuid_survives)
  then obtain y s2 where "UpdateEntitlementStatus Pool ''e1'' ''active'' s1 = (Inr y, s2)"
    by (rule UpdateEntitlementStatus_ok [of s1 "''e1''" "''active''"]) simp
  from revocation_takes_effect [OF pinned_db_wf e(1,2) x _ this, of 0 "\<lparr>UserUUID = []\<rparr>" "''product.read''" "no_resource\<lparr>ProductUUID := ''p1''\<rparr>"] x e(3)
  show ?thesis by auto
qed

text \<open>
  The schema's comment has a type-agnostic default rule and per-type overrides in one revision. Both are
  candidates at the same scope and subject, so a denying default wins over an allowing override.
\<close>

definition override_db :: db where
  "override_db = empty_db\<lparr>tbl_entitlement := [entitlement_on ''e1'' ''all_products'' None ''t1''],
     tbl_template_rule := [rule_of ''t1'' ''artifact.download'' ''deny'', (rule_of ''t1'' ''artifact.download'' ''allow'')\<lparr>tc_artifact_type := Some ''BOM''\<rparr>]\<rparr>"

lemma override_loses:
  "\<not> Allowed (snd (Decide (CandidateRules override_db 0) \<lparr>UserUUID = []\<rparr> ''artifact.download'' (no_resource\<lparr>ArtifactUUID := ''a'', ResArtifactType := ''BOM''\<rparr>)))"
  by code_simp

end
