(* ===== verification/LoginLimiter.thy ===== *)
theory LoginLimiter
  imports Prelude "HOL-Library.AList"
begin

text \<open>
  The login limiter of \<open>internal/httpx/loginlimiter.go\<close>: accepted attempts per source address, kept in
  memory. The mutex makes each call atomic, so a history is a sequence of calls in the order they take
  the lock; the map is an association list whose length is the number of tracked addresses.
\<close>

section \<open>The limiter\<close>

definition DefaultLoginRateLimit :: int where "DefaultLoginRateLimit = 5"
definition DefaultLoginRateWindow :: int where "DefaultLoginRateWindow = 60000000000"
definition LoginLimiterMaxTrackedIPs :: nat where "LoginLimiterMaxTrackedIPs = 10000"

record LoginLimiter =
  ll_attempts :: "(string \<times> time list) list"
  ll_limit :: int
  ll_window :: int

definition NewLoginLimiterWithLimits :: "int \<Rightarrow> int \<Rightarrow> LoginLimiter" where
  "NewLoginLimiterWithLimits limit window = \<lparr>ll_attempts = [], ll_limit = limit, ll_window = window\<rparr>"

definition NewLoginLimiter :: LoginLimiter where
  "NewLoginLimiter = NewLoginLimiterWithLimits DefaultLoginRateLimit DefaultLoginRateWindow"

text \<open>An absent key reads as the empty slice.\<close>

definition attempts_of :: "(string \<times> time list) list \<Rightarrow> string \<Rightarrow> time list" where
  "attempts_of m ip = (case map_of m ip of None \<Rightarrow> [] | Some ts \<Rightarrow> ts)"

definition Allow :: "time \<Rightarrow> string \<Rightarrow> LoginLimiter \<Rightarrow> bool \<times> LoginLimiter" where
  "Allow now ip l =
     (let cutoff = now - ll_window l;
          attempts = (if length (ll_attempts l) > LoginLimiterMaxTrackedIPs then [] else ll_attempts l);
          kept = filter (\<lambda>t. t > cutoff) (attempts_of attempts ip)
      in if int (length kept) \<ge> ll_limit l then (False, l\<lparr>ll_attempts := AList.update ip kept attempts\<rparr>)
         else (True, l\<lparr>ll_attempts := AList.update ip (kept @ [now]) attempts\<rparr>))"

section \<open>The address a request is counted under\<close>

fun last_index :: "char \<Rightarrow> string \<Rightarrow> nat option" where
  "last_index c [] = None"
| "last_index c (x # xs) = (case last_index c xs of Some i \<Rightarrow> Some (Suc i) | None \<Rightarrow> if x = c then Some 0 else None)"

fun first_index :: "char \<Rightarrow> string \<Rightarrow> nat option" where
  "first_index c [] = None"
| "first_index c (x # xs) = (if x = c then Some 0 else map_option Suc (first_index c xs))"

text \<open>\<open>net.SplitHostPort\<close>: the host of \<open>host:port\<close> or \<open>[host]:port\<close>, \<open>None\<close> for anything else.\<close>

definition SplitHostPort :: "string \<Rightarrow> string option" where
  "SplitHostPort hostport =
     (case last_index (CHR '':'') hostport of
        None \<Rightarrow> None
      | Some i \<Rightarrow>
          if hostport ! 0 = CHR ''[''
          then (case first_index (CHR '']'') hostport of
                  None \<Rightarrow> None
                | Some e \<Rightarrow>
                    if e + 1 \<noteq> i then None
                    else if List.member (drop 1 hostport) (CHR ''['') \<or> List.member (drop (e + 1) hostport) (CHR '']'') then None
                    else Some (take (e - 1) (drop 1 hostport)))
          else if List.member (take i hostport) (CHR '':'') then None
          else if List.member hostport (CHR ''['') \<or> List.member hostport (CHR '']'') then None
          else Some (take i hostport))"

definition ClientIP :: "string \<Rightarrow> string \<Rightarrow> bool \<Rightarrow> string" where
  "ClientIP xff remoteAddr trustProxyHeaders =
     (let fallback = (case SplitHostPort remoteAddr of None \<Rightarrow> remoteAddr | Some host \<Rightarrow> host) in
      if trustProxyHeaders \<and> xff \<noteq> []
      then (let candidate = trimSpace (last (split_at (CHR '','') xff)) in
            if candidate \<noteq> [] then candidate else fallback)
      else fallback)"

section \<open>Histories\<close>

text \<open>The verdicts of a sequence of calls (time, address), and the accepted ones.\<close>

fun verdicts :: "LoginLimiter \<Rightarrow> (time \<times> string) list \<Rightarrow> bool list" where
  "verdicts l [] = []"
| "verdicts l ((now, ip) # calls) = (let (ok, l') = Allow now ip l in ok # verdicts l' calls)"

text \<open>The specification: an unbounded log of accepted calls, from which each verdict follows.\<close>

definition accepted_in :: "(time \<times> string) list \<Rightarrow> string \<Rightarrow> time \<Rightarrow> time \<Rightarrow> nat" where
  "accepted_in log ip lo hi = length (filter (\<lambda>(t, a). a = ip \<and> lo < t \<and> t \<le> hi) log)"

fun log_verdicts :: "int \<Rightarrow> int \<Rightarrow> (time \<times> string) list \<Rightarrow> (time \<times> string) list \<Rightarrow> bool list" where
  "log_verdicts limit window log [] = []"
| "log_verdicts limit window log ((now, ip) # calls) =
     (if int (accepted_in log ip (now - window) now) < limit
      then True # log_verdicts limit window (log @ [(now, ip)]) calls
      else False # log_verdicts limit window log calls)"

definition accepted :: "(time \<times> string) list \<Rightarrow> bool list \<Rightarrow> (time \<times> string) list" where
  "accepted calls oks = map fst (filter snd (zip calls oks))"

section \<open>The limiter implements the log\<close>

definition limiter_rel :: "int \<Rightarrow> int \<Rightarrow> time \<Rightarrow> (time \<times> string) list \<Rightarrow> LoginLimiter \<Rightarrow> bool" where
  "limiter_rel limit window now log l \<longleftrightarrow>
     ll_limit l = limit \<and> ll_window l = window \<and> distinct (map fst (ll_attempts l)) \<and> (\<forall>(t, _) \<in> set log. t \<le> now)
     \<and> (\<forall>ip. \<exists>c \<le> now - window. attempts_of (ll_attempts l) ip = filter (\<lambda>t. t > c) (map fst (filter (\<lambda>(_, a). a = ip) log)))"

lemma attempts_of_update:
  "attempts_of (AList.update ip ts m) ip' = (if ip' = ip then ts else attempts_of m ip')"
  by (simp add: attempts_of_def update_conv')

lemma keys_update: "set (map fst (AList.update k v m)) = insert k (fst ` set m)"
  by (simp add: dom_update flip: image_set)

lemma filter_window: "c \<le> d \<Longrightarrow> filter (\<lambda>t. t > d) (filter (\<lambda>t. t > c) ts) = filter (\<lambda>t. (t::int) > d) ts"
  by (auto simp: filter_filter intro: filter_cong)

lemma kept_is_accepted_in:
  assumes "limiter_rel limit window now0 log l" and "now0 \<le> now"
  shows "filter (\<lambda>t. t > now - window) (attempts_of (ll_attempts l) ip) =
           filter (\<lambda>t. t > now - window) (map fst (filter (\<lambda>(_, a). a = ip) log))"
    and "length (filter (\<lambda>t. t > now - window) (attempts_of (ll_attempts l) ip)) = accepted_in log ip (now - window) now"
proof -
  obtain c where c: "c \<le> now0 - window"
    "attempts_of (ll_attempts l) ip = filter (\<lambda>t. t > c) (map fst (filter (\<lambda>(_, a). a = ip) log))"
    using assms(1) by (auto simp: limiter_rel_def)
  have le: "t \<le> now" if "(t, a) \<in> set log" for t a
    using assms that by (force simp: limiter_rel_def)
  show k: "filter (\<lambda>t. t > now - window) (attempts_of (ll_attempts l) ip) =
           filter (\<lambda>t. t > now - window) (map fst (filter (\<lambda>(_, a). a = ip) log))"
    unfolding c(2) using c(1) assms(2) by (intro filter_window) simp
  have "filter (\<lambda>t. t > now - window) (map fst (filter (\<lambda>(_, a). a = ip) log)) =
      map fst (filter (\<lambda>(t, a). a = ip \<and> now - window < t \<and> t \<le> now) log)"
    unfolding filter_map filter_filter
    by (intro arg_cong [where f = "map fst"] filter_cong) (auto dest: le)
  with k show "length (filter (\<lambda>t. t > now - window) (attempts_of (ll_attempts l) ip)) = accepted_in log ip (now - window) now"
    by (simp add: accepted_in_def)
qed

lemma limiter_rel_other:
  assumes "limiter_rel limit window now0 log l" and "now0 \<le> now"
  shows "\<exists>c \<le> now - window. attempts_of (ll_attempts l) ip = filter (\<lambda>t. t > c) (map fst (filter (\<lambda>(_, a). a = ip) log))"
proof -
  obtain c where "c \<le> now0 - window"
    "attempts_of (ll_attempts l) ip = filter (\<lambda>t. t > c) (map fst (filter (\<lambda>(_, a). a = ip) log))"
    using assms(1) by (auto simp: limiter_rel_def)
  with assms(2) show ?thesis by (intro exI [of _ c]) auto
qed

lemma Allow_step:
  fixes ip :: string
  assumes rel: "limiter_rel limit window now0 log l" and "now0 \<le> now" and "0 < window"
    and small: "length (ll_attempts l) \<le> LoginLimiterMaxTrackedIPs"
  defines "ok \<equiv> int (accepted_in log ip (now - window) now) < limit"
  shows "\<exists>l'. Allow now ip l = (ok, l')
    \<and> limiter_rel limit window now (if ok then log @ [(now, ip)] else log) l'
    \<and> fst ` set (ll_attempts l') = insert ip (fst ` set (ll_attempts l))"
proof -
  let ?kept = "filter (\<lambda>t. t > now - window) (attempts_of (ll_attempts l) ip)"
  let ?log = "if ok then log @ [(now, ip)] else log"
  let ?ts = "if ok then ?kept @ [now] else ?kept"
  let ?l = "l\<lparr>ll_attempts := AList.update ip ?ts (ll_attempts l)\<rparr>"
  have lw: "ll_limit l = limit" "ll_window l = window" and dist: "distinct (map fst (ll_attempts l))"
    and le: "\<And>t a. (t, a) \<in> set log \<Longrightarrow> t \<le> now0"
    using rel by (auto simp: limiter_rel_def)
  have allow: "Allow now ip l = (ok, ?l)"
    using small kept_is_accepted_in(2) [OF rel assms(2), of ip]
    by (auto simp: Allow_def Let_def lw ok_def)
  have ts: "?ts = filter (\<lambda>t. t > now - window) (map fst (filter (\<lambda>(_, a). a = ip) ?log))"
    unfolding kept_is_accepted_in(1) [OF rel assms(2), of ip] using assms(3) by simp
  have "\<exists>c \<le> now - window. attempts_of (ll_attempts ?l) a = filter (\<lambda>t. t > c) (map fst (filter (\<lambda>(_, b). b = a) ?log))" for a
  proof (cases "a = ip")
    case True
    with ts show ?thesis by (intro exI [of _ "now - window"]) (simp add: attempts_of_update)
  next
    case False
    with limiter_rel_other [OF rel assms(2), of a] show ?thesis by (auto simp: attempts_of_update)
  qed
  then have "limiter_rel limit window now ?log ?l"
    using lw dist le assms(2) by (fastforce simp: limiter_rel_def distinct_update)
  moreover have "fst ` set (ll_attempts ?l) = insert ip (fst ` set (ll_attempts l))"
    using keys_update [of ip ?ts "ll_attempts l"] by simp
  ultimately show ?thesis using allow by blast
qed

lemma tracked_few:
  assumes "distinct (map fst m)" and "fst ` set m \<subseteq> S" and "finite S" and "card S \<le> n"
  shows "length m \<le> n"
  using card_mono [OF assms(3,2)] distinct_card [OF assms(1)] assms(4) by simp

lemma verdicts_log:
  assumes "limiter_rel limit window now0 log l" and "0 < window" and "sorted (now0 # map fst calls)"
    and "fst ` set (ll_attempts l) \<subseteq> S" and "snd ` set calls \<subseteq> S" and "finite S" and "card S \<le> LoginLimiterMaxTrackedIPs"
  shows "verdicts l calls = log_verdicts limit window log calls"
  using assms
proof (induction calls arbitrary: now0 log l)
  case Nil
  then show ?case by simp
next
  case (Cons call calls)
  obtain now ip where call: "call = (now, ip)" by fastforce
  have le: "now0 \<le> now" and sorted: "sorted (now # map fst calls)" using Cons.prems(3) call by auto
  have "length (ll_attempts l) \<le> LoginLimiterMaxTrackedIPs"
    using Cons.prems by (intro tracked_few [of _ S]) (auto simp: limiter_rel_def)
  from Allow_step [OF Cons.prems(1) le Cons.prems(2) this, of ip] obtain l' where
    l': "Allow now ip l = (int (accepted_in log ip (now - window) now) < limit, l')"
    and rel: "limiter_rel limit window now (if int (accepted_in log ip (now - window) now) < limit then log @ [(now, ip)] else log) l'"
    and keys: "fst ` set (ll_attempts l') = insert ip (fst ` set (ll_attempts l))" by blast
  have "fst ` set (ll_attempts l') \<subseteq> S" "snd ` set calls \<subseteq> S" using keys Cons.prems(4,5) call by auto
  from Cons.IH [OF rel Cons.prems(2) sorted this Cons.prems(6,7)] l' call show ?case by simp
qed

section \<open>The rate bound\<close>

lemma accepted_in_snoc:
  "accepted_in (log @ [(now, a)]) ip lo hi = accepted_in log ip lo hi + (if a = ip \<and> lo < now \<and> now \<le> hi then 1 else 0)"
  by (simp add: accepted_in_def)

lemma accepted_in_mono: "lo' \<le> lo \<Longrightarrow> (\<forall>(t, _) \<in> set log. t \<le> now) \<Longrightarrow> accepted_in log ip lo hi \<le> accepted_in log ip lo' now"
proof (induction log rule: rev_induct)
  case (snoc x log)
  then show ?case by (cases x) (auto simp: accepted_in_snoc)
qed (simp add: accepted_in_def)

lemma rate_step:
  assumes "\<forall>ip t. int (accepted_in log ip (t - window) t) \<le> limit" and "\<forall>(t, _) \<in> set log. t \<le> now"
    and "int (accepted_in log a (now - window) now) < limit"
  shows "int (accepted_in (log @ [(now, a)]) ip (t - window) t) \<le> limit"
proof (cases "ip = a \<and> now \<le> t")
  case True
  then have "accepted_in log ip (t - window) t \<le> accepted_in log a (now - window) now"
    using accepted_in_mono [of "now - window" "t - window" log now ip t] assms(2) by simp
  with assms(3) show ?thesis by (simp add: accepted_in_snoc)
next
  case False
  with assms(1) show ?thesis by (auto simp: accepted_in_snoc)
qed

lemma log_rate:
  assumes "\<forall>ip t. int (accepted_in log ip (t - window) t) \<le> limit" and "\<forall>(t, _) \<in> set log. t \<le> now0"
    and "sorted (now0 # map fst calls)"
  shows "int (accepted_in (log @ accepted calls (log_verdicts limit window log calls)) ip (t - window) t) \<le> limit"
  using assms
proof (induction calls arbitrary: now0 log)
  case Nil
  then show ?case by (simp add: accepted_def)
next
  case (Cons call calls)
  obtain now a where call: "call = (now, a)" by fastforce
  have le: "\<forall>(t, _) \<in> set log. t \<le> now" and sorted: "sorted (now # map fst calls)"
    using Cons.prems(2,3) call by fastforce+
  show ?case
  proof (cases "int (accepted_in log a (now - window) now) < limit")
    case True
    have "\<forall>ip t. int (accepted_in (log @ [(now, a)]) ip (t - window) t) \<le> limit"
      using rate_step [OF Cons.prems(1) le True] by blast
    moreover have "\<forall>(t, _) \<in> set (log @ [(now, a)]). t \<le> now" using le by auto
    ultimately have "int (accepted_in ((log @ [(now, a)]) @ accepted calls (log_verdicts limit window (log @ [(now, a)]) calls)) ip (t - window) t) \<le> limit"
      using sorted by (rule Cons.IH)
    with True call show ?thesis by (simp add: accepted_def)
  next
    case False
    have "int (accepted_in (log @ accepted calls (log_verdicts limit window log calls)) ip (t - window) t) \<le> limit"
      using Cons.prems(1) le sorted by (rule Cons.IH)
    with False call show ?thesis by (simp add: accepted_def)
  qed
qed

text \<open>
  When more than the tracked maximum of addresses are known, a call drops them all and counts from
  nothing. That takes as many calls as there are addresses to fill the map again, so each dropped map
  adds at most the limit once more.
\<close>

lemma accepted_in_append: "accepted_in (log @ log') ip lo hi = accepted_in log ip lo hi + accepted_in log' ip lo hi"
  by (simp add: accepted_in_def)

lemma Allow_clears:
  "length (ll_attempts l) > LoginLimiterMaxTrackedIPs \<Longrightarrow> Allow now ip l = Allow now ip (l\<lparr>ll_attempts := []\<rparr>)"
  by (simp add: Allow_def Let_def)

lemma limiter_rel_cleared:
  "limiter_rel limit window now log l \<Longrightarrow> limiter_rel limit window now [] (l\<lparr>ll_attempts := []\<rparr>)"
  by (auto simp: limiter_rel_def attempts_of_def)

lemma length_update: "length (AList.update k v m) \<le> Suc (length m)"
  by (induction m) auto

lemma Allow_tracks: "length (ll_attempts (snd (Allow now ip l))) \<le> Suc (length (ll_attempts l))"
  by (auto simp: Allow_def Let_def intro: order_trans [OF length_update])

lemma Allow_clear_tracks:
  "length (ll_attempts l) > LoginLimiterMaxTrackedIPs \<Longrightarrow> length (ll_attempts (snd (Allow now ip l))) \<le> 1"
  using Allow_clears [of l now ip] Allow_tracks [of now ip "l\<lparr>ll_attempts := []\<rparr>"] by simp

lemma rate_one:
  assumes "0 \<le> limit" and "int (accepted_in [] a (now - window) now) < limit"
  shows "int (accepted_in [(now, a)] ip (t - window) t) \<le> limit"
  using rate_step [of "[]" window limit now a ip t] assms by (simp add: accepted_in_def)

lemma rate_with_drops:
  assumes "limiter_rel limit window now0 log l" and "0 < window" and "0 \<le> limit" and "sorted (now0 # map fst calls)"
    and "\<forall>ip t. int (accepted_in log ip (t - window) t) \<le> limit"
  shows "int (accepted_in (log @ accepted calls (verdicts l calls)) ip (t - window) t)
    \<le> limit * (1 + int ((length (ll_attempts l) + length calls) div Suc LoginLimiterMaxTrackedIPs))"
  using assms
proof (induction calls arbitrary: now0 log l)
  case Nil
  then have "int (accepted_in log ip (t - window) t) \<le> limit" by blast
  also have "limit \<le> limit * (1 + int (length (ll_attempts l) div Suc LoginLimiterMaxTrackedIPs))"
    using assms(3) by (simp add: distrib_left)
  finally show ?case by (simp add: accepted_def)
next
  case (Cons call calls)
  obtain now a where call: "call = (now, a)" by fastforce
  define l' where "l' = snd (Allow now a l)"
  have le: "now0 \<le> now" and sorted: "sorted (now # map fst calls)" using Cons.prems(4) call by auto
  have log: "\<forall>(t, _) \<in> set log. t \<le> now" using Cons.prems(1) le by (force simp: limiter_rel_def)
  let ?D = "Suc LoginLimiterMaxTrackedIPs"
  let ?bound = "\<lambda>n. limit * (1 + int (n div ?D))"
  have mono: "?bound m \<le> ?bound n" if "m \<le> n" for m n
    using Cons.prems(3) that by (intro mult_left_mono) (simp_all add: div_le_mono)
  show ?case
  proof (cases "length (ll_attempts l) > LoginLimiterMaxTrackedIPs")
    case False
    define log' where "log' = (if int (accepted_in log a (now - window) now) < limit then log @ [(now, a)] else log)"
    from False Allow_step [OF Cons.prems(1) le Cons.prems(2), of a]
    have allow: "Allow now a l = (int (accepted_in log a (now - window) now) < limit, l')"
      and rel: "limiter_rel limit window now log' l'" unfolding l'_def log'_def by auto
    have "\<forall>ip t. int (accepted_in log' ip (t - window) t) \<le> limit"
      using rate_step [OF Cons.prems(5) log] Cons.prems(5) by (simp add: log'_def)
    from Cons.IH [OF rel Cons.prems(2,3) sorted this]
    have "int (accepted_in (log' @ accepted calls (verdicts l' calls)) ip (t - window) t)
        \<le> ?bound (length (ll_attempts l') + length calls)" .
    also have "\<dots> \<le> ?bound (length (ll_attempts l) + length (call # calls))"
      using Allow_tracks [of now a l] unfolding l'_def by (intro mono) simp
    finally show ?thesis by (simp add: accepted_def call allow log'_def split: if_splits)
  next
    case True
    define log' where "log' = (if int (accepted_in [] a (now - window) now) < limit then [(now, a)] else [])"
    from limiter_rel_cleared [OF Cons.prems(1)] Allow_step [OF _ le Cons.prems(2), of limit "[]" "l\<lparr>ll_attempts := []\<rparr>" a]
    have allow: "Allow now a l = (int (accepted_in [] a (now - window) now) < limit, l')"
      and rel: "limiter_rel limit window now log' l'"
      unfolding l'_def log'_def Allow_clears [OF True] by auto
    have "\<forall>ip t. int (accepted_in log' ip (t - window) t) \<le> limit"
      using rate_one [OF Cons.prems(3)] Cons.prems(3) by (simp add: log'_def accepted_in_def)
    from Cons.IH [OF rel Cons.prems(2,3) sorted this]
    have "int (accepted_in (log' @ accepted calls (verdicts l' calls)) ip (t - window) t)
        \<le> ?bound (length (ll_attempts l') + length calls)" .
    also have "\<dots> \<le> ?bound (1 + length calls)"
      using Allow_clear_tracks [OF True, of now a] unfolding l'_def by (intro mono) simp
    finally have rest: "int (accepted_in (log' @ accepted calls (verdicts l' calls)) ip (t - window) t) \<le> ?bound (1 + length calls)" .
    have "accepted (call # calls) (verdicts l (call # calls)) = log' @ accepted calls (verdicts l' calls)"
      by (simp add: accepted_def call allow log'_def)
    then have "int (accepted_in (log @ accepted (call # calls) (verdicts l (call # calls))) ip (t - window) t)
        \<le> limit + ?bound (1 + length calls)"
      using Cons.prems(5) rest by (simp add: accepted_in_append add_mono)
    also have "\<dots> = ?bound (?D + (1 + length calls))"
      by (simp only: div_add_self1 nat.distinct not_False_eq_True) (simp add: distrib_left)
    also have "\<dots> \<le> ?bound (length (ll_attempts l) + length (call # calls))" using True by (intro mono) simp
    finally show ?thesis .
  qed
qed

text \<open>
  C19. As long as the clock does not run backwards, no address has more than limit \<open>* (1 + n div 10001)\<close>
  attempts accepted in any interval of the window's length, where n is the number of login attempts in
  the whole history: the limit itself until 10001 attempts were made. While at most 10000 addresses try
  to log in, however often, the verdicts are those of an unbounded log of accepted attempts (an attempt
  is accepted exactly when its address has fewer than the limit accepted in the window before it), and no
  address ever has more than the limit accepted in a window.
\<close>

theorem login_rate_bounded:
  assumes "0 < window" and "0 \<le> limit" and "sorted (map fst calls)"
  defines "answers \<equiv> verdicts (NewLoginLimiterWithLimits limit window) calls"
  shows "(\<forall>ip t. int (accepted_in (accepted calls answers) ip (t - window) t) \<le> limit * (1 + int (length calls div 10001)))
    \<and> (card (snd ` set calls) \<le> 10000 \<longrightarrow>
        answers = log_verdicts limit window [] calls
        \<and> (\<forall>ip t. int (accepted_in (accepted calls answers) ip (t - window) t) \<le> limit))"
proof -
  define now0 where "now0 = (case calls of [] \<Rightarrow> 0 | c # _ \<Rightarrow> fst c)"
  have sorted: "sorted (now0 # map fst calls)" using assms(3) by (cases calls) (auto simp: now0_def)
  have rel: "limiter_rel limit window now0 [] (NewLoginLimiterWithLimits limit window)"
    by (auto simp: limiter_rel_def NewLoginLimiterWithLimits_def attempts_of_def)
  have none: "\<forall>ip t. int (accepted_in [] ip (t - window) t) \<le> limit" using assms(2) by (simp add: accepted_in_def)
  have "Suc LoginLimiterMaxTrackedIPs = 10001" by (simp add: LoginLimiterMaxTrackedIPs_def)
  with rate_with_drops [OF rel assms(1,2) sorted none]
  have "int (accepted_in (accepted calls answers) ip (t - window) t) \<le> limit * (1 + int (length calls div 10001))" for ip t
    by (simp add: NewLoginLimiterWithLimits_def answers_def)
  moreover have "answers = log_verdicts limit window [] calls" if "card (snd ` set calls) \<le> 10000"
    using verdicts_log [OF rel assms(1) sorted, of "snd ` set calls"] that
    by (simp add: NewLoginLimiterWithLimits_def LoginLimiterMaxTrackedIPs_def answers_def)
  ultimately show ?thesis using log_rate [OF none _ sorted] by auto
qed

theorem login_rate_bounded_witness:
  "verdicts (NewLoginLimiterWithLimits 2 10) [(0, ''a''), (1, ''a''), (2, ''a''), (3, ''b''), (11, ''a'')] = [True, True, False, True, True]
   \<and> int (accepted_in [(0, ''a''), (1, ''a''), (3, ''b''), (11, ''a'')] ''a'' 1 11) \<le> 2"
proof -
  let ?calls = "[(0, ''a''), (1, ''a''), (2, ''a''), (3, ''b''), (11, ''a'')] :: (time \<times> string) list"
  have few: "card (snd ` set ?calls) \<le> 10000"
    using card_length [of "map snd ?calls"] by simp
  have main: "verdicts (NewLoginLimiterWithLimits 2 10) ?calls = log_verdicts 2 10 [] ?calls
    \<and> (\<forall>ip t. int (accepted_in (accepted ?calls (verdicts (NewLoginLimiterWithLimits 2 10) ?calls)) ip (t - 10) t) \<le> 2)"
    by (rule login_rate_bounded [of 10 2 ?calls, THEN conjunct2, THEN mp, OF _ _ _ few]) simp_all
  have v: "log_verdicts 2 10 [] ?calls = [True, True, False, True, True]" by code_simp
  from main have eq: "verdicts (NewLoginLimiterWithLimits 2 10) ?calls = [True, True, False, True, True]" unfolding v by (rule conjunct1)
  from main [THEN conjunct2, rule_format, of "''a''" 11] show ?thesis unfolding eq by (simp add: accepted_def)
qed

section \<open>Memory\<close>

definition limiter_small :: "LoginLimiter \<Rightarrow> bool" where
  "limiter_small l \<longleftrightarrow> length (ll_attempts l) \<le> Suc LoginLimiterMaxTrackedIPs
     \<and> list_all (\<lambda>(_, ts). int (length ts) \<le> max 0 (ll_limit l)) (ll_attempts l)"

lemma list_all_update: "list_all P m \<Longrightarrow> P (k, v) \<Longrightarrow> list_all P (AList.update k v m)"
  by (induction m) auto

text \<open>Whatever the calls, the limiter never tracks more than one address above the maximum, each with at most the limit.\<close>

lemma Allow_small:
  assumes "limiter_small l"
  shows "limiter_small (snd (Allow now ip l))"
proof -
  define m where "m = (if length (ll_attempts l) > LoginLimiterMaxTrackedIPs then [] else ll_attempts l)"
  define kept where "kept = filter (\<lambda>t. t > now - ll_window l) (attempts_of m ip)"
  have m: "list_all (\<lambda>(_, ts). int (length ts) \<le> max 0 (ll_limit l)) m" "length m \<le> LoginLimiterMaxTrackedIPs"
    using assms by (auto simp: m_def limiter_small_def)
  have "int (length (attempts_of m ip)) \<le> max 0 (ll_limit l)"
    using m(1) by (auto simp: attempts_of_def list_all_iff split: option.splits dest!: map_of_SomeD)
  moreover have "length kept \<le> length (attempts_of m ip)" by (simp add: kept_def)
  ultimately have kept: "int (length kept) \<le> max 0 (ll_limit l)" by linarith
  have "snd (Allow now ip l) =
      l\<lparr>ll_attempts := AList.update ip (if int (length kept) \<ge> ll_limit l then kept else kept @ [now]) m\<rparr>"
    by (simp add: Allow_def Let_def flip: m_def kept_def)
  with kept m length_update [of ip _ m] show ?thesis
    by (auto simp: limiter_small_def intro!: list_all_update intro: order_trans)
qed

section \<open>Which address counts\<close>

text \<open>
  Behind a trusted proxy only what that proxy appended counts: a client cannot move its attempts to
  another address by sending its own \<open>X-Forwarded-For\<close>. Without that trust the header is not read.
\<close>

lemma ClientIP_last_hop:
  assumes "CHR '','' \<notin> set hop" and "trimSpace hop \<noteq> []"
  shows "ClientIP (spoofed @ CHR '','' # hop) remoteAddr True = trimSpace hop"
  using assms by (simp add: ClientIP_def split_at_append split_at_free)

lemma ClientIP_untrusted: "ClientIP xff remoteAddr False = ClientIP xff' remoteAddr False"
  by (simp add: ClientIP_def)

lemma ClientIP_examples:
  "ClientIP [] ''192.0.2.1:4711'' False = ''192.0.2.1''" "ClientIP [] ''[2001:db8::1]:80'' False = ''2001:db8::1''"
  "ClientIP ''10.0.0.1, 192.0.2.7'' ''127.0.0.1:80'' True = ''192.0.2.7''"
  by code_simp+

end
