(* ===== verification/Accounts.thy ===== *)
theory Accounts
  imports Entitlements LoginLimiter Api
begin

text \<open>
  Who a request comes from: users, browser sessions, API keys, access tokens and publisher credentials
  (\<open>internal/repo\<close>), their resolution from a request (\<open>internal/authn\<close> and the three middlewares), the
  token endpoint (\<open>internal/api/token.go\<close>) and the login of the web interface.

  SHA-256 and bcrypt are parameters: \<open>sha256\<close> gives the bytes of a digest, \<open>generate\<close> the stored form of
  a password or an error, \<open>compare\<close> whether a stored form fits a password. Random tokens and identifiers are
  arguments of the operations that draw them.
\<close>

section \<open>Data\<close>

record User =
  usr_UUID :: uuid
  usr_Username :: string
  usr_Role :: string
  usr_CreatedAt :: time

record PublisherCredential =
  pcr_UUID :: uuid
  pcr_Label :: string
  pcr_Scope :: string
  pcr_CreatedAt :: time
  pcr_RevokedAt :: "time option"

abbreviation RoleAdmin :: string where "RoleAdmin \<equiv> ''admin''"
abbreviation RoleConsumer :: string where "RoleConsumer \<equiv> ''consumer''"
abbreviation PublisherScopeFull :: string where "PublisherScopeFull \<equiv> ''full''"
abbreviation PublisherScopeCICD :: string where "PublisherScopeCICD \<equiv> ''cicd''"

definition hashToken :: "(string \<Rightarrow> string) \<Rightarrow> string \<Rightarrow> string" where
  "hashToken sha256 token = hexEncode (sha256 token)"

section \<open>Users\<close>

definition scan_user :: "user_row \<Rightarrow> User" where
  "scan_user u = \<lparr>usr_UUID = u_uuid u, usr_Username = u_username u, usr_Role = u_role u, usr_CreatedAt = parseTime (u_created_at u)\<rparr>"

definition insert_user :: "user_row \<Rightarrow> unit repo_op" where
  "insert_user u s =
     (if \<not> List.member [RoleAdmin, RoleConsumer] (u_role u) then (Inl ErrCheckConstraint, s)
      else if has_row (\<lambda>r. u_uuid r = u_uuid u \<or> u_username r = u_username u) (tbl_user s) then (Inl ErrUniqueConstraint, s)
      else (Inr (), s\<lparr>tbl_user := tbl_user s @ [u]\<rparr>))"

definition GetUserByUUID :: "db \<Rightarrow> uuid \<Rightarrow> repo_error + User" where
  "GetUserByUUID s uuid =
     (case find_row (\<lambda>u. u_uuid u = uuid) (tbl_user s) of None \<Rightarrow> Inl ErrNotFound | Some u \<Rightarrow> Inr (scan_user u))"

definition minPasswordLength :: nat where "minPasswordLength = 8"

definition CreateUser ::
  "(string \<Rightarrow> repo_error + string) \<Rightarrow> uuid \<Rightarrow> time \<Rightarrow> string \<Rightarrow> string \<Rightarrow> string \<Rightarrow> User repo_op" where
  "CreateUser generate uuid now username plaintextPassword role s =
     (if length plaintextPassword < minPasswordLength then (Inl ErrPasswordTooShort, s)
      else case generate plaintextPassword of
             Inl e \<Rightarrow> (Inl e, s)
           | Inr hash \<Rightarrow>
               (case insert_user \<lparr>u_uuid = uuid, u_username = username, u_password_hash = hash, u_role = role,
                                  u_created_at = formatTime now\<rparr> s of
                  (Inl e, s1) \<Rightarrow> (Inl (if e = ErrUniqueConstraint then ErrUsernameTaken else e), s1)
                | (Inr _, s1) \<Rightarrow> (GetUserByUUID s1 uuid, s1)))"

definition ListUsers :: "db \<Rightarrow> User list" where
  "ListUsers s = map scan_user (sort_key u_username (tbl_user s))"

definition VerifyLogin :: "(string \<Rightarrow> string \<Rightarrow> bool) \<Rightarrow> db \<Rightarrow> string \<Rightarrow> string \<Rightarrow> repo_error + User" where
  "VerifyLogin compare s username plaintextPassword =
     (case find_row (\<lambda>u. u_username u = username) (tbl_user s) of
        None \<Rightarrow> Inl ErrInvalidCredentials
      | Some u \<Rightarrow> if \<not> compare (u_password_hash u) plaintextPassword then Inl ErrInvalidCredentials else Inr (scan_user u))"

text \<open>
  \<open>DELETE FROM user\<close> with the actions of the foreign keys on it: sessions, API keys, access tokens and
  entitlements of the user go, authorship columns become null.
\<close>

definition delete_user_row :: "uuid \<Rightarrow> db \<Rightarrow> db" where
  "delete_user_row uuid s = s\<lparr>
     tbl_user := delete_rows (\<lambda>u. u_uuid u = uuid) (tbl_user s),
     tbl_session := delete_rows (\<lambda>r. ss_user r = uuid) (tbl_session s),
     tbl_api_key := delete_rows (\<lambda>r. ak_user r = uuid) (tbl_api_key s),
     tbl_access_token := delete_rows (\<lambda>r. at_user r = uuid) (tbl_access_token s),
     tbl_entitlement := update_rows (\<lambda>e. e_created_by e = Some uuid) (\<lambda>e. e\<lparr>e_created_by := None\<rparr>)
        (delete_rows (\<lambda>e. e_subject_id e = Some uuid) (tbl_entitlement s)),
     tbl_template_revision := update_rows (\<lambda>r. tr_created_by r = Some uuid) (\<lambda>r. r\<lparr>tr_created_by := None\<rparr>)
        (tbl_template_revision s)\<rparr>"

definition DeleteUser :: "uuid \<Rightarrow> unit repo_op" where
  "DeleteUser uuid s =
     (case find_row (\<lambda>u. u_uuid u = uuid) (tbl_user s) of
        None \<Rightarrow> (Inl ErrNotFound, s)
      | Some u \<Rightarrow>
          if u_role u = RoleAdmin \<and> length (filter (\<lambda>r. u_role r = RoleAdmin) (tbl_user s)) \<le> 1 then (Inl ErrLastAdmin, s)
          else (Inr (), delete_user_row uuid s))"

section \<open>Sessions, API keys and access tokens\<close>

definition user_exists :: "db \<Rightarrow> uuid \<Rightarrow> bool" where
  "user_exists s uuid \<longleftrightarrow> has_row (\<lambda>u. u_uuid u = uuid) (tbl_user s)"

definition CreateSession :: "(string \<Rightarrow> string) \<Rightarrow> string \<Rightarrow> time \<Rightarrow> uuid \<Rightarrow> int \<Rightarrow> (string \<times> time) repo_op" where
  "CreateSession sha256 token now userUUID ttl s =
     (let expiresAt = now + ttl;
          row = \<lparr>ss_token_hash = hashToken sha256 token, ss_user = userUUID, ss_expires_at = formatTime expiresAt\<rparr> in
      if has_row (\<lambda>r. ss_token_hash r = ss_token_hash row) (tbl_session s) then (Inl ErrUniqueConstraint, s)
      else if \<not> user_exists s userUUID then (Inl ErrForeignKeyConstraint, s)
      else (Inr (token, expiresAt), s\<lparr>tbl_session := tbl_session s @ [row]\<rparr>))"

text \<open>The token hash is a primary key, so at most one row joins.\<close>

definition GetSessionUser :: "(string \<Rightarrow> string) \<Rightarrow> db \<Rightarrow> time \<Rightarrow> string \<Rightarrow> repo_error + User" where
  "GetSessionUser sha256 s now token =
     (case find_row (\<lambda>r. ss_token_hash r = hashToken sha256 token) (tbl_session s) of
        None \<Rightarrow> Inl ErrNotFound
      | Some r \<Rightarrow>
          (case find_row (\<lambda>u. u_uuid u = ss_user r) (tbl_user s) of
             None \<Rightarrow> Inl ErrNotFound
           | Some u \<Rightarrow> if now > parseTime (ss_expires_at r) then Inl ErrNotFound else Inr (scan_user u)))"

definition DeleteSession :: "(string \<Rightarrow> string) \<Rightarrow> string \<Rightarrow> unit repo_op" where
  "DeleteSession sha256 token =
     execR (\<lambda>s. s\<lparr>tbl_session := delete_rows (\<lambda>r. ss_token_hash r = hashToken sha256 token) (tbl_session s)\<rparr>)"

definition CreateAccessToken :: "(string \<Rightarrow> string) \<Rightarrow> string \<Rightarrow> time \<Rightarrow> uuid \<Rightarrow> int \<Rightarrow> (string \<times> time) repo_op" where
  "CreateAccessToken sha256 token now userUUID ttl s =
     (let expiresAt = now + ttl;
          row = \<lparr>at_token_hash = hashToken sha256 token, at_user = userUUID, at_expires_at = formatTime expiresAt\<rparr> in
      if has_row (\<lambda>r. at_token_hash r = at_token_hash row) (tbl_access_token s) then (Inl ErrUniqueConstraint, s)
      else if \<not> user_exists s userUUID then (Inl ErrForeignKeyConstraint, s)
      else (Inr (token, expiresAt), s\<lparr>tbl_access_token := tbl_access_token s @ [row]\<rparr>))"

definition GetAccessTokenUser :: "(string \<Rightarrow> string) \<Rightarrow> db \<Rightarrow> time \<Rightarrow> string \<Rightarrow> repo_error + User" where
  "GetAccessTokenUser sha256 s now token =
     (case find_row (\<lambda>r. at_token_hash r = hashToken sha256 token) (tbl_access_token s) of
        None \<Rightarrow> Inl ErrNotFound
      | Some r \<Rightarrow>
          (case find_row (\<lambda>u. u_uuid u = at_user r) (tbl_user s) of
             None \<Rightarrow> Inl ErrNotFound
           | Some u \<Rightarrow> if now > parseTime (at_expires_at r) then Inl ErrNotFound else Inr (scan_user u)))"

text \<open>The upsert replaces the key of the user in place; another user's key identifier cannot be taken.\<close>

definition SetAPIKey :: "(string \<Rightarrow> string) \<Rightarrow> string \<Rightarrow> string \<Rightarrow> time \<Rightarrow> uuid \<Rightarrow> (string \<times> string) repo_op" where
  "SetAPIKey sha256 keyID secret now userUUID s =
     (let row = \<lparr>ak_user = userUUID, ak_key_id = keyID, ak_secret_hash = hashToken sha256 secret, ak_created_at = formatTime now\<rparr> in
      if has_row (\<lambda>r. ak_key_id r = keyID \<and> ak_user r \<noteq> userUUID) (tbl_api_key s) then (Inl ErrUniqueConstraint, s)
      else if \<not> user_exists s userUUID then (Inl ErrForeignKeyConstraint, s)
      else (Inr (keyID, secret), s\<lparr>tbl_api_key :=
             (if has_row (\<lambda>r. ak_user r = userUUID) (tbl_api_key s)
              then update_rows (\<lambda>r. ak_user r = userUUID) (\<lambda>_. row) (tbl_api_key s)
              else tbl_api_key s @ [row])\<rparr>))"

definition GetAPIKeyCreatedAt :: "db \<Rightarrow> uuid \<Rightarrow> time option" where
  "GetAPIKeyCreatedAt s userUUID =
     map_option (\<lambda>r. parseTime (ak_created_at r)) (find_row (\<lambda>r. ak_user r = userUUID) (tbl_api_key s))"

definition VerifyAPIKey :: "(string \<Rightarrow> string) \<Rightarrow> db \<Rightarrow> string \<Rightarrow> string \<Rightarrow> repo_error + User" where
  "VerifyAPIKey sha256 s keyID secret =
     (case find_row (\<lambda>r. ak_key_id r = keyID \<and> ak_secret_hash r = hashToken sha256 secret) (tbl_api_key s) of
        None \<Rightarrow> Inl ErrNotFound
      | Some r \<Rightarrow> GetUserByUUID s (ak_user r))"

section \<open>Publisher credentials\<close>

definition scan_credential :: "credential_row \<Rightarrow> PublisherCredential" where
  "scan_credential c =
     \<lparr>pcr_UUID = cred_uuid c, pcr_Label = cred_label c, pcr_Scope = cred_scope c,
      pcr_CreatedAt = parseTime (cred_created_at c), pcr_RevokedAt = parseNullTime (cred_revoked_at c)\<rparr>"

definition getPublisherCredentialTx :: "db \<Rightarrow> (credential_row \<Rightarrow> bool) \<Rightarrow> repo_error + PublisherCredential" where
  "getPublisherCredentialTx s cond =
     (case find_row cond (tbl_credential s) of None \<Rightarrow> Inl ErrNotFound | Some c \<Rightarrow> Inr (scan_credential c))"

definition GetPublisherCredential :: "db \<Rightarrow> uuid \<Rightarrow> repo_error + PublisherCredential" where
  "GetPublisherCredential s uuid = getPublisherCredentialTx s (\<lambda>c. cred_uuid c = uuid)"

definition insert_credential :: "credential_row \<Rightarrow> unit repo_op" where
  "insert_credential c s =
     (if \<not> List.member [PublisherScopeFull, PublisherScopeCICD] (cred_scope c) then (Inl ErrCheckConstraint, s)
      else if has_row (\<lambda>r. cred_uuid r = cred_uuid c \<or> cred_token_hash r = cred_token_hash c) (tbl_credential s)
        then (Inl ErrUniqueConstraint, s)
      else (Inr (), s\<lparr>tbl_credential := tbl_credential s @ [c]\<rparr>))"

definition CreatePublisherCredential ::
  "(string \<Rightarrow> string) \<Rightarrow> uuid \<Rightarrow> string \<Rightarrow> time \<Rightarrow> string \<Rightarrow> string \<Rightarrow> (PublisherCredential \<times> string) repo_op" where
  "CreatePublisherCredential sha256 uuid token now label scope =
     bindR (insert_credential \<lparr>cred_uuid = uuid, cred_label = label, cred_token_hash = hashToken sha256 token, cred_scope = scope,
              cred_created_at = formatTime now, cred_revoked_at = None\<rparr>) (\<lambda>_.
     bindR (readR (\<lambda>s. GetPublisherCredential s uuid)) (\<lambda>cred. returnR (cred, token)))"

definition GetPublisherCredentialByToken :: "(string \<Rightarrow> string) \<Rightarrow> db \<Rightarrow> string \<Rightarrow> repo_error + PublisherCredential" where
  "GetPublisherCredentialByToken sha256 s token =
     (case getPublisherCredentialTx s (\<lambda>c. cred_token_hash c = hashToken sha256 token) of
        Inl e \<Rightarrow> Inl e
      | Inr cred \<Rightarrow> if pcr_RevokedAt cred \<noteq> None then Inl ErrNotFound else Inr cred)"

definition ListPublisherCredentials :: "db \<Rightarrow> PublisherCredential list" where
  "ListPublisherCredentials s = map scan_credential (sort_key (\<lambda>c. - cred_created_at c) (tbl_credential s))"

definition ExistsPublisherCredential :: "db \<Rightarrow> uuid \<Rightarrow> repo_error + unit" where
  "ExistsPublisherCredential s uuid = (if has_row (\<lambda>c. cred_uuid c = uuid) (tbl_credential s) then Inr () else Inl ErrNotFound)"

definition RevokePublisherCredential :: "time \<Rightarrow> uuid \<Rightarrow> unit repo_op" where
  "RevokePublisherCredential now uuid s =
     (let hit = (\<lambda>c. cred_uuid c = uuid \<and> cred_revoked_at c = None) in
      if has_row hit (tbl_credential s)
      then (Inr (), s\<lparr>tbl_credential := update_rows hit (\<lambda>c. c\<lparr>cred_revoked_at := Some (formatTime now)\<rparr>) (tbl_credential s)\<rparr>)
      else (ExistsPublisherCredential s uuid, s))"

section \<open>Who a request comes from\<close>

text \<open>What the middlewares read of a request; an absent header is the empty string.\<close>

record auth_request =
  ar_method :: string
  ar_path :: string
  ar_authorization :: string
  ar_cookie :: "string option"
  ar_origin :: string
  ar_referer :: string
  ar_now :: time

definition SessionTTL :: int where "SessionTTL = 24 * 3600 * 1000000000"

definition RoleSatisfies :: "string \<Rightarrow> string \<Rightarrow> bool" where
  "RoleSatisfies userRole minRole \<longleftrightarrow> (if userRole = RoleAdmin then True else userRole = minRole)"

definition SessionUser :: "(string \<Rightarrow> string) \<Rightarrow> db \<Rightarrow> auth_request \<Rightarrow> User option" where
  "SessionUser sha256 s r =
     (case ar_cookie r of
        None \<Rightarrow> None
      | Some cookie \<Rightarrow>
          if cookie = [] then None
          else (case GetSessionUser sha256 s (ar_now r) cookie of Inl _ \<Rightarrow> None | Inr user \<Rightarrow> Some user))"

text \<open>\<open>url.Parse\<close> is the parameter \<open>parse\<close>: the scheme and host of a well-formed URL.\<close>

definition SameOrigin :: "(string \<Rightarrow> (string \<times> string) option) \<Rightarrow> auth_request \<Rightarrow> string \<Rightarrow> bool" where
  "SameOrigin parse r rootURL \<longleftrightarrow>
     (if List.member [''GET'', ''HEAD'', ''OPTIONS''] (ar_method r) then True
      else let origin = (if ar_origin r = [] then ar_referer r else ar_origin r) in
        if origin = [] then False
        else case parse rootURL of
               None \<Rightarrow> False
             | Some want \<Rightarrow> (case parse origin of None \<Rightarrow> False | Some got \<Rightarrow> fst got = fst want \<and> snd got = snd want))"

text \<open>The three results of \<open>BearerUser\<close>: not present, present and invalid, present and valid.\<close>

datatype bearer = NoBearer | BadBearer | Bearer User

definition BearerUser :: "(string \<Rightarrow> string) \<Rightarrow> db \<Rightarrow> auth_request \<Rightarrow> bearer" where
  "BearerUser sha256 s r =
     (let header = ar_authorization r; prefix = ''Bearer '' in
      if header = [] then NoBearer
      else if take (length prefix) header \<noteq> prefix \<or> drop (length prefix) header = [] then BadBearer
      else case GetAccessTokenUser sha256 s (ar_now r) (drop (length prefix) header) of
             Inl _ \<Rightarrow> BadBearer
           | Inr u \<Rightarrow> Bearer u)"

text \<open>The principal and whether an invalid token was presented, as put into the request's context.\<close>

definition resolvePrincipal :: "(string \<Rightarrow> string) \<Rightarrow> db \<Rightarrow> string \<Rightarrow> auth_request \<Rightarrow> Principal \<times> bool" where
  "resolvePrincipal sha256 s tokenPath r =
     (if ar_path r = tokenPath then (\<lparr>UserUUID = []\<rparr>, False)
      else case BearerUser sha256 s r of
             Bearer user \<Rightarrow> (\<lparr>UserUUID = usr_UUID user\<rparr>, False)
           | BadBearer \<Rightarrow> (\<lparr>UserUUID = []\<rparr>, True)
           | NoBearer \<Rightarrow> (\<lparr>UserUUID = []\<rparr>, False))"

text \<open>The gate in front of a handler: a refusal, or the identity the handler runs with.\<close>

datatype 'a gate = Unauthorized string | Forbidden string | SeeOther string | GateError repo_error | Proceed 'a

definition requireRole ::
  "(string \<Rightarrow> string) \<Rightarrow> (string \<Rightarrow> (string \<times> string) option) \<Rightarrow> string \<Rightarrow> db \<Rightarrow> string \<Rightarrow> auth_request \<Rightarrow> User gate" where
  "requireRole sha256 parse rootURL s minRole r =
     (case SessionUser sha256 s r of
        None \<Rightarrow> Unauthorized ''authentication required''
      | Some user \<Rightarrow>
          if \<not> RoleSatisfies (usr_Role user) minRole then Forbidden ''forbidden''
          else if \<not> SameOrigin parse r rootURL then Forbidden ''cross-origin request rejected''
          else Proceed user)"

definition requireRolePage ::
  "(string \<Rightarrow> string) \<Rightarrow> (string \<Rightarrow> (string \<times> string) option) \<Rightarrow> string \<Rightarrow> db \<Rightarrow> string \<Rightarrow> auth_request \<Rightarrow> User gate" where
  "requireRolePage sha256 parse rootURL s minRole r =
     (case SessionUser sha256 s r of
        None \<Rightarrow> SeeOther ''/admin/ui/login''
      | Some user \<Rightarrow>
          if \<not> RoleSatisfies (usr_Role user) minRole then Forbidden ''Forbidden: your role doesn't have access to this page.''
          else if \<not> SameOrigin parse r rootURL then Forbidden ''Forbidden: cross-origin request rejected.''
          else Proceed user)"

definition scopeSatisfies :: "string \<Rightarrow> string \<Rightarrow> bool" where
  "scopeSatisfies credScope minScope \<longleftrightarrow> (if credScope = PublisherScopeFull then True else credScope = minScope)"

definition bearerToken :: "auth_request \<Rightarrow> string option" where
  "bearerToken r =
     (let h = ar_authorization r; prefix = ''Bearer '' in
      if take (length prefix) h \<noteq> prefix then None
      else let token = trimSpace (trimPrefix h prefix) in if token = [] then None else Some token)"

definition requireScope :: "(string \<Rightarrow> string) \<Rightarrow> db \<Rightarrow> string \<Rightarrow> auth_request \<Rightarrow> PublisherCredential gate" where
  "requireScope sha256 s minScope r =
     (case bearerToken r of
        None \<Rightarrow> Unauthorized ''missing or malformed Authorization header''
      | Some token \<Rightarrow>
          (case GetPublisherCredentialByToken sha256 s token of
             Inl e \<Rightarrow> if e = ErrNotFound then Unauthorized ''invalid or revoked bearer token'' else GateError e
           | Inr cred \<Rightarrow>
               if \<not> scopeSatisfies (pcr_Scope cred) minScope then Forbidden ''credential scope does not permit this operation''
               else Proceed cred))"

section \<open>The token endpoint\<close>

text \<open>\<open>url.QueryUnescape\<close>: a plus is a space, a percent sign takes two hexadecimal digits of either case.\<close>

definition hex_value :: "char \<Rightarrow> nat option" where
  "hex_value c = (let n = of_char c :: nat in
     if 48 \<le> n \<and> n \<le> 57 then Some (n - 48) else if 97 \<le> n \<and> n \<le> 102 then Some (n - 87)
     else if 65 \<le> n \<and> n \<le> 70 then Some (n - 55) else None)"

fun QueryUnescape :: "string \<Rightarrow> string option" where
  "QueryUnescape [] = Some []"
| "QueryUnescape (c # cs) =
     (if c = CHR ''%'' then
        (case cs of
           a # b # rest \<Rightarrow>
             (case (hex_value a, hex_value b) of
                (Some x, Some y) \<Rightarrow> map_option (Cons (char_of (16 * x + y))) (QueryUnescape rest)
              | _ \<Rightarrow> None)
         | _ \<Rightarrow> None)
      else map_option (Cons (if c = CHR ''+'' then CHR '' '' else c)) (QueryUnescape cs))"

text \<open>
  What the handler reads: the pair \<open>r.BasicAuth\<close> finds, and the grant type of a well-formed form body.
\<close>

record token_request =
  tkr_basic :: "(string \<times> string) option"
  tkr_grant_type :: "string option"

datatype token_response = TokenError nat string | TokenFault repo_error | TokenIssued string int

definition basicAuthUnescaped :: "token_request \<Rightarrow> (string \<times> string) option" where
  "basicAuthUnescaped r =
     (case tkr_basic r of
        None \<Rightarrow> None
      | Some (u, p) \<Rightarrow>
          (case QueryUnescape u of
             None \<Rightarrow> None
           | Some uu \<Rightarrow> (case QueryUnescape p of None \<Rightarrow> None | Some up \<Rightarrow> Some (uu, up))))"

text \<open>\<open>ttl\<close> is the configured lifetime in nanoseconds; the response gives it in seconds.\<close>

definition requestToken ::
  "(string \<Rightarrow> string) \<Rightarrow> string \<Rightarrow> time \<Rightarrow> int \<Rightarrow> token_request \<Rightarrow> db \<Rightarrow> token_response \<times> db" where
  "requestToken sha256 fresh now ttl r s =
     (case basicAuthUnescaped r of
        None \<Rightarrow> (TokenError 401 ''invalid_client'', s)
      | Some (keyID, secret) \<Rightarrow>
          (case tkr_grant_type r of
             None \<Rightarrow> (TokenError 400 ''invalid_request'', s)
           | Some grant \<Rightarrow>
               if grant \<noteq> ''client_credentials'' then (TokenError 400 ''unsupported_grant_type'', s)
               else (case VerifyAPIKey sha256 s keyID secret of
                       Inl e \<Rightarrow> (if e = ErrNotFound then TokenError 401 ''invalid_client'' else TokenFault e, s)
                     | Inr user \<Rightarrow>
                         (case CreateAccessToken sha256 fresh now (usr_UUID user) ttl s of
                            (Inl e, s1) \<Rightarrow> (TokenFault e, s1)
                          | (Inr (token, _), s1) \<Rightarrow> (TokenIssued token (if ttl < 0 then - (- ttl div 1000000000) else ttl div 1000000000), s1)))))"

section \<open>The web interface: login, logout, users\<close>

datatype page = LoginPage string | TooLarge | Redirect string "string option" | UsersPage string "User list" | NoContent
  | BadRequest string | PageNotFound | Created User | PageFault repo_error

text \<open>The submitted form as \<open>ParseForm\<close> leaves it: too large, malformed, or username and password.\<close>

datatype login_form = FormTooLarge | FormInvalid | FormOf string string

definition loginSubmit ::
  "(string \<Rightarrow> string) \<Rightarrow> (string \<Rightarrow> string \<Rightarrow> bool) \<Rightarrow> string \<Rightarrow> time \<Rightarrow> string \<Rightarrow> login_form \<Rightarrow> LoginLimiter \<Rightarrow> db
     \<Rightarrow> page \<times> LoginLimiter \<times> db" where
  "loginSubmit sha256 compare fresh now ip form limiter s =
     (case Allow now ip limiter of
        (False, limiter) \<Rightarrow> (LoginPage ''too many login attempts, please wait a moment and try again'', limiter, s)
      | (True, limiter) \<Rightarrow>
          (case form of
             FormTooLarge \<Rightarrow> (TooLarge, limiter, s)
           | FormInvalid \<Rightarrow> (LoginPage ''invalid form submission'', limiter, s)
           | FormOf username password \<Rightarrow>
               (case VerifyLogin compare s username password of
                  Inl e \<Rightarrow>
                    (LoginPage (if e = ErrInvalidCredentials then ''invalid username or password''
                                else ''internal error, please try again''), limiter, s)
                | Inr user \<Rightarrow>
                    (case CreateSession sha256 fresh now (usr_UUID user) SessionTTL s of
                       (Inl _, s1) \<Rightarrow> (LoginPage ''internal error, please try again'', limiter, s1)
                     | (Inr (token, _), s1) \<Rightarrow> (Redirect ''/admin/ui/'' (Some token), limiter, s1)))))"

definition logout :: "(string \<Rightarrow> string) \<Rightarrow> auth_request \<Rightarrow> db \<Rightarrow> page \<times> db" where
  "logout sha256 r s =
     (let s1 = (case ar_cookie r of None \<Rightarrow> s | Some cookie \<Rightarrow> snd (DeleteSession sha256 cookie s)) in
      (Redirect ''/admin/ui/login'' (Some []), s1))"

definition generateToken :: "(string \<Rightarrow> string) \<Rightarrow> string \<Rightarrow> string \<Rightarrow> time \<Rightarrow> User \<Rightarrow> db \<Rightarrow> (repo_error + (string \<times> string \<times> time option)) \<times> db" where
  "generateToken sha256 keyID secret now user s =
     (case SetAPIKey sha256 keyID secret now (usr_UUID user) s of
        (Inl e, s1) \<Rightarrow> (Inl e, s1)
      | (Inr (k, x), s1) \<Rightarrow> (Inr (k, x, GetAPIKeyCreatedAt s1 (usr_UUID user)), s1))"

definition createUser ::
  "(string \<Rightarrow> repo_error + string) \<Rightarrow> uuid \<Rightarrow> time \<Rightarrow> string \<Rightarrow> string \<Rightarrow> string \<Rightarrow> db \<Rightarrow> page \<times> db" where
  "createUser generate uuid now username password role s =
     (if username = [] \<or> password = [] then (BadRequest ''username and password are required'', s)
      else if role \<noteq> RoleAdmin \<and> role \<noteq> RoleConsumer then (BadRequest ''role must be admin or consumer'', s)
      else case CreateUser generate uuid now username password role s of
             (Inl e, s1) \<Rightarrow>
               (if e = ErrUsernameTaken then BadRequest ''username already taken''
                else if e = ErrPasswordTooShort then BadRequest ''repo: password must be at least 8 characters''
                else PageFault e, s1)
           | (Inr u, s1) \<Rightarrow> (Created u, s1))"

definition deleteUser :: "request \<Rightarrow> db \<Rightarrow> page \<times> db" where
  "deleteUser r s =
     (case PathUUID r ''uuid'' of
        Inl _ \<Rightarrow> (BadRequest ''invalid uuid'', s)
      | Inr uuid \<Rightarrow>
          (case DeleteUser uuid s of
             (Inl e, s1) \<Rightarrow>
               (if e = ErrNotFound then PageNotFound
                else if e = ErrLastAdmin then BadRequest ''cannot delete the last admin user'' else PageFault e, s1)
           | (Inr _, s1) \<Rightarrow> (NoContent, s1)))"

definition createUserForm ::
  "(string \<Rightarrow> repo_error + string) \<Rightarrow> uuid \<Rightarrow> time \<Rightarrow> (string \<times> string \<times> string) option \<Rightarrow> db \<Rightarrow> page \<times> db" where
  "createUserForm generate uuid now form s =
     (case form of
        None \<Rightarrow> (Redirect ''/admin/ui/users'' None, s)
      | Some (username, password, role) \<Rightarrow>
          if username = [] \<or> password = [] \<or> (role \<noteq> RoleAdmin \<and> role \<noteq> RoleConsumer)
          then (UsersPage ''username, password, and a valid role are required'' (ListUsers s), s)
          else case CreateUser generate uuid now username password role s of
                 (Inl e, s1) \<Rightarrow>
                   (UsersPage (if e = ErrUsernameTaken then ''username already taken''
                      else if e = ErrPasswordTooShort then ''repo: password must be at least 8 characters''
                      else ''internal error, please try again'') (ListUsers s1), s1)
               | (Inr _, s1) \<Rightarrow> (Redirect ''/admin/ui/users'' None, s1))"

definition deleteUserForm :: "uuid \<Rightarrow> db \<Rightarrow> page \<times> db" where
  "deleteUserForm uuid s =
     (case DeleteUser uuid s of
        (Inl e, s1) \<Rightarrow>
          (if e = ErrNotFound then Redirect ''/admin/ui/users'' None
           else UsersPage (if e = ErrLastAdmin then ''cannot delete the last admin user'' else ''internal error, please try again'')
                  (ListUsers s1), s1)
      | (Inr _, s1) \<Rightarrow> (Redirect ''/admin/ui/users'' None, s1))"

section \<open>Histories\<close>

text \<open>The operations that change the account tables, each with the time it runs at.\<close>

datatype account_op =
    CreateUserOp uuid string string string
  | DeleteUserOp uuid
  | CreateSessionOp string uuid int
  | DeleteSessionOp string
  | SetAPIKeyOp string string uuid
  | CreateAccessTokenOp string uuid int
  | CreateCredentialOp uuid string string string
  | RevokeCredentialOp uuid

fun account_exec :: "(string \<Rightarrow> string) \<Rightarrow> (string \<Rightarrow> repo_error + string) \<Rightarrow> time \<times> account_op \<Rightarrow> db \<Rightarrow> db" where
  "account_exec sha256 generate (now, CreateUserOp uuid name pw role) s = snd (CreateUser generate uuid now name pw role s)"
| "account_exec sha256 generate (now, DeleteUserOp uuid) s = snd (DeleteUser uuid s)"
| "account_exec sha256 generate (now, CreateSessionOp token u ttl) s = snd (CreateSession sha256 token now u ttl s)"
| "account_exec sha256 generate (now, DeleteSessionOp token) s = snd (DeleteSession sha256 token s)"
| "account_exec sha256 generate (now, SetAPIKeyOp keyID secret u) s = snd (SetAPIKey sha256 keyID secret now u s)"
| "account_exec sha256 generate (now, CreateAccessTokenOp token u ttl) s = snd (CreateAccessToken sha256 token now u ttl s)"
| "account_exec sha256 generate (now, CreateCredentialOp uuid token label scope) s =
     snd (CreatePublisherCredential sha256 uuid token now label scope s)"
| "account_exec sha256 generate (now, RevokeCredentialOp uuid) s = snd (RevokePublisherCredential now uuid s)"

abbreviation account_run :: "(string \<Rightarrow> string) \<Rightarrow> (string \<Rightarrow> repo_error + string) \<Rightarrow> (time \<times> account_op) list \<Rightarrow> db \<Rightarrow> db" where
  "account_run sha256 generate ops s \<equiv> fold (account_exec sha256 generate) ops s"

text \<open>A property every operation of a history keeps holds at its end.\<close>

lemma account_run_keeps:
  assumes "\<And>op s. op \<in> set ops \<Longrightarrow> P s \<Longrightarrow> P (account_exec sha256 generate op s)" "P s"
  shows "P (account_run sha256 generate ops s)"
  using assms by (induction ops arbitrary: s) auto

text \<open>What each operation does to the table of users.\<close>

lemma insert_user_users:
  "insert_user u s = (r, s') \<Longrightarrow> tbl_user s' = tbl_user s \<or>
     (tbl_user s' = tbl_user s @ [u] \<and> \<not> has_row (\<lambda>r. u_uuid r = u_uuid u) (tbl_user s))"
  by (auto simp: insert_user_def has_row_def split: if_splits)

lemma CreateUser_users:
  "tbl_user (snd (CreateUser generate uuid now name pw role s)) = tbl_user s
   \<or> (\<exists>u. tbl_user (snd (CreateUser generate uuid now name pw role s)) = tbl_user s @ [u] \<and> u_uuid u = uuid
        \<and> \<not> has_row (\<lambda>r. u_uuid r = uuid) (tbl_user s))"
  by (auto simp: CreateUser_def split: sum.splits prod.splits dest!: insert_user_users)

lemma tokens_keep_users [simp]:
  "tbl_user (snd (CreateSession sha256 token now u ttl s)) = tbl_user s"
  "tbl_user (snd (DeleteSession sha256 token s)) = tbl_user s"
  "tbl_user (snd (SetAPIKey sha256 keyID secret now u s)) = tbl_user s"
  "tbl_user (snd (CreateAccessToken sha256 token now u ttl s)) = tbl_user s"
  "tbl_user (snd (RevokePublisherCredential now uuid s)) = tbl_user s"
  "tbl_user (snd (CreatePublisherCredential sha256 uuid token now label scope s)) = tbl_user s"
  by (simp_all add: CreateSession_def DeleteSession_def SetAPIKey_def CreateAccessToken_def RevokePublisherCredential_def
      CreatePublisherCredential_def insert_credential_def bindR_def readR_def returnR_def execR_def Let_def split: sum.splits prod.splits)

lemma DeleteUser_cases:
  obtains (kept) e where "DeleteUser uuid s = (Inl e, s)"
  | (deleted) u where "DeleteUser uuid s = (Inr (), delete_user_row uuid s)" "find_row (\<lambda>u. u_uuid u = uuid) (tbl_user s) = Some u"
      "u_role u \<noteq> RoleAdmin \<or> length (filter (\<lambda>r. u_role r = RoleAdmin) (tbl_user s)) > 1"
proof (cases "find_row (\<lambda>u. u_uuid u = uuid) (tbl_user s)")
  case None
  then show ?thesis by (intro kept) (simp add: DeleteUser_def)
next
  case (Some u)
  show ?thesis
  proof (cases "u_role u = RoleAdmin \<and> length (filter (\<lambda>r. u_role r = RoleAdmin) (tbl_user s)) \<le> 1")
    case True
    with Some show ?thesis by (intro kept) (simp add: DeleteUser_def)
  next
    case False
    with Some show ?thesis by (intro deleted [OF _ Some]) (auto simp: DeleteUser_def)
  qed
qed

text \<open>Apart from a deletion, an operation appends at most one user.\<close>

lemma account_exec_users:
  assumes "\<forall>t v. op \<noteq> (t, DeleteUserOp v)"
  shows "tbl_user (account_exec sha256 generate op s) = tbl_user s
    \<or> (\<exists>u. tbl_user (account_exec sha256 generate op s) = tbl_user s @ [u] \<and> \<not> has_row (\<lambda>r. u_uuid r = u_uuid u) (tbl_user s)
         \<and> (\<exists>t name pw role. op = (t, CreateUserOp (u_uuid u) name pw role)))"
proof (cases op)
  case (Pair t o')
  then show ?thesis using assms CreateUser_users [of generate _ t _ _ _ s] by (cases o') fastforce+
qed

section \<open>Administrators\<close>

definition users_ok :: "db \<Rightarrow> bool" where
  "users_ok s \<longleftrightarrow> distinct (map u_uuid (tbl_user s)) \<and> has_row (\<lambda>u. u_role u = RoleAdmin) (tbl_user s)"

lemma distinct_key_filter: "distinct (map f xs) \<Longrightarrow> length (filter (\<lambda>x. f x = k \<and> P x) xs) \<le> 1"
  by (induction xs) (auto simp: filter_empty_conv image_iff)

lemma filter_split_length: "length (filter P xs) = length (filter (\<lambda>x. Q x \<and> P x) xs) + length (filter (\<lambda>x. \<not> Q x \<and> P x) xs)"
  by (induction xs) auto

lemma DeleteUser_users_ok:
  assumes "users_ok s"
  shows "users_ok (snd (DeleteUser uuid s))"
proof (cases rule: DeleteUser_cases [of uuid s])
  case kept
  with assms show ?thesis by simp
next
  case (deleted u)
  from assms have d: "distinct (map u_uuid (tbl_user s))" and "\<exists>r \<in> set (tbl_user s). u_role r = RoleAdmin"
    by (auto simp: users_ok_def)
  have "\<exists>r \<in> set (tbl_user s). u_role r = RoleAdmin \<and> u_uuid r \<noteq> uuid"
  proof (cases "u_role u = RoleAdmin")
    case True
    let ?admin = "\<lambda>r. u_role r = RoleAdmin"
    have "length (filter ?admin (tbl_user s)) > 1" using True deleted(3) by simp
    then have "length (filter (\<lambda>r. u_uuid r \<noteq> uuid \<and> ?admin r) (tbl_user s)) > 0"
      using filter_split_length [of ?admin "tbl_user s" "\<lambda>r. u_uuid r = uuid"] distinct_key_filter [OF d, of uuid ?admin]
      by linarith
    then show ?thesis by (auto simp: filter_empty_conv)
  next
    case False
    moreover have "u \<in> set (tbl_user s)" "u_uuid u = uuid" using find_row_SomeD [OF deleted(2)] by auto
    ultimately show ?thesis using d \<open>\<exists>r \<in> set (tbl_user s). u_role r = RoleAdmin\<close>
      by (metis (mono_tags, lifting) distinct_map inj_onD)
  qed
  with deleted(1) d show ?thesis
    by (auto simp: users_ok_def delete_user_row_def delete_rows_def distinct_map_filter)
qed

lemma account_exec_users_ok: "users_ok s \<Longrightarrow> users_ok (account_exec sha256 generate op s)"
proof (cases "\<exists>t v. op = (t, DeleteUserOp v)")
  case True
  moreover assume "users_ok s"
  ultimately show ?thesis using DeleteUser_users_ok by auto
next
  case False
  moreover assume "users_ok s"
  ultimately show ?thesis using account_exec_users [of op sha256 generate s]
    by (auto simp: users_ok_def image_iff) blast
qed

text \<open>
  C21. The deployment can never lock itself out: in any history of account operations an administrator
  remains, however users are created and deleted, and no two users share an identifier.
\<close>

theorem administrator_remains: "users_ok s \<Longrightarrow> users_ok (account_run sha256 generate ops s)"
  by (rule account_run_keeps) (simp_all add: account_exec_users_ok)

section \<open>Deleted users\<close>

lemma find_row_kept: "find_row P rows = Some r \<Longrightarrow> Q r \<Longrightarrow> find_row P (filter Q rows) = Some r"
  by (induction rows) (auto split: if_splits)

lemma lookups_in_users:
  "GetUserByUUID s v = Inr w \<Longrightarrow> \<exists>u \<in> set (tbl_user s). w = scan_user u"
  "GetSessionUser sha256 s t token = Inr w \<Longrightarrow> \<exists>u \<in> set (tbl_user s). w = scan_user u"
  "GetAccessTokenUser sha256 s t token = Inr w \<Longrightarrow> \<exists>u \<in> set (tbl_user s). w = scan_user u"
  "VerifyAPIKey sha256 s keyID secret = Inr w \<Longrightarrow> \<exists>u \<in> set (tbl_user s). w = scan_user u"
  "VerifyLogin compare s name pw = Inr w \<Longrightarrow> \<exists>u \<in> set (tbl_user s). w = scan_user u"
  by (auto simp: GetUserByUUID_def GetSessionUser_def GetAccessTokenUser_def VerifyAPIKey_def VerifyLogin_def
      split: option.splits if_splits dest!: find_row_SomeD)

definition unknown_user :: "uuid \<Rightarrow> db \<Rightarrow> bool" where
  "unknown_user v s \<longleftrightarrow> \<not> has_row (\<lambda>u. u_uuid u = v) (tbl_user s)"

lemma account_exec_unknown:
  assumes "unknown_user v s" "\<And>t name pw role. op \<noteq> (t, CreateUserOp v name pw role)"
  shows "unknown_user v (account_exec sha256 generate op s)"
proof (cases "\<exists>t w. op = (t, DeleteUserOp w)")
  case True
  then obtain t w where "op = (t, DeleteUserOp w)" by blast
  with assms(1) show ?thesis
    by (cases rule: DeleteUser_cases [of w s]) (auto simp: unknown_user_def delete_user_row_def)
next
  case False
  with assms show ?thesis using account_exec_users [of op sha256 generate s] by (fastforce simp: unknown_user_def)
qed

text \<open>
  C22. Deleting a user takes effect at once and for good: from then on, whatever account operations follow,
  no session, access token, API key or password resolves to that user, and none of its entitlements is
  left behind. (A later user gets a fresh identifier, so it is a different user even under the same name.)
\<close>

theorem deleted_user_locked_out:
  assumes "DeleteUser v s = (Inr (), s1)" and "s2 = account_run sha256 generate ops s1"
    and "\<forall>op \<in> set ops. \<forall>t name pw role. op \<noteq> (t, CreateUserOp v name pw role)"
  shows "(\<forall>t token w. GetSessionUser sha256 s2 t token = Inr w \<longrightarrow> usr_UUID w \<noteq> v)
    \<and> (\<forall>t token w. GetAccessTokenUser sha256 s2 t token = Inr w \<longrightarrow> usr_UUID w \<noteq> v)
    \<and> (\<forall>keyID secret w. VerifyAPIKey sha256 s2 keyID secret = Inr w \<longrightarrow> usr_UUID w \<noteq> v)
    \<and> (\<forall>name pw w. VerifyLogin compare s2 name pw = Inr w \<longrightarrow> usr_UUID w \<noteq> v)
    \<and> (\<forall>e \<in> set (tbl_entitlement s1). e_subject_id e \<noteq> Some v)"
proof -
  have s1: "s1 = delete_user_row v s" using assms(1) by (cases rule: DeleteUser_cases [of v s]) auto
  then have "unknown_user v s1" by (simp add: unknown_user_def delete_user_row_def)
  then have "unknown_user v s2" unfolding assms(2) using assms(3)
    by (intro account_run_keeps [where P = "unknown_user v"] account_exec_unknown) auto
  then have "\<And>u. u \<in> set (tbl_user s2) \<Longrightarrow> usr_UUID (scan_user u) \<noteq> v" by (auto simp: unknown_user_def scan_user_def)
  moreover have "\<forall>e \<in> set (tbl_entitlement s1). e_subject_id e \<noteq> Some v"
    unfolding s1 by (auto simp: delete_user_row_def set_update_rows)
  ultimately show ?thesis by (blast dest: lookups_in_users)
qed

section \<open>The life of an access token\<close>

definition token_alive :: "access_token_row \<Rightarrow> user_row \<Rightarrow> db \<Rightarrow> bool" where
  "token_alive r u s \<longleftrightarrow> find_row (\<lambda>x. at_token_hash x = at_token_hash r) (tbl_access_token s) = Some r
     \<and> find_row (\<lambda>x. u_uuid x = at_user r) (tbl_user s) = Some u"

lemma token_alive_user:
  assumes "token_alive r u s" "at_token_hash r = hashToken sha256 token"
  shows "GetAccessTokenUser sha256 s t token = (if t \<le> parseTime (at_expires_at r) then Inr (scan_user u) else Inl ErrNotFound)"
  using assms by (auto simp: token_alive_def GetAccessTokenUser_def)

lemma tokens_keep_tokens [simp]:
  "tbl_access_token (snd (CreateSession sha256 token now v ttl s)) = tbl_access_token s"
  "tbl_access_token (snd (DeleteSession sha256 token s)) = tbl_access_token s"
  "tbl_access_token (snd (SetAPIKey sha256 keyID secret now v s)) = tbl_access_token s"
  "tbl_access_token (snd (RevokePublisherCredential now uuid s)) = tbl_access_token s"
  "tbl_access_token (snd (CreatePublisherCredential sha256 uuid token now label scope s)) = tbl_access_token s"
  "tbl_access_token (snd (CreateUser generate uuid now name pw role s)) = tbl_access_token s"
  by (simp_all add: CreateSession_def DeleteSession_def SetAPIKey_def RevokePublisherCredential_def CreateUser_def insert_user_def
      CreatePublisherCredential_def insert_credential_def bindR_def readR_def returnR_def execR_def Let_def split: sum.splits prod.splits)

lemma CreateAccessToken_tokens:
  "\<exists>rows. tbl_access_token (snd (CreateAccessToken sha256 token now v ttl s)) = tbl_access_token s @ rows"
  by (simp add: CreateAccessToken_def Let_def)

lemma DeleteUser_token_alive:
  assumes "token_alive r u s" "v \<noteq> at_user r"
  shows "token_alive r u (snd (DeleteUser v s))"
proof (cases rule: DeleteUser_cases [of v s])
  case kept
  with assms show ?thesis by simp
next
  case deleted
  have "u_uuid u = at_user r" using assms(1) by (auto simp: token_alive_def dest: find_row_SomeD)
  with assms deleted(1) show ?thesis
    by (auto simp: token_alive_def delete_user_row_def delete_rows_def intro!: find_row_kept)
qed

lemma account_exec_token_alive:
  assumes "token_alive r u s" "\<And>t. op \<noteq> (t, DeleteUserOp (at_user r))"
  shows "token_alive r u (account_exec sha256 generate op s)"
proof (cases "\<exists>t v. op = (t, DeleteUserOp v)")
  case True
  then obtain t v where op: "op = (t, DeleteUserOp v)" by blast
  with assms(2) [of t] have "v \<noteq> at_user r" by simp
  with assms(1) op show ?thesis by (simp add: DeleteUser_token_alive)
next
  case False
  have "\<exists>rows. tbl_access_token (account_exec sha256 generate op s) = tbl_access_token s @ rows"
  proof (cases op)
    case (Pair t o')
    then show ?thesis using False CreateAccessToken_tokens by (cases o') auto
  qed
  moreover have "\<exists>rows. tbl_user (account_exec sha256 generate op s) = tbl_user s @ rows"
    using account_exec_users [of op sha256 generate s] False by auto
  ultimately show ?thesis using assms(1) by (auto simp: token_alive_def find_row_append)
qed

lemma CreateAccessToken_alive:
  assumes "CreateAccessToken sha256 token now v ttl s = (Inr x, s1)"
  shows "\<exists>u. x = (token, now + ttl) \<and> find_row (\<lambda>u. u_uuid u = v) (tbl_user s) = Some u
     \<and> token_alive \<lparr>at_token_hash = hashToken sha256 token, at_user = v, at_expires_at = formatTime (now + ttl)\<rparr> u s1"
proof -
  from assms have "user_exists s v" by (auto simp: CreateAccessToken_def Let_def split: if_splits)
  then obtain u where u: "find_row (\<lambda>u. u_uuid u = v) (tbl_user s) = Some u"
    by (cases "find_row (\<lambda>u. u_uuid u = v) (tbl_user s)") (auto simp: user_exists_def find_row_None)
  have "find_row (\<lambda>x. at_token_hash x = hashToken sha256 token) (tbl_access_token s) = None"
    using assms by (auto simp: CreateAccessToken_def Let_def find_row_None split: if_splits)
  with assms u show ?thesis
    by (auto simp: CreateAccessToken_def Let_def token_alive_def find_row_append split: if_splits)
qed

lemma access_token_lifetime_plain:
  assumes "CreateAccessToken sha256 token now v ttl s = (Inr (token', expiresAt), s1)"
  shows "token' = token \<and> expiresAt = now + ttl
    \<and> (\<exists>user. GetUserByUUID s v = Inr user
       \<and> (\<forall>t. GetAccessTokenUser sha256 s1 t token =
              (if t \<le> parseTime (formatTime expiresAt) then Inr user else Inl ErrNotFound)))"
  using CreateAccessToken_alive [OF assms] token_alive_user [of _ _ s1 sha256 token] by (fastforce simp: GetUserByUUID_def)

text \<open>
  An issued access token works, and works no longer than it should: through any later history of
  account operations that does not delete its user, the token resolves to exactly that user until its
  expiry, which is the promised one rounded down to the second, and to nobody after it.
\<close>

theorem access_token_lifetime:
  assumes "CreateAccessToken sha256 token now v ttl s = (Inr (token', expiresAt), s1)"
    and "\<forall>op \<in> set ops. snd op \<noteq> DeleteUserOp v"
  shows "token' = token \<and> expiresAt = now + ttl
    \<and> (\<exists>user. GetUserByUUID s v = Inr user
       \<and> (\<forall>t. GetAccessTokenUser sha256 (account_run sha256 generate ops s1) t token =
              (if t \<le> parseTime (formatTime expiresAt) then Inr user else Inl ErrNotFound)))"
proof -
  let ?r = "\<lparr>at_token_hash = hashToken sha256 token, at_user = v, at_expires_at = formatTime (now + ttl)\<rparr>"
  obtain u where x: "token' = token" "expiresAt = now + ttl" and u: "find_row (\<lambda>u. u_uuid u = v) (tbl_user s) = Some u"
    and alive: "token_alive ?r u s1" using CreateAccessToken_alive [OF assms(1)] by auto
  have "token_alive ?r u (account_run sha256 generate ops s1)"
    using assms(2) alive by (intro account_run_keeps [where P = "token_alive ?r u"] account_exec_token_alive) auto
  with u x show ?thesis using token_alive_user [of ?r u _ sha256 token] by (auto simp: GetUserByUUID_def)
qed

text \<open>
  The token exchange as a client sees it: with a valid API key and the right grant type the endpoint
  answers with a token (unless the random token collides with a stored one); presented as a bearer token
  it makes the caller the key's user until the last second of its lifetime, and never after the lifetime.
\<close>

theorem token_exchange:
  assumes "basicAuthUnescaped r = Some (keyID, secret)" "tkr_grant_type r = Some ''client_credentials''"
    and "VerifyAPIKey sha256 s keyID secret = Inr user" "0 \<le> ttl" "fresh \<noteq> []"
    and "\<forall>x \<in> set (tbl_access_token s). at_token_hash x \<noteq> hashToken sha256 fresh"
  shows "\<exists>s1. requestToken sha256 fresh now ttl r s = (TokenIssued fresh (ttl div 1000000000), s1)
    \<and> (\<forall>q. ar_authorization q = ''Bearer '' @ fresh \<and> ar_path q \<noteq> tokenPath \<longrightarrow>
         (ar_now q \<le> now + ttl - 1000000000 \<longrightarrow> resolvePrincipal sha256 s1 tokenPath q = (\<lparr>UserUUID = usr_UUID user\<rparr>, False))
       \<and> (ar_now q > now + ttl \<longrightarrow> resolvePrincipal sha256 s1 tokenPath q = (\<lparr>UserUUID = []\<rparr>, True)))"
proof -
  obtain u where u: "u \<in> set (tbl_user s)" "user = scan_user u" using lookups_in_users(4) [OF assms(3)] by blast
  then have "user_exists s (usr_UUID user)" by (auto simp: user_exists_def scan_user_def)
  with assms(6) obtain s1 where c: "CreateAccessToken sha256 fresh now (usr_UUID user) ttl s = (Inr (fresh, now + ttl), s1)"
    by (auto simp: CreateAccessToken_def Let_def)
  have issued: "requestToken sha256 fresh now ttl r s = (TokenIssued fresh (ttl div 1000000000), s1)"
    using assms c by (simp add: requestToken_def)
  obtain w where w: "GetUserByUUID s (usr_UUID user) = Inr w"
    and look: "\<And>t. GetAccessTokenUser sha256 s1 t fresh = (if t \<le> parseTime (formatTime (now + ttl)) then Inr w else Inl ErrNotFound)"
    using access_token_lifetime_plain [OF c] by auto
  have "usr_UUID w = usr_UUID user" using w by (auto simp: GetUserByUUID_def scan_user_def split: option.splits dest: find_row_SomeD)
  moreover have "parseTime (formatTime (now + ttl)) \<le> now + ttl" "now + ttl - 1000000000 < parseTime (formatTime (now + ttl))"
    using parse_format_le [of "now + ttl"] parse_format_gt [of "now + ttl"] by auto
  ultimately have "\<forall>q. ar_authorization q = ''Bearer '' @ fresh \<and> ar_path q \<noteq> tokenPath \<longrightarrow>
         (ar_now q \<le> now + ttl - 1000000000 \<longrightarrow> resolvePrincipal sha256 s1 tokenPath q = (\<lparr>UserUUID = usr_UUID user\<rparr>, False))
       \<and> (ar_now q > now + ttl \<longrightarrow> resolvePrincipal sha256 s1 tokenPath q = (\<lparr>UserUUID = []\<rparr>, True))"
    using assms(5) by (auto simp: resolvePrincipal_def BearerUser_def look)
  with issued show ?thesis by blast
qed

text \<open>
  The expiry column drops the fraction of a second, so unless the lifetime ends on a whole second the
  token is refused before the advertised number of seconds has passed.
\<close>

lemma token_refused_early:
  assumes "CreateAccessToken sha256 token now v ttl s = (Inr x, s1)" "(now + ttl) mod 1000000000 \<noteq> 0"
  shows "GetAccessTokenUser sha256 s1 (now + ttl) token = Inl ErrNotFound"
proof -
  let ?expiry = "parseTime (formatTime (now + ttl))"
  have "?expiry + (now + ttl) mod 1000000000 = now + ttl"
    unfolding parseTime_def formatTime_def by (simp add: mult.commute)
  moreover have "(now + ttl) mod 1000000000 \<ge> 0" by simp
  ultimately have "?expiry < now + ttl" using assms(2) by linarith
  moreover have "x = (token, now + ttl)" using CreateAccessToken_alive [OF assms(1)] by auto
  ultimately show ?thesis
    using assms(1) access_token_lifetime_plain [of sha256 token now v ttl s token "now + ttl" s1] by auto
qed

section \<open>Publisher credentials\<close>

definition revoked_in :: "uuid \<Rightarrow> db \<Rightarrow> bool" where
  "revoked_in v s \<longleftrightarrow> has_row (\<lambda>c. cred_uuid c = v) (tbl_credential s)
     \<and> (\<forall>c \<in> set (tbl_credential s). cred_uuid c = v \<longrightarrow> cred_revoked_at c \<noteq> None)"

lemma others_keep_credentials [simp]:
  "tbl_credential (snd (CreateSession sha256 token now u ttl s)) = tbl_credential s"
  "tbl_credential (snd (DeleteSession sha256 token s)) = tbl_credential s"
  "tbl_credential (snd (SetAPIKey sha256 keyID secret now u s)) = tbl_credential s"
  "tbl_credential (snd (CreateAccessToken sha256 token now u ttl s)) = tbl_credential s"
  "tbl_credential (snd (CreateUser generate uuid now name pw role s)) = tbl_credential s"
  "tbl_credential (snd (DeleteUser uuid s)) = tbl_credential s"
  by (simp_all add: CreateSession_def DeleteSession_def SetAPIKey_def CreateAccessToken_def CreateUser_def insert_user_def
      DeleteUser_def delete_user_row_def execR_def Let_def split: sum.splits prod.splits option.splits)

lemma CreatePublisherCredential_rows:
  "tbl_credential (snd (CreatePublisherCredential sha256 uuid token now label scope s)) = tbl_credential s
   \<or> (\<exists>c. tbl_credential (snd (CreatePublisherCredential sha256 uuid token now label scope s)) = tbl_credential s @ [c]
        \<and> \<not> has_row (\<lambda>r. cred_uuid r = cred_uuid c) (tbl_credential s))"
  by (auto simp: CreatePublisherCredential_def insert_credential_def bindR_def readR_def returnR_def split: sum.splits prod.splits)

lemma RevokePublisherCredential_keeps: "revoked_in v s \<Longrightarrow> revoked_in v (snd (RevokePublisherCredential now uuid s))"
  by (fastforce simp: revoked_in_def RevokePublisherCredential_def Let_def set_update_rows)

lemma account_exec_revoked: "revoked_in v s \<Longrightarrow> revoked_in v (account_exec sha256 generate op s)"
proof (cases op)
  case (Pair t o')
  moreover assume "revoked_in v s"
  moreover have "revoked_in v (snd (CreatePublisherCredential sha256 u token t label scope s))" if "revoked_in v s" for u token label scope
    using that CreatePublisherCredential_rows [of sha256 u token t label scope s] by (fastforce simp: revoked_in_def)
  ultimately show ?thesis by (cases o') (simp_all add: RevokePublisherCredential_keeps, simp_all add: revoked_in_def)
qed

lemma RevokePublisherCredential_revokes:
  "RevokePublisherCredential now v s = (Inr (), s1) \<Longrightarrow> revoked_in v s1"
  by (auto simp: RevokePublisherCredential_def ExistsPublisherCredential_def revoked_in_def Let_def set_update_rows bex_Un split: if_splits)

text \<open>
  C23. The gate of the publisher API opens only to a stored, unrevoked credential of sufficient scope, and
  a revocation is final: through any later history of account operations no request gets through it with
  the revoked credential.
\<close>

theorem revoked_credential_rejected:
  assumes "RevokePublisherCredential now v s = (Inr (), s1)"
    and "requireScope sha256 (account_run sha256 generate ops s1) minScope r = Proceed cred"
  shows "pcr_UUID cred \<noteq> v \<and> pcr_RevokedAt cred = None \<and> (pcr_Scope cred = PublisherScopeFull \<or> pcr_Scope cred = minScope)
    \<and> (\<exists>token. bearerToken r = Some token \<and>
         (\<exists>c \<in> set (tbl_credential (account_run sha256 generate ops s1)). cred_token_hash c = hashToken sha256 token \<and> cred = scan_credential c))"
proof -
  let ?s = "account_run sha256 generate ops s1"
  have "revoked_in v ?s" by (rule account_run_keeps) (simp_all add: account_exec_revoked RevokePublisherCredential_revokes [OF assms(1)])
  moreover obtain token c where "bearerToken r = Some token" "c \<in> set (tbl_credential ?s)" "cred_token_hash c = hashToken sha256 token"
    and c: "cred = scan_credential c" "pcr_RevokedAt cred = None" and scope: "scopeSatisfies (pcr_Scope cred) minScope"
    using assms(2) by (auto simp: requireScope_def GetPublisherCredentialByToken_def getPublisherCredentialTx_def
        split: option.splits sum.splits if_splits dest!: find_row_SomeD)
  moreover from c have "cred_revoked_at c = None" by (cases "cred_revoked_at c") (simp_all add: scan_credential_def)
  ultimately show ?thesis by (auto simp: revoked_in_def scan_credential_def scopeSatisfies_def split: if_splits)
qed

section \<open>The gates of the administration interfaces\<close>

text \<open>
  Both gates open only to the user of an unexpired session whose role suffices, and to a request that
  changes state only when it comes from the server's own origin.
\<close>

lemma role_gates:
  assumes "requireRole sha256 parse rootURL s minRole r = Proceed user \<or> requireRolePage sha256 parse rootURL s minRole r = Proceed user"
  shows "(usr_Role user = RoleAdmin \<or> usr_Role user = minRole) \<and> (\<exists>u \<in> set (tbl_user s). user = scan_user u)
    \<and> (\<exists>cookie. ar_cookie r = Some cookie \<and> GetSessionUser sha256 s (ar_now r) cookie = Inr user)
    \<and> (ar_method r \<in> {''GET'', ''HEAD'', ''OPTIONS''} \<or>
       (\<exists>o'. o' \<noteq> [] \<and> (o' = ar_origin r \<or> o' = ar_referer r) \<and> parse o' \<noteq> None \<and> parse o' = parse rootURL))"
proof -
  from assms have su: "SessionUser sha256 s r = Some user" and role: "RoleSatisfies (usr_Role user) minRole"
    and so: "SameOrigin parse r rootURL"
    by (auto simp: requireRole_def requireRolePage_def split: option.splits if_splits)
  from su obtain cookie where "ar_cookie r = Some cookie" "GetSessionUser sha256 s (ar_now r) cookie = Inr user"
    by (auto simp: SessionUser_def split: option.splits if_splits sum.splits)
  with role so show ?thesis using lookups_in_users(2)
    by (fastforce simp: RoleSatisfies_def SameOrigin_def Let_def split: if_splits option.splits)
qed

text \<open>A throttled or failed login creates no session; a successful one is the session of that user.\<close>

lemma loginSubmit_session:
  assumes "loginSubmit sha256 compare fresh now ip form limiter s = (p, limiter', s1)"
  shows "s1 = s \<or> (\<exists>username password user. form = FormOf username password \<and> fst (Allow now ip limiter)
     \<and> VerifyLogin compare s username password = Inr user \<and> p = Redirect ''/admin/ui/'' (Some fresh)
     \<and> CreateSession sha256 fresh now (usr_UUID user) SessionTTL s = (Inr (fresh, now + SessionTTL), s1))"
  using assms by (auto simp: loginSubmit_def CreateSession_def Let_def split: prod.splits bool.splits login_form.splits sum.splits if_splits)

section \<open>Examples\<close>

text \<open>
  Two users, one of them with an API key. The stand-ins for the digest and the password hash are the
  identity functions, which are concrete functions of the right types.
\<close>

definition staff_db :: db where
  "staff_db = empty_db\<lparr>
     tbl_user := [\<lparr>u_uuid = uuid1, u_username = ''root'', u_password_hash = ''hunter22'', u_role = RoleAdmin, u_created_at = 0\<rparr>,
                  \<lparr>u_uuid = uuid2, u_username = ''reader'', u_password_hash = ''password'', u_role = RoleConsumer, u_created_at = 0\<rparr>],
     tbl_api_key := [\<lparr>ak_user = uuid2, ak_key_id = ''key'', ak_secret_hash = hexEncode ''secret'', ak_created_at = 0\<rparr>],
     tbl_credential := [\<lparr>cred_uuid = ''c1'', cred_label = ''ci'', cred_token_hash = hexEncode ''t1'', cred_scope = PublisherScopeCICD,
                          cred_created_at = 0, cred_revoked_at = None\<rparr>,
                        \<lparr>cred_uuid = ''c2'', cred_label = ''ops'', cred_token_hash = hexEncode ''t2'', cred_scope = PublisherScopeFull,
                          cred_created_at = 0, cred_revoked_at = None\<rparr>]\<rparr>"

definition bearer_request :: "string \<Rightarrow> time \<Rightarrow> auth_request" where
  "bearer_request token now = \<lparr>ar_method = ''GET'', ar_path = ''/products'', ar_authorization = ''Bearer '' @ token,
     ar_cookie = None, ar_origin = [], ar_referer = [], ar_now = now\<rparr>"

definition staff_ops :: "(time \<times> account_op) list" where
  "staff_ops = [(1, CreateUserOp ''u3'' ''third'' ''long enough'' RoleAdmin), (2, SetAPIKeyOp ''key2'' ''s2'' ''u3''),
     (3, DeleteUserOp uuid1), (4, DeleteUserOp ''u3''), (5, CreateSessionOp ''cookie'' ''u3'' 10)]"

lemma staff_users_ok: "users_ok staff_db"
  by (simp add: users_ok_def staff_db_def uuid1_def uuid2_def)

theorem administrator_remains_witness: "users_ok (account_run id Inr staff_ops staff_db)"
  using administrator_remains [OF staff_users_ok] .

lemma staff_delete: "DeleteUser uuid2 staff_db = (Inr (), snd (DeleteUser uuid2 staff_db))"
  by (intro prod_eqI) (code_simp, simp)

theorem deleted_user_locked_out_witness:
  "\<not> (\<exists>keyID secret w. VerifyAPIKey id (account_run id Inr staff_ops (snd (DeleteUser uuid2 staff_db))) keyID secret = Inr w
       \<and> usr_UUID w = uuid2)"
proof -
  have "\<forall>op \<in> set staff_ops. \<forall>t name pw role. op \<noteq> (t, CreateUserOp uuid2 name pw role)"
    by (simp add: staff_ops_def uuid2_def)
  from deleted_user_locked_out [OF staff_delete refl this, of id Inr "(=)"] show ?thesis by blast
qed

lemma staff_token: "CreateAccessToken id ''fresh'' 7 uuid2 3600000000000 staff_db =
    (Inr (''fresh'', 3600000000007), snd (CreateAccessToken id ''fresh'' 7 uuid2 3600000000000 staff_db))"
  by (intro prod_eqI) (code_simp, simp)

theorem access_token_lifetime_witness:
  "\<exists>user. GetUserByUUID staff_db uuid2 = Inr user \<and>
     (\<forall>t. GetAccessTokenUser id (account_run id Inr staff_ops (snd (CreateAccessToken id ''fresh'' 7 uuid2 3600000000000 staff_db))) t ''fresh'' =
       (if t \<le> 3600000000000 then Inr user else Inl ErrNotFound))"
proof -
  have e: "parseTime (formatTime 3600000000007) = 3600000000000" by (simp add: parseTime_def formatTime_def)
  have "\<forall>op \<in> set staff_ops. snd op \<noteq> DeleteUserOp uuid2" by (simp add: staff_ops_def uuid1_def uuid2_def)
  from access_token_lifetime [OF staff_token this, of Inr] show ?thesis unfolding e by blast
qed

lemma staff_exchange:
  "basicAuthUnescaped \<lparr>tkr_basic = Some (''k%65y'', ''secret''), tkr_grant_type = Some ''client_credentials''\<rparr> = Some (''key'', ''secret'')"
  "VerifyAPIKey id staff_db ''key'' ''secret'' = Inr \<lparr>usr_UUID = uuid2, usr_Username = ''reader'', usr_Role = RoleConsumer, usr_CreatedAt = 0\<rparr>"
  "tbl_access_token staff_db = []"
  by code_simp+

theorem token_exchange_witness:
  "\<exists>s1. requestToken id ''fresh'' 0 3600000000000
           \<lparr>tkr_basic = Some (''k%65y'', ''secret''), tkr_grant_type = Some ''client_credentials''\<rparr> staff_db = (TokenIssued ''fresh'' 3600, s1)
     \<and> resolvePrincipal id s1 ''/token'' (bearer_request ''fresh'' 3599000000000) = (\<lparr>UserUUID = uuid2\<rparr>, False)
     \<and> resolvePrincipal id s1 ''/token'' (bearer_request ''fresh'' 3600000000001) = (\<lparr>UserUUID = []\<rparr>, True)"
  using token_exchange [OF staff_exchange(1) _ staff_exchange(2), of 3600000000000 "''fresh''" 0 "''/token''"]
  by (auto simp: staff_exchange(3) bearer_request_def)

lemma staff_revoke: "RevokePublisherCredential 5 ''c1'' staff_db = (Inr (), snd (RevokePublisherCredential 5 ''c1'' staff_db))"
  by (intro prod_eqI) (code_simp, simp)

lemma staff_gate: "requireScope id (account_run id Inr staff_ops (snd (RevokePublisherCredential 5 ''c1'' staff_db))) PublisherScopeCICD (bearer_request ''t2'' 9) =
     Proceed \<lparr>pcr_UUID = ''c2'', pcr_Label = ''ops'', pcr_Scope = PublisherScopeFull, pcr_CreatedAt = 0, pcr_RevokedAt = None\<rparr>"
  by code_simp

theorem revoked_credential_rejected_witness: "''c2'' \<noteq> ''c1'' \<and>
    requireScope id (snd (RevokePublisherCredential 5 ''c1'' staff_db)) PublisherScopeCICD (bearer_request ''t1'' 9) = Unauthorized ''invalid or revoked bearer token''"
proof
  show "''c2'' \<noteq> ''c1''" using revoked_credential_rejected [OF staff_revoke staff_gate] by simp
  show "requireScope id (snd (RevokePublisherCredential 5 ''c1'' staff_db)) PublisherScopeCICD (bearer_request ''t1'' 9) = Unauthorized ''invalid or revoked bearer token''"
    by code_simp
qed

end
