(* ===== verification/Storage.thy ===== *)
theory Storage
  imports Schema
begin

text \<open>
  The blob store (\<open>internal/storage\<close>): files named by the hexadecimal SHA-256 of their content, written to
  a temporary file first and renamed into place. The operations are given as sequences of file system
  calls; a step relation interleaves the calls of any number of uploads with reads, deletions, failures
  and crashes.
\<close>

section \<open>The file system and the operations\<close>

text \<open>A file system: the content of each path. Directories exist as needed (\<open>MkdirAll\<close>).\<close>

type_synonym fs = "string \<Rightarrow> string option"

definition create_temp :: "string \<Rightarrow> fs \<Rightarrow> fs" where
  "create_temp tmp f = f(tmp \<mapsto> [])"

definition append_file :: "string \<Rightarrow> string \<Rightarrow> fs \<Rightarrow> fs" where
  "append_file path bytes f = f(path := map_option (\<lambda>c. c @ bytes) (f path))"

definition rename_file :: "string \<Rightarrow> string \<Rightarrow> fs \<Rightarrow> fs" where
  "rename_file old new f = (f(old := None))(new := f old)"

definition remove_file :: "string \<Rightarrow> fs \<Rightarrow> fs" where
  "remove_file path f = f(path := None)"

definition sha256Pattern :: "string \<Rightarrow> bool" where
  "sha256Pattern s \<longleftrightarrow> length s = 64 \<and> list_all is_hex s"

text \<open>\<open>filepath.Join\<close> of the clean directory \<open>dir\<close> and two components without separators or dots.\<close>

definition pathFor :: "string \<Rightarrow> string \<Rightarrow> repo_error + string" where
  "pathFor dir sha256Hex =
     (if \<not> sha256Pattern sha256Hex then Inl (ErrOther ''storage: invalid sha256'')
      else Inr (dir @ ''/'' @ take 2 sha256Hex @ ''/'' @ sha256Hex))"

text \<open>
  \<open>Put\<close> and \<open>PutUnchecked\<close> when no call fails: \<open>tmp\<close> is the name \<open>CreateTemp\<close> chose, \<open>bytes\<close> what the
  reader yields. The deferred removal runs on every way out; after a rename there is nothing to remove.
\<close>

definition Put :: "(string \<Rightarrow> string) \<Rightarrow> string \<Rightarrow> string \<Rightarrow> string \<Rightarrow> fs \<Rightarrow> (repo_error + (string \<times> nat)) \<times> fs" where
  "Put sha256 dir tmp bytes f =
     (let f = create_temp tmp f; f = append_file tmp bytes f; sum = hexEncode (sha256 bytes) in
      case pathFor dir sum of
        Inl e \<Rightarrow> (Inl e, remove_file tmp f)
      | Inr finalPath \<Rightarrow> (Inr (sum, length bytes), remove_file tmp (rename_file tmp finalPath f)))"

definition PutUnchecked :: "string \<Rightarrow> string \<Rightarrow> string \<Rightarrow> string \<Rightarrow> fs \<Rightarrow> (repo_error + nat) \<times> fs" where
  "PutUnchecked dir tmp sha256Hex bytes f =
     (case pathFor dir sha256Hex of
        Inl e \<Rightarrow> (Inl e, f)
      | Inr finalPath \<Rightarrow>
          (let f = create_temp tmp f; f = append_file tmp bytes f in
           (Inr (length bytes), remove_file tmp (rename_file tmp finalPath f))))"

definition Open :: "string \<Rightarrow> fs \<Rightarrow> string \<Rightarrow> repo_error + string" where
  "Open dir f sha256Hex =
     (case pathFor dir sha256Hex of
        Inl e \<Rightarrow> Inl e
      | Inr path \<Rightarrow> (case f path of None \<Rightarrow> Inl (ErrOther ''file does not exist'') | Some bytes \<Rightarrow> Inr bytes))"

definition Delete :: "string \<Rightarrow> string \<Rightarrow> fs \<Rightarrow> (repo_error + unit) \<times> fs" where
  "Delete dir sha256Hex f =
     (case pathFor dir sha256Hex of Inl e \<Rightarrow> (Inl e, f) | Inr path \<Rightarrow> (Inr (), remove_file path f))"

section \<open>Paths\<close>

text \<open>A path is built only from 64 hexadecimal digits, so it names a file two levels below the directory.\<close>

lemma hex_no_separator: "is_hex c \<Longrightarrow> c \<noteq> CHR ''/'' \<and> c \<noteq> CHR ''.''"
  by (auto simp: is_hex_def)

lemma pathFor_contained:
  assumes "pathFor dir sha = Inr path"
  shows "\<exists>a b. path = dir @ ''/'' @ a @ ''/'' @ b \<and> length a = 2 \<and> length b = 64
     \<and> (\<forall>c \<in> set (a @ b). c \<noteq> CHR ''/'' \<and> c \<noteq> CHR ''.'')"
proof -
  from assms have s: "length sha = 64" "list_all is_hex sha" and p: "path = dir @ ''/'' @ take 2 sha @ ''/'' @ sha"
    by (auto simp: pathFor_def sha256Pattern_def split: if_splits)
  from s(2) have "\<forall>c \<in> set sha. c \<noteq> CHR ''/'' \<and> c \<noteq> CHR ''.''" by (auto simp: list_all_iff dest: hex_no_separator)
  then have f: "\<forall>c \<in> set (take 2 sha @ sha). c \<noteq> CHR ''/'' \<and> c \<noteq> CHR ''.''" by (auto dest: in_set_takeD)
  have l: "length (take 2 sha) = 2" using s(1) by simp
  show ?thesis using p l s(1) f by blast
qed

lemma pathFor_inj: "pathFor dir a = Inr p \<Longrightarrow> pathFor dir b = Inr p \<Longrightarrow> a = b"
  by (auto simp: pathFor_def sha256Pattern_def append_eq_append_conv split: if_splits)

lemma digest_wellformed: "length (sha256 bytes) = 32 \<Longrightarrow> sha256Pattern (hexEncode (sha256 bytes))"
  by (simp add: sha256Pattern_def hexEncode_hex)

section \<open>What a client may rely on\<close>

text \<open>
  The interface \<open>Storage\<close> with the promises its callers use: \<open>good\<close> is the state invariant, \<open>digest\<close> the
  name a content is stored under.
\<close>

locale blob_storage =
  fixes put :: "'arg \<Rightarrow> string \<Rightarrow> 's \<Rightarrow> (repo_error + (string \<times> nat)) \<times> 's"
    and opened :: "'s \<Rightarrow> string \<Rightarrow> repo_error + string"
    and delete :: "string \<Rightarrow> 's \<Rightarrow> (repo_error + unit) \<times> 's"
    and digest :: "string \<Rightarrow> string"
    and good :: "'s \<Rightarrow> bool"
    and usable :: "'arg \<Rightarrow> bool"
  assumes put_named: "usable a \<Longrightarrow> good s \<Longrightarrow> \<exists>s'. put a bytes s = (Inr (digest bytes, length bytes), s') \<and> good s'"
    and put_open: "usable a \<Longrightarrow> good s \<Longrightarrow> put a bytes s = (r, s') \<Longrightarrow>
          opened s' name = (if name = digest bytes then Inr bytes else opened s name)"
    and delete_good: "good s \<Longrightarrow> good (snd (delete name s))"
    and delete_open: "good s \<Longrightarrow> opened (snd (delete name s)) other = Inr bytes \<longleftrightarrow> other \<noteq> name \<and> opened s other = Inr bytes"
    and good_open: "good s \<Longrightarrow> opened s name = Inr bytes \<Longrightarrow> name = digest bytes"
begin

text \<open>What was stored is what is read under its name.\<close>

lemma put_then_open:
  assumes "usable a" "good s" "put a bytes s = (Inr (name, n), s')"
  shows "name = digest bytes \<and> n = length bytes \<and> good s' \<and> opened s' name = Inr bytes"
proof -
  from put_named [OF assms(1,2), of bytes] assms(3) have "name = digest bytes" "n = length bytes" "good s'" by auto
  with put_open [OF assms] show ?thesis by simp
qed

text \<open>Storing never changes what another name reads, and storing the same bytes again changes no read.\<close>

lemma put_keeps_others:
  assumes "usable a" "good s" "put a bytes s = (r, s')" "opened s name = Inr old"
  shows "opened s' name = Inr old \<or> (name = digest bytes \<and> digest old = digest bytes \<and> opened s' name = Inr bytes)"
  using put_open [OF assms(1-3), of name] good_open [OF assms(2,4)] assms(4) by auto

lemma put_again:
  assumes "usable a" "usable b" "good s" "put a bytes s = (r, s1)" "put b bytes s1 = (q, s2)"
  shows "opened s2 name = opened s1 name"
proof -
  have "good s1" using put_named [OF assms(1,3), of bytes] assms(4) by auto
  then show ?thesis using put_open [OF assms(1,3,4)] put_open [OF assms(2) _ assms(5)] by simp
qed

end

text \<open>
  A file system is good when every blob has the digest of its content as its name. A temporary name is
  usable when no file and no blob has it.
\<close>

definition good_fs :: "(string \<Rightarrow> string) \<Rightarrow> string \<Rightarrow> fs \<Rightarrow> bool" where
  "good_fs sha256 dir f \<longleftrightarrow>
     (\<forall>name path bytes. pathFor dir name = Inr path \<longrightarrow> f path = Some bytes \<longrightarrow> name = hexEncode (sha256 bytes))"

definition temp_name :: "string \<Rightarrow> string \<Rightarrow> bool" where
  "temp_name dir tmp \<longleftrightarrow> (\<exists>n. tmp = dir @ ''/upload-'' @ n \<and> CHR ''/'' \<notin> set n)"

lemma temp_not_blob:
  assumes "temp_name dir tmp"
  shows "pathFor dir name \<noteq> Inr tmp"
proof
  assume "pathFor dir name = Inr tmp"
  then have p: "tmp = dir @ ''/'' @ take 2 name @ ''/'' @ name" by (simp add: pathFor_def split: if_splits)
  from assms obtain n where n: "tmp = dir @ ''/upload-'' @ n" "CHR ''/'' \<notin> set n" unfolding temp_name_def by blast
  have "dir @ ''/'' @ ''upload-'' @ n = dir @ ''/'' @ take 2 name @ ''/'' @ name" using p n(1) by simp
  then have "''upload-'' @ n = take 2 name @ ''/'' @ name" by (simp only: same_append_eq)
  moreover have "CHR ''/'' \<in> set (take 2 name @ ''/'' @ name)" by simp
  ultimately have "CHR ''/'' \<in> set (''upload-'' @ n)" by (simp only:)
  then have "CHR ''/'' \<in> set ''upload-'' \<or> CHR ''/'' \<in> set n" by (simp only: set_append Un_iff)
  moreover have "CHR ''/'' \<notin> set ''upload-''" by simp
  ultimately show False using n(2) by blast
qed

lemma Put_eq:
  assumes "temp_name dir tmp" "length (sha256 bytes) = 32"
  shows "\<exists>path. pathFor dir (hexEncode (sha256 bytes)) = Inr path
    \<and> Put sha256 dir tmp bytes f = (Inr (hexEncode (sha256 bytes), length bytes), f(path \<mapsto> bytes, tmp := None))"
proof -
  obtain path where p: "pathFor dir (hexEncode (sha256 bytes)) = Inr path"
    using digest_wellformed [of sha256 bytes] assms(2) by (simp add: pathFor_def)
  with temp_not_blob [OF assms(1)] have "path \<noteq> tmp" by metis
  with p show ?thesis
    by (auto simp: Put_def Let_def create_temp_def append_file_def rename_file_def remove_file_def fun_eq_iff)
qed

lemma Open_update:
  assumes "pathFor dir name = Inr path" "temp_name dir tmp"
  shows "Open dir (f(path \<mapsto> bytes, tmp := None)) other = (if other = name then Inr bytes else Open dir f other)"
proof (cases "pathFor dir other")
  case (Inl e)
  with assms(1) show ?thesis by (auto simp: Open_def)
next
  case (Inr q)
  have "q \<noteq> tmp" using temp_not_blob [OF assms(2), of other] Inr by auto
  moreover have "q = path \<longleftrightarrow> other = name" using pathFor_inj Inr assms(1) by fastforce
  ultimately show ?thesis using Inr by (simp add: Open_def)
qed

definition usable_temp :: "(string \<Rightarrow> string) \<Rightarrow> string \<Rightarrow> string \<Rightarrow> bool" where
  "usable_temp sha256 dir tmp \<longleftrightarrow> temp_name dir tmp \<and> (\<forall>bytes. length (sha256 bytes) = 32)"

lemma good_fs_Put:
  assumes "temp_name dir tmp" "good_fs sha256 dir f" "pathFor dir (hexEncode (sha256 bytes)) = Inr path"
  shows "good_fs sha256 dir (f(path \<mapsto> bytes, tmp := None))"
  using assms(2) temp_not_blob [OF assms(1)] pathFor_inj [OF _ assms(3)] by (auto simp: good_fs_def)

lemma Delete_Open:
  "Open dir (snd (Delete dir name f)) other = Inr bytes \<longleftrightarrow> other \<noteq> name \<and> Open dir f other = Inr bytes"
  using pathFor_inj [of dir other _ name]
  by (auto simp: Open_def Delete_def remove_file_def split: sum.splits option.splits)

interpretation fsblob: blob_storage "\<lambda>tmp bytes. Put sha256 dir tmp bytes" "Open dir" "Delete dir"
  "\<lambda>bytes. hexEncode (sha256 bytes)" "good_fs sha256 dir" "usable_temp sha256 dir"
  for sha256 :: "string \<Rightarrow> string" and dir :: string
proof (unfold_locales, goal_cases)
  case (1 tmp f bytes)
  then have t: "temp_name dir tmp" "length (sha256 bytes) = 32" by (simp_all add: usable_temp_def)
  from Put_eq [of dir tmp sha256 bytes f, OF t] good_fs_Put [OF t(1) 1(2)] show ?case by auto
next
  case (2 tmp f bytes r f' name)
  then have t: "temp_name dir tmp" "length (sha256 bytes) = 32" by (simp_all add: usable_temp_def)
  from Put_eq [of dir tmp sha256 bytes f, OF t] 2(3) Open_update [OF _ t(1)] show ?case by auto
next
  case (3 f name)
  then show ?case by (auto simp: good_fs_def Delete_def remove_file_def split: sum.splits)
next
  case (4 f name other bytes)
  show ?case by (rule Delete_Open)
next
  case (5 f name bytes)
  then show ?case by (auto simp: good_fs_def Open_def split: sum.splits option.splits)
qed

section \<open>Uploads side by side\<close>

text \<open>
  An upload in progress: its temporary file, the name \<open>PutUnchecked\<close> was given (none for \<open>Put\<close>), the whole
  body, what is written and what is still to come, and whether the rename has happened.
\<close>

record upload =
  up_tmp :: string
  up_name :: "string option"
  up_body :: string
  up_got :: string
  up_todo :: string
  up_renamed :: bool

text \<open>
  The store with the uploads in progress; \<open>st_stored\<close> records each completed upload: whether its name was
  computed, the name, and the body.
\<close>

record store =
  st_files :: fs
  st_uploads :: "nat \<Rightarrow> upload option"
  st_stored :: "(bool \<times> string \<times> string) list"

definition free_temp :: "string \<Rightarrow> store \<Rightarrow> string \<Rightarrow> bool" where
  "free_temp dir s tmp \<longleftrightarrow> temp_name dir tmp \<and> st_files s tmp = None \<and> (\<forall>i u. st_uploads s i = Some u \<longrightarrow> up_tmp u \<noteq> tmp)"

definition final_name :: "(string \<Rightarrow> string) \<Rightarrow> upload \<Rightarrow> string" where
  "final_name sha256 u = (case up_name u of None \<Rightarrow> hexEncode (sha256 (up_got u)) | Some n \<Rightarrow> n)"

text \<open>
  One file system call of some upload, a deletion, or a crash. \<open>release\<close> is the deferred removal, which runs
  after the rename and after any failure before it. \<open>CreateTemp\<close> picks a name no file has and no running
  upload uses.
\<close>

inductive store_step :: "(string \<Rightarrow> string) \<Rightarrow> string \<Rightarrow> store \<Rightarrow> store \<Rightarrow> bool" for sha256 dir where
  begin_upload: "st_uploads s i = None \<Longrightarrow> free_temp dir s tmp \<Longrightarrow> (\<And>n. name = Some n \<Longrightarrow> sha256Pattern n) \<Longrightarrow>
     store_step sha256 dir s (s\<lparr>st_files := create_temp tmp (st_files s), st_uploads := (st_uploads s)(i \<mapsto>
       \<lparr>up_tmp = tmp, up_name = name, up_body = bytes, up_got = [], up_todo = bytes, up_renamed = False\<rparr>)\<rparr>)"
| write_chunk: "st_uploads s i = Some u \<Longrightarrow> \<not> up_renamed u \<Longrightarrow> up_todo u = chunk @ rest \<Longrightarrow>
     store_step sha256 dir s (s\<lparr>st_files := append_file (up_tmp u) chunk (st_files s),
       st_uploads := (st_uploads s)(i \<mapsto> u\<lparr>up_got := up_got u @ chunk, up_todo := rest\<rparr>)\<rparr>)"
| rename: "st_uploads s i = Some u \<Longrightarrow> \<not> up_renamed u \<Longrightarrow> up_todo u = [] \<Longrightarrow> pathFor dir (final_name sha256 u) = Inr path \<Longrightarrow>
     store_step sha256 dir s (s\<lparr>st_files := rename_file (up_tmp u) path (st_files s),
       st_uploads := (st_uploads s)(i \<mapsto> u\<lparr>up_renamed := True\<rparr>),
       st_stored := (up_name u = None, final_name sha256 u, up_body u) # st_stored s\<rparr>)"
| release: "st_uploads s i = Some u \<Longrightarrow>
     store_step sha256 dir s (s\<lparr>st_files := remove_file (up_tmp u) (st_files s), st_uploads := (st_uploads s)(i := None)\<rparr>)"
| delete: "store_step sha256 dir s (s\<lparr>st_files := snd (Delete dir name (st_files s))\<rparr>)"
| crash: "store_step sha256 dir s (s\<lparr>st_uploads := (\<lambda>_. None)\<rparr>)"

definition store_init :: "string \<Rightarrow> store \<Rightarrow> bool" where
  "store_init dir s \<longleftrightarrow> (\<forall>name path. pathFor dir name = Inr path \<longrightarrow> st_files s path = None)
     \<and> (\<forall>i. st_uploads s i = None) \<and> st_stored s = []"

inductive store_reachable :: "(string \<Rightarrow> string) \<Rightarrow> string \<Rightarrow> store \<Rightarrow> bool" for sha256 dir where
  init: "store_init dir s \<Longrightarrow> store_reachable sha256 dir s"
| step: "store_reachable sha256 dir s \<Longrightarrow> store_step sha256 dir s s' \<Longrightarrow> store_reachable sha256 dir s'"

text \<open>The invariant: running uploads own their temporary files, and every blob is a completed body.\<close>

definition upload_ok :: "string \<Rightarrow> fs \<Rightarrow> upload \<Rightarrow> bool" where
  "upload_ok dir f u \<longleftrightarrow> temp_name dir (up_tmp u) \<and> up_got u @ up_todo u = up_body u
     \<and> (\<not> up_renamed u \<longrightarrow> f (up_tmp u) = Some (up_got u))"

definition blobs_whole :: "string \<Rightarrow> fs \<Rightarrow> (bool \<times> string \<times> string) list \<Rightarrow> bool" where
  "blobs_whole dir f stored \<longleftrightarrow>
     (\<forall>name path bytes. pathFor dir name = Inr path \<longrightarrow> f path = Some bytes \<longrightarrow> (\<exists>checked. (checked, name, bytes) \<in> set stored))"

definition names_true :: "(string \<Rightarrow> string) \<Rightarrow> (bool \<times> string \<times> string) list \<Rightarrow> bool" where
  "names_true sha256 stored \<longleftrightarrow> (\<forall>name bytes. (True, name, bytes) \<in> set stored \<longrightarrow> name = hexEncode (sha256 bytes))"

definition store_inv :: "(string \<Rightarrow> string) \<Rightarrow> string \<Rightarrow> store \<Rightarrow> bool" where
  "store_inv sha256 dir s \<longleftrightarrow>
     (\<forall>i u. st_uploads s i = Some u \<longrightarrow> upload_ok dir (st_files s) u)
   \<and> (\<forall>i j u v. st_uploads s i = Some u \<longrightarrow> st_uploads s j = Some v \<longrightarrow> i \<noteq> j \<longrightarrow> up_tmp u \<noteq> up_tmp v)
   \<and> blobs_whole dir (st_files s) (st_stored s) \<and> names_true sha256 (st_stored s)"

text \<open>A call on a temporary file of another upload, or on a blob, leaves an upload's own file alone.\<close>

lemma upload_ok_other:
  assumes "upload_ok dir f u" "\<And>p. p \<noteq> q \<Longrightarrow> f' p = f p" "up_tmp u \<noteq> q"
  shows "upload_ok dir f' u"
  using assms by (auto simp: upload_ok_def)

lemma blobs_whole_temp:
  assumes "blobs_whole dir f stored" "temp_name dir tmp" "\<And>p. p \<noteq> tmp \<Longrightarrow> f' p = f p"
  shows "blobs_whole dir f' stored"
  unfolding blobs_whole_def
proof (intro allI impI)
  fix name path bytes
  assume p: "pathFor dir name = Inr path" and b: "f' path = Some bytes"
  from p temp_not_blob [OF assms(2)] have "path \<noteq> tmp" by auto
  with b assms(3) have "f path = Some bytes" by simp
  with p assms(1) show "\<exists>checked. (checked, name, bytes) \<in> set stored" by (simp add: blobs_whole_def)
qed

lemma blobs_whole_remove: "blobs_whole dir f stored \<Longrightarrow> blobs_whole dir (snd (Delete dir name f)) stored"
  by (auto simp: blobs_whole_def Delete_def remove_file_def split: sum.splits)

lemma upload_ok_delete: "upload_ok dir f u \<Longrightarrow> upload_ok dir (snd (Delete dir name f)) u"
  using temp_not_blob [of dir "up_tmp u" name]
  by (auto simp: upload_ok_def Delete_def remove_file_def split: sum.splits)

text \<open>A step of one upload that touches its own temporary file only.\<close>

lemma store_inv_touch:
  assumes inv: "store_inv sha256 dir s" and q: "temp_name dir q" "\<And>j v. j \<noteq> i \<Longrightarrow> st_uploads s j = Some v \<Longrightarrow> up_tmp v \<noteq> q"
    and f': "\<And>p. p \<noteq> q \<Longrightarrow> f' p = st_files s p"
    and w: "\<And>u'. w = Some u' \<Longrightarrow> up_tmp u' = q \<and> upload_ok dir f' u'"
  shows "store_inv sha256 dir (s\<lparr>st_files := f', st_uploads := (st_uploads s)(i := w)\<rparr>)"
proof -
  have "upload_ok dir f' v" if "st_uploads s j = Some v" "j \<noteq> i" for j v
    using that inv q(2) by (intro upload_ok_other [of dir "st_files s" v q f'] f') (auto simp: store_inv_def)
  moreover have "blobs_whole dir f' (st_stored s)"
    using inv q(1) f' by (intro blobs_whole_temp [of dir "st_files s" _ q f']) (auto simp: store_inv_def)
  moreover have "up_tmp v1 \<noteq> up_tmp v2"
    if "((st_uploads s)(i := w)) j1 = Some v1" "((st_uploads s)(i := w)) j2 = Some v2" "j1 \<noteq> j2" for j1 j2 v1 v2
  proof (cases "j1 = i \<or> j2 = i")
    case True
    with that w q(2) show ?thesis by (metis fun_upd_apply)
  next
    case False
    with that inv show ?thesis unfolding store_inv_def by simp
  qed
  ultimately show ?thesis using inv w by (simp add: store_inv_def)
qed

lemma store_inv_rename:
  assumes inv: "store_inv sha256 dir s" and u: "st_uploads s i = Some u" "\<not> up_renamed u" "up_todo u = []"
    and path: "pathFor dir (final_name sha256 u) = Inr path"
  shows "store_inv sha256 dir (s\<lparr>st_files := rename_file (up_tmp u) path (st_files s),
       st_uploads := (st_uploads s)(i \<mapsto> u\<lparr>up_renamed := True\<rparr>),
       st_stored := (up_name u = None, final_name sha256 u, up_body u) # st_stored s\<rparr>)"
proof -
  let ?f = "rename_file (up_tmp u) path (st_files s)"
  let ?stored = "(up_name u = None, final_name sha256 u, up_body u) # st_stored s"
  from inv u have own: "upload_ok dir (st_files s) u" by (simp add: store_inv_def)
  with u have tmp: "temp_name dir (up_tmp u)" and body: "st_files s (up_tmp u) = Some (up_body u)" and got: "up_got u = up_body u"
    by (simp_all add: upload_ok_def)
  have ok: "upload_ok dir ?f v" if "st_uploads s j = Some v" "j \<noteq> i" for j v
  proof -
    from inv that u have v: "upload_ok dir (st_files s) v" "up_tmp v \<noteq> up_tmp u" unfolding store_inv_def by metis+
    then have "up_tmp v \<noteq> path" using temp_not_blob path by (auto simp: upload_ok_def)
    with v show ?thesis by (auto simp: upload_ok_def rename_file_def)
  qed
  have "upload_ok dir ?f (u\<lparr>up_renamed := True\<rparr>)" using own by (simp add: upload_ok_def)
  moreover have "blobs_whole dir ?f ?stored"
    unfolding blobs_whole_def
  proof (intro allI impI)
    fix name q bytes
    assume q: "pathFor dir name = Inr q" and b: "?f q = Some bytes"
    show "\<exists>checked. (checked, name, bytes) \<in> set ?stored"
    proof (cases "q = path")
      case True
      with q path pathFor_inj have "name = final_name sha256 u" by blast
      with True b body show ?thesis by (auto simp: rename_file_def)
    next
      case False
      moreover from q temp_not_blob [OF tmp, of name] have "q \<noteq> up_tmp u" by auto
      ultimately have f: "st_files s q = Some bytes" using b by (simp add: rename_file_def)
      have "blobs_whole dir (st_files s) (st_stored s)" using inv by (simp add: store_inv_def)
      then have "\<exists>checked. (checked, name, bytes) \<in> set (st_stored s)" using q f unfolding blobs_whole_def by blast
      then show ?thesis by auto
    qed
  qed
  moreover have "names_true sha256 ?stored" using inv got
    by (auto simp: store_inv_def names_true_def final_name_def)
  moreover have "up_tmp v1 \<noteq> up_tmp v2"
    if now: "((st_uploads s)(i \<mapsto> u\<lparr>up_renamed := True\<rparr>)) j1 = Some v1" "((st_uploads s)(i \<mapsto> u\<lparr>up_renamed := True\<rparr>)) j2 = Some v2" "j1 \<noteq> j2"
    for j1 j2 v1 v2
  proof -
    have old: "\<exists>x. st_uploads s j = Some x \<and> up_tmp x = up_tmp v" if "((st_uploads s)(i \<mapsto> u\<lparr>up_renamed := True\<rparr>)) j = Some v" for j v
      using that u(1) by (cases "j = i") auto
    obtain x1 x2 where "st_uploads s j1 = Some x1" "up_tmp x1 = up_tmp v1" "st_uploads s j2 = Some x2" "up_tmp x2 = up_tmp v2"
      using old [OF now(1)] old [OF now(2)] by blast
    moreover have "up_tmp x1 \<noteq> up_tmp x2" using inv calculation(1,3) now(3) unfolding store_inv_def by blast
    ultimately show ?thesis by simp
  qed
  ultimately show ?thesis using ok by (simp add: store_inv_def)
qed

lemma store_step_inv: "store_step sha256 dir s s' \<Longrightarrow> store_inv sha256 dir s \<Longrightarrow> store_inv sha256 dir s'"
proof (induction rule: store_step.induct)
  case (begin_upload s i tmp name bytes)
  then show ?case
    by (intro store_inv_touch [where q = tmp]) (auto simp: free_temp_def create_temp_def upload_ok_def)
next
  case (write_chunk s i u chunk rest)
  then have "upload_ok dir (st_files s) u" "\<And>j v. j \<noteq> i \<Longrightarrow> st_uploads s j = Some v \<Longrightarrow> up_tmp v \<noteq> up_tmp u"
    unfolding store_inv_def by metis+
  with write_chunk show ?case
    by (intro store_inv_touch [where q = "up_tmp u"]) (auto simp: append_file_def upload_ok_def)
next
  case (rename s i u path)
  then show ?case by (intro store_inv_rename)
next
  case (release s i u)
  then have "upload_ok dir (st_files s) u" "\<And>j v. j \<noteq> i \<Longrightarrow> st_uploads s j = Some v \<Longrightarrow> up_tmp v \<noteq> up_tmp u"
    unfolding store_inv_def by metis+
  with release show ?case
    by (intro store_inv_touch [where q = "up_tmp u"]) (auto simp: remove_file_def upload_ok_def)
next
  case (delete s name)
  then show ?case by (simp add: store_inv_def upload_ok_delete blobs_whole_remove)
next
  case (crash s)
  then show ?case by (simp add: store_inv_def)
qed

lemma store_reachable_inv: "store_reachable sha256 dir s \<Longrightarrow> store_inv sha256 dir s"
proof (induction rule: store_reachable.induct)
  case (init s)
  then show ?case by (auto simp: store_init_def store_inv_def blobs_whole_def names_true_def)
next
  case (step s s')
  then show ?case by (simp add: store_step_inv)
qed

text \<open>
  C26. A reader never sees a partly written blob: however the file system calls of any number of uploads
  interleave with each other, with deletions, failing transfers and crashes, what Open returns for a name
  is the entire body of an upload that completed under that name. When that upload was a Put, which
  computes the name, the name is the SHA-256 of the bytes; when it was a PutUnchecked, it is the name the
  caller claimed, whatever the bytes.
\<close>

theorem readers_see_whole_blobs:
  assumes "store_reachable sha256 dir s" "Open dir (st_files s) name = Inr bytes"
  shows "\<exists>checked. (checked, name, bytes) \<in> set (st_stored s) \<and> (checked \<longrightarrow> name = hexEncode (sha256 bytes))"
proof -
  obtain path where "pathFor dir name = Inr path" "st_files s path = Some bytes"
    using assms(2) by (auto simp: Open_def split: sum.splits option.splits)
  with store_reachable_inv [OF assms(1)] show ?thesis by (fastforce simp: store_inv_def blobs_whole_def names_true_def)
qed

text \<open>From every reachable store an upload can run to its end, after which its name reads back its body.\<close>

lemma upload_completes:
  assumes r: "store_reachable sha256 dir s" and i: "st_uploads s i = None" and t: "free_temp dir s tmp" and l: "length (sha256 bytes) = 32"
  shows "\<exists>s'. store_reachable sha256 dir s' \<and> Open dir (st_files s') (hexEncode (sha256 bytes)) = Inr bytes
    \<and> st_uploads s' = st_uploads s \<and> st_stored s' = (True, hexEncode (sha256 bytes), bytes) # st_stored s"
proof -
  let ?u = "\<lambda>got todo ren. \<lparr>up_tmp = tmp, up_name = None, up_body = bytes, up_got = got, up_todo = todo, up_renamed = ren\<rparr>"
  let ?f1 = "create_temp tmp (st_files s)" and ?f2 = "append_file tmp bytes (create_temp tmp (st_files s))"
  from l obtain path where p: "pathFor dir (hexEncode (sha256 bytes)) = Inr path"
    using digest_wellformed [of sha256 bytes] by (auto simp: pathFor_def)
  have tn: "temp_name dir tmp" using t by (simp add: free_temp_def)
  have "store_step sha256 dir s (s\<lparr>st_files := ?f1, st_uploads := (st_uploads s)(i \<mapsto> ?u [] bytes False)\<rparr>)" (is "store_step _ _ _ ?s1")
    using i t by (rule store_step.begin_upload) simp
  moreover have "store_step sha256 dir ?s1 (s\<lparr>st_files := ?f2, st_uploads := (st_uploads s)(i \<mapsto> ?u bytes [] False)\<rparr>)" (is "store_step _ _ _ ?s2")
    using store_step.write_chunk [of ?s1 i "?u [] bytes False" bytes "[]" sha256 dir] by simp
  moreover have "store_step sha256 dir ?s2 (s\<lparr>st_files := rename_file tmp path ?f2, st_uploads := (st_uploads s)(i \<mapsto> ?u bytes [] True),
      st_stored := (True, hexEncode (sha256 bytes), bytes) # st_stored s\<rparr>)" (is "store_step _ _ _ ?s3")
    using store_step.rename [of ?s2 i "?u bytes [] False" dir sha256 path] p by (simp add: final_name_def)
  moreover have "store_step sha256 dir ?s3 (s\<lparr>st_files := remove_file tmp (rename_file tmp path ?f2),
      st_uploads := st_uploads s, st_stored := (True, hexEncode (sha256 bytes), bytes) # st_stored s\<rparr>)" (is "store_step _ _ _ ?s4")
    using store_step.release [of ?s3 i "?u bytes [] True" sha256 dir] i
    by (cases s) (simp add: fun_upd_idem)
  ultimately have "store_reachable sha256 dir ?s4" using r by (meson store_reachable.step)
  moreover have "path \<noteq> tmp" using p temp_not_blob [OF tn, of "hexEncode (sha256 bytes)"] by auto
  then have "Open dir (st_files ?s4) (hexEncode (sha256 bytes)) = Inr bytes"
    using p by (simp add: Open_def remove_file_def rename_file_def append_file_def create_temp_def)
  ultimately show ?thesis by (intro exI [of _ ?s4]) simp
qed

text \<open>A stand-in for the digest with its length, and a store in which one upload completed.\<close>

definition pad32 :: "string \<Rightarrow> string" where
  "pad32 bytes = take 32 (bytes @ replicate 32 (CHR ''0''))"

theorem readers_see_whole_blobs_witness:
  "\<exists>s. store_reachable pad32 ''blobs'' s \<and> Open ''blobs'' (st_files s) (hexEncode (pad32 ''hello'')) = Inr ''hello''
     \<and> (\<exists>checked. (checked, hexEncode (pad32 ''hello''), ''hello'') \<in> set (st_stored s))"
proof -
  let ?s = "\<lparr>st_files = (\<lambda>_. None), st_uploads = (\<lambda>_. None), st_stored = []\<rparr>"
  have "store_reachable pad32 ''blobs'' ?s" by (rule store_reachable.init) (simp add: store_init_def)
  moreover have "free_temp ''blobs'' ?s ''blobs/upload-1''"
    unfolding free_temp_def temp_name_def by (intro conjI exI [of _ "''1''"]) simp_all
  moreover have "length (pad32 ''hello'') = 32" by (simp add: pad32_def)
  ultimately obtain s where "store_reachable pad32 ''blobs'' s" "Open ''blobs'' (st_files s) (hexEncode (pad32 ''hello'')) = Inr ''hello''"
    using upload_completes [of pad32 "''blobs''" ?s 0 "''blobs/upload-1''" "''hello''"] by auto
  with readers_see_whole_blobs show ?thesis by blast
qed

end
