(* ===== verification/Downloads.thy ===== *)
theory Downloads
  imports Complex_Main Accounts Storage
begin

text \<open>
  Content: uploads of artifact files (\<open>internal/admin/upload.go\<close>), the four download endpoints with their
  content negotiation (\<open>internal/api/artifactdownload.go\<close>), and the blob endpoint
  (\<open>internal/files/handler.go\<close>), over the database and the blob store.

  \<open>strconv.ParseFloat\<close> and \<open>mime.ExtensionsByType\<close> are the parameters \<open>parse\<close> (none on an error) and
  \<open>extensions\<close> (empty on an error); every theorem holds for all of them.
\<close>

section \<open>Content negotiation\<close>

text \<open>A \<open>float64\<close>, with Go's comparison: nothing is greater than NaN, or NaN than anything.\<close>

datatype float64 = NaN | NegInf | Fin rat | PosInf

fun gt :: "float64 \<Rightarrow> float64 \<Rightarrow> bool" where
  "gt (Fin x) (Fin y) = (x > y)"
| "gt PosInf (Fin y) = True"
| "gt PosInf NegInf = True"
| "gt (Fin x) NegInf = True"
| "gt _ _ = False"

record acceptRange =
  ar_typ :: string
  ar_subtype :: string
  ar_q :: float64

definition ToLower :: "string \<Rightarrow> string" where
  "ToLower s = map fold_char s"

text \<open>The first parameter named \<open>q\<close> decides, unreadable ones counting as 1.\<close>

fun acceptParams :: "(string \<Rightarrow> float64 option) \<Rightarrow> string list \<Rightarrow> float64" where
  "acceptParams parse [] = Fin 1"
| "acceptParams parse (param # params) =
     (let (name, val, found) = cut (CHR ''='') param in
      if \<not> found \<or> \<not> EqualFold (trimSpace name) ''q'' then acceptParams parse params
      else case parse (trimSpace val) of Some parsed \<Rightarrow> parsed | None \<Rightarrow> Fin 1)"

definition acceptPart :: "(string \<Rightarrow> float64 option) \<Rightarrow> string \<Rightarrow> acceptRange option" where
  "acceptPart parse part =
     (let segments = split_at (CHR '';'') part; (typ, subtype, found) = cut (CHR ''/'') (trimSpace (hd segments)) in
      if \<not> found \<or> typ = [] \<or> subtype = [] then None
      else Some \<lparr>ar_typ = ToLower typ, ar_subtype = ToLower subtype, ar_q = acceptParams parse (tl segments)\<rparr>)"

definition parseAccept :: "(string \<Rightarrow> float64 option) \<Rightarrow> string \<Rightarrow> acceptRange list" where
  "parseAccept parse header = List.map_filter (acceptPart parse) (split_at (CHR '','') header)"

definition specificity :: "string \<Rightarrow> string \<Rightarrow> acceptRange \<Rightarrow> int option" where
  "specificity typ subtype rg =
     (if ar_typ rg = typ \<and> ar_subtype rg = subtype then Some 2
      else if ar_typ rg = typ \<and> ar_subtype rg = ''*'' then Some 1
      else if ar_typ rg = ''*'' \<and> ar_subtype rg = ''*'' then Some 0
      else None)"

fun bestRange :: "string \<Rightarrow> string \<Rightarrow> acceptRange list \<Rightarrow> int \<times> float64 \<Rightarrow> int \<times> float64" where
  "bestRange typ subtype [] best = best"
| "bestRange typ subtype (rg # rgs) (bestSpecificity, q) =
     (case specificity typ subtype rg of
        None \<Rightarrow> bestRange typ subtype rgs (bestSpecificity, q)
      | Some sp \<Rightarrow> bestRange typ subtype rgs (if sp > bestSpecificity then (sp, ar_q rg) else (bestSpecificity, q)))"

text \<open>The pair of results is \<open>None\<close> where \<open>matched\<close> is false.\<close>

definition bestAcceptQuality :: "acceptRange list \<Rightarrow> string \<Rightarrow> float64 option" where
  "bestAcceptQuality ranges mediaType =
     (let (typ, subtype, found) = cut (CHR ''/'') mediaType in
      if \<not> found then None
      else let (bestSpecificity, q) = bestRange (ToLower typ) (ToLower subtype) ranges (-1, Fin 0) in
        if bestSpecificity < 0 then None else if gt q (Fin 0) then Some q else None)"

text \<open>The loop over the formats with the best one so far.\<close>

fun bestFormat :: "acceptRange list \<Rightarrow> string list \<Rightarrow> (string \<times> float64) option \<Rightarrow> (string \<times> float64) option" where
  "bestFormat ranges [] best = best"
| "bestFormat ranges (f # fs) best =
     (case bestAcceptQuality ranges f of
        None \<Rightarrow> bestFormat ranges fs best
      | Some q \<Rightarrow> bestFormat ranges fs (case best of None \<Rightarrow> Some (f, q) | Some (_, bestQ) \<Rightarrow> if gt q bestQ then Some (f, q) else best))"

record download_request =
  dlr_web :: web_request
  dlr_method :: string
  dlr_accept :: string

text \<open>The media type and whether the Accept header took part; \<open>None\<close> where nothing is acceptable.\<close>

definition selectFormatMediaType ::
  "(string \<Rightarrow> float64 option) \<Rightarrow> download_request \<Rightarrow> ArtifactFormat list \<Rightarrow> (string \<times> bool) option" where
  "selectFormatMediaType parse r formats =
     (let q = req_query (web_params (dlr_web r)) ''mediaType''; types = map fmt_MediaType formats in
      if q \<noteq> [] then map_option (\<lambda>t. (t, False)) (find_row (\<lambda>t. EqualFold t q) types)
      else if types = [] then None
      else if dlr_accept r = [] then Some (hd types, True)
      else map_option (\<lambda>(t, _). (t, True)) (bestFormat (parseAccept parse (dlr_accept r)) types None))"

definition selectSignatureFormatMediaType :: "download_request \<Rightarrow> ArtifactFormat list \<Rightarrow> string option" where
  "selectSignatureFormatMediaType r formats =
     (let q = req_query (web_params (dlr_web r)) ''mediaType''; types = map fmt_MediaType formats in
      if q \<noteq> [] then find_row (\<lambda>t. EqualFold t q) types
      else if types = [] then None
      else Some (hd types))"

section \<open>Headers\<close>

text \<open>\<open>url.QueryEscape\<close>, \<open>hex.DecodeString\<close> and the standard base64 encoding.\<close>

definition upper_hex :: "nat \<Rightarrow> char" where
  "upper_hex n = ''0123456789ABCDEF'' ! (n mod 16)"

definition unreserved :: "char \<Rightarrow> bool" where
  "unreserved c \<longleftrightarrow> (let n = of_char c :: nat in (48 \<le> n \<and> n \<le> 57) \<or> (65 \<le> n \<and> n \<le> 90) \<or> (97 \<le> n \<and> n \<le> 122)
     \<or> List.member ''-_.~'' c)"

definition QueryEscape :: "string \<Rightarrow> string" where
  "QueryEscape s = concat (map (\<lambda>c. if c = CHR '' '' then ''+'' else if unreserved c then [c]
      else [CHR ''%'', upper_hex (of_char c div 16), upper_hex (of_char c)]) s)"

fun hexDecode :: "string \<Rightarrow> string option" where
  "hexDecode [] = Some []"
| "hexDecode [c] = None"
| "hexDecode (a # b # rest) =
     (case (hex_value a, hex_value b) of
        (Some x, Some y) \<Rightarrow> map_option (Cons (char_of (16 * x + y))) (hexDecode rest)
      | _ \<Rightarrow> None)"

definition base64_char :: "nat \<Rightarrow> char" where
  "base64_char n = ''ABCDEFGHIJKLMNOPQRSTUVWXYZabcdefghijklmnopqrstuvwxyz0123456789+/'' ! (n mod 64)"

fun base64Encode :: "string \<Rightarrow> string" where
  "base64Encode [] = []"
| "base64Encode [a] =
     (let n = of_char a * 16 :: nat in [base64_char (n div 64), base64_char n, CHR ''='', CHR ''=''])"
| "base64Encode [a, b] =
     (let n = (of_char a * 256 + of_char b) * 4 :: nat in
      [base64_char (n div 4096), base64_char (n div 64), base64_char n, CHR ''=''])"
| "base64Encode (a # b # c # rest) =
     (let n = of_char a * 65536 + of_char b * 256 + of_char c :: nat in
      [base64_char (n div 262144), base64_char (n div 4096), base64_char (n div 64), base64_char n] @ base64Encode rest)"

definition reprDigestHeader :: "string \<Rightarrow> string option" where
  "reprDigestHeader sha256Hex =
     (case hexDecode sha256Hex of None \<Rightarrow> None | Some raw \<Rightarrow> Some (''sha-256=:'' @ base64Encode raw @ '':''))"

record server_config =
  cfg_RootURL :: string
  cfg_APIBasePath :: string

definition artifactDownloadLocation :: "server_config \<Rightarrow> uuid \<Rightarrow> int \<Rightarrow> string \<Rightarrow> string" where
  "artifactDownloadLocation cfg u version mediaType =
     cfg_RootURL cfg @ cfg_APIBasePath cfg @ ''/artifact/'' @ u @ ''/'' @ itoa version @ ''/download?mediaType='' @ QueryEscape mediaType"

definition artifactSignatureDownloadLocation :: "server_config \<Rightarrow> uuid \<Rightarrow> int \<Rightarrow> string \<Rightarrow> string" where
  "artifactSignatureDownloadLocation cfg u version mediaType =
     cfg_RootURL cfg @ cfg_APIBasePath cfg @ ''/artifact/'' @ u @ ''/'' @ itoa version @ ''/signature/download?mediaType='' @ QueryEscape mediaType"

definition contentDispositionFor :: "(string \<Rightarrow> string list) \<Rightarrow> string \<Rightarrow> string \<Rightarrow> string" where
  "contentDispositionFor extensions name mediaType =
     (let filename = (if name = [] then ''artifact'' @ (case extensions mediaType of [] \<Rightarrow> [] | ext # _ \<Rightarrow> ext) else name);
          filename = filter (\<lambda>c. c \<noteq> CHR 0x22 \<and> c \<noteq> CHR 0x0D \<and> c \<noteq> CHR 0x0A) filename
      in ''attachment; filename='' @ [CHR 0x22] @ filename @ [CHR 0x22])"

section \<open>The download endpoints\<close>

record download_headers =
  dh_vary :: bool
  dh_location :: string
  dh_disposition :: string
  dh_digest :: "string option"

text \<open>
  What a download answers: one of the plain refusals of the read API, or a response of its own. The last
  two carry the headers set before them, then ETag and Cache-Control; \<open>StreamFailed\<close> is the 500 of a blob
  that does not open, which leaves with the same headers.
\<close>

datatype download =
    Plain "unit response"
  | MethodNotAllowed
  | NotAcceptable string
  | NotFoundTyped string
  | FoundAt string
  | Unmodified download_headers string string
  | Content download_headers string string string "string option"
  | StreamFailed download_headers string string repo_error

definition requireGetOrHead :: "(download_request \<Rightarrow> download) \<Rightarrow> download_request \<Rightarrow> download" where
  "requireGetOrHead continue r = (if dlr_method r \<noteq> ''GET'' \<and> dlr_method r \<noteq> ''HEAD'' then MethodNotAllowed else continue r)"

text \<open>A check of the read API in front of the rest of a handler, and the check of a query's error.\<close>

definition proceed :: "unit response \<Rightarrow> download \<Rightarrow> download" where
  "proceed check rest = (case check of OK _ _ _ \<Rightarrow> rest | refusal \<Rightarrow> Plain refusal)"

definition orNotFound :: "repo_error + 'x \<Rightarrow> ('x \<Rightarrow> download) \<Rightarrow> download" where
  "orNotFound q rest =
     (case q of Inl err \<Rightarrow> Plain (if err = ErrNotFound then NotFound else InternalError err) | Inr x \<Rightarrow> rest x)"

definition cacheControlLatest :: string where
  "cacheControlLatest = ''public, no-cache''"

abbreviation CapArtifactDownload :: Capability where "CapArtifactDownload \<equiv> ''artifact.download''"

definition streamBlob ::
  "(string \<Rightarrow> repo_error + string) \<Rightarrow> download_request \<Rightarrow> string \<Rightarrow> string \<Rightarrow> download_headers \<Rightarrow> string \<Rightarrow> string \<Rightarrow> download" where
  "streamBlob opened r sha256Hex contentType headers etag cacheControl =
     (case opened sha256Hex of
        Inl err \<Rightarrow> StreamFailed headers etag cacheControl err
      | Inr body \<Rightarrow> Content headers etag cacheControl contentType (if dlr_method r = ''HEAD'' then None else Some body))"

text \<open>The conditional request and the body, with the headers set so far.\<close>

definition conditionalBlob ::
  "(string \<Rightarrow> repo_error + string) \<Rightarrow> db \<Rightarrow> download_request \<Rightarrow> string \<Rightarrow> string list \<Rightarrow> string \<Rightarrow> string \<Rightarrow> download_headers \<Rightarrow> download" where
  "conditionalBlob opened s r cacheControlBase parts sha256Hex contentType headers =
     (case conditional s (dlr_web r) cacheControlBase parts (\<lambda>etag cc. OK etag cc ()) of
        NotModified etag cc \<Rightarrow> Unmodified headers etag cc
      | OK etag cc _ \<Rightarrow> streamBlob opened r sha256Hex contentType headers etag cc
      | other \<Rightarrow> Plain other)"

definition notAcceptableMessage :: string where
  "notAcceptableMessage = ''no format matches the requested mediaType or Accept header''"

definition downloadArtifactContent ::
  "(string \<Rightarrow> float64 option) \<Rightarrow> (string \<Rightarrow> string list) \<Rightarrow> server_config \<Rightarrow> (string \<Rightarrow> repo_error + string) \<Rightarrow> db \<Rightarrow> download_request
     \<Rightarrow> uuid \<Rightarrow> int \<Rightarrow> string \<Rightarrow> download" where
  "downloadArtifactContent parse extensions cfg opened s r u version cacheControlBase =
     orNotFound (GetArtifactType s u version) (\<lambda>artifactType.
     proceed (authorize s (dlr_web r) CapArtifactDownload (no_resource\<lparr>ArtifactUUID := u, ResArtifactType := artifactType\<rparr>) (OK [] [] ()))
     (orNotFound (getArtifactByVersionTx s u version) (\<lambda>a.
     case selectFormatMediaType parse r (art_Formats a) of
       None \<Rightarrow> NotAcceptable notAcceptableMessage
     | Some (mediaType, usedAccept) \<Rightarrow>
         (case GetArtifactFormatForDownload s u version mediaType of
            Inl err \<Rightarrow>
              if err = ErrNotFound then Plain NotFound
              else if err = ErrNoMatchingFormat then NotAcceptable notAcceptableMessage
              else Plain (InternalError err)
          | Inr (External url) \<Rightarrow> FoundAt url
          | Inr (SelfHosted sha256Hex) \<Rightarrow>
              orNotFound (getArtifactRevisionTx s u version) (\<lambda>revision.
              conditionalBlob opened s r cacheControlBase [''artifact-download'', u, itoa version, mediaType, itoa revision]
                sha256Hex mediaType
                \<lparr>dh_vary = usedAccept, dh_location = artifactDownloadLocation cfg u version mediaType,
                 dh_disposition = contentDispositionFor extensions (art_Name a) mediaType,
                 dh_digest = reprDigestHeader sha256Hex\<rparr>)))))"

definition downloadArtifactSignature ::
  "(string \<Rightarrow> string list) \<Rightarrow> server_config \<Rightarrow> (string \<Rightarrow> repo_error + string) \<Rightarrow> db \<Rightarrow> download_request
     \<Rightarrow> uuid \<Rightarrow> int \<Rightarrow> string \<Rightarrow> download" where
  "downloadArtifactSignature extensions cfg opened s r u version cacheControlBase =
     orNotFound (GetArtifactType s u version) (\<lambda>artifactType.
     proceed (authorize s (dlr_web r) CapArtifactDownload (no_resource\<lparr>ArtifactUUID := u, ResArtifactType := artifactType\<rparr>) (OK [] [] ()))
     (orNotFound (getArtifactByVersionTx s u version) (\<lambda>a.
     case selectSignatureFormatMediaType r (art_Formats a) of
       None \<Rightarrow> NotAcceptable ''no format matches the requested mediaType''
     | Some mediaType \<Rightarrow>
         (case GetArtifactFormatForSignatureDownload s u version mediaType of
            Inl err \<Rightarrow>
              if err = ErrNotFound \<or> err = ErrNoMatchingFormat then Plain NotFound
              else if err = ErrSignatureNotFound then NotFoundTyped ''SIGNATURE_NOT_FOUND''
              else Plain (InternalError err)
          | Inr (External url) \<Rightarrow> FoundAt url
          | Inr (SelfHosted sha256Hex) \<Rightarrow>
              orNotFound (getArtifactRevisionTx s u version) (\<lambda>revision.
              conditionalBlob opened s r cacheControlBase [''artifact-signature-download'', u, itoa version, mediaType, itoa revision]
                sha256Hex ''application/octet-stream''
                \<lparr>dh_vary = False, dh_location = artifactSignatureDownloadLocation cfg u version mediaType,
                 dh_disposition = contentDispositionFor extensions (art_Name a @ ''.sig'') ''application/octet-stream'',
                 dh_digest = reprDigestHeader sha256Hex\<rparr>)))))"

text \<open>The four routes differ in how they find the version and in their cache policy.\<close>

definition latestVersion :: "db \<Rightarrow> download_request \<Rightarrow> (uuid \<Rightarrow> int \<Rightarrow> download) \<Rightarrow> download" where
  "latestVersion s r continue =
     (case PathUUID (web_params (dlr_web r)) ''uuid'' of
        Inl _ \<Rightarrow> Plain (BadRequestTyped ''invalid uuid'')
      | Inr u \<Rightarrow> (case LatestArtifactVersion s u of None \<Rightarrow> Plain NotFound | Some version \<Rightarrow> continue u version))"

definition pathVersion :: "download_request \<Rightarrow> (uuid \<Rightarrow> int \<Rightarrow> download) \<Rightarrow> download" where
  "pathVersion r continue =
     (case PathUUID (web_params (dlr_web r)) ''uuid'' of
        Inl _ \<Rightarrow> Plain (BadRequestTyped ''invalid uuid'')
      | Inr u \<Rightarrow>
          (case PathPositiveInt (web_params (dlr_web r)) ''artifactVersion'' of
             Inl _ \<Rightarrow> Plain (BadRequestTyped ''invalid artifactVersion'')
           | Inr version \<Rightarrow> continue u version))"

definition downloadLatestArtifact ::
  "(string \<Rightarrow> float64 option) \<Rightarrow> (string \<Rightarrow> string list) \<Rightarrow> server_config \<Rightarrow> (string \<Rightarrow> repo_error + string) \<Rightarrow> db \<Rightarrow> download_request \<Rightarrow> download" where
  "downloadLatestArtifact parse extensions cfg opened s =
     requireGetOrHead (\<lambda>r. latestVersion s r (\<lambda>u v. downloadArtifactContent parse extensions cfg opened s r u v cacheControlLatest))"

definition downloadArtifactByVersion ::
  "(string \<Rightarrow> float64 option) \<Rightarrow> (string \<Rightarrow> string list) \<Rightarrow> server_config \<Rightarrow> (string \<Rightarrow> repo_error + string) \<Rightarrow> db \<Rightarrow> download_request \<Rightarrow> download" where
  "downloadArtifactByVersion parse extensions cfg opened s =
     requireGetOrHead (\<lambda>r. pathVersion r (\<lambda>u v. downloadArtifactContent parse extensions cfg opened s r u v cacheControlRevalidate))"

definition downloadLatestArtifactSignature ::
  "(string \<Rightarrow> string list) \<Rightarrow> server_config \<Rightarrow> (string \<Rightarrow> repo_error + string) \<Rightarrow> db \<Rightarrow> download_request \<Rightarrow> download" where
  "downloadLatestArtifactSignature extensions cfg opened s =
     requireGetOrHead (\<lambda>r. latestVersion s r (\<lambda>u v. downloadArtifactSignature extensions cfg opened s r u v cacheControlLatest))"

definition downloadArtifactSignatureByVersion ::
  "(string \<Rightarrow> string list) \<Rightarrow> server_config \<Rightarrow> (string \<Rightarrow> repo_error + string) \<Rightarrow> db \<Rightarrow> download_request \<Rightarrow> download" where
  "downloadArtifactSignatureByVersion extensions cfg opened s =
     requireGetOrHead (\<lambda>r. pathVersion r (\<lambda>u v. downloadArtifactSignature extensions cfg opened s r u v cacheControlRevalidate))"

section \<open>Blobs\<close>

definition UpsertBlob :: "string \<Rightarrow> int \<Rightarrow> string \<Rightarrow> unit repo_op" where
  "UpsertBlob sha256Hex sizeBytes mediaType s =
     (if has_row (\<lambda>b. b_sha256 b = sha256Hex) (tbl_blob s) then (Inr (), s)
      else (Inr (), s\<lparr>tbl_blob := tbl_blob s @ [\<lparr>b_sha256 = sha256Hex, b_size = sizeBytes, b_media_type = nullIfEmpty mediaType\<rparr>]\<rparr>))"

definition GetBlobMediaType :: "db \<Rightarrow> string \<Rightarrow> repo_error + string" where
  "GetBlobMediaType s sha256Hex =
     (case find_row (\<lambda>b. b_sha256 b = sha256Hex) (tbl_blob s) of None \<Rightarrow> Inl ErrNotFound | Some b \<Rightarrow> Inr (null_str (b_media_type b)))"

record BlobArtifactOwner =
  bao_ArtifactUUID :: uuid
  bao_ArtifactType :: string

text \<open>The formats whose content or signature has the hash, joined with their artifact version, without repetition.\<close>

definition format_owners :: "db \<Rightarrow> artifact_format_row \<Rightarrow> BlobArtifactOwner list" where
  "format_owners s f =
     map (\<lambda>a. \<lparr>bao_ArtifactUUID = af_artifact f, bao_ArtifactType = a_type a\<rparr>)
       (filter (is_version (af_artifact f) (af_version f)) (tbl_artifact s))"

definition content_hash :: "db \<Rightarrow> artifact_format_row \<Rightarrow> string \<Rightarrow> bool" where
  "content_hash s f sha256Hex \<longleftrightarrow>
     has_row (\<lambda>c. ck_owner_type c = OwnerArtifactFormat \<and> ck_owner c = af_id f \<and> ck_alg_type c = ''SHA-256'' \<and> ck_alg_value c = sha256Hex) (tbl_checksum s)"

definition FindBlobArtifactOwners :: "db \<Rightarrow> string \<Rightarrow> BlobArtifactOwner list" where
  "FindBlobArtifactOwners s sha256Hex =
     remdups (concat (map (format_owners s)
       (filter (\<lambda>f. content_hash s f sha256Hex) (tbl_artifact_format s)
        @ filter (\<lambda>f. sql_eq (af_signature_sha256 f) (Some sha256Hex)) (tbl_artifact_format s))))"

datatype file_answer =
    FileNotFound
  | FileError repo_error
  | FileUnauthorized string
  | FileContent string string string

text \<open>The loop over the owners: an error ends it, the first grant ends it.\<close>

fun anyOwnerAllowed :: "db \<Rightarrow> time \<Rightarrow> Principal \<Rightarrow> BlobArtifactOwner list \<Rightarrow> repo_error + bool" where
  "anyOwnerAllowed s now caller [] = Inr False"
| "anyOwnerAllowed s now caller (owner # owners) =
     (case Decide (CandidateRules s now) caller CapArtifactDownload
             (no_resource\<lparr>ArtifactUUID := bao_ArtifactUUID owner, ResArtifactType := bao_ArtifactType owner\<rparr>) of
        (Some err, _) \<Rightarrow> Inl err
      | (None, decision) \<Rightarrow> if Allowed decision then Inr True else anyOwnerAllowed s now caller owners)"

text \<open>\<open>authorized\<close>: nothing to say, or the response it has written.\<close>

definition authorized :: "(string \<Rightarrow> string) \<Rightarrow> db \<Rightarrow> auth_request \<Rightarrow> string \<Rightarrow> file_answer option" where
  "authorized sha256 s r sha256Hex =
     (case BearerUser sha256 s r of
        BadBearer \<Rightarrow> Some (FileUnauthorized ''invalid_token'')
      | b \<Rightarrow>
          (let caller = (case b of Bearer user \<Rightarrow> \<lparr>UserUUID = usr_UUID user\<rparr> | _ \<Rightarrow> \<lparr>UserUUID = []\<rparr>) in
           case anyOwnerAllowed s (ar_now r) caller (FindBlobArtifactOwners s sha256Hex) of
             Inl err \<Rightarrow> Some (FileError err)
           | Inr True \<Rightarrow> None
           | Inr False \<Rightarrow> Some (if \<not> IsAuthenticated caller then FileUnauthorized [] else FileNotFound)))"

text \<open>The content type, the name in the disposition, and the bytes.\<close>

definition serve :: "(string \<Rightarrow> string) \<Rightarrow> (string \<Rightarrow> repo_error + string) \<Rightarrow> db \<Rightarrow> auth_request \<Rightarrow> string \<Rightarrow> file_answer" where
  "serve sha256 opened s r sha256Hex =
     (if \<not> sha256Pattern sha256Hex then FileNotFound
      else case GetBlobMediaType s sha256Hex of
             Inl err \<Rightarrow> if err = ErrNotFound then FileNotFound else FileError err
           | Inr mediaType \<Rightarrow>
               (case authorized sha256 s r sha256Hex of
                  Some answer \<Rightarrow> answer
                | None \<Rightarrow>
                    (case opened sha256Hex of
                       Inl _ \<Rightarrow> FileNotFound
                     | Inr body \<Rightarrow> FileContent (if mediaType \<noteq> [] then mediaType else ''application/octet-stream'') sha256Hex body)))"

section \<open>Uploads\<close>

text \<open>The multipart body as the form parser leaves it, and what the upload handlers read of the request.\<close>

datatype upload_form = FormMalformed | FileMissing | FileOf string string

record upload_request =
  upq_params :: request
  upq_form :: upload_form

datatype upload_answer =
    UploadBad string
  | UploadNotFound
  | UploadFault repo_error
  | ArtifactUploaded Artifact
  | DistributionUploaded ReleaseDistribution

type_synonym 'a upload_op = "db \<times> fs \<Rightarrow> 'a \<times> db \<times> fs"

text \<open>\<open>put\<close> is the store's \<open>Put\<close>. The result is the public URL and the hash, or the answer already written.\<close>

definition receiveFile ::
  "(string \<Rightarrow> fs \<Rightarrow> (repo_error + (string \<times> nat)) \<times> fs) \<Rightarrow> server_config \<Rightarrow> upload_form \<Rightarrow> (upload_answer + (string \<times> string)) upload_op" where
  "receiveFile put cfg form st =
     (case st of (s, f) \<Rightarrow>
      (case form of
         FormMalformed \<Rightarrow> (Inl (UploadBad ''invalid multipart form''), s, f)
       | FileMissing \<Rightarrow> (Inl (UploadBad ''missing file form field''), s, f)
       | FileOf bytes mediaType \<Rightarrow>
           (case put bytes f of
              (Inl err, f1) \<Rightarrow> (Inl (UploadFault err), s, f1)
            | (Inr (sha256Hex, n), f1) \<Rightarrow>
                (case UpsertBlob sha256Hex (int n) mediaType s of
                   (Inl err, s1) \<Rightarrow> (Inl (UploadFault err), s1, f1)
                 | (Inr _, s1) \<Rightarrow> (Inr (cfg_RootURL cfg @ ''/files/'' @ sha256Hex, sha256Hex), s1, f1)))))"

definition uploadDistributionFile ::
  "(string \<Rightarrow> fs \<Rightarrow> (repo_error + (string \<times> nat)) \<times> fs) \<Rightarrow> server_config \<Rightarrow> upload_request \<Rightarrow> upload_answer upload_op" where
  "uploadDistributionFile put cfg r st =
     (case st of (s, f) \<Rightarrow>
      (let i = req_path (upq_params r) ''id'' in
       if i = [] then (UploadBad ''missing distribution id'', s, f)
       else case getDistributionTx s i of
              Inl err \<Rightarrow> (if err = ErrNotFound then UploadNotFound else UploadFault err, s, f)
            | Inr _ \<Rightarrow>
                (case receiveFile put cfg (upq_form r) (s, f) of
                   (Inl answer, s1, f1) \<Rightarrow> (answer, s1, f1)
                 | (Inr (url, sha256Hex), s1, f1) \<Rightarrow>
                     (case SetDistributionFile Pool i url sha256Hex s1 of
                        (Inl err, s2) \<Rightarrow> (if err = ErrNotFound then UploadNotFound else UploadFault err, s2, f1)
                      | (Inr d, s2) \<Rightarrow> (DistributionUploaded d, s2, f1)))))"

definition formatIndexParam :: "request \<Rightarrow> int option" where
  "formatIndexParam r =
     (let v = req_query r ''formatIndex'' in
      if v = [] then Some 0
      else case Atoi v of None \<Rightarrow> None | Some n \<Rightarrow> if n < 0 then None else Some n)"

text \<open>The two artifact handlers differ in the operation that attaches the file.\<close>

definition uploadFormatFile ::
  "(uuid \<Rightarrow> int \<Rightarrow> int \<Rightarrow> string \<Rightarrow> Artifact repo_op) \<Rightarrow> (string \<Rightarrow> fs \<Rightarrow> (repo_error + (string \<times> nat)) \<times> fs) \<Rightarrow> server_config
     \<Rightarrow> upload_request \<Rightarrow> upload_answer upload_op" where
  "uploadFormatFile attach put cfg r st =
     (case st of (s, f) \<Rightarrow>
      (case PathUUID (upq_params r) ''uuid'' of
         Inl _ \<Rightarrow> (UploadBad ''invalid uuid'', s, f)
       | Inr u \<Rightarrow>
           (case PathPositiveInt (upq_params r) ''version'' of
              Inl _ \<Rightarrow> (UploadBad ''invalid version'', s, f)
            | Inr version \<Rightarrow>
                (case formatIndexParam (upq_params r) of
                   None \<Rightarrow> (UploadBad ''invalid formatIndex'', s, f)
                 | Some formatIndex \<Rightarrow>
                     (case getArtifactByVersionTx s u version of
                        Inl err \<Rightarrow> (if err = ErrNotFound then UploadNotFound else UploadFault err, s, f)
                      | Inr a \<Rightarrow>
                          if formatIndex \<ge> int (length (art_Formats a)) then (UploadNotFound, s, f)
                          else (case receiveFile put cfg (upq_form r) (s, f) of
                                  (Inl answer, s1, f1) \<Rightarrow> (answer, s1, f1)
                                | (Inr (_, sha256Hex), s1, f1) \<Rightarrow>
                                    (case attach u version formatIndex sha256Hex s1 of
                                       (Inl err, s2) \<Rightarrow> (if err = ErrNotFound then UploadNotFound else UploadFault err, s2, f1)
                                     | (Inr b, s2) \<Rightarrow> (ArtifactUploaded b, s2, f1))))))))"

definition uploadArtifactFormatFile ::
  "(string \<Rightarrow> fs \<Rightarrow> (repo_error + (string \<times> nat)) \<times> fs) \<Rightarrow> server_config \<Rightarrow> upload_request \<Rightarrow> upload_answer upload_op" where
  "uploadArtifactFormatFile = uploadFormatFile (SetArtifactFormatFile Pool)"

definition uploadArtifactFormatSignatureFile ::
  "(string \<Rightarrow> fs \<Rightarrow> (repo_error + (string \<times> nat)) \<times> fs) \<Rightarrow> server_config \<Rightarrow> upload_request \<Rightarrow> upload_answer upload_op" where
  "uploadArtifactFormatSignatureFile = uploadFormatFile (SetArtifactFormatSignatureFile Pool)"

section \<open>Negotiation chooses the best acceptable format\<close>

lemma gt_trans: "gt a b \<Longrightarrow> gt b c \<Longrightarrow> gt a c"
  by (cases a; cases b; cases c) auto

lemma gt_linear: "gt a (Fin 0) \<Longrightarrow> gt b (Fin 0) \<Longrightarrow> \<not> gt a b \<Longrightarrow> gt c b \<Longrightarrow> gt c a"
  by (cases a; cases b; cases c) auto

lemma gt_irrefl: "\<not> gt a a"
  by (cases a) auto

text \<open>The weight of a media type: that of the first of the most specific ranges that match it.\<close>

definition weight_of :: "acceptRange list \<Rightarrow> string \<Rightarrow> string \<Rightarrow> float64 \<Rightarrow> bool" where
  "weight_of ranges typ subtype q \<longleftrightarrow>
     (\<exists>before rg after k. ranges = before @ rg # after \<and> specificity typ subtype rg = Some k \<and> ar_q rg = q
        \<and> (\<forall>r \<in> set before. \<forall>j. specificity typ subtype r = Some j \<longrightarrow> j < k)
        \<and> (\<forall>r \<in> set after. \<forall>j. specificity typ subtype r = Some j \<longrightarrow> j \<le> k))"

lemma specificity_nonneg: "specificity typ subtype rg = Some k \<Longrightarrow> 0 \<le> k"
  by (auto simp: specificity_def split: if_splits)

lemma bestRange_cases:
  "bestRange typ subtype rgs (b, q) = (b', q') \<Longrightarrow>
     (b' = b \<and> q' = q \<and> (\<forall>r \<in> set rgs. \<forall>j. specificity typ subtype r = Some j \<longrightarrow> j \<le> b))
   \<or> (b < b' \<and> (\<exists>before rg after. rgs = before @ rg # after \<and> specificity typ subtype rg = Some b' \<and> ar_q rg = q'
        \<and> (\<forall>r \<in> set before. \<forall>j. specificity typ subtype r = Some j \<longrightarrow> j < b')
        \<and> (\<forall>r \<in> set after. \<forall>j. specificity typ subtype r = Some j \<longrightarrow> j \<le> b')))"
proof (induction rgs arbitrary: b q)
  case Nil
  then show ?case by simp
next
  case (Cons rg rgs)
  show ?case
  proof (cases "\<exists>sp. specificity typ subtype rg = Some sp \<and> sp > b")
    case True
    then obtain sp where sp: "specificity typ subtype rg = Some sp" "sp > b" by blast
    with Cons.prems have "bestRange typ subtype rgs (sp, ar_q rg) = (b', q')" by simp
    from Cons.IH [OF this] show ?thesis
    proof
      assume "b' = sp \<and> q' = ar_q rg \<and> (\<forall>r \<in> set rgs. \<forall>j. specificity typ subtype r = Some j \<longrightarrow> j \<le> sp)"
      with sp show ?thesis by (intro disjI2 conjI exI [of _ "[]"] exI [of _ rg] exI [of _ rgs]) auto
    next
      assume "sp < b' \<and> (\<exists>before rg after. rgs = before @ rg # after \<and> specificity typ subtype rg = Some b' \<and> ar_q rg = q'
        \<and> (\<forall>r \<in> set before. \<forall>j. specificity typ subtype r = Some j \<longrightarrow> j < b')
        \<and> (\<forall>r \<in> set after. \<forall>j. specificity typ subtype r = Some j \<longrightarrow> j \<le> b'))"
      then obtain before rg' after where "sp < b'" "rgs = before @ rg' # after" "specificity typ subtype rg' = Some b'" "ar_q rg' = q'"
        "\<forall>r \<in> set before. \<forall>j. specificity typ subtype r = Some j \<longrightarrow> j < b'"
        "\<forall>r \<in> set after. \<forall>j. specificity typ subtype r = Some j \<longrightarrow> j \<le> b'" by blast
      with sp show ?thesis by (intro disjI2 conjI exI [of _ "rg # before"] exI [of _ rg'] exI [of _ after]) auto
    qed
  next
    case False
    with Cons.prems have "bestRange typ subtype rgs (b, q) = (b', q')" by (cases "specificity typ subtype rg") auto
    from Cons.IH [OF this] show ?thesis
    proof
      assume "b' = b \<and> q' = q \<and> (\<forall>r \<in> set rgs. \<forall>j. specificity typ subtype r = Some j \<longrightarrow> j \<le> b)"
      with False show ?thesis by auto
    next
      assume "b < b' \<and> (\<exists>before rg after. rgs = before @ rg # after \<and> specificity typ subtype rg = Some b' \<and> ar_q rg = q'
        \<and> (\<forall>r \<in> set before. \<forall>j. specificity typ subtype r = Some j \<longrightarrow> j < b')
        \<and> (\<forall>r \<in> set after. \<forall>j. specificity typ subtype r = Some j \<longrightarrow> j \<le> b'))"
      then obtain before rg' after where "b < b'" "rgs = before @ rg' # after" "specificity typ subtype rg' = Some b'" "ar_q rg' = q'"
        "\<forall>r \<in> set before. \<forall>j. specificity typ subtype r = Some j \<longrightarrow> j < b'"
        "\<forall>r \<in> set after. \<forall>j. specificity typ subtype r = Some j \<longrightarrow> j \<le> b'" by blast
      with False show ?thesis by (intro disjI2 conjI exI [of _ "rg # before"] exI [of _ rg'] exI [of _ after]) force+
    qed
  qed
qed

lemma two_places:
  "b1 @ r1 # a1 = b2 @ r2 # a2 \<Longrightarrow> r1 = r2 \<or> (r2 \<in> set b1 \<and> r1 \<in> set a2) \<or> (r1 \<in> set b2 \<and> r2 \<in> set a1)"
proof (induction b1 arbitrary: b2)
  case Nil
  then show ?case by (cases b2) auto
next
  case (Cons x b1)
  then show ?case by (cases b2) auto
qed

lemma weight_unique: "weight_of ranges typ subtype q \<Longrightarrow> weight_of ranges typ subtype q' \<Longrightarrow> q = q'"
proof -
  assume "weight_of ranges typ subtype q" "weight_of ranges typ subtype q'"
  then obtain b1 r1 a1 k1 b2 r2 a2 k2 where w:
    "ranges = b1 @ r1 # a1" "specificity typ subtype r1 = Some k1" "ar_q r1 = q"
    "\<forall>r \<in> set b1. \<forall>j. specificity typ subtype r = Some j \<longrightarrow> j < k1" "\<forall>r \<in> set a1. \<forall>j. specificity typ subtype r = Some j \<longrightarrow> j \<le> k1"
    "ranges = b2 @ r2 # a2" "specificity typ subtype r2 = Some k2" "ar_q r2 = q'"
    "\<forall>r \<in> set b2. \<forall>j. specificity typ subtype r = Some j \<longrightarrow> j < k2" "\<forall>r \<in> set a2. \<forall>j. specificity typ subtype r = Some j \<longrightarrow> j \<le> k2"
    unfolding weight_of_def by blast
  have "\<not> (r2 \<in> set b1 \<and> r1 \<in> set a2)" "\<not> (r1 \<in> set b2 \<and> r2 \<in> set a1)" using w by force+
  with two_places [of b1 r1 a1 b2 r2 a2] w(1,6) have "r1 = r2" by auto
  with w show "q = q'" by simp
qed

lemma bestAcceptQuality_iff:
  assumes "cut (CHR ''/'') mediaType = (typ, subtype, True)"
  shows "bestAcceptQuality ranges mediaType = Some q \<longleftrightarrow> weight_of ranges (ToLower typ) (ToLower subtype) q \<and> gt q (Fin 0)"
proof -
  obtain sp q' where b: "bestRange (ToLower typ) (ToLower subtype) ranges (-1, Fin 0) = (sp, q')" by fastforce
  from bestRange_cases [OF b] show ?thesis
  proof
    assume "sp = -1 \<and> q' = Fin 0 \<and> (\<forall>r \<in> set ranges. \<forall>j. specificity (ToLower typ) (ToLower subtype) r = Some j \<longrightarrow> j \<le> -1)"
    moreover from this have "\<not> weight_of ranges (ToLower typ) (ToLower subtype) q"
      unfolding weight_of_def using specificity_nonneg by fastforce
    ultimately show ?thesis using b assms by (simp add: bestAcceptQuality_def)
  next
    assume r: "-1 < sp \<and> (\<exists>before rg after. ranges = before @ rg # after \<and> specificity (ToLower typ) (ToLower subtype) rg = Some sp \<and> ar_q rg = q'
        \<and> (\<forall>r \<in> set before. \<forall>j. specificity (ToLower typ) (ToLower subtype) r = Some j \<longrightarrow> j < sp)
        \<and> (\<forall>r \<in> set after. \<forall>j. specificity (ToLower typ) (ToLower subtype) r = Some j \<longrightarrow> j \<le> sp))"
    then have "weight_of ranges (ToLower typ) (ToLower subtype) q'" unfolding weight_of_def by blast
    moreover have "bestAcceptQuality ranges mediaType = (if gt q' (Fin 0) then Some q' else None)"
      using b assms r by (simp add: bestAcceptQuality_def)
    ultimately show ?thesis using weight_unique [of ranges "ToLower typ" "ToLower subtype"] by (metis option.inject option.distinct(1))
  qed
qed

text \<open>Whether a media type is acceptable, and with which weight.\<close>

definition acceptable :: "acceptRange list \<Rightarrow> string \<Rightarrow> float64 \<Rightarrow> bool" where
  "acceptable ranges mediaType q \<longleftrightarrow>
     (let (typ, subtype, found) = cut (CHR ''/'') mediaType in
      found \<and> weight_of ranges (ToLower typ) (ToLower subtype) q \<and> gt q (Fin 0))"

lemma bestAcceptQuality_acceptable: "bestAcceptQuality ranges mediaType = Some q \<longleftrightarrow> acceptable ranges mediaType q"
proof (cases "cut (CHR ''/'') mediaType" rule: prod_cases3)
  case (fields ty sub found)
  show ?thesis
  proof (cases found)
    case True
    with fields bestAcceptQuality_iff [of mediaType ty sub ranges q] show ?thesis by (simp add: acceptable_def)
  next
    case False
    with fields show ?thesis by (simp add: acceptable_def bestAcceptQuality_def)
  qed
qed

text \<open>\<open>t\<close> is the first of the best acceptable types of a list.\<close>

definition best_type :: "acceptRange list \<Rightarrow> string list \<Rightarrow> string \<Rightarrow> float64 \<Rightarrow> bool" where
  "best_type ranges types t q \<longleftrightarrow>
     (\<exists>before after. types = before @ t # after \<and> acceptable ranges t q
        \<and> (\<forall>u \<in> set before. \<forall>p. acceptable ranges u p \<longrightarrow> gt q p)
        \<and> (\<forall>u \<in> set after. \<forall>p. acceptable ranges u p \<longrightarrow> \<not> gt p q))"

lemma best_type_in: "best_type ranges types t q \<Longrightarrow> t \<in> set types"
  by (auto simp: best_type_def)

lemma acceptable_pos: "acceptable ranges t q \<Longrightarrow> gt q (Fin 0)"
  by (simp add: acceptable_def split: prod.splits)

lemma bestFormat_best:
  assumes "case best of None \<Rightarrow> (\<forall>u \<in> set seen. \<forall>p. \<not> acceptable ranges u p) | Some (t, q) \<Rightarrow> best_type ranges seen t q"
  shows "case bestFormat ranges types best of
      None \<Rightarrow> (\<forall>u \<in> set (seen @ types). \<forall>p. \<not> acceptable ranges u p)
    | Some (t, q) \<Rightarrow> best_type ranges (seen @ types) t q"
  using assms
proof (induction types arbitrary: seen best)
  case Nil
  then show ?case by (auto split: option.splits)
next
  case (Cons f fs)
  have app: "(seen @ [f]) @ fs = seen @ f # fs" by simp
  show ?case
  proof (cases "bestAcceptQuality ranges f")
    case None
    then have no: "\<not> acceptable ranges f p" for p using bestAcceptQuality_acceptable [of ranges f p] by simp
    have "case best of None \<Rightarrow> (\<forall>u \<in> set (seen @ [f]). \<forall>p. \<not> acceptable ranges u p) | Some (t, q) \<Rightarrow> best_type ranges (seen @ [f]) t q"
    proof (cases best)
      case (Some tq)
      then obtain t q where tq: "best = Some (t, q)" by (cases tq) simp
      with Cons.prems obtain b a where "seen = b @ t # a" "acceptable ranges t q"
        "\<forall>u \<in> set b. \<forall>p. acceptable ranges u p \<longrightarrow> gt q p" "\<forall>u \<in> set a. \<forall>p. acceptable ranges u p \<longrightarrow> \<not> gt p q"
        by (auto simp: best_type_def)
      with no have "best_type ranges (seen @ [f]) t q"
        unfolding best_type_def by (intro exI [of _ b] exI [of _ "a @ [f]"]) auto
      with tq show ?thesis by simp
    qed (use Cons.prems no in auto)
    from Cons.IH [OF this, unfolded app] None show ?thesis by simp
  next
    case (Some q)
    then have acc: "acceptable ranges f q" by (simp add: bestAcceptQuality_acceptable)
    have uniq: "p = q" if "acceptable ranges f p" for p
      using that Some bestAcceptQuality_acceptable [of ranges f p] by simp
    let ?best = "case best of None \<Rightarrow> Some (f, q) | Some (_, bestQ) \<Rightarrow> if gt q bestQ then Some (f, q) else best"
    have "case ?best of None \<Rightarrow> (\<forall>u \<in> set (seen @ [f]). \<forall>p. \<not> acceptable ranges u p) | Some (t, q) \<Rightarrow> best_type ranges (seen @ [f]) t q"
    proof (cases best)
      case None
      with Cons.prems acc have "best_type ranges (seen @ [f]) f q"
        unfolding best_type_def by (intro exI [of _ seen] exI [of _ "[]"]) auto
      with None show ?thesis by simp
    next
      case (Some tq)
      then obtain t q0 where tq: "best = Some (t, q0)" by (cases tq) simp
      with Cons.prems obtain b a where seen: "seen = b @ t # a" and t: "acceptable ranges t q0"
        and b: "\<forall>u \<in> set b. \<forall>p. acceptable ranges u p \<longrightarrow> gt q0 p" and a: "\<forall>u \<in> set a. \<forall>p. acceptable ranges u p \<longrightarrow> \<not> gt p q0"
        by (auto simp: best_type_def)
      show ?thesis
      proof (cases "gt q q0")
        case True
        have "gt q p" if "u \<in> set seen" "acceptable ranges u p" for u p
        proof -
          from that seen have "u \<in> set b \<or> u = t \<or> u \<in> set a" by auto
          then have "\<not> gt p q0"
          proof (elim disjE)
            assume "u \<in> set b" with b that show ?thesis using gt_trans gt_irrefl by blast
          next
            assume "u = t"
            with that t have "p = q0" by (metis bestAcceptQuality_acceptable option.inject)
            then show ?thesis by (simp add: gt_irrefl)
          next
            assume "u \<in> set a" with a that show ?thesis by blast
          qed
          with True that(2) t acceptable_pos show ?thesis using gt_linear by blast
        qed
        with acc have "best_type ranges (seen @ [f]) f q"
          unfolding best_type_def by (intro exI [of _ seen] exI [of _ "[]"]) auto
        with tq True show ?thesis by simp
      next
        case False
        with seen t b a uniq have "best_type ranges (seen @ [f]) t q0"
          unfolding best_type_def by (intro exI [of _ b] exI [of _ "a @ [f]"]) auto
        with tq False show ?thesis by simp
      qed
    qed
    from Cons.IH [OF this, unfolded app] Some show ?thesis by simp
  qed
qed

text \<open>
  C27. Content negotiation: without an explicit media type and with an Accept header, a download takes the
  first format of highest weight among the acceptable ones, the weight of a format being that of the most
  specific range that matches it, and a weight of zero (or not a number) excluding it; it is refused
  exactly when no format is acceptable. An explicit media type is matched without regard to case and
  ignores the header; without both, the first format is served.
\<close>

theorem negotiation_optimal:
  assumes "types = map fmt_MediaType formats" "mt = req_query (web_params (dlr_web r)) ''mediaType''"
    and "ranges = parseAccept parse (dlr_accept r)"
  shows "case selectFormatMediaType parse r formats of
      None \<Rightarrow> (if mt \<noteq> [] then \<forall>t \<in> set types. \<not> EqualFold t mt
               else if dlr_accept r = [] then types = [] else \<forall>t \<in> set types. \<forall>q. \<not> acceptable ranges t q)
    | Some (t, usedAccept) \<Rightarrow> t \<in> set types \<and> usedAccept = (mt = [])
        \<and> (if mt \<noteq> [] then EqualFold t mt else if dlr_accept r = [] then t = hd types else \<exists>q. best_type ranges types t q)"
proof (cases "mt = [] \<and> types \<noteq> [] \<and> dlr_accept r \<noteq> []")
  case True
  have "case bestFormat ranges types None of None \<Rightarrow> (\<forall>u \<in> set ([] @ types). \<forall>p. \<not> acceptable ranges u p)
      | Some (t, q) \<Rightarrow> best_type ranges ([] @ types) t q"
    by (rule bestFormat_best) simp
  moreover have "selectFormatMediaType parse r formats = map_option (\<lambda>(t, _). (t, True)) (bestFormat ranges types None)"
    using True assms by (simp add: selectFormatMediaType_def Let_def)
  ultimately show ?thesis using True
    by (cases "bestFormat ranges types None") (auto simp: best_type_in)
next
  case False
  with assms(1) show ?thesis unfolding assms(2,3) selectFormatMediaType_def Let_def
    by (auto simp: find_row_None hd_map split: option.splits dest: find_row_SomeD)
qed

section \<open>Downloads need a grant\<close>

text \<open>Whether a response tells more than that the object may not exist: content, its location, or which formats there are.\<close>

fun disclosed :: "download \<Rightarrow> bool" where
  "disclosed (Plain x) = answered x"
| "disclosed MethodNotAllowed = False"
| "disclosed _ = True"

lemma disclosed_orNotFound: "disclosed (orNotFound q rest) \<Longrightarrow> \<exists>x. q = Inr x \<and> disclosed (rest x)"
  by (auto simp: orNotFound_def split: sum.splits if_splits)

lemma disclosed_proceed:
  "disclosed (proceed (authorize s r cap res (OK [] [] ())) rest) \<Longrightarrow> may s r cap res"
  by (auto simp: proceed_def authorize_def writeAuthzDenial_def split: sum.splits if_splits dest: decide_may)

definition may_download :: "db \<Rightarrow> web_request \<Rightarrow> uuid \<Rightarrow> int \<Rightarrow> bool" where
  "may_download s r u v \<longleftrightarrow> (\<exists>ty. GetArtifactType s u v = Inr ty
     \<and> may s r CapArtifactDownload (no_resource\<lparr>ArtifactUUID := u, ResArtifactType := ty\<rparr>))"

lemma disclosed_content:
  "disclosed (downloadArtifactContent parse extensions cfg opened s r u v cc) \<Longrightarrow> may_download s (dlr_web r) u v"
  "disclosed (downloadArtifactSignature extensions cfg opened s r u v cc) \<Longrightarrow> may_download s (dlr_web r) u v"
  unfolding downloadArtifactContent_def downloadArtifactSignature_def may_download_def
  by (auto dest!: disclosed_orNotFound disclosed_proceed)

lemma disclosed_routes:
  "disclosed (requireGetOrHead h r) \<Longrightarrow> disclosed (h r)"
  "disclosed (latestVersion s r k) \<Longrightarrow> \<exists>v. LatestArtifactVersion s (req_path (web_params (dlr_web r)) ''uuid'') = Some v
     \<and> disclosed (k (req_path (web_params (dlr_web r)) ''uuid'') v)"
  "disclosed (pathVersion r k) \<Longrightarrow> \<exists>v. PathPositiveInt (web_params (dlr_web r)) ''artifactVersion'' = Inr v
     \<and> disclosed (k (req_path (web_params (dlr_web r)) ''uuid'') v)"
  by (auto simp: requireGetOrHead_def latestVersion_def pathVersion_def PathUUID_def Let_def split: if_splits option.splits sum.splits)

text \<open>
  C25. None of the four download endpoints gives away anything of an artifact, neither its bytes, a
  confirmation of a cached copy, the location of an external file, which formats it has, nor whether it is
  signed, unless the policy grants the caller artifact.download for the type of the version asked for.
\<close>

theorem download_needs_grant:
  assumes "u = req_path (web_params (dlr_web r)) ''uuid''"
  shows "(disclosed (downloadLatestArtifact parse extensions cfg opened s r) \<or> disclosed (downloadLatestArtifactSignature extensions cfg opened s r)
        \<longrightarrow> (\<exists>v. LatestArtifactVersion s u = Some v \<and> may_download s (dlr_web r) u v))
    \<and> (disclosed (downloadArtifactByVersion parse extensions cfg opened s r) \<or> disclosed (downloadArtifactSignatureByVersion extensions cfg opened s r)
        \<longrightarrow> (\<exists>v. PathPositiveInt (web_params (dlr_web r)) ''artifactVersion'' = Inr v \<and> may_download s (dlr_web r) u v))"
  unfolding assms downloadLatestArtifact_def downloadLatestArtifactSignature_def downloadArtifactByVersion_def downloadArtifactSignatureByVersion_def
  by (auto dest!: disclosed_routes disclosed_content)

section \<open>Blobs need a grant\<close>

lemma anyOwnerAllowed_True:
  "anyOwnerAllowed s now caller owners = Inr True \<Longrightarrow> \<exists>b \<in> set owners.
     \<exists>d. Decide (CandidateRules s now) caller CapArtifactDownload
          (no_resource\<lparr>ArtifactUUID := bao_ArtifactUUID b, ResArtifactType := bao_ArtifactType b\<rparr>) = (None, d) \<and> Allowed d"
  by (induction owners) (auto split: prod.splits option.splits if_splits)

lemma authorized_no_content: "authorized sha256 s r name \<noteq> Some (FileContent contentType shown body)"
  by (auto simp: authorized_def Let_def split: bearer.splits sum.splits bool.splits)

lemma FindBlobArtifactOwners_refers:
  assumes "b \<in> set (FindBlobArtifactOwners s sha)"
  shows "\<exists>f \<in> set (tbl_artifact_format s). \<exists>a \<in> set (tbl_artifact s). is_version (af_artifact f) (af_version f) a
    \<and> bao_ArtifactUUID b = af_artifact f \<and> bao_ArtifactType b = a_type a
    \<and> (content_hash s f sha \<or> af_signature_sha256 f = Some sha)"
  using assms by (auto simp: FindBlobArtifactOwners_def format_owners_def sql_eq_def split: option.splits) blast+

text \<open>
  C28. The blob endpoint serves a file only under the hash of its content, and only to a caller for whom the
  policy grants artifact.download on some artifact version that has this hash as content or signature; the
  caller is the user of a valid access token, or anonymous when no token is sent.
\<close>

theorem blob_needs_grant:
  assumes "serve sha256 (Open dir f) s r name = FileContent contentType shown body" and "good_fs sha256 dir f"
  shows "name = hexEncode (sha256 body) \<and> shown = name \<and>
    (\<exists>caller. (case BearerUser sha256 s r of Bearer user \<Rightarrow> caller = \<lparr>UserUUID = usr_UUID user\<rparr> | NoBearer \<Rightarrow> caller = \<lparr>UserUUID = []\<rparr> | BadBearer \<Rightarrow> False)
     \<and> (\<exists>fm \<in> set (tbl_artifact_format s). \<exists>a \<in> set (tbl_artifact s). is_version (af_artifact fm) (af_version fm) a
          \<and> (content_hash s fm name \<or> af_signature_sha256 fm = Some name)
          \<and> (\<exists>d. Decide (CandidateRules s (ar_now r)) caller CapArtifactDownload
                (no_resource\<lparr>ArtifactUUID := af_artifact fm, ResArtifactType := a_type a\<rparr>) = (None, d) \<and> Allowed d)))"
proof -
  from assms(1) have auth: "authorized sha256 s r name = None" and body: "Open dir f name = Inr body" and shown: "shown = name"
    by (auto simp: serve_def authorized_no_content split: if_splits sum.splits option.splits)
  have digest: "name = hexEncode (sha256 body)" using fsblob.good_open [OF assms(2) body] .
  from auth obtain caller where c: "(case BearerUser sha256 s r of Bearer user \<Rightarrow> caller = \<lparr>UserUUID = usr_UUID user\<rparr> | NoBearer \<Rightarrow> caller = \<lparr>UserUUID = []\<rparr> | BadBearer \<Rightarrow> False)"
    and a: "anyOwnerAllowed s (ar_now r) caller (FindBlobArtifactOwners s name) = Inr True"
    by (auto simp: authorized_def Let_def split: bearer.splits sum.splits bool.splits if_splits)
  from anyOwnerAllowed_True [OF a] obtain b d where b: "b \<in> set (FindBlobArtifactOwners s name)"
    and d: "Decide (CandidateRules s (ar_now r)) caller CapArtifactDownload
          (no_resource\<lparr>ArtifactUUID := bao_ArtifactUUID b, ResArtifactType := bao_ArtifactType b\<rparr>) = (None, d)" "Allowed d" by blast
  from FindBlobArtifactOwners_refers [OF b] d have "\<exists>fm \<in> set (tbl_artifact_format s). \<exists>a \<in> set (tbl_artifact s). is_version (af_artifact fm) (af_version fm) a
          \<and> (content_hash s fm name \<or> af_signature_sha256 fm = Some name)
          \<and> (\<exists>d. Decide (CandidateRules s (ar_now r)) caller CapArtifactDownload
                (no_resource\<lparr>ArtifactUUID := af_artifact fm, ResArtifactType := a_type a\<rparr>) = (None, d) \<and> Allowed d)"
    by metis
  with digest shown c show ?thesis by blast
qed

section \<open>From upload to download\<close>

lemma EqualFold_refl [simp]: "EqualFold a a"
  and EqualFold_sym: "EqualFold a b \<longleftrightarrow> EqualFold b a"
  and EqualFold_trans: "EqualFold a b \<Longrightarrow> EqualFold b c \<Longrightarrow> EqualFold a c"
  by (auto simp: EqualFold_def)

lemma SetArtifactFormatFile_formats:
  assumes "SetArtifactFormatFile conn u v i sha s = (Inr a, s')"
  shows "art_Formats a = listArtifactFormats s' u v" "GetArtifactType s' u v = Inr (art_Type a)"
    "map fmt_MediaType (listArtifactFormats s u v) = map fmt_MediaType (art_Formats a)"
    "map fmt_URL (listArtifactFormats s u v) = map fmt_URL (art_Formats a)"
    "nat i < length (art_Formats a)" "\<exists>n. getArtifactRevisionTx s' u v = Inr n" "getArtifactByVersionTx s' u v = Inr a"
proof -
  from assms have i: "nat i < length (ArtifactFormatIDs s u v)" and s': "s' = with_file (ArtifactFormatIDs s u v ! nat i) u v sha s"
    and get: "getArtifactByVersionTx s' u v = Inr a" by (auto simp: SetArtifactFormatFile_Inr)
  then show f: "art_Formats a = listArtifactFormats s' u v" and "GetArtifactType s' u v = Inr (art_Type a)"
    and "\<exists>n. getArtifactRevisionTx s' u v = Inr n" and "getArtifactByVersionTx s' u v = Inr a"
    by (auto simp: getArtifactByVersionTx_def GetArtifactType_def getArtifactRevisionTx_def split: option.splits)
  show "map fmt_MediaType (listArtifactFormats s u v) = map fmt_MediaType (art_Formats a)"
    "map fmt_URL (listArtifactFormats s u v) = map fmt_URL (art_Formats a)" "nat i < length (art_Formats a)"
    using i unfolding f s' formats_with_file by (auto simp: length_formats intro!: nth_equalityI)
qed

lemma UpsertBlob_frame:
  "UpsertBlob sha n mt s = (Inr x, s1) \<Longrightarrow> listArtifactFormats s1 u v = listArtifactFormats s u v"
  by (auto simp: UpsertBlob_def listArtifactFormats_def listChecksums_def split: if_splits)

lemma uploadArtifactFormatFile_stores:
  assumes "uploadArtifactFormatFile put cfg q (s, f) = (ArtifactUploaded a, s', f')" "upq_form q = FileOf bytes ctype"
    and "PathUUID (upq_params q) ''uuid'' = Inr u" "PathPositiveInt (upq_params q) ''version'' = Inr v" "formatIndexParam (upq_params q) = Some i"
  shows "\<exists>sha n s1. put bytes f = (Inr (sha, n), f') \<and> SetArtifactFormatFile Pool u v i sha s1 = (Inr a, s')"
  using assms by (auto simp: uploadArtifactFormatFile_def uploadFormatFile_def receiveFile_def
      split: sum.splits prod.splits if_splits)

text \<open>A format that is the first to match a media type in any letter case.\<close>

definition first_match :: "ArtifactFormat list \<Rightarrow> nat \<Rightarrow> string \<Rightarrow> bool" where
  "first_match formats i mt \<longleftrightarrow> i < length formats \<and> EqualFold (fmt_MediaType (formats ! i)) mt
     \<and> (\<forall>j < i. \<not> EqualFold (fmt_MediaType (formats ! j)) mt)"

lemma first_match_find:
  "first_match formats i mt \<Longrightarrow> find_row (\<lambda>t. EqualFold t mt) (map fmt_MediaType formats) = Some (fmt_MediaType (formats ! i))"
  unfolding find_Some_iff first_match_def by (intro exI [of _ i]) simp

lemma first_match_own: "first_match formats i mt \<Longrightarrow> first_match formats i (fmt_MediaType (formats ! i))"
  unfolding first_match_def by (metis EqualFold_refl EqualFold_trans)

text \<open>
  C24. End to end: after an administrator uploads a file to a self-hosted format, anyone the policy then
  allows to download the artifact and who asks for the format's media type, in any letter case, receives
  exactly the uploaded bytes, under the format's media type; the blob store stays good.
\<close>

theorem uploaded_bytes_downloaded:
  assumes up: "uploadArtifactFormatFile (Put sha256 dir tmp) cfg q (s, f) = (ArtifactUploaded a, s', f')"
    and form: "upq_form q = FileOf bytes ctype"
    and path: "PathUUID (upq_params q) ''uuid'' = Inr u" "PathPositiveInt (upq_params q) ''version'' = Inr v" "formatIndexParam (upq_params q) = Some i"
    and store: "usable_temp sha256 dir tmp" "good_fs sha256 dir f"
    and fmt: "fmt_URL (art_Formats a ! nat i) = []" "first_match (art_Formats a) (nat i) mt"
    and req: "req_query (web_params (dlr_web r)) ''mediaType'' = mt" "mt \<noteq> []" "dlr_method r = ''GET''" "web_if_none_match (dlr_web r) = []"
      "PathUUID (web_params (dlr_web r)) ''uuid'' = Inr u" "PathPositiveInt (web_params (dlr_web r)) ''artifactVersion'' = Inr v"
    and allowed: "decide s' (dlr_web r) CapArtifactDownload (no_resource\<lparr>ArtifactUUID := u, ResArtifactType := art_Type a\<rparr>) = Inr True"
  shows "good_fs sha256 dir f' \<and> (\<exists>headers etag cc.
    downloadArtifactByVersion parse extensions cfg (Open dir f') s' r = Content headers etag cc (fmt_MediaType (art_Formats a ! nat i)) (Some bytes))"
proof -
  let ?t = "fmt_MediaType (art_Formats a ! nat i)"
  obtain sha n s1 where put: "Put sha256 dir tmp bytes f = (Inr (sha, n), f')" and set: "SetArtifactFormatFile Pool u v i sha s1 = (Inr a, s')"
    using uploadArtifactFormatFile_stores [OF up form path] by blast
  have stored: "good_fs sha256 dir f'" "Open dir f' sha = Inr bytes" using fsblob.put_then_open [OF store put] by blast+
  note a = SetArtifactFormatFile_formats [OF set]
  have types: "fmt_MediaType (listArtifactFormats s1 u v ! j) = fmt_MediaType (art_Formats a ! j)"
    and urls: "fmt_URL (listArtifactFormats s1 u v ! j) = fmt_URL (art_Formats a ! j)" if "j < length (art_Formats a)" for j
    using that a(3,4) by (metis length_map nth_map)+
  have "GetArtifactFormatForDownload s' u v ?t = Inr (SelfHosted sha)"
    using first_match_own [OF fmt(2)] fmt(1) a(5)
    by (intro upload_then_download [OF set]) (auto simp: first_match_def types urls)
  moreover have "selectFormatMediaType parse r (art_Formats a) = Some (?t, False)"
    using req(1,2) first_match_find [OF fmt(2)] by (simp add: selectFormatMediaType_def Let_def)
  ultimately show ?thesis using stored req allowed a
    by (auto simp: downloadArtifactByVersion_def requireGetOrHead_def pathVersion_def downloadArtifactContent_def orNotFound_def
        proceed_def authorize_def conditionalBlob_def conditional_def MatchesIfNoneMatch_def streamBlob_def Let_def)
qed

text \<open>
  The header lines: a suggested file name cannot end the header line, but a name that ends in a backslash
  escapes the closing quote.
\<close>

lemma disposition_one_line:
  "CHR 0x0D \<notin> set (contentDispositionFor extensions name mediaType) \<and> CHR 0x0A \<notin> set (contentDispositionFor extensions name mediaType)"
  by (auto simp: contentDispositionFor_def Let_def)

lemma backslash_opens_quote:
  "contentDispositionFor extensions [CHR 0x5C] mediaType = ''attachment; filename='' @ [CHR 0x22, CHR 0x5C, CHR 0x22]"
  by (simp add: contentDispositionFor_def)

text \<open>A 500 for a blob that does not open leaves with the validator and the cache policy of the content.\<close>

lemma failed_stream_is_cacheable:
  assumes "opened sha = Inl err" "web_if_none_match (dlr_web r) = []" "\<not> IsAuthenticated (web_principal (dlr_web r))"
  shows "conditionalBlob opened s r cacheControlRevalidate parts sha ct h =
    StreamFailed h (BuildETag (parts @ [authzCacheSuffix s (web_principal (dlr_web r))])) ''public, max-age=60, stale-while-revalidate=300'' err"
  using assms by (simp add: conditionalBlob_def conditional_def MatchesIfNoneMatch_def streamBlob_def Let_def cacheControlFor_def cacheControlRevalidate_def)

section \<open>Examples\<close>

text \<open>
  An artifact with two formats that everyone may download, uploads to and downloads of its second format,
  and a parser of the one weight the example uses.
\<close>

definition two_formats :: ArtifactInput where
  "two_formats = \<lparr>ain_Name = ''sbom'', ain_Type = ''BOM'', ain_CreatedDate = None, ain_DistributionIDs = [],
     ain_Formats = [\<lparr>fin_MediaType = ''application/json'', fin_Description = []\<rparr>, \<lparr>fin_MediaType = ''application/xml'', fin_Description = []\<rparr>]\<rparr>"

definition content_db :: db where
  "content_db = (snd (CreateArtifact Pool uuid1 (\<lambda>i. if i = 0 then ''f1'' else ''f2'') two_formats empty_db))\<lparr>
     tbl_entitlement := [entitlement_on ''e1'' ''all_products'' None ''t1''],
     tbl_template_rule := [rule_of ''t1'' CapArtifactDownload ''allow'']\<rparr>"

definition site :: server_config where
  "site = \<lparr>cfg_RootURL = ''https://tea.example'', cfg_APIBasePath = ''/tea/v1''\<rparr>"

definition upload_of :: "string \<Rightarrow> upload_request" where
  "upload_of bytes = \<lparr>upq_params = \<lparr>req_path = (\<lambda>k. if k = ''uuid'' then uuid1 else ''1''), req_query = (\<lambda>_. ''1'')\<rparr>,
     upq_form = FileOf bytes ''application/xml''\<rparr>"

definition download_of :: "string \<Rightarrow> string \<Rightarrow> download_request" where
  "download_of mt accept = \<lparr>dlr_web = (visitor uuid1)\<lparr>web_params := \<lparr>req_path = (\<lambda>k. if k = ''uuid'' then uuid1 else ''1''),
       req_query = (\<lambda>k. if k = ''mediaType'' then mt else [])\<rparr>\<rparr>, dlr_method = ''GET'', dlr_accept = accept\<rparr>"

definition parse_half :: "string \<Rightarrow> float64 option" where
  "parse_half s = (if s = ''0.5'' then Some (Fin (1 / 2)) else None)"

definition after_upload :: "upload_answer \<times> db \<times> fs" where
  "after_upload = uploadArtifactFormatFile (Put pad32 ''blobs'' ''blobs/upload-1'') site (upload_of ''<bom/>'') (content_db, \<lambda>_. None)"

lemma example_upload:
  "fst after_upload = ArtifactUploaded \<lparr>art_UUID = uuid1, art_Version = 1, art_Name = ''sbom'', art_Type = ''BOM'', art_CreatedDate = None,
     art_DistributionIDs = [],
     art_Formats = [\<lparr>fmt_MediaType = ''application/json'', fmt_Description = [], fmt_URL = [], fmt_SignatureURL = [],
         fmt_Checksums = [], fmt_EvidenceBundle = None, fmt_EvidenceBundleRef = None\<rparr>,
       \<lparr>fmt_MediaType = ''application/xml'', fmt_Description = [], fmt_URL = [], fmt_SignatureURL = [],
         fmt_Checksums = [\<lparr>AlgType = ''SHA-256'', AlgValue = hexEncode (pad32 ''<bom/>'')\<rparr>], fmt_EvidenceBundle = None, fmt_EvidenceBundleRef = None\<rparr>]\<rparr>"
  by code_simp

lemma example_answer: "\<exists>a s' f'. after_upload = (ArtifactUploaded a, s', f') \<and> fst after_upload = ArtifactUploaded a"
  by (metis example_upload prod.collapse)

lemma example_allowed:
  "decide (fst (snd after_upload)) (dlr_web (download_of mt accept)) CapArtifactDownload
     (no_resource\<lparr>ArtifactUUID := uuid1, ResArtifactType := ''BOM''\<rparr>) = Inr True"
  by code_simp

lemma example_paths:
  "PathUUID (upq_params (upload_of b)) ''uuid'' = Inr uuid1" "PathPositiveInt (upq_params (upload_of b)) ''version'' = Inr 1"
  "formatIndexParam (upq_params (upload_of b)) = Some 1"
  "PathUUID (web_params (dlr_web (download_of mt accept))) ''uuid'' = Inr uuid1"
  "PathPositiveInt (web_params (dlr_web (download_of mt accept))) ''artifactVersion'' = Inr 1"
  by code_simp+

lemma example_store: "usable_temp pad32 ''blobs'' ''blobs/upload-1''" "good_fs pad32 ''blobs'' (\<lambda>_. None)"
proof -
  have "temp_name ''blobs'' ''blobs/upload-1''" unfolding temp_name_def by (intro exI [of _ "''1''"]) simp
  then show "usable_temp pad32 ''blobs'' ''blobs/upload-1''" by (simp add: usable_temp_def pad32_def min_def)
qed (simp add: good_fs_def)

theorem negotiation_optimal_witness:
  "selectFormatMediaType parse_half (download_of [] ''application/json;q=0.5, application/*'')
      [\<lparr>fmt_MediaType = ''application/json'', fmt_Description = [], fmt_URL = [], fmt_SignatureURL = [],
         fmt_Checksums = [], fmt_EvidenceBundle = None, fmt_EvidenceBundleRef = None\<rparr>,
       \<lparr>fmt_MediaType = ''application/xml'', fmt_Description = [], fmt_URL = [], fmt_SignatureURL = [],
         fmt_Checksums = [], fmt_EvidenceBundle = None, fmt_EvidenceBundleRef = None\<rparr>] = Some (''application/xml'', True)
   \<and> (\<exists>q. best_type (parseAccept parse_half ''application/json;q=0.5, application/*'') [''application/json'', ''application/xml''] ''application/xml'' q)"
  (is "selectFormatMediaType _ ?r ?fmts = _ \<and> _")
proof -
  have s: "selectFormatMediaType parse_half ?r ?fmts = Some (''application/xml'', True)" by code_simp
  have r: "dlr_accept ?r = ''application/json;q=0.5, application/*''" "req_query (web_params (dlr_web ?r)) ''mediaType'' = []"
    by (simp_all add: download_of_def)
  show ?thesis using negotiation_optimal [of "map fmt_MediaType ?fmts" ?fmts "[]" ?r _ parse_half] s r by simp
qed

theorem download_needs_grant_witness:
  "disclosed (downloadArtifactByVersion parse_half (\<lambda>_. []) site (\<lambda>_. Inr ''bytes'') (fst (snd after_upload)) (download_of ''text/plain'' []))
   \<and> may_download (fst (snd after_upload)) (dlr_web (download_of ''text/plain'' [])) uuid1 1"
proof -
  have d: "disclosed (downloadArtifactByVersion parse_half (\<lambda>_. []) site (\<lambda>_. Inr ''bytes'') (fst (snd after_upload)) (download_of ''text/plain'' []))"
    by code_simp
  have "uuid1 = req_path (web_params (dlr_web (download_of ''text/plain'' []))) ''uuid''" by (simp add: download_of_def)
  from download_needs_grant [OF this, of parse_half "\<lambda>_. []" site "\<lambda>_. Inr ''bytes''" "fst (snd after_upload)"] d example_paths(5)
  show ?thesis by auto
qed

lemma example_types:
  "EqualFold ''application/xml'' ''Application/XML''" "\<not> EqualFold ''application/json'' ''Application/XML''"
  by code_simp+

theorem uploaded_bytes_downloaded_witness:
  "\<exists>headers etag cc. downloadArtifactByVersion parse_half (\<lambda>_. []) site (Open ''blobs'' (snd (snd after_upload))) (fst (snd after_upload))
     (download_of ''Application/XML'' []) = Content headers etag cc ''application/xml'' (Some ''<bom/>'')"
proof -
  obtain a s' f' where u: "after_upload = (ArtifactUploaded a, s', f')" and a: "fst after_upload = ArtifactUploaded a"
    using example_answer by blast
  from a have fm: "fmt_URL (art_Formats a ! 1) = []" "first_match (art_Formats a) 1 ''Application/XML''" "fmt_MediaType (art_Formats a ! 1) = ''application/xml''"
    "art_Type a = ''BOM''"
    unfolding example_upload by (auto simp: first_match_def example_types less_Suc_eq)
  have d: "decide s' (dlr_web (download_of ''Application/XML'' [])) CapArtifactDownload (no_resource\<lparr>ArtifactUUID := uuid1, ResArtifactType := art_Type a\<rparr>) = Inr True"
    using example_allowed [of "''Application/XML''" "[]"] unfolding u fm(4) by simp
  have r: "upq_form (upload_of ''<bom/>'') = FileOf ''<bom/>'' ''application/xml''" "nat 1 = 1"
    "req_query (web_params (dlr_web (download_of ''Application/XML'' []))) ''mediaType'' = ''Application/XML''" "''Application/XML'' \<noteq> []"
    "dlr_method (download_of ''Application/XML'' []) = ''GET''" "web_if_none_match (dlr_web (download_of ''Application/XML'' [])) = []"
    by (simp_all add: upload_of_def download_of_def visitor_def)
  have "fmt_URL (art_Formats a ! nat 1) = []" "first_match (art_Formats a) (nat 1) ''Application/XML''" unfolding r(2) by (rule fm(1,2))+
  from uploaded_bytes_downloaded [OF u [unfolded after_upload_def] r(1) example_paths(1-3) example_store this r(3-6) example_paths(4,5) d, of parse_half "\<lambda>_. []"]
  show ?thesis unfolding u r(2) fm(3) by simp
qed

theorem blob_needs_grant_witness:
  "serve pad32 (Open ''blobs'' (snd (snd after_upload))) (fst (snd after_upload)) ((bearer_request [] 0)\<lparr>ar_authorization := []\<rparr>)
      (hexEncode (pad32 ''<bom/>'')) = FileContent ''application/xml'' (hexEncode (pad32 ''<bom/>'')) ''<bom/>''
   \<and> (\<exists>fm \<in> set (tbl_artifact_format (fst (snd after_upload))). \<exists>a \<in> set (tbl_artifact (fst (snd after_upload))). is_version (af_artifact fm) (af_version fm) a)"
proof -
  let ?n = "hexEncode (pad32 ''<bom/>'')"
  have c: "serve pad32 (Open ''blobs'' (snd (snd after_upload))) (fst (snd after_upload)) ((bearer_request [] 0)\<lparr>ar_authorization := []\<rparr>) ?n =
      FileContent ''application/xml'' ?n ''<bom/>''" by code_simp
  obtain a s' f' where u: "after_upload = (ArtifactUploaded a, s', f')"
    using example_answer by blast
  obtain sha n where "Put pad32 ''blobs'' ''blobs/upload-1'' ''<bom/>'' (\<lambda>_. None) = (Inr (sha, n), f')"
    using uploadArtifactFormatFile_stores [OF u [unfolded after_upload_def] _ example_paths(1-3), of "''<bom/>''" "''application/xml''"]
    by (auto simp: upload_of_def)
  from fsblob.put_then_open [OF example_store this] have "good_fs pad32 ''blobs'' (snd (snd after_upload))" unfolding u by simp
  from blob_needs_grant [OF c this] c show ?thesis by blast
qed

end
