(* ===== verification/Bundle.thy ===== *)
theory Bundle
  imports Cle Downloads "HOL-Library.Word"
begin

text \<open>
  Product bundles (\<open>internal/bundle\<close>): the manifest, the import of a zip archive in one transaction, the
  check of an archive, and the export of a product.

  JSON and the JSON schema are parameters: \<open>decode\<close> gives the manifest of well-formed bytes and \<open>conforms\<close>
  whether \<open>ValidateManifest\<close> accepts them.
\<close>

section \<open>Archives\<close>

text \<open>
  An entry as \<open>archive/zip\<close> presents it: its name, the cleaned path under which \<open>Open\<close> finds it, the size its
  header declares, and what reading it yields, the bytes up to the end of the data or up to an error
  (truncated data, a wrong checksum or size).
\<close>

record zip_entry =
  ze_Name :: string
  ze_path :: string
  ze_UncompressedSize64 :: "64 word"
  ze_data :: string
  ze_clean :: bool

type_synonym zip_archive = "zip_entry list"

datatype bundle_error =
    TooManyEntries nat
  | TooLarge
  | MissingEntry string
  | UnreadableEntry string
  | EntryTooLong string
  | ManifestRejected
  | ManifestUndecodable
  | MissingFiles "string list"
  | CorruptEntry string string
  | ImportFault repo_error

definition maxZipEntrySize :: nat where "maxZipEntrySize = 2 ^ 30"
definition maxManifestSize :: nat where "maxManifestSize = 10 * 2 ^ 20"
definition maxZipEntries :: nat where "maxZipEntries = 1000"
definition maxZipTotalUncompressed :: "64 word" where "maxZipTotalUncompressed = 4 * 2 ^ 30"

fun checkTotal :: "zip_archive \<Rightarrow> 64 word \<Rightarrow> bundle_error option" where
  "checkTotal [] running = None"
| "checkTotal (f # zr) running =
     (let running = running + ze_UncompressedSize64 f in
      if running > maxZipTotalUncompressed then Some TooLarge else checkTotal zr running)"

definition checkZipResourceLimits :: "zip_archive \<Rightarrow> bundle_error option" where
  "checkZipResourceLimits zr =
     (if length zr > maxZipEntries then Some (TooManyEntries (length zr)) else checkTotal zr 0)"

text \<open>\<open>io.ReadAll\<close> of \<open>io.LimitReader(f, n)\<close>: an error behind the first \<open>n\<close> bytes is not seen.\<close>

definition readLimited :: "nat \<Rightarrow> zip_entry \<Rightarrow> string option" where
  "readLimited n f = (if length (ze_data f) \<ge> n then Some (take n (ze_data f)) else if ze_clean f then Some (ze_data f) else None)"

text \<open>
  \<open>zr.Open\<close> finds the entry of a path, refuses a path that occurs twice or is a directory as well, and opens a
  directory, which cannot be read.
\<close>

definition has_prefix :: "string \<Rightarrow> string \<Rightarrow> bool" where
  "has_prefix prefix s \<longleftrightarrow> take (length prefix) s = prefix"

definition readZipFile :: "zip_archive \<Rightarrow> string \<Rightarrow> nat \<Rightarrow> bundle_error + string" where
  "readZipFile zr name maxSize =
     (case (filter (\<lambda>f. ze_path f = name) zr, has_row (\<lambda>f. has_prefix (name @ ''/'') (ze_path f)) zr) of
        ([f], False) \<Rightarrow>
          (case readLimited (maxSize + 1) f of
             None \<Rightarrow> Inl (UnreadableEntry name)
           | Some raw \<Rightarrow> if length raw > maxSize then Inl (EntryTooLong name) else Inr raw)
      | ([], True) \<Rightarrow> Inl (UnreadableEntry name)
      | _ \<Rightarrow> Inl (MissingEntry name))"

section \<open>Manifests\<close>

record ProductEntry =
  pe_Product :: Product
  pe_CLE :: "CLE option"

record ProductReleaseEntry =
  pre_ProductRelease :: ProductRelease
  pre_CLE :: "CLE option"

record ComponentEntry =
  ce_Component :: Component
  ce_CLE :: "CLE option"

record ComponentReleaseEntry =
  cre_ComponentRelease :: ComponentRelease
  cre_CLE :: "CLE option"

record Manifest =
  mf_FormatVersion :: string
  mf_ExportedAt :: time
  mf_Product :: ProductEntry
  mf_ProductReleases :: "ProductReleaseEntry list"
  mf_Components :: "ComponentEntry list"
  mf_ComponentReleases :: "ComponentReleaseEntry list"
  mf_Collections :: "Collection list"

definition FormatVersion :: string where "FormatVersion = ''1.0''"

abbreviation ChecksumTypeSHA256 :: string where "ChecksumTypeSHA256 \<equiv> ''SHA-256''"

text \<open>The three collectors add to a set of hashes; the set is a list here.\<close>

definition collectSHA256 :: "Checksum list \<Rightarrow> string list" where
  "collectSHA256 checksums = map AlgValue (filter (\<lambda>c. AlgType c = ChecksumTypeSHA256) checksums)"

definition collectFileHashes :: "Collection list \<Rightarrow> string list" where
  "collectFileHashes collections =
     concat (map (\<lambda>c. concat (map (\<lambda>a. concat (map (\<lambda>f. collectSHA256 (fmt_Checksums f)) (art_Formats a))) (coll_Artifacts c))) collections)"

definition collectDistributionFileHashes :: "ReleaseDistribution list \<Rightarrow> string list" where
  "collectDistributionFileHashes dists = concat (map (\<lambda>d. collectSHA256 (dist_Checksums d)) dists)"

text \<open>The hashes a manifest refers to, as both the import and the check collect them.\<close>

definition expectedHashes :: "Manifest \<Rightarrow> string list" where
  "expectedHashes m = collectFileHashes (mf_Collections m)
     @ concat (map (\<lambda>cr. collectDistributionFileHashes (crel_Distributions (cre_ComponentRelease cr))) (mf_ComponentReleases m))"

abbreviation filesPrefix :: string where "filesPrefix \<equiv> ''files/''"

text \<open>The hash in the name of a \<open>files/\<close> entry; the import passes over an entry named just \<open>files/\<close>.\<close>

definition file_hash :: "zip_entry \<Rightarrow> string option" where
  "file_hash f =
     (if length (ze_Name f) \<le> length filesPrefix \<or> \<not> has_prefix filesPrefix (ze_Name f) then None
      else Some (drop (length filesPrefix) (ze_Name f)))"

definition missingFileHashes :: "zip_archive \<Rightarrow> Manifest \<Rightarrow> string list" where
  "missingFileHashes zr m =
     filter (\<lambda>h. \<not> List.member (List.map_filter file_hash zr) h) (remdups (expectedHashes m))"

section \<open>The import\<close>

record ImportResult =
  ir_ProductCreated :: bool
  ir_Created :: "string \<Rightarrow> int"
  ir_AlreadyExisted :: "string \<Rightarrow> int"

definition newImportResult :: ImportResult where
  "newImportResult = \<lparr>ir_ProductCreated = False, ir_Created = (\<lambda>_. 0), ir_AlreadyExisted = (\<lambda>_. 0)\<rparr>"

definition record_result :: "string \<Rightarrow> bool \<Rightarrow> ImportResult \<Rightarrow> ImportResult" where
  "record_result kind created res =
     (if created then res\<lparr>ir_Created := (ir_Created res)(kind := ir_Created res kind + 1)\<rparr>
      else res\<lparr>ir_AlreadyExisted := (ir_AlreadyExisted res)(kind := ir_AlreadyExisted res kind + 1)\<rparr>)"

text \<open>A loop that threads the result and returns at the first error.\<close>

fun foldR :: "('x \<Rightarrow> 'r \<Rightarrow> 'r repo_op) \<Rightarrow> 'x list \<Rightarrow> 'r \<Rightarrow> 'r repo_op" where
  "foldR body [] res = returnR res"
| "foldR body (x # xs) res = bindR (body x res) (foldR body xs)"

definition recorded :: "string \<Rightarrow> bool repo_op \<Rightarrow> ImportResult \<Rightarrow> ImportResult repo_op" where
  "recorded kind imported res = bindR imported (\<lambda>created. returnR (record_result kind created res))"

definition rewriteURL :: "Checksum list \<Rightarrow> (string \<rightharpoonup> string) \<Rightarrow> string \<Rightarrow> string" where
  "rewriteURL checksums sha256ToURL fallback =
     (case find_row (\<lambda>c. AlgType c = ChecksumTypeSHA256 \<and> sha256ToURL (AlgValue c) \<noteq> None) checksums of
        None \<Rightarrow> fallback | Some c \<Rightarrow> the (sha256ToURL (AlgValue c)))"

definition selfHostedOrURL :: "Checksum list \<Rightarrow> (string \<rightharpoonup> string) \<Rightarrow> string \<Rightarrow> string" where
  "selfHostedOrURL checksums sha256ToURL fallback =
     (if has_row (\<lambda>c. AlgType c = ChecksumTypeSHA256 \<and> sha256ToURL (AlgValue c) \<noteq> None) checksums then [] else fallback)"

definition importCLE :: "repo_conn \<Rightarrow> string \<Rightarrow> uuid \<Rightarrow> CLE option \<Rightarrow> ImportResult \<Rightarrow> ImportResult repo_op" where
  "importCLE r ownerType ownerUUID cle res =
     (case cle of
        None \<Rightarrow> returnR res
      | Some cle \<Rightarrow>
          bindR (foldR (\<lambda>e. recorded ''cleEvent'' (ImportCLEEvent r ownerType ownerUUID e)) (cle_Events cle) res) (\<lambda>res.
          case cle_Definitions cle of
            None \<Rightarrow> returnR res
          | Some support \<Rightarrow>
              foldR (\<lambda>d. recorded ''cleSupportDefinition'' (ImportCLESupportDefinition r ownerType ownerUUID d)) support res))"

definition importDistribution ::
  "repo_conn \<Rightarrow> (string \<rightharpoonup> string) \<Rightarrow> uuid \<Rightarrow> ReleaseDistribution \<Rightarrow> ImportResult \<Rightarrow> ImportResult repo_op" where
  "importDistribution r sha256ToURL componentReleaseUUID d =
     recorded ''distribution'' (ImportDistribution r
       \<lparr>din_DistributionID = dist_DistributionID d, din_ComponentReleaseUUID = componentReleaseUUID,
        din_Description = dist_Description d, din_Identifiers = dist_Identifiers d,
        din_URL = rewriteURL (dist_Checksums d) sha256ToURL (dist_URL d), din_SignatureURL = dist_SignatureURL d,
        din_Checksums = dist_Checksums d\<rparr>)"

text \<open>\<open>gen\<close> gives the fresh identifier of each format of an artifact version.\<close>

definition importArtifact ::
  "repo_conn \<Rightarrow> (uuid \<Rightarrow> int \<Rightarrow> nat \<Rightarrow> uuid) \<Rightarrow> (string \<rightharpoonup> string) \<Rightarrow> Artifact \<Rightarrow> ImportResult \<Rightarrow> ImportResult repo_op" where
  "importArtifact r gen sha256ToURL a =
     recorded ''artifact'' (ImportArtifact r (gen (art_UUID a) (art_Version a))
       \<lparr>iain_UUID = art_UUID a, iain_Version = art_Version a, iain_Name = art_Name a, iain_Type = art_Type a,
        iain_CreatedDate = art_CreatedDate a, iain_DistributionIDs = art_DistributionIDs a,
        iain_Formats = map (\<lambda>f.
          \<lparr>ifin_MediaType = fmt_MediaType f, ifin_Description = fmt_Description f,
           ifin_URL = selfHostedOrURL (fmt_Checksums f) sha256ToURL (fmt_URL f), ifin_SignatureURL = fmt_SignatureURL f,
           ifin_Checksums = fmt_Checksums f\<rparr>) (art_Formats a)\<rparr>)"

definition importProductReleases :: "repo_conn \<Rightarrow> Manifest \<Rightarrow> ImportResult \<Rightarrow> ImportResult repo_op" where
  "importProductReleases r m =
     foldR (\<lambda>e res. let pr = pre_ProductRelease e in
       bindR (recorded ''productRelease'' (ImportProductRelease r
                \<lparr>irel_UUID = prel_UUID pr, irel_Parent = prod_UUID (pe_Product (mf_Product m)), irel_ParentName = prel_ProductName pr,
                 irel_Release = \<lparr>rin_Version = prel_Version pr, rin_CreatedDate = prel_CreatedDate pr, rin_ReleaseDate = prel_ReleaseDate pr,
                   rin_PreRelease = (prel_PreRelease pr = Some True), rin_Identifiers = prel_Identifiers pr\<rparr>\<rparr>) res)
         (importCLE r OwnerProductRelease (prel_UUID pr) (pre_CLE e)))
       (mf_ProductReleases m)"

definition importComponents :: "repo_conn \<Rightarrow> Manifest \<Rightarrow> ImportResult \<Rightarrow> ImportResult repo_op" where
  "importComponents r m =
     foldR (\<lambda>e res. let c = ce_Component e in
       bindR (recorded ''component'' (ImportComponent r (comp_UUID c) (comp_Name c) (comp_Identifiers c)) res)
         (importCLE r OwnerComponent (comp_UUID c) (ce_CLE e)))
       (mf_Components m)"

definition importComponentReleases :: "repo_conn \<Rightarrow> (string \<rightharpoonup> string) \<Rightarrow> Manifest \<Rightarrow> ImportResult \<Rightarrow> ImportResult repo_op" where
  "importComponentReleases r sha256ToURL m =
     foldR (\<lambda>e res. let cr = cre_ComponentRelease e in
       bindR (recorded ''componentRelease'' (ImportComponentRelease r
                \<lparr>irel_UUID = crel_UUID cr, irel_Parent = crel_Component cr, irel_ParentName = crel_ComponentName cr,
                 irel_Release = \<lparr>rin_Version = crel_Version cr, rin_CreatedDate = crel_CreatedDate cr, rin_ReleaseDate = crel_ReleaseDate cr,
                   rin_PreRelease = (crel_PreRelease cr = Some True), rin_Identifiers = crel_Identifiers cr\<rparr>\<rparr>) res) (\<lambda>res.
       bindR (importCLE r OwnerComponentRelease (crel_UUID cr) (cre_CLE e) res)
         (foldR (importDistribution r sha256ToURL (crel_UUID cr)) (crel_Distributions cr))))
       (mf_ComponentReleases m)"

definition importComponentLinks :: "repo_conn \<Rightarrow> Manifest \<Rightarrow> unit repo_op" where
  "importComponentLinks r m =
     forR (\<lambda>e. let pr = pre_ProductRelease e in
       forR (\<lambda>ref. ImportComponentLink r (prel_UUID pr) ref) (prel_Components pr))
       (mf_ProductReleases m)"

definition importCollections ::
  "repo_conn \<Rightarrow> (uuid \<Rightarrow> int \<Rightarrow> nat \<Rightarrow> uuid) \<Rightarrow> (string \<rightharpoonup> string) \<Rightarrow> Manifest \<Rightarrow> ImportResult \<Rightarrow> ImportResult repo_op" where
  "importCollections r gen sha256ToURL m =
     foldR (\<lambda>col res.
       bindR (foldR (importArtifact r gen sha256ToURL) (coll_Artifacts col) res)
         (recorded ''collection'' (ImportCollection r
            \<lparr>icin_UUID = coll_UUID col, icin_Version = coll_Version col, icin_CreatedDate = coll_CreatedDate col,
             icin_BelongsTo = coll_BelongsTo col, icin_UpdateReason = coll_UpdateReason col,
             icin_Artifacts = map (\<lambda>a. \<lparr>aref_UUID = art_UUID a, aref_Version = art_Version a\<rparr>) (coll_Artifacts col)\<rparr>)))
       (mf_Collections m)"

text \<open>The part of \<open>importAllEntities\<close> after the blobs.\<close>

definition importEntities ::
  "repo_conn \<Rightarrow> (uuid \<Rightarrow> int \<Rightarrow> nat \<Rightarrow> uuid) \<Rightarrow> (string \<rightharpoonup> string) \<Rightarrow> Manifest \<Rightarrow> ImportResult \<Rightarrow> ImportResult repo_op" where
  "importEntities r gen sha256ToURL m res =
     (let p = pe_Product (mf_Product m) in
      bindR (ImportProduct r (prod_UUID p) (prod_Name p) (prod_Identifiers p)) (\<lambda>productCreated.
      bindR (importCLE r OwnerProduct (prod_UUID p) (pe_CLE (mf_Product m))
               (record_result ''product'' productCreated (res\<lparr>ir_ProductCreated := productCreated\<rparr>))) (\<lambda>res.
      bindR (importProductReleases r m res) (\<lambda>res.
      bindR (importComponents r m res) (\<lambda>res.
      bindR (importComponentReleases r sha256ToURL m res) (\<lambda>res.
      bindR (importComponentLinks r m) (\<lambda>_.
      importCollections r gen sha256ToURL m res)))))))"

text \<open>The last media type the manifest declares for a hash.\<close>

definition collectMediaTypes :: "Manifest \<Rightarrow> string \<rightharpoonup> string" where
  "collectMediaTypes m =
     map_of (rev (concat (map (\<lambda>col. concat (map (\<lambda>a. concat (map (\<lambda>f.
       map (\<lambda>h. (h, fmt_MediaType f)) (collectSHA256 (fmt_Checksums f))) (art_Formats a))) (coll_Artifacts col))) (mf_Collections m))))"

text \<open>The store the import writes to: \<open>Put\<close>, and \<open>PutUnchecked\<close> where the store has it; \<open>tmp\<close> names the temporary file of each entry.\<close>

record blob_store =
  bs_put :: "string \<Rightarrow> string \<Rightarrow> fs \<Rightarrow> (repo_error + (string \<times> nat)) \<times> fs"
  bs_put_unchecked :: "(string \<Rightarrow> string \<Rightarrow> string \<Rightarrow> fs \<Rightarrow> (repo_error + nat) \<times> fs) option"
  bs_tmp :: "nat \<Rightarrow> string"

text \<open>\<open>io.Copy\<close> inside \<open>Put\<close> fails where reading the entry fails, before anything is named.\<close>

definition storeEntry ::
  "blob_store \<Rightarrow> bool \<Rightarrow> nat \<Rightarrow> zip_entry \<Rightarrow> string \<Rightarrow> fs \<Rightarrow> (bundle_error + (string \<times> nat)) \<times> fs" where
  "storeEntry store unsafe i f expectedSHA256 fs =
     (case readLimited (maxZipEntrySize + 1) f of
        None \<Rightarrow> (Inl (UnreadableEntry (ze_Name f)), fs)
      | Some body \<Rightarrow>
          (case (unsafe, bs_put_unchecked store) of
             (True, Some putUnchecked) \<Rightarrow>
               (case putUnchecked (bs_tmp store i) expectedSHA256 body fs of
                  (Inl e, fs) \<Rightarrow> (Inl (ImportFault e), fs) | (Inr n, fs) \<Rightarrow> (Inr (expectedSHA256, n), fs))
           | _ \<Rightarrow>
               (case bs_put store (bs_tmp store i) body fs of
                  (Inl e, fs) \<Rightarrow> (Inl (ImportFault e), fs) | (Inr x, fs) \<Rightarrow> (Inr x, fs))))"

text \<open>The loop over the entries; \<open>i\<close> counts them.\<close>

fun importBlobs ::
  "blob_store \<Rightarrow> string \<Rightarrow> (string \<rightharpoonup> string) \<Rightarrow> bool \<Rightarrow> nat \<Rightarrow> zip_archive \<Rightarrow> (string \<rightharpoonup> string)
     \<Rightarrow> db \<times> fs \<Rightarrow> (bundle_error + (string \<rightharpoonup> string)) \<times> db \<times> fs" where
  "importBlobs store rootURL mediaTypes unsafe i [] urls st = (Inr urls, st)"
| "importBlobs store rootURL mediaTypes unsafe i (f # zr) urls (s, fs) =
     (case file_hash f of
        None \<Rightarrow> importBlobs store rootURL mediaTypes unsafe (Suc i) zr urls (s, fs)
      | Some expectedSHA256 \<Rightarrow>
          (case storeEntry store unsafe i f expectedSHA256 fs of
             (Inl e, fs) \<Rightarrow> (Inl e, s, fs)
           | (Inr (actualSHA256, n), fs) \<Rightarrow>
               if n > maxZipEntrySize then (Inl (EntryTooLong (ze_Name f)), s, fs)
               else if \<not> unsafe \<and> actualSHA256 \<noteq> expectedSHA256 then (Inl (CorruptEntry (ze_Name f) actualSHA256), s, fs)
               else (case UpsertBlob actualSHA256 (int n) (case mediaTypes actualSHA256 of None \<Rightarrow> [] | Some t \<Rightarrow> t) s of
                       (Inl e, s) \<Rightarrow> (Inl (ImportFault e), s, fs)
                     | (Inr _, s) \<Rightarrow>
                         importBlobs store rootURL mediaTypes unsafe (Suc i) zr
                           (urls(actualSHA256 \<mapsto> rootURL @ ''/files/'' @ actualSHA256)) (s, fs))))"

definition decodeAndValidateManifest ::
  "(string \<Rightarrow> bool) \<Rightarrow> (string \<Rightarrow> Manifest option) \<Rightarrow> zip_archive \<Rightarrow> bool \<Rightarrow> bundle_error + Manifest" where
  "decodeAndValidateManifest conforms decode zr unsafe =
     (case readZipFile zr ''manifest.json'' maxManifestSize of
        Inl e \<Rightarrow> Inl e
      | Inr manifestRaw \<Rightarrow>
          if \<not> unsafe \<and> \<not> conforms manifestRaw then Inl ManifestRejected
          else case decode manifestRaw of
                 None \<Rightarrow> Inl ManifestUndecodable
               | Some m \<Rightarrow>
                   if \<not> unsafe \<and> missingFileHashes zr m \<noteq> [] then Inl (MissingFiles (missingFileHashes zr m)) else Inr m)"

text \<open>
  The whole import. \<open>WithTx\<close> brings the database back on an error; the files stay. The connection must not
  be inside a transaction.
\<close>

definition importBundle ::
  "(string \<Rightarrow> bool) \<Rightarrow> (string \<Rightarrow> Manifest option) \<Rightarrow> repo_conn \<Rightarrow> (uuid \<Rightarrow> int \<Rightarrow> nat \<Rightarrow> uuid) \<Rightarrow> blob_store \<Rightarrow> string \<Rightarrow> zip_archive
     \<Rightarrow> bool \<Rightarrow> db \<times> fs \<Rightarrow> (bundle_error + ImportResult) \<times> db \<times> fs" where
  "importBundle conforms decode conn gen store rootURL zr unsafe st =
     (case st of (s, fs) \<Rightarrow>
      (case checkZipResourceLimits zr of
         Some e \<Rightarrow> (Inl e, s, fs)
       | None \<Rightarrow>
           (case decodeAndValidateManifest conforms decode zr unsafe of
              Inl e \<Rightarrow> (Inl e, s, fs)
            | Inr m \<Rightarrow>
                if conn = InTx then (Inl (ImportFault (ErrOther ''repo: WithTx called on a Repo that's already inside a transaction'')), s, fs)
                else (case importBlobs store rootURL (collectMediaTypes m) unsafe 0 zr Map.empty (s, fs) of
                        (Inl e, _, fs) \<Rightarrow> (Inl e, s, fs)
                      | (Inr urls, s1, fs) \<Rightarrow>
                          (case importEntities InTx gen urls m newImportResult s1 of
                             (Inl e, _) \<Rightarrow> (Inl (ImportFault e), s, fs)
                           | (Inr res, s2) \<Rightarrow> (Inr res, s2, fs))))))"

definition Import ::
  "(string \<Rightarrow> bool) \<Rightarrow> (string \<Rightarrow> Manifest option) \<Rightarrow> repo_conn \<Rightarrow> (uuid \<Rightarrow> int \<Rightarrow> nat \<Rightarrow> uuid) \<Rightarrow> blob_store \<Rightarrow> string \<Rightarrow> zip_archive
     \<Rightarrow> db \<times> fs \<Rightarrow> (bundle_error + ImportResult) \<times> db \<times> fs" where
  "Import conforms decode conn gen store rootURL zr = importBundle conforms decode conn gen store rootURL zr False"

definition ImportUnchecked ::
  "(string \<Rightarrow> bool) \<Rightarrow> (string \<Rightarrow> Manifest option) \<Rightarrow> repo_conn \<Rightarrow> (uuid \<Rightarrow> int \<Rightarrow> nat \<Rightarrow> uuid) \<Rightarrow> blob_store \<Rightarrow> string \<Rightarrow> zip_archive
     \<Rightarrow> db \<times> fs \<Rightarrow> (bundle_error + ImportResult) \<times> db \<times> fs" where
  "ImportUnchecked conforms decode conn gen store rootURL zr = importBundle conforms decode conn gen store rootURL zr True"


section \<open>The check of an archive\<close>

record CheckReport =
  rp_Valid :: bool
  rp_SchemaErrors :: "bundle_error list"
  rp_HashMismatches :: "string list"
  rp_MissingFiles :: "string list"
  rp_OrphanFiles :: "string list"
  rp_DanglingReferences :: "string list"

definition empty_report :: CheckReport where
  "empty_report = \<lparr>rp_Valid = False, rp_SchemaErrors = [], rp_HashMismatches = [], rp_MissingFiles = [], rp_OrphanFiles = [],
     rp_DanglingReferences = []\<rparr>"

definition danglingReferences :: "Manifest \<Rightarrow> string list" where
  "danglingReferences m =
     (let componentUUIDs = map (\<lambda>c. comp_UUID (ce_Component c)) (mf_Components m);
          componentReleaseUUIDs = map (\<lambda>cr. crel_UUID (cre_ComponentRelease cr)) (mf_ComponentReleases m) in
      concat (map (\<lambda>e. let pr = pre_ProductRelease e in concat (map (\<lambda>ref.
              if \<not> List.member componentUUIDs (ref_UUID ref)
              then [''product release '' @ prel_UUID pr @ '': component '' @ ref_UUID ref @ '' is not present in components[]'']
              else case ref_Release ref of
                     None \<Rightarrow> []
                   | Some rel \<Rightarrow>
                       if \<not> List.member componentReleaseUUIDs rel
                       then [''product release '' @ prel_UUID pr @ '': component release '' @ rel @ '' is not present in componentReleases[]'']
                       else [])
            (prel_Components pr))) (mf_ProductReleases m)))"

definition checkDanglingReferences :: "Manifest \<Rightarrow> CheckReport \<Rightarrow> CheckReport" where
  "checkDanglingReferences m report = report\<lparr>rp_DanglingReferences := sort (rp_DanglingReferences report @ danglingReferences m)\<rparr>"

text \<open>SHA-256 of an entry, as the hexadecimal digits, when it can be read and is not too long.\<close>

definition sha256OfZipEntry :: "(string \<Rightarrow> string) \<Rightarrow> zip_entry \<Rightarrow> bundle_error + string" where
  "sha256OfZipEntry sha256 f =
     (case readLimited (maxZipEntrySize + 1) f of
        None \<Rightarrow> Inl (UnreadableEntry (ze_Name f))
      | Some bytes \<Rightarrow> if length bytes > maxZipEntrySize then Inl (EntryTooLong (ze_Name f)) else Inr (hexEncode (sha256 bytes)))"

text \<open>The first loop of \<open>checkFileHashes\<close>: the claimed hashes and the names whose content has another one.\<close>

fun checkEntries :: "(string \<Rightarrow> string) \<Rightarrow> zip_archive \<Rightarrow> bundle_error + (string list \<times> string list)" where
  "checkEntries sha256 [] = Inr ([], [])"
| "checkEntries sha256 (f # zr) =
     (if \<not> has_prefix filesPrefix (ze_Name f) then checkEntries sha256 zr
      else let claimedSHA256 = drop (length filesPrefix) (ze_Name f) in
        case sha256OfZipEntry sha256 f of
          Inl e \<Rightarrow> Inl e
        | Inr actualSHA256 \<Rightarrow>
            (case checkEntries sha256 zr of
               Inl e \<Rightarrow> Inl e
             | Inr (present, mismatches) \<Rightarrow>
                 Inr (claimedSHA256 # present, if actualSHA256 \<noteq> claimedSHA256 then ze_Name f # mismatches else mismatches)))"

definition checkFileHashes :: "(string \<Rightarrow> string) \<Rightarrow> zip_archive \<Rightarrow> Manifest \<Rightarrow> CheckReport \<Rightarrow> bundle_error + CheckReport" where
  "checkFileHashes sha256 zr m report =
     (case checkEntries sha256 zr of
        Inl e \<Rightarrow> Inl e
      | Inr (present, mismatches) \<Rightarrow>
          Inr (report\<lparr>rp_HashMismatches := sort mismatches,
                 rp_MissingFiles := sort (filter (\<lambda>h. \<not> List.member present h) (remdups (expectedHashes m))),
                 rp_OrphanFiles := sort (filter (\<lambda>h. \<not> List.member (expectedHashes m) h) (remdups present))\<rparr>))"

definition Check ::
  "(string \<Rightarrow> string) \<Rightarrow> (string \<Rightarrow> bool) \<Rightarrow> (string \<Rightarrow> Manifest option) \<Rightarrow> zip_archive \<Rightarrow> bundle_error + CheckReport" where
  "Check sha256 conforms decode zr =
     (case checkZipResourceLimits zr of
        Some e \<Rightarrow> Inl e
      | None \<Rightarrow>
          (case readZipFile zr ''manifest.json'' maxManifestSize of
             Inl e \<Rightarrow> Inl e
           | Inr manifestRaw \<Rightarrow>
               (let report = (if conforms manifestRaw then empty_report else empty_report\<lparr>rp_SchemaErrors := [ManifestRejected]\<rparr>) in
                case decode manifestRaw of
                  None \<Rightarrow> Inr (report\<lparr>rp_SchemaErrors := rp_SchemaErrors report @ [ManifestUndecodable]\<rparr>)
                | Some m \<Rightarrow>
                    (case checkFileHashes sha256 zr m report of
                       Inl e \<Rightarrow> Inl e
                     | Inr report \<Rightarrow>
                         (let report = checkDanglingReferences m report in
                          Inr (report\<lparr>rp_Valid := rp_SchemaErrors report = [] \<and> rp_HashMismatches report = []
                                 \<and> rp_MissingFiles report = [] \<and> rp_DanglingReferences report = []\<rparr>))))))"

section \<open>The export of a product\<close>

definition bindE :: "'e + 'a \<Rightarrow> ('a \<Rightarrow> 'e + 'b) \<Rightarrow> 'e + 'b" where
  "bindE x k = (case x of Inl e \<Rightarrow> Inl e | Inr a \<Rightarrow> k a)"

fun foldE :: "('x \<Rightarrow> 'a \<Rightarrow> 'e + 'a) \<Rightarrow> 'x list \<Rightarrow> 'a \<Rightarrow> 'e + 'a" where
  "foldE body [] a = Inr a"
| "foldE body (x # xs) a = bindE (body x a) (foldE body xs)"

definition exportFetchLimit :: int where "exportFetchLimit = 1000000"

text \<open>The variables of the loop over the releases.\<close>

record export_state =
  xs_releaseEntries :: "ProductReleaseEntry list"
  xs_collections :: "Collection list"
  xs_seenComponents :: "uuid list"
  xs_componentEntries :: "ComponentEntry list"
  xs_componentReleaseEntries :: "ComponentReleaseEntry list"
  xs_fileHashes :: "string list"

definition exportComponentRef :: "db \<Rightarrow> ComponentRef \<Rightarrow> export_state \<Rightarrow> repo_error + export_state" where
  "exportComponentRef s ref x =
     bindE (if List.member (xs_seenComponents x) (ref_UUID ref) then Inr x
            else bindE (getComponentTx s (ref_UUID ref)) (\<lambda>component.
                 bindE (getCLETx s OwnerComponent (ref_UUID ref)) (\<lambda>componentCLE.
                 Inr (x\<lparr>xs_seenComponents := xs_seenComponents x @ [ref_UUID ref],
                        xs_componentEntries := xs_componentEntries x @ [\<lparr>ce_Component = component, ce_CLE = Some componentCLE\<rparr>]\<rparr>)))) (\<lambda>x.
     case ref_Release ref of
       None \<Rightarrow> Inr x
     | Some componentReleaseUUID \<Rightarrow>
         bindE (getComponentReleaseTx s componentReleaseUUID) (\<lambda>componentRelease.
         bindE (getCLETx s OwnerComponentRelease componentReleaseUUID) (\<lambda>componentReleaseCLE.
         bindE (ListCollections s componentReleaseUUID ''asc'' None exportFetchLimit BelongsToComponentRelease) (\<lambda>releaseCollections.
         Inr (x\<lparr>xs_componentReleaseEntries := xs_componentReleaseEntries x
                  @ [\<lparr>cre_ComponentRelease = componentRelease, cre_CLE = Some componentReleaseCLE\<rparr>],
                xs_collections := xs_collections x @ releaseCollections,
                xs_fileHashes := xs_fileHashes x @ collectDistributionFileHashes (crel_Distributions componentRelease)
                  @ collectFileHashes releaseCollections\<rparr>)))))"

definition exportRelease :: "db \<Rightarrow> ProductRelease \<Rightarrow> export_state \<Rightarrow> repo_error + export_state" where
  "exportRelease s release x =
     bindE (getCLETx s OwnerProductRelease (prel_UUID release)) (\<lambda>releaseCLE.
     bindE (ListCollections s (prel_UUID release) ''asc'' None exportFetchLimit BelongsToProductRelease) (\<lambda>ownCollections.
     foldE (exportComponentRef s) (prel_Components release)
       (x\<lparr>xs_releaseEntries := xs_releaseEntries x @ [\<lparr>pre_ProductRelease = release, pre_CLE = Some releaseCLE\<rparr>],
          xs_collections := xs_collections x @ ownCollections,
          xs_fileHashes := xs_fileHashes x @ collectFileHashes ownCollections\<rparr>)))"

definition buildManifest :: "db \<Rightarrow> time \<Rightarrow> uuid \<Rightarrow> repo_error + (Manifest \<times> string list)" where
  "buildManifest s now productUUID =
     bindE (getProductTx s productUUID) (\<lambda>product.
     bindE (getCLETx s OwnerProduct productUUID) (\<lambda>productCLE.
     bindE (ListProductReleasesByProduct s productUUID [] ''asc'' None exportFetchLimit) (\<lambda>releases.
     bindE (foldE (exportRelease s) releases \<lparr>xs_releaseEntries = [], xs_collections = [], xs_seenComponents = [],
              xs_componentEntries = [], xs_componentReleaseEntries = [], xs_fileHashes = []\<rparr>) (\<lambda>x.
     Inr (\<lparr>mf_FormatVersion = FormatVersion, mf_ExportedAt = now,
           mf_Product = \<lparr>pe_Product = product, pe_CLE = Some productCLE\<rparr>,
           mf_ProductReleases = xs_releaseEntries x, mf_Components = xs_componentEntries x,
           mf_ComponentReleases = xs_componentReleaseEntries x, mf_Collections = xs_collections x\<rparr>,
          xs_fileHashes x)))))"

definition new_entry :: "string \<Rightarrow> string \<Rightarrow> zip_entry" where
  "new_entry name bytes = \<lparr>ze_Name = name, ze_path = name, ze_UncompressedSize64 = of_nat (length bytes), ze_data = bytes, ze_clean = True\<rparr>"

definition copyBlobIntoZip :: "(string \<Rightarrow> repo_error + string) \<Rightarrow> string \<Rightarrow> zip_archive \<Rightarrow> repo_error + zip_archive" where
  "copyBlobIntoZip opened sha256Hex zw = bindE (opened sha256Hex) (\<lambda>bytes. Inr (zw @ [new_entry (filesPrefix @ sha256Hex) bytes]))"

text \<open>
  The archive a successful export has written. \<open>encode\<close> is the JSON encoder and \<open>order\<close> the order in which Go walks the map
  of hashes.
\<close>

definition Export ::
  "(Manifest \<Rightarrow> string) \<Rightarrow> (string list \<Rightarrow> string list) \<Rightarrow> (string \<Rightarrow> repo_error + string) \<Rightarrow> db \<Rightarrow> time \<Rightarrow> uuid \<Rightarrow> repo_error + zip_archive" where
  "Export encode order opened s now productUUID =
     bindE (buildManifest s now productUUID) (\<lambda>(manifest, fileHashes).
     foldE (copyBlobIntoZip opened) (order (remdups fileHashes)) [new_entry ''manifest.json'' (encode manifest)])"


section \<open>The limits of an archive\<close>

text \<open>The 64-bit sum is the true sum as long as no single declared size is within 4 GiB of the word's end.\<close>

lemma checkTotal_exact:
  assumes "\<forall>f \<in> set zr. unat (ze_UncompressedSize64 f) < 2 ^ 64 - 2 ^ 32" "unat running \<le> 2 ^ 32"
  shows "checkTotal zr running = None \<longleftrightarrow> unat running + (\<Sum>f \<leftarrow> zr. unat (ze_UncompressedSize64 f)) \<le> 2 ^ 32"
  using assms
proof (induction zr arbitrary: running)
  case (Cons f zr)
  let ?n = "running + ze_UncompressedSize64 f"
  have "unat running + unat (ze_UncompressedSize64 f) < 2 ^ 64" using Cons.prems by simp
  then have n: "unat ?n = unat running + unat (ze_UncompressedSize64 f)"
    by (simp add: unat_word_ariths)
  have le: "?n > maxZipTotalUncompressed \<longleftrightarrow> \<not> unat ?n \<le> 2 ^ 32"
    by (simp add: word_less_nat_alt maxZipTotalUncompressed_def not_le)
  show ?case
  proof (cases "unat ?n \<le> 2 ^ 32")
    case True
    with Cons.IH [of ?n] Cons.prems n le show ?thesis by (simp add: Let_def add.assoc)
  next
    case False
    with n le show ?thesis by (simp add: Let_def)
  qed
qed simp

text \<open>
  The limits of an archive are exact for all but absurd declarations: when no entry declares a size within
  4 GiB of the largest 64-bit number, the check lets an archive pass precisely when it has at most 1000 entries
  that declare at most 4 GiB together.
\<close>

theorem zip_limits_exact:
  assumes "\<forall>f \<in> set zr. unat (ze_UncompressedSize64 f) < 2 ^ 64 - 2 ^ 32"
  shows "checkZipResourceLimits zr = None \<longleftrightarrow>
    length zr \<le> 1000 \<and> (\<Sum>f \<leftarrow> zr. unat (ze_UncompressedSize64 f)) \<le> 4 * 2 ^ 30"
  using checkTotal_exact [OF assms, of 0] by (simp add: checkZipResourceLimits_def maxZipEntries_def)

definition sized_entry :: "string \<Rightarrow> 64 word \<Rightarrow> zip_entry" where
  "sized_entry name n = \<lparr>ze_Name = name, ze_path = name, ze_UncompressedSize64 = n, ze_data = [], ze_clean = True\<rparr>"

theorem zip_limits_exact_witness:
  "checkZipResourceLimits [sized_entry ''a'' 4294967295, sized_entry ''b'' 1] = None
   \<and> checkZipResourceLimits [sized_entry ''a'' 4294967295, sized_entry ''b'' 2] \<noteq> None"
  using zip_limits_exact [of "[sized_entry ''a'' 4294967295, sized_entry ''b'' 1]"]
    zip_limits_exact [of "[sized_entry ''a'' 4294967295, sized_entry ''b'' 2]"]
  by (simp_all add: sized_entry_def)

text \<open>The sum is kept in 64 bits without a check for overflow, so two entries can declare 16 EiB together and pass.\<close>

lemma declared_total_wraps:
  "checkZipResourceLimits [sized_entry ''a'' 1, sized_entry ''b'' 18446744073709551615] = None
   \<and> (\<Sum>f \<leftarrow> [sized_entry ''a'' 1, sized_entry ''b'' 18446744073709551615]. unat (ze_UncompressedSize64 f)) = 2 ^ 64"
  by (simp add: checkZipResourceLimits_def maxZipEntries_def sized_entry_def maxZipTotalUncompressed_def)

section \<open>An import that succeeds passes the check\<close>

lemma file_hash_Some:
  "file_hash f = Some h \<longleftrightarrow> has_prefix filesPrefix (ze_Name f) \<and> h = drop (length filesPrefix) (ze_Name f) \<and> h \<noteq> []"
  by (auto simp: file_hash_def)

lemma file_hash_None:
  "file_hash f = None \<longleftrightarrow> \<not> has_prefix filesPrefix (ze_Name f) \<or> ze_Name f = filesPrefix"
proof (cases "has_prefix filesPrefix (ze_Name f)")
  case True
  then have "ze_Name f = filesPrefix @ drop (length filesPrefix) (ze_Name f)"
    unfolding has_prefix_def by (metis append_take_drop_id)
  then have "ze_Name f = filesPrefix \<longleftrightarrow> drop (length filesPrefix) (ze_Name f) = []" by (metis append_Nil2 same_append_eq)
  with True show ?thesis by (simp add: file_hash_def)
qed (simp add: file_hash_def)

text \<open>What reading every blob entry without a mismatch means.\<close>

definition entry_true :: "(string \<Rightarrow> string) \<Rightarrow> zip_entry \<Rightarrow> bool" where
  "entry_true sha256 f \<longleftrightarrow> (\<forall>h. file_hash f = Some h \<longrightarrow> sha256OfZipEntry sha256 f = Inr h)"

lemma storeEntry_checked:
  assumes "storeEntry store False i f expected fs = (Inr (h, n), fs')"
  shows "\<exists>body. readLimited (maxZipEntrySize + 1) f = Some body \<and> bs_put store (bs_tmp store i) body fs = (Inr (h, n), fs')"
  using assms by (auto simp: storeEntry_def split: option.splits sum.splits prod.splits)

definition puts_digest :: "(string \<Rightarrow> string) \<Rightarrow> blob_store \<Rightarrow> bool" where
  "puts_digest sha256 store \<longleftrightarrow> (\<forall>tmp body fs h n fs'. bs_put store tmp body fs = (Inr (h, n), fs') \<longrightarrow>
     h = hexEncode (sha256 body) \<and> n = length body)"

lemma importBlobs_true:
  assumes "puts_digest sha256 store" "importBlobs store url0 mts False i zr urls st = (Inr urls', st')" "f \<in> set zr"
  shows "entry_true sha256 f"
  using assms(2,3)
proof (induction zr arbitrary: i urls st)
  case (Cons g zr)
  obtain s fs where st: "st = (s, fs)" by force
  show ?case
  proof (cases "file_hash g")
    case None
    with Cons show ?thesis unfolding st by (auto simp: entry_true_def)
  next
    case (Some h)
    with Cons.prems(1) st obtain n fs1 x s1 where e: "storeEntry store False i g h fs = (Inr (h, n), fs1)" "n \<le> maxZipEntrySize"
      and r: "importBlobs store url0 mts False (Suc i) zr (urls(h \<mapsto> url0 @ ''/files/'' @ h)) (s1, fs1) = (Inr urls', st')"
      by (auto split: sum.splits prod.splits if_splits)
    from storeEntry_checked [OF e(1)] obtain body where "readLimited (maxZipEntrySize + 1) g = Some body"
      "bs_put store (bs_tmp store i) body fs = (Inr (h, n), fs1)" by blast
    moreover from this(2) assms(1) have "h = hexEncode (sha256 body)" "n = length body" unfolding puts_digest_def by blast+
    ultimately have "sha256OfZipEntry sha256 g = Inr h" using e(2) by (simp add: sha256OfZipEntry_def)
    with Some have "entry_true sha256 g" by (simp add: entry_true_def)
    with Cons.IH [OF r] Cons.prems(2) show ?thesis by auto
  qed
qed simp

lemma checkEntries_true:
  assumes "\<forall>f \<in> set zr. entry_true sha256 f \<and> ze_Name f \<noteq> filesPrefix"
  shows "checkEntries sha256 zr = Inr (List.map_filter file_hash zr, [])"
  using assms
proof (induction zr)
  case (Cons f zr)
  then show ?case
  proof (cases "file_hash f")
    case None
    then have "\<not> has_prefix filesPrefix (ze_Name f)" using Cons.prems file_hash_None [of f] by auto
    with None Cons show ?thesis by (simp add: List.map_filter_simps)
  next
    case (Some h)
    with Cons have "sha256OfZipEntry sha256 f = Inr h" by (simp add: entry_true_def)
    moreover have "has_prefix filesPrefix (ze_Name f)" "drop (length filesPrefix) (ze_Name f) = h"
      using Some file_hash_Some [of f h] by auto
    ultimately show ?thesis using Some Cons by (simp add: List.map_filter_simps Let_def)
  qed
qed (simp add: List.map_filter_simps)

text \<open>The stages of a checked import that succeeds.\<close>

lemma importBundle_Inr:
  assumes "importBundle conforms decode conn gen store url0 zr unsafe (s, fs) = (Inr res, s', fs')"
  obtains m urls s1 where "checkZipResourceLimits zr = None" "decodeAndValidateManifest conforms decode zr unsafe = Inr m" "conn = Pool"
    "importBlobs store url0 (collectMediaTypes m) unsafe 0 zr Map.empty (s, fs) = (Inr urls, s1, fs')"
    "importEntities InTx gen urls m newImportResult s1 = (Inr res, s')"
  using assms
  by (cases conn) (auto simp: importBundle_def split: option.splits sum.splits prod.splits if_splits)

lemma decodeAndValidateManifest_checked:
  assumes "decodeAndValidateManifest conforms decode zr False = Inr m"
  obtains raw where "readZipFile zr ''manifest.json'' maxManifestSize = Inr raw" "conforms raw" "decode raw = Some m"
    "missingFileHashes zr m = []"
  using assms by (auto simp: decodeAndValidateManifest_def split: sum.splits option.splits if_splits)

text \<open>
  C29. A checked import gives the guarantees of checking, for an archive without an entry named exactly like the
  directory of the files: after a checked import (not a forced one) that succeeds, checking the same archive finds no
  schema error, no hash mismatch and no missing file, and the archive is valid unless a component link dangles. With a
  directory entry the check reports a mismatch that the import passes over (\<open>directory_entry_fails_check\<close>).
\<close>

theorem import_passes_check:
  assumes "Import conforms decode conn gen store url0 zr (s, fs) = (Inr res, s', fs')" and "puts_digest sha256 store"
    and "\<forall>f \<in> set zr. ze_Name f \<noteq> filesPrefix"
  shows "\<exists>report. Check sha256 conforms decode zr = Inr report \<and> rp_SchemaErrors report = [] \<and> rp_HashMismatches report = []
     \<and> rp_MissingFiles report = [] \<and> rp_Valid report = (rp_DanglingReferences report = [])"
proof -
  from assms(1) obtain m urls s1 where st: "checkZipResourceLimits zr = None" "decodeAndValidateManifest conforms decode zr False = Inr m"
    "importBlobs store url0 (collectMediaTypes m) False 0 zr Map.empty (s, fs) = (Inr urls, s1, fs')"
    unfolding Import_def by (rule importBundle_Inr) blast
  from st(2) obtain raw where raw: "readZipFile zr ''manifest.json'' maxManifestSize = Inr raw" "conforms raw" "decode raw = Some m"
    "missingFileHashes zr m = []" by (rule decodeAndValidateManifest_checked)
  have "checkEntries sha256 zr = Inr (List.map_filter file_hash zr, [])"
    using importBlobs_true [OF assms(2) st(3)] assms(3) by (intro checkEntries_true) blast
  with raw st(1) show ?thesis
    by (simp add: Check_def checkFileHashes_def missingFileHashes_def checkDanglingReferences_def empty_report_def Let_def)
qed

section \<open>What an import leaves alone\<close>

text \<open>
  A view of the database that no table an import writes is part of. The import of the entities changes no such view;
  it is interpreted on the blob table and on everything that says who may do what.
\<close>

locale import_frame = db_view +
  assumes view_product: "view (s\<lparr>tbl_product := a\<rparr>) = view s"
    and view_component: "view (s\<lparr>tbl_component := b\<rparr>) = view s"
    and view_product_release: "view (s\<lparr>tbl_product_release := c\<rparr>) = view s"
    and view_component_release: "view (s\<lparr>tbl_component_release := c\<rparr>) = view s"
    and view_link: "view (s\<lparr>tbl_release_component := d\<rparr>) = view s"
    and view_distribution: "view (s\<lparr>tbl_distribution := e\<rparr>) = view s"
    and view_identifier: "view (s\<lparr>tbl_identifier := f\<rparr>) = view s"
    and view_artifact: "view (s\<lparr>tbl_artifact := g\<rparr>) = view s"
    and view_format: "view (s\<lparr>tbl_artifact_format := h\<rparr>) = view s"
    and view_checksum: "view (s\<lparr>tbl_checksum := i\<rparr>) = view s"
    and view_artifact_distribution: "view (s\<lparr>tbl_artifact_distribution := j\<rparr>) = view s"
    and view_collection: "view (s\<lparr>tbl_collection := k\<rparr>) = view s"
    and view_collection_artifact: "view (s\<lparr>tbl_collection_artifact := l\<rparr>) = view s"
    and view_cle_event: "view (s\<lparr>tbl_cle_event := m\<rparr>) = view s"
    and view_cle_version: "view (s\<lparr>tbl_cle_version := n\<rparr>) = view s"
    and view_cle_identifier: "view (s\<lparr>tbl_cle_identifier := o'\<rparr>) = view s"
    and view_cle_reference: "view (s\<lparr>tbl_cle_reference := p\<rparr>) = view s"
    and view_cle_support: "view (s\<lparr>tbl_cle_support := q\<rparr>) = view s"
    and view_cle_revision: "view (s\<lparr>tbl_cle_revision := r\<rparr>) = view s"
    and view_watermark: "view (s\<lparr>tbl_watermark := t\<rparr>) = view s"
begin

lemmas view_updates = view_product view_component view_product_release view_component_release view_link view_distribution
  view_identifier view_artifact view_format view_checksum view_artifact_distribution view_collection view_collection_artifact
  view_cle_event view_cle_version view_cle_identifier view_cle_reference view_cle_support view_cle_revision view_watermark

lemma leaves_fold: "(\<And>x r. leaves (body x r)) \<Longrightarrow> leaves (foldR body xs res)"
proof (induction xs arbitrary: res)
  case (Cons x xs)
  have "leaves (bindR (body x res) (foldR body xs))" by (rule leaves_bind [OF Cons.prems Cons.IH [OF Cons.prems]])
  then show ?case by (simp add: leaves_def)
qed (simp add: leaves_def returnR_def)

lemmas leaves_rules = leaves_bind leaves_for leaves_fold leaves_return leaves_fail leaves_exec

lemma leaves_inserts:
  "leaves (insert_product u name)" "leaves (insert_component u name)" "leaves (insert_product_release row)"
  "leaves (insert_component_release row)" "leaves (insert_link l)" "leaves (insert_distribution dr)"
  "leaves (insert_identifier ot u i)" "leaves (insert_checksum ot u ck)" "leaves (insert_artifact u v name ty created)"
  "leaves (insert_artifact_distribution u v di)" "leaves (insert_artifact_format fi u v mt de ur su)"
  "leaves (insert_collection u v stamp b rt rc)" "leaves (insert_collection_artifact u v ar)" "leaves (insert_cle_event er)"
  "leaves (insert_cle_version ot u n vs)" "leaves (insert_cle_identifier ot u n i)" "leaves (insert_cle_reference ot u n uri)"
  "leaves (insert_cle_support ot u sd)"
  by (rule leavesI, simp add: insert_product_def insert_component_def insert_product_release_def insert_component_release_def
      insert_link_def insert_distribution_def insert_identifier_def insert_checksum_def insert_artifact_def
      insert_artifact_distribution_def insert_artifact_format_def insert_collection_def insert_collection_artifact_def
      insert_cle_event_def insert_cle_version_def insert_cle_identifier_def insert_cle_reference_def insert_cle_support_def view_updates)+

lemma view_bumps:
  "view (bumpWatermark w s) = view s" "view (bump_product_release u s) = view s" "view (bump_component_release u s) = view s"
  "view (bumpCLERevision ot u s) = view s"
  by (simp_all add: bumpWatermark_def bump_product_release_def bump_component_release_def bumpCLERevision_def view_updates)

lemma leaves_parts:
  "leaves (insertIdentifiers ot u ids)" "leaves (insertChecksums ot u cks)" "leaves (insertCLEEventIdentifiers ot u n eids)"
  "leaves (insertCLEEvent ot u n e)"
  unfolding insertIdentifiers_def insertChecksums_def insertCLEEventIdentifiers_def insertCLEEvent_def
  by (auto intro!: leaves_rules leaves_inserts view_bumps split: option.splits)

lemma leaves_imports:
  "leaves (ImportProduct conn u name ids)" "leaves (ImportComponent conn u name ids)"
  "leaves (ImportProductRelease conn rin)" "leaves (ImportComponentRelease conn rin)" "leaves (ImportComponentLink conn u ref)"
  unfolding ImportProduct_def ImportComponent_def ImportProductRelease_def ImportComponentRelease_def ImportComponentLink_def
  by (rule leaves_tx, auto intro!: leavesD leaves_rules leaves_inserts leaves_parts view_bumps split: sum.splits option.splits)+

lemma leaves_imports_more:
  "leaves (ImportDistribution conn din)" "leaves (ImportArtifact conn gen ain)" "leaves (ImportCollection conn cin)"
  "leaves (ImportCLEEvent conn ot u e)" "leaves (ImportCLESupportDefinition conn ot u sd)"
  unfolding ImportDistribution_def ImportArtifact_def ImportCollection_def ImportCLEEvent_def ImportCLESupportDefinition_def Let_def
  by (rule leaves_tx, auto intro!: leavesD leaves_rules leaves_inserts leaves_parts view_bumps split: sum.splits option.splits prod.splits)+

lemma leaves_recorded: "leaves op \<Longrightarrow> leaves (recorded kind op res)"
  unfolding recorded_def by (intro leaves_bind leaves_return)

lemma leaves_importCLE: "leaves (importCLE r ot u cle res)"
  unfolding importCLE_def
  by (auto intro!: leaves_rules leaves_recorded leaves_imports_more split: option.splits)

lemma leaves_loops:
  "leaves (importProductReleases r m res)" "leaves (importComponents r m res)" "leaves (importComponentReleases r urls m res)"
  "leaves (importComponentLinks r m)" "leaves (importCollections r gen urls m res)"
  unfolding importProductReleases_def importComponents_def importComponentReleases_def importComponentLinks_def importCollections_def
    importDistribution_def importArtifact_def Let_def
  by (intro leaves_bind leaves_for leaves_fold leaves_recorded leaves_imports leaves_imports_more leaves_importCLE)+

lemma importEntities_leaves: "view (snd (importEntities r gen urls m res s)) = view s"
  unfolding importEntities_def Let_def by (intro leavesD leaves_bind leaves_imports leaves_importCLE leaves_loops)

end

text \<open>Everything that says who may do what: accounts, credentials, templates, groups, entitlements; and the workflow and its evidence.\<close>

definition access_view where
  "access_view s = ((tbl_user s, tbl_session s, tbl_api_key s, tbl_access_token s, tbl_credential s),
     (tbl_template s, tbl_template_revision s, tbl_template_rule s, tbl_product_group s, tbl_product_group_member s,
      tbl_release_group s, tbl_release_group_member s, tbl_entitlement s),
     (tbl_fingerprint s, tbl_evidence s, tbl_evidence_timestamp s, tbl_evidence_transparency s, tbl_evidence_ref s,
      tbl_draft s, tbl_draft_artifact s))"

interpretation blobs: import_frame tbl_blob
  by unfold_locales simp_all

interpretation access: import_frame access_view
  by unfold_locales (simp_all add: access_view_def)

lemma importBlobs_access:
  "importBlobs store url0 mts unsafe i zr urls st = (r, st') \<Longrightarrow> access_view (fst st') = access_view (fst st)"
proof (induction zr arbitrary: i urls st)
  case (Cons f zr)
  obtain s fs where st: "st = (s, fs)" by force
  have up: "access_view s1 = access_view s" if "UpsertBlob h n t s = (x, s1)" for h n t x s1
    using that by (auto simp: UpsertBlob_def access_view_def split: if_splits)
  show ?case
    using Cons.prems Cons.IH unfolding st
    by (auto split: option.splits sum.splits prod.splits if_splits dest: up)
qed simp

text \<open>
  C32. A bundle carries content and no authority: whatever an archive holds, and whether the import succeeds, fails, or
  is forced past the checks, it changes no account, session, key, token, credential, template, group, entitlement,
  draft or evidence; and an import that fails leaves the whole database as it was.
\<close>

theorem import_grants_nothing:
  assumes "importBundle conforms decode conn gen store url0 zr unsafe (s, fs) = (r, s', fs')"
  shows "access_view s' = access_view s \<and> (isl r \<longrightarrow> s' = s)"
proof -
  { fix urls :: "string \<Rightarrow> string option" and s1 m res
    assume b: "importBlobs store url0 (collectMediaTypes m) unsafe 0 zr Map.empty (s, fs) = (Inr urls, s1, fs')"
      and e: "importEntities InTx gen urls m newImportResult s1 = (Inr res, s')"
    have "access_view s' = access_view s1" using access.importEntities_leaves [of InTx gen urls m newImportResult s1] e by simp
    with importBlobs_access [OF b] have "access_view s' = access_view s" by simp }
  with assms show ?thesis
    by (auto simp: importBundle_def split: option.splits sum.splits prod.splits if_splits)
qed

section \<open>The files of an import\<close>

definition fs_store :: "(string \<Rightarrow> string) \<Rightarrow> string \<Rightarrow> (nat \<Rightarrow> string) \<Rightarrow> blob_store" where
  "fs_store sha256 dir tmps = \<lparr>bs_put = Put sha256 dir, bs_put_unchecked = Some (PutUnchecked dir), bs_tmp = tmps\<rparr>"

definition readable :: "string \<Rightarrow> fs \<Rightarrow> string \<Rightarrow> bool" where
  "readable dir fs h \<longleftrightarrow> (\<exists>bytes. Open dir fs h = Inr bytes)"

definition has_blob :: "db \<Rightarrow> string \<Rightarrow> bool" where
  "has_blob s h \<longleftrightarrow> has_row (\<lambda>b. b_sha256 b = h) (tbl_blob s)"

lemma UpsertBlob_has:
  "UpsertBlob h n t s = (r, s1) \<Longrightarrow> isl r = False \<and> has_blob s1 h' = (h' = h \<or> has_blob s h')"
  by (auto simp: UpsertBlob_def has_blob_def split: if_splits)

lemma fs_store_puts_digest:
  "(\<And>bytes. length (sha256 bytes) = 32) \<Longrightarrow> puts_digest sha256 (fs_store sha256 dir tmps)"
  by (auto simp: puts_digest_def fs_store_def Put_def Let_def split: sum.splits)

lemma storeEntry_fs:
  assumes "good_fs sha256 dir fs" "usable_temp sha256 dir (tmps i)"
    and "storeEntry (fs_store sha256 dir tmps) False i f expected fs = (r, fs')"
  shows "good_fs sha256 dir fs' \<and> (\<forall>h. readable dir fs h \<longrightarrow> readable dir fs' h)
     \<and> (\<forall>h n. r = Inr (h, n) \<longrightarrow> readable dir fs' h)"
proof (cases "readLimited (maxZipEntrySize + 1) f")
  case None
  with assms show ?thesis by (auto simp: storeEntry_def)
next
  case (Some body)
  let ?h = "hexEncode (sha256 body)"
  from fsblob.put_named [OF assms(2,1), of body] obtain fs1
    where p: "Put sha256 dir (tmps i) body fs = (Inr (?h, length body), fs1)" "good_fs sha256 dir fs1" by auto
  from fsblob.put_open [OF assms(2,1) p(1)]
  have o: "Open dir fs1 name = (if name = ?h then Inr body else Open dir fs name)" for name by simp
  from assms(3) Some p(1) have "r = Inr (?h, length body)" "fs' = fs1" by (simp_all add: storeEntry_def fs_store_def)
  with p(2) o show ?thesis by (auto simp: readable_def)
qed

lemma importBlobs_stores:
  assumes "importBlobs (fs_store sha256 dir tmps) url0 mts False i zr urls (s, fs) = (r, s', fs')"
    and "good_fs sha256 dir fs" "\<forall>i. usable_temp sha256 dir (tmps i)"
  shows "good_fs sha256 dir fs' \<and> (\<forall>h. readable dir fs h \<longrightarrow> readable dir fs' h) \<and> (\<forall>h. has_blob s h \<longrightarrow> has_blob s' h)
     \<and> (\<not> isl r \<longrightarrow> (\<forall>f \<in> set zr. \<forall>h. file_hash f = Some h \<longrightarrow> readable dir fs' h \<and> has_blob s' h))"
  using assms(1,2)
proof (induction zr arbitrary: i urls s fs)
  case (Cons f zr)
  show ?case
  proof (cases "file_hash f")
    case None
    with Cons.prems Cons.IH [of "Suc i" urls s fs] show ?thesis by auto
  next
    case (Some h)
    obtain x fs1 where e: "storeEntry (fs_store sha256 dir tmps) False i f h fs = (x, fs1)" by force
    note fs1 = storeEntry_fs [OF Cons.prems(2) spec [OF assms(3)] e]
    show ?thesis
    proof (cases "\<exists>n. x = Inr (h, n) \<and> n \<le> maxZipEntrySize")
      case False
      with Some e Cons.prems(1) have "fs' = fs1 \<and> s' = s \<and> isl r"
        by (auto split: sum.splits prod.splits if_splits simp: UpsertBlob_def)
      with fs1 show ?thesis by auto
    next
      case True
      then obtain n where x: "x = Inr (h, n)" "n \<le> maxZipEntrySize" by blast
      obtain y s1 where u: "UpsertBlob h (int n) (case mts h of None \<Rightarrow> [] | Some t \<Rightarrow> t) s = (y, s1)" by force
      have has: "has_blob s1 h' = (h' = h \<or> has_blob s h')" for h' using UpsertBlob_has [OF u] by blast
      have "isl y = False" using UpsertBlob_has [OF u] by blast
      then obtain z where "y = Inr z" by (cases y) auto
      with Some e x u Cons.prems(1)
      have rest: "importBlobs (fs_store sha256 dir tmps) url0 mts False (Suc i) zr (urls(h \<mapsto> url0 @ ''/files/'' @ h)) (s1, fs1) = (r, s', fs')"
        by simp
      have "readable dir fs1 h" using fs1 x by blast
      with Cons.IH [OF rest] fs1 has Some show ?thesis by auto
    qed
  qed
qed auto

text \<open>
  C31. A checked import (Import, not the forced ImportUnchecked) keeps a good store good: every file still has the digest of its
  content as its name and every blob that could be read can be read, even after a failure; and after a success every blob the
  manifest refers to can be read and is known to the database.
\<close>

theorem import_brings_every_file:
  assumes "Import conforms decode conn gen (fs_store sha256 dir tmps) url0 zr (s, fs) = (r, s', fs')"
    and "good_fs sha256 dir fs" and "\<forall>i. usable_temp sha256 dir (tmps i)"
  shows "good_fs sha256 dir fs' \<and> (\<forall>h. readable dir fs h \<longrightarrow> readable dir fs' h)
     \<and> (\<not> isl r \<longrightarrow> (\<forall>raw m. readZipFile zr ''manifest.json'' maxManifestSize = Inr raw \<and> decode raw = Some m \<longrightarrow>
          (\<forall>h \<in> set (expectedHashes m). readable dir fs' h \<and> has_blob s' h)))"
proof (cases r)
  case (Inl e)
  with assms importBlobs_stores [OF _ assms(2,3)] show ?thesis
    by (auto simp: Import_def importBundle_def split: option.splits sum.splits prod.splits if_splits)
next
  case (Inr res)
  with assms(1) obtain m urls s1 where st: "decodeAndValidateManifest conforms decode zr False = Inr m"
    "importBlobs (fs_store sha256 dir tmps) url0 (collectMediaTypes m) False 0 zr Map.empty (s, fs) = (Inr urls, s1, fs')"
    "importEntities InTx gen urls m newImportResult s1 = (Inr res, s')"
    unfolding Import_def by (auto elim: importBundle_Inr)
  from st(1) obtain raw where raw: "readZipFile zr ''manifest.json'' maxManifestSize = Inr raw" "decode raw = Some m"
    "missingFileHashes zr m = []" by (rule decodeAndValidateManifest_checked)
  have "tbl_blob s' = tbl_blob s1" using blobs.importEntities_leaves [of InTx gen urls m newImportResult s1] st(3) by simp
  then have has: "has_blob s' h = has_blob s1 h" for h by (simp add: has_blob_def)
  have "readable dir fs' h \<and> has_blob s' h" if "h \<in> set (expectedHashes m)" for h
  proof -
    from raw(3) that obtain f where "f \<in> set zr" "file_hash f = Some h"
      by (fastforce simp: missingFileHashes_def filter_empty_conv List.map_filter_def)
    with importBlobs_stores [OF st(2) assms(2,3)] has show ?thesis by auto
  qed
  with importBlobs_stores [OF st(2) assms(2,3)] raw(1,2) Inr show ?thesis by auto
qed

section \<open>An example bundle\<close>

text \<open>One product, one component with a release, and the file of its one distribution.\<close>

definition demo_hash :: string where "demo_hash = hexEncode (pad32 ''data'')"

definition demo_manifest :: Manifest where
  "demo_manifest =
     \<lparr>mf_FormatVersion = FormatVersion, mf_ExportedAt = 0,
      mf_Product = \<lparr>pe_Product = \<lparr>prod_UUID = ''p1'', prod_Name = ''Alpha'', prod_Identifiers = []\<rparr>, pe_CLE = None\<rparr>,
      mf_ProductReleases = [],
      mf_Components = [\<lparr>ce_Component = \<lparr>comp_UUID = ''c1'', comp_Name = ''Lib'', comp_Identifiers = []\<rparr>, ce_CLE = None\<rparr>],
      mf_ComponentReleases = [\<lparr>cre_ComponentRelease =
        \<lparr>crel_UUID = ''cr1'', crel_Component = ''c1'', crel_ComponentName = ''Lib'', crel_Version = ''1'', crel_CreatedDate = 0,
         crel_ReleaseDate = None, crel_PreRelease = None, crel_Identifiers = [],
         crel_Distributions = [\<lparr>dist_DistributionID = ''d1'', dist_Description = [], dist_Identifiers = [], dist_URL = ''https://old/x'',
           dist_SignatureURL = [], dist_Checksums = [\<lparr>AlgType = ChecksumTypeSHA256, AlgValue = demo_hash\<rparr>]\<rparr>]\<rparr>, cre_CLE = None\<rparr>],
      mf_Collections = []\<rparr>"

definition demo_file :: zip_entry where "demo_file = new_entry (filesPrefix @ demo_hash) ''data''"

definition demo_zip :: zip_archive where "demo_zip = [new_entry ''manifest.json'' ''{}'', demo_file]"

definition demo_import :: "db \<times> fs \<Rightarrow> (bundle_error + ImportResult) \<times> db \<times> fs" where
  "demo_import = Import (\<lambda>_. True) (\<lambda>_. Some demo_manifest) Pool (\<lambda>_ _ _. []) (fs_store pad32 ''d'' (\<lambda>_. ''d/upload-1'')) ''https://new'' demo_zip"

lemma demo_zip_read: "readZipFile demo_zip ''manifest.json'' maxManifestSize = Inr ''{}''"
  by (simp add: demo_zip_def demo_file_def readZipFile_def new_entry_def readLimited_def maxManifestSize_def demo_hash_def has_prefix_def)

definition demo_db :: db where
  "demo_db = empty_db\<lparr>tbl_blob := [\<lparr>b_sha256 = demo_hash, b_size = 4, b_media_type = None\<rparr>]\<rparr>"

lemma demo_entities: "\<not> isl (fst (importEntities InTx (\<lambda>_ _ _. []) (Map.empty(demo_hash \<mapsto> ''https://new/files/'' @ demo_hash)) demo_manifest newImportResult demo_db))"
  by code_simp

lemma usable_demo: "usable_temp pad32 ''d'' ''d/upload-1''"
  unfolding usable_temp_def temp_name_def by (auto simp: pad32_def intro!: exI [of _ "''1''"])

lemma demo_blobs:
  "\<exists>fs'. importBlobs (fs_store pad32 ''d'' (\<lambda>_. ''d/upload-1'')) ''https://new'' (collectMediaTypes demo_manifest) False 0 demo_zip Map.empty (empty_db, \<lambda>_. None)
     = (Inr (Map.empty(demo_hash \<mapsto> ''https://new/files/'' @ demo_hash)), demo_db, fs')"
proof -
  have h: "file_hash (new_entry ''manifest.json'' ''{}'') = None" "file_hash demo_file = Some demo_hash"
    by (simp_all add: file_hash_def demo_file_def new_entry_def has_prefix_def demo_hash_def hexEncode_def pad32_def)
  have "good_fs pad32 ''d'' (\<lambda>_. None)" by (simp add: good_fs_def)
  from fsblob.put_named [OF usable_demo this, of "''data''"] obtain fs1
    where "Put pad32 ''d'' ''d/upload-1'' ''data'' (\<lambda>_. None) = (Inr (demo_hash, 4), fs1)" by (auto simp: demo_hash_def)
  moreover have "readLimited (maxZipEntrySize + 1) demo_file = Some ''data''"
    by (simp add: readLimited_def demo_file_def new_entry_def maxZipEntrySize_def)
  ultimately have e: "storeEntry (fs_store pad32 ''d'' (\<lambda>_. ''d/upload-1'')) False i demo_file demo_hash (\<lambda>_. None) = (Inr (demo_hash, 4), fs1)" for i
    by (simp add: storeEntry_def fs_store_def)
  have mt: "collectMediaTypes demo_manifest = Map.empty" by (simp add: collectMediaTypes_def demo_manifest_def)
  have u: "UpsertBlob demo_hash 4 [] empty_db = (Inr (), demo_db)"
    by (simp add: UpsertBlob_def demo_db_def nullIfEmpty_def empty_db_def)
  show ?thesis
    unfolding demo_zip_def mt by (simp add: h e u maxZipEntrySize_def)
qed

lemma demo_imported: "\<exists>res s' fs'. demo_import (empty_db, \<lambda>_. None) = (Inr res, s', fs')"
proof -
  have limits: "checkZipResourceLimits demo_zip = None"
    by (simp add: checkZipResourceLimits_def demo_zip_def demo_file_def new_entry_def maxZipEntries_def maxZipTotalUncompressed_def)
  have "missingFileHashes demo_zip demo_manifest = []"
    by (simp add: missingFileHashes_def expectedHashes_def collectFileHashes_def collectDistributionFileHashes_def collectSHA256_def
        demo_manifest_def demo_zip_def demo_file_def new_entry_def List.map_filter_simps file_hash_def has_prefix_def demo_hash_def hexEncode_def pad32_def)
  then have "decodeAndValidateManifest (\<lambda>_. True) (\<lambda>_. Some demo_manifest) demo_zip False = Inr demo_manifest"
    by (simp add: decodeAndValidateManifest_def demo_zip_read)
  with limits demo_blobs demo_entities show ?thesis
    by (auto simp: demo_import_def Import_def importBundle_def split: sum.splits prod.splits)
qed

theorem import_passes_check_witness:
  "\<exists>report. Check pad32 (\<lambda>_. True) (\<lambda>_. Some demo_manifest) demo_zip = Inr report
     \<and> rp_HashMismatches report = [] \<and> rp_MissingFiles report = []"
proof -
  obtain res s' fs' where i: "demo_import (empty_db, \<lambda>_. None) = (Inr res, s', fs')" using demo_imported by blast
  have "puts_digest pad32 (fs_store pad32 ''d'' (\<lambda>_. ''d/upload-1''))" by (rule fs_store_puts_digest) (simp add: pad32_def)
  moreover have "\<forall>f \<in> set demo_zip. ze_Name f \<noteq> filesPrefix"
    by (simp add: demo_zip_def demo_file_def new_entry_def demo_hash_def hexEncode_def pad32_def)
  ultimately show ?thesis using import_passes_check [OF i [unfolded demo_import_def]] by blast
qed

theorem import_grants_nothing_witness:
  "\<exists>res s' fs'. demo_import (empty_db, \<lambda>_. None) = (Inr res, s', fs') \<and> access_view s' = access_view empty_db"
proof -
  obtain res s' fs' where i: "demo_import (empty_db, \<lambda>_. None) = (Inr res, s', fs')" using demo_imported by blast
  then show ?thesis using import_grants_nothing [OF i [unfolded demo_import_def Import_def]] by blast
qed

theorem import_brings_every_file_witness:
  "\<exists>res s' fs'. demo_import (empty_db, \<lambda>_. None) = (Inr res, s', fs') \<and> readable ''d'' fs' demo_hash \<and> has_blob s' demo_hash"
proof -
  obtain res s' fs' where i: "demo_import (empty_db, \<lambda>_. None) = (Inr res, s', fs')" using demo_imported by blast
  have "good_fs pad32 ''d'' (\<lambda>_. None)" by (simp add: good_fs_def)
  moreover have "demo_hash \<in> set (expectedHashes demo_manifest)"
    by (simp add: expectedHashes_def collectFileHashes_def collectDistributionFileHashes_def collectSHA256_def demo_manifest_def)
  ultimately have "readable ''d'' fs' demo_hash \<and> has_blob s' demo_hash"
    using import_brings_every_file [OF i [unfolded demo_import_def], rule_format, OF _ usable_demo] demo_zip_read by auto
  with i show ?thesis by blast
qed

text \<open>
  Tools that pack a directory add an entry for it. The import passes over an entry \<open>files/\<close>; the check takes it for a file
  named by the empty hash, reports a mismatch and calls the archive invalid.
\<close>

definition bare_manifest :: Manifest where
  "bare_manifest = demo_manifest\<lparr>mf_Components := [], mf_ComponentReleases := []\<rparr>"

definition packed_zip :: zip_archive where
  "packed_zip = [new_entry ''manifest.json'' ''{}'', new_entry filesPrefix []]"

lemma packed_zip_read: "readZipFile packed_zip ''manifest.json'' maxManifestSize = Inr ''{}''"
  by (simp add: packed_zip_def readZipFile_def new_entry_def readLimited_def maxManifestSize_def has_prefix_def)

lemma packed_zip_limits: "checkZipResourceLimits packed_zip = None"
  by (simp add: checkZipResourceLimits_def packed_zip_def new_entry_def maxZipEntries_def maxZipTotalUncompressed_def)

lemma bare_entities: "\<not> isl (fst (importEntities InTx (\<lambda>_ _ _. []) Map.empty bare_manifest newImportResult empty_db))"
  by code_simp

lemma directory_entry_fails_check:
  "\<exists>res s' fs'. Import (\<lambda>_. True) (\<lambda>_. Some bare_manifest) Pool (\<lambda>_ _ _. []) (fs_store pad32 ''d'' tmps) ''https://new'' packed_zip (empty_db, \<lambda>_. None)
     = (Inr res, s', fs')"
  "\<exists>report. Check pad32 (\<lambda>_. True) (\<lambda>_. Some bare_manifest) packed_zip = Inr report
     \<and> rp_HashMismatches report = [''files/''] \<and> \<not> rp_Valid report"
proof -
  have m: "missingFileHashes packed_zip bare_manifest = []"
    by (simp add: missingFileHashes_def expectedHashes_def collectFileHashes_def bare_manifest_def demo_manifest_def)
  have n: "file_hash (new_entry ''manifest.json'' ''{}'') = None" "file_hash (new_entry filesPrefix []) = None"
    by (simp_all add: file_hash_def new_entry_def has_prefix_def)
  show "\<exists>res s' fs'. Import (\<lambda>_. True) (\<lambda>_. Some bare_manifest) Pool (\<lambda>_ _ _. []) (fs_store pad32 ''d'' tmps) ''https://new'' packed_zip (empty_db, \<lambda>_. None)
     = (Inr res, s', fs')"
    using bare_entities packed_zip_limits m
    by (auto simp: Import_def importBundle_def decodeAndValidateManifest_def packed_zip_read split: sum.splits prod.splits)
      (simp_all add: packed_zip_def n)
  have "checkEntries pad32 packed_zip = Inr ([[]], [''files/''])"
    by (simp add: packed_zip_def new_entry_def has_prefix_def sha256OfZipEntry_def readLimited_def maxZipEntrySize_def hexEncode_def pad32_def)
  then show "\<exists>report. Check pad32 (\<lambda>_. True) (\<lambda>_. Some bare_manifest) packed_zip = Inr report
     \<and> rp_HashMismatches report = [''files/''] \<and> \<not> rp_Valid report"
    by (simp add: Check_def packed_zip_limits packed_zip_read checkFileHashes_def checkDanglingReferences_def empty_report_def Let_def)
qed

section \<open>What is exported passes the check\<close>

lemma bindE_Inr [simp]: "bindE x k = Inr y \<longleftrightarrow> (\<exists>a. x = Inr a \<and> k a = Inr y)"
  by (cases x) (auto simp: bindE_def)

text \<open>A loop keeps what each of its iterations keeps, and after it each iteration's lasting effect holds.\<close>

lemma foldE_keeps:
  assumes "foldE body xs a = Inr b" "P a" "\<And>x a b. x \<in> set xs \<Longrightarrow> body x a = Inr b \<Longrightarrow> P a \<Longrightarrow> P b"
  shows "P b"
  using assms
proof (induction xs arbitrary: a)
  case (Cons y ys)
  then obtain a1 where y: "body y a = Inr a1" "foldE body ys a1 = Inr b" by auto
  have "P a1" by (rule Cons.prems(3) [OF _ y(1) Cons.prems(2)]) simp
  from y(2) this show ?case by (rule Cons.IH) (rule Cons.prems(3), auto)
qed simp

lemma foldE_invariant:
  assumes "foldE body xs a = Inr b" "I a"
    and step: "\<And>x a b. x \<in> set xs \<Longrightarrow> body x a = Inr b \<Longrightarrow> I a \<Longrightarrow> I b \<and> Q x b \<and> (\<forall>x'. Q x' a \<longrightarrow> Q x' b)"
  shows "I b \<and> (\<forall>x \<in> set xs. Q x b)"
  using assms
proof (induction xs arbitrary: a)
  case (Cons y ys)
  then obtain a1 where y: "body y a = Inr a1" "foldE body ys a1 = Inr b" by auto
  have a1: "I a1 \<and> Q y a1" using Cons.prems(3) [OF _ y(1) Cons.prems(2)] by simp
  have tail: "x \<in> set ys \<Longrightarrow> body x a = Inr b \<Longrightarrow> I a \<Longrightarrow> I b \<and> Q x b \<and> (\<forall>x'. Q x' a \<longrightarrow> Q x' b)" for x a b
    by (rule Cons.prems(3)) simp_all
  have "I b \<and> (\<forall>x \<in> set ys. Q x b)" using y(2) a1 tail by (intro Cons.IH) blast+
  moreover have "I b \<and> Q y b" using y(2) a1
    by (rule foldE_keeps [where P = "\<lambda>a. I a \<and> Q y a"]) (use tail in blast)
  ultimately show ?case by simp
qed simp

definition ref_covered :: "export_state \<Rightarrow> ComponentRef \<Rightarrow> bool" where
  "ref_covered x ref \<longleftrightarrow> ref_UUID ref \<in> (\<lambda>e. comp_UUID (ce_Component e)) ` set (xs_componentEntries x)
     \<and> (\<forall>rel. ref_Release ref = Some rel \<longrightarrow> rel \<in> (\<lambda>e. crel_UUID (cre_ComponentRelease e)) ` set (xs_componentReleaseEntries x))"

text \<open>The invariant of the loop: the hashes are those of the entries so far, and the components seen are listed.\<close>

definition export_inv :: "export_state \<Rightarrow> bool" where
  "export_inv x \<longleftrightarrow>
     set (xs_fileHashes x) = set (collectFileHashes (xs_collections x))
       \<union> (\<Union>e \<in> set (xs_componentReleaseEntries x). set (collectDistributionFileHashes (crel_Distributions (cre_ComponentRelease e))))
     \<and> set (xs_seenComponents x) = (\<lambda>e. comp_UUID (ce_Component e)) ` set (xs_componentEntries x)"

lemma collectFileHashes_append [simp]: "collectFileHashes (xs @ ys) = collectFileHashes xs @ collectFileHashes ys"
  by (simp add: collectFileHashes_def)

lemma read_uuids:
  "getComponentTx s u = Inr c \<Longrightarrow> comp_UUID c = u"
  "getComponentReleaseTx s u = Inr cr \<Longrightarrow> crel_UUID cr = u"
  by (auto simp: getComponentTx_def getComponentReleaseTx_def split: option.splits sum.splits)

lemma exportComponentRef_covers:
  assumes "exportComponentRef s ref x = Inr y" "export_inv x"
  shows "export_inv y \<and> ref_covered y ref \<and> (\<forall>ref'. ref_covered x ref' \<longrightarrow> ref_covered y ref')
     \<and> xs_releaseEntries y = xs_releaseEntries x"
proof -
  from assms(1) obtain x1 where x1: "(if List.member (xs_seenComponents x) (ref_UUID ref) then Inr x
            else bindE (getComponentTx s (ref_UUID ref)) (\<lambda>component.
                 bindE (getCLETx s OwnerComponent (ref_UUID ref)) (\<lambda>componentCLE.
                 Inr (x\<lparr>xs_seenComponents := xs_seenComponents x @ [ref_UUID ref],
                        xs_componentEntries := xs_componentEntries x @ [\<lparr>ce_Component = component, ce_CLE = Some componentCLE\<rparr>]\<rparr>)))) = Inr x1"
    and y: "(case ref_Release ref of
       None \<Rightarrow> Inr x1
     | Some componentReleaseUUID \<Rightarrow>
         bindE (getComponentReleaseTx s componentReleaseUUID) (\<lambda>componentRelease.
         bindE (getCLETx s OwnerComponentRelease componentReleaseUUID) (\<lambda>componentReleaseCLE.
         bindE (ListCollections s componentReleaseUUID ''asc'' None exportFetchLimit BelongsToComponentRelease) (\<lambda>releaseCollections.
         Inr (x1\<lparr>xs_componentReleaseEntries := xs_componentReleaseEntries x1
                  @ [\<lparr>cre_ComponentRelease = componentRelease, cre_CLE = Some componentReleaseCLE\<rparr>],
                xs_collections := xs_collections x1 @ releaseCollections,
                xs_fileHashes := xs_fileHashes x1 @ collectDistributionFileHashes (crel_Distributions componentRelease)
                  @ collectFileHashes releaseCollections\<rparr>))))) = Inr y"
    unfolding exportComponentRef_def by auto
  have 1: "export_inv x1 \<and> ref_UUID ref \<in> (\<lambda>e. comp_UUID (ce_Component e)) ` set (xs_componentEntries x1)
     \<and> (\<forall>ref'. ref_covered x ref' \<longrightarrow> ref_covered x1 ref') \<and> xs_releaseEntries x1 = xs_releaseEntries x"
    using x1 assms(2) by (auto simp: export_inv_def ref_covered_def read_uuids split: if_splits)
  show ?thesis
  proof (cases "ref_Release ref")
    case None
    with 1 y show ?thesis by (auto simp: ref_covered_def)
  next
    case (Some rel)
    with y obtain cr cle cols where cr: "getComponentReleaseTx s rel = Inr cr"
      and y': "y = x1\<lparr>xs_componentReleaseEntries := xs_componentReleaseEntries x1 @ [\<lparr>cre_ComponentRelease = cr, cre_CLE = Some cle\<rparr>],
                xs_collections := xs_collections x1 @ cols,
                xs_fileHashes := xs_fileHashes x1 @ collectDistributionFileHashes (crel_Distributions cr) @ collectFileHashes cols\<rparr>"
      by auto
    have "export_inv y" using 1 unfolding y' by (auto simp: export_inv_def)
    moreover have "ref_covered y ref" using 1 Some read_uuids(2) [OF cr] unfolding y' by (auto simp: ref_covered_def)
    moreover have "\<forall>ref'. ref_covered x ref' \<longrightarrow> ref_covered y ref'" using 1 unfolding y' by (auto simp: ref_covered_def)
    ultimately show ?thesis using 1 unfolding y' by auto
  qed
qed

definition no_dangling :: "export_state \<Rightarrow> bool" where
  "no_dangling x \<longleftrightarrow> (\<forall>e \<in> set (xs_releaseEntries x). \<forall>ref \<in> set (prel_Components (pre_ProductRelease e)). ref_covered x ref)"

lemma exportRelease_covers:
  assumes "exportRelease s release x = Inr y" "export_inv x \<and> no_dangling x"
  shows "export_inv y \<and> no_dangling y"
proof -
  from assms(1) obtain cle cols where
    loop: "foldE (exportComponentRef s) (prel_Components release)
       (x\<lparr>xs_releaseEntries := xs_releaseEntries x @ [\<lparr>pre_ProductRelease = release, pre_CLE = Some cle\<rparr>],
          xs_collections := xs_collections x @ cols, xs_fileHashes := xs_fileHashes x @ collectFileHashes cols\<rparr>) = Inr y" (is "foldE _ _ ?x = _")
    unfolding exportRelease_def by auto
  define I where "I z \<longleftrightarrow> export_inv z \<and> (\<forall>ref. ref_covered x ref \<longrightarrow> ref_covered z ref)
     \<and> xs_releaseEntries z = xs_releaseEntries x @ [\<lparr>pre_ProductRelease = release, pre_CLE = Some cle\<rparr>]" for z
  have "I ?x" using assms(2) by (auto simp: I_def export_inv_def ref_covered_def)
  have "I y \<and> (\<forall>ref \<in> set (prel_Components release). ref_covered y ref)"
  proof (rule foldE_invariant [where I = I and Q = "\<lambda>ref z. ref_covered z ref", OF loop])
    show "I ?x" by (rule \<open>I ?x\<close>)
    fix ref a b
    assume "exportComponentRef s ref a = Inr b" "I a"
    with exportComponentRef_covers [OF this(1)]
    show "I b \<and> ref_covered b ref \<and> (\<forall>ref'. ref_covered a ref' \<longrightarrow> ref_covered b ref')" by (auto simp: I_def)
  qed
  with assms(2) show ?thesis by (auto simp: I_def no_dangling_def)
qed

lemma buildManifest_complete:
  assumes "buildManifest s now u = Inr (m, hashes)"
  shows "set hashes = set (expectedHashes m) \<and> danglingReferences m = []"
proof -
  from assms obtain releases x where loop: "foldE (exportRelease s) releases \<lparr>xs_releaseEntries = [], xs_collections = [], xs_seenComponents = [],
              xs_componentEntries = [], xs_componentReleaseEntries = [], xs_fileHashes = []\<rparr> = Inr x"
    and m: "hashes = xs_fileHashes x" "mf_ProductReleases m = xs_releaseEntries x" "mf_Components m = xs_componentEntries x"
      "mf_ComponentReleases m = xs_componentReleaseEntries x" "mf_Collections m = xs_collections x"
    unfolding buildManifest_def by auto
  have inv: "export_inv x \<and> no_dangling x"
  proof (rule foldE_keeps [OF loop, where P = "\<lambda>x. export_inv x \<and> no_dangling x"], goal_cases)
    case 1
    show ?case by (simp add: export_inv_def no_dangling_def collectFileHashes_def)
  next
    case (2 release a b)
    from exportRelease_covers [OF 2(2,3)] show ?case .
  qed
  have "set hashes = set (expectedHashes m)" using inv by (auto simp: m expectedHashes_def export_inv_def)
  moreover have "danglingReferences m = []"
    using inv by (auto simp: danglingReferences_def Let_def m no_dangling_def ref_covered_def split: option.splits)
  ultimately show ?thesis by blast
qed

text \<open>The archive a successful export has written.\<close>

lemma copy_blobs:
  assumes "foldE (copyBlobIntoZip opened) hs zw = Inr zr"
  shows "zr = zw @ map (\<lambda>h. new_entry (filesPrefix @ h) (projr (opened h))) hs \<and> (\<forall>h \<in> set hs. \<not> isl (opened h))"
  using assms
proof (induction hs arbitrary: zw)
  case (Cons h hs)
  then obtain zw1 where z: "copyBlobIntoZip opened h zw = Inr zw1" "foldE (copyBlobIntoZip opened) hs zw1 = Inr zr" by auto
  from z(1) obtain bytes where "opened h = Inr bytes" "zw1 = zw @ [new_entry (filesPrefix @ h) bytes]"
    by (auto simp: copyBlobIntoZip_def)
  with Cons.IH [OF z(2)] show ?case by simp
qed simp

lemma Export_Inr:
  assumes "Export encode order opened s now u = Inr zr"
  obtains m hashes where "buildManifest s now u = Inr (m, hashes)"
    "zr = new_entry ''manifest.json'' (encode m) # map (\<lambda>h. new_entry (filesPrefix @ h) (projr (opened h))) (order (remdups hashes))"
    "\<forall>h \<in> set (order (remdups hashes)). \<not> isl (opened h)"
proof -
  from assms obtain m hashes where m: "buildManifest s now u = Inr (m, hashes)"
    "foldE (copyBlobIntoZip opened) (order (remdups hashes)) [new_entry ''manifest.json'' (encode m)] = Inr zr"
    by (auto simp: Export_def)
  from copy_blobs [OF m(2)] show thesis using that [OF m(1)] by simp
qed

lemma readLimited_short: "length (ze_data f) < n \<Longrightarrow> ze_clean f \<Longrightarrow> readLimited n f = Some (ze_data f)"
  by (simp add: readLimited_def)

lemma exported_manifest_read:
  assumes "length raw \<le> maxManifestSize"
  shows "readZipFile (new_entry ''manifest.json'' raw # map (\<lambda>h. new_entry (filesPrefix @ h) (body h)) hs) ''manifest.json'' maxManifestSize = Inr raw"
proof -
  have "filter (\<lambda>f. ze_path f = ''manifest.json'') (map (\<lambda>h. new_entry (filesPrefix @ h) (body h)) hs) = []"
    by (auto simp: filter_empty_conv new_entry_def)
  moreover have "\<not> has_row (\<lambda>f. has_prefix (''manifest.json'' @ ''/'') (ze_path f)) (new_entry ''manifest.json'' raw # map (\<lambda>h. new_entry (filesPrefix @ h) (body h)) hs)"
    by (auto simp: has_prefix_def new_entry_def)
  moreover have "readLimited (maxManifestSize + 1) (new_entry ''manifest.json'' raw) = Some raw"
    using assms by (simp add: readLimited_short new_entry_def)
  ultimately show ?thesis using assms by (simp add: readZipFile_def new_entry_def)
qed

text \<open>The entries of an export, as the check reads them.\<close>

lemma exported_entries_true:
  assumes "good_fs sha256 dir fs" "\<forall>h \<in> set hs. \<not> isl (Open dir fs h)" "\<forall>h \<in> set hs. length (projr (Open dir fs h)) \<le> maxZipEntrySize"
  shows "checkEntries sha256 (map (\<lambda>h. new_entry (filesPrefix @ h) (projr (Open dir fs h))) hs) = Inr (hs, [])"
  using assms(2,3)
proof (induction hs)
  case (Cons h hs)
  let ?f = "new_entry (filesPrefix @ h) (projr (Open dir fs h))"
  from Cons.prems obtain bytes where o: "Open dir fs h = Inr bytes" "length bytes \<le> maxZipEntrySize" by (cases "Open dir fs h") auto
  have "readLimited (maxZipEntrySize + 1) ?f = Some bytes" using o by (simp add: readLimited_short new_entry_def)
  then have "sha256OfZipEntry sha256 ?f = Inr h"
    using fsblob.good_open [OF assms(1) o(1)] o(2) by (simp add: sha256OfZipEntry_def)
  moreover have "has_prefix filesPrefix (ze_Name ?f)" "drop (length filesPrefix) (ze_Name ?f) = h"
    by (simp_all add: has_prefix_def new_entry_def)
  ultimately show ?case using Cons by (simp add: Let_def)
qed simp

text \<open>
  C30. What the server exports, the check finds nothing wrong with beyond what the JSON schema says of the manifest. Suppose the
  export of a product succeeds on a good store, the manifest written decodes to itself, and manifest, entries and archive are
  within the sizes the check reads. Then the check reports no dangling reference, no missing file, no hash mismatch and no file
  too many, and the archive is valid exactly when the exported manifest conforms to the schema.
\<close>

theorem export_passes_check:
  assumes "Export encode order (Open dir fs) s now u = Inr zr" and "good_fs sha256 dir fs" and "\<And>xs. set (order xs) = set xs"
    and "\<And>m hashes. buildManifest s now u = Inr (m, hashes) \<Longrightarrow> decode (encode m) = Some m \<and> length (encode m) \<le> maxManifestSize"
    and "checkZipResourceLimits zr = None" and "\<forall>f \<in> set zr. length (ze_data f) \<le> maxZipEntrySize"
  shows "\<exists>m hashes report. buildManifest s now u = Inr (m, hashes) \<and> Check sha256 conforms decode zr = Inr report
    \<and> rp_DanglingReferences report = [] \<and> rp_MissingFiles report = [] \<and> rp_HashMismatches report = [] \<and> rp_OrphanFiles report = []
    \<and> rp_SchemaErrors report = (if conforms (encode m) then [] else [ManifestRejected]) \<and> rp_Valid report = conforms (encode m)"
proof -
  from assms(1) obtain m hashes where b: "buildManifest s now u = Inr (m, hashes)"
    and zr: "zr = new_entry ''manifest.json'' (encode m) # map (\<lambda>h. new_entry (filesPrefix @ h) (projr (Open dir fs h))) (order (remdups hashes))"
    and ok: "\<forall>h \<in> set (order (remdups hashes)). \<not> isl (Open dir fs h)" by (rule Export_Inr)
  note e = assms(4) [OF b] and c = buildManifest_complete [OF b]
  have "\<forall>h \<in> set (order (remdups hashes)). length (projr (Open dir fs h)) \<le> maxZipEntrySize"
    using assms(6) unfolding zr by (auto simp: new_entry_def)
  from exported_entries_true [OF assms(2) ok this]
  have "checkEntries sha256 zr = Inr (order (remdups hashes), [])"
    unfolding zr by (simp add: new_entry_def has_prefix_def)
  moreover have "readZipFile zr ''manifest.json'' maxManifestSize = Inr (encode m)"
    unfolding zr by (rule exported_manifest_read) (simp add: e)
  ultimately show ?thesis
    using b e c assms(3,5) by (simp add: Check_def checkFileHashes_def checkDanglingReferences_def empty_report_def Let_def filter_empty_conv)
qed

text \<open>A product whose release pins the component release of the example, and its export.\<close>

definition export_db :: db where
  "export_db = empty_db
     \<lparr>tbl_product := [\<lparr>p_uuid = ''p1'', p_name = ''Alpha''\<rparr>], tbl_component := [\<lparr>co_uuid = ''c1'', co_name = ''Lib''\<rparr>],
      tbl_product_release := [\<lparr>rl_uuid = ''pr1'', rl_parent = ''p1'', rl_parent_name = Some ''Alpha'', rl_version = ''1'', rl_created_date = 0,
        rl_release_date = None, rl_pre_release = False, rl_revision = 1\<rparr>],
      tbl_component_release := [\<lparr>rl_uuid = ''cr1'', rl_parent = ''c1'', rl_parent_name = Some ''Lib'', rl_version = ''1'', rl_created_date = 0,
        rl_release_date = None, rl_pre_release = False, rl_revision = 1\<rparr>],
      tbl_release_component := [\<lparr>rc_release = ''pr1'', rc_component = ''c1'', rc_pinned = Some ''cr1''\<rparr>],
      tbl_distribution := [\<lparr>rd_id = ''d1'', rd_release = ''cr1'', rd_description = None, rd_url = Some ''https://old/x'', rd_signature_url = None\<rparr>],
      tbl_checksum := [\<lparr>ck_owner_type = OwnerDistribution, ck_owner = ''d1'', ck_alg_type = ChecksumTypeSHA256, ck_alg_value = demo_hash\<rparr>]\<rparr>"

definition exported :: "Manifest \<times> string list" where "exported = projr (buildManifest export_db 0 ''p1'')"

lemma export_db_tables:
  "tbl_product export_db = [\<lparr>p_uuid = ''p1'', p_name = ''Alpha''\<rparr>]" "tbl_component export_db = [\<lparr>co_uuid = ''c1'', co_name = ''Lib''\<rparr>]"
  "tbl_product_release export_db = [\<lparr>rl_uuid = ''pr1'', rl_parent = ''p1'', rl_parent_name = Some ''Alpha'', rl_version = ''1'', rl_created_date = 0,
        rl_release_date = None, rl_pre_release = False, rl_revision = 1\<rparr>]"
  "tbl_component_release export_db = [\<lparr>rl_uuid = ''cr1'', rl_parent = ''c1'', rl_parent_name = Some ''Lib'', rl_version = ''1'', rl_created_date = 0,
        rl_release_date = None, rl_pre_release = False, rl_revision = 1\<rparr>]"
  "tbl_release_component export_db = [\<lparr>rc_release = ''pr1'', rc_component = ''c1'', rc_pinned = Some ''cr1''\<rparr>]"
  "tbl_distribution export_db = [\<lparr>rd_id = ''d1'', rd_release = ''cr1'', rd_description = None, rd_url = Some ''https://old/x'', rd_signature_url = None\<rparr>]"
  "tbl_checksum export_db = [\<lparr>ck_owner_type = OwnerDistribution, ck_owner = ''d1'', ck_alg_type = ChecksumTypeSHA256, ck_alg_value = demo_hash\<rparr>]"
  "tbl_identifier export_db = []" "tbl_collection export_db = []" "tbl_cle_event export_db = []" "tbl_cle_support export_db = []"
  by (simp_all add: export_db_def empty_db_def)

lemma exported_hashes: "snd exported = [demo_hash] \<and> \<not> isl (buildManifest export_db 0 ''p1'')"
proof -
  have cle: "getCLETx export_db ot u = Inr \<lparr>cle_Events = [], cle_Definitions = None\<rparr>" for ot u
    by (simp add: getCLETx_def cle_ids_def owner_events_def listCLESupportDefinitions_def owner_support_def export_db_tables)
  have cols: "ListCollections export_db u so None lim b = Inr []" for u so lim b
    by (simp add: ListCollections_def pageRows_def orderByClause_def export_db_tables)
  have ids: "listIdentifiers export_db ot u = []" for ot u by (simp add: listIdentifiers_def export_db_tables)
  have cr: "getComponentReleaseTx export_db ''cr1'' = Inr \<lparr>crel_UUID = ''cr1'', crel_Component = ''c1'', crel_ComponentName = ''Lib'',
     crel_Version = ''1'', crel_CreatedDate = 0, crel_ReleaseDate = None, crel_PreRelease = Some False, crel_Identifiers = [],
     crel_Distributions = [\<lparr>dist_DistributionID = ''d1'', dist_Description = [], dist_Identifiers = [], dist_URL = ''https://old/x'',
           dist_SignatureURL = [], dist_Checksums = [\<lparr>AlgType = ChecksumTypeSHA256, AlgValue = demo_hash\<rparr>]\<rparr>]\<rparr>"
    by (simp add: getComponentReleaseTx_def listDistributionsForRelease_def getDistributionTx_def export_db_tables ids listChecksums_def
        null_str_def parseTime_def parseNullTime_def)
  have rel: "ListProductReleasesByProduct export_db ''p1'' [] ''asc'' None exportFetchLimit = Inr [\<lparr>prel_UUID = ''pr1'', prel_Product = ''p1'',
      prel_ProductName = ''Alpha'', prel_Version = ''1'', prel_CreatedDate = 0, prel_ReleaseDate = None,
      prel_PreRelease = Some False, prel_Identifiers = [], prel_Components = [\<lparr>ref_UUID = ''c1'', ref_Release = Some ''cr1''\<rparr>]\<rparr>]"
    by (simp add: ListProductReleasesByProduct_def productReleaseSortColumn_def releaseSortColumn_def queryProductReleaseUUIDs_def pageRows_def
        orderByClause_def whereClause_def exportFetchLimit_def getProductReleaseTx_def listProductReleaseComponents_def export_db_tables ids
        null_str_def parseTime_def parseNullTime_def)
  have "\<exists>m. buildManifest export_db 0 ''p1'' = Inr (m, [demo_hash])"
    by (simp add: buildManifest_def getProductTx_def getComponentTx_def export_db_tables ids cle rel cr cols exportRelease_def exportComponentRef_def
        bindE_def collectFileHashes_def collectDistributionFileHashes_def collectSHA256_def)
  then show ?thesis by (auto simp: exported_def)
qed

lemma demo_store: "\<exists>fs. good_fs pad32 ''d'' fs \<and> Open ''d'' fs demo_hash = Inr ''data''"
proof -
  have g: "good_fs pad32 ''d'' (\<lambda>_. None)" by (simp add: good_fs_def)
  from fsblob.put_named [OF usable_demo g, of "''data''"] obtain fs1
    where "Put pad32 ''d'' ''d/upload-1'' ''data'' (\<lambda>_. None) = (Inr (demo_hash, 4), fs1)" by (auto simp: demo_hash_def)
  from fsblob.put_then_open [OF usable_demo g this] show ?thesis by blast
qed

theorem export_passes_check_witness:
  "\<exists>fs zr report. Export (\<lambda>_. ''{}'') rev (Open ''d'' fs) export_db 0 ''p1'' = Inr zr
     \<and> Check pad32 (\<lambda>raw. raw = ''{}'') (\<lambda>_. Some (fst exported)) zr = Inr report \<and> rp_Valid report"
proof -
  obtain fs where fs: "good_fs pad32 ''d'' fs" "Open ''d'' fs demo_hash = Inr ''data''" using demo_store by blast
  have b: "buildManifest export_db 0 ''p1'' = Inr (fst exported, [demo_hash])"
    using exported_hashes by (cases "buildManifest export_db 0 ''p1''") (auto simp: exported_def)
  have z: "Export (\<lambda>_. ''{}'') rev (Open ''d'' fs) export_db 0 ''p1'' = Inr demo_zip"
    by (simp add: Export_def b fs(2) copyBlobIntoZip_def bindE_def demo_zip_def demo_file_def)
  have "checkZipResourceLimits demo_zip = None"
    by (simp add: checkZipResourceLimits_def demo_zip_def demo_file_def new_entry_def maxZipEntries_def maxZipTotalUncompressed_def)
  moreover have "\<forall>f \<in> set demo_zip. length (ze_data f) \<le> maxZipEntrySize"
    by (simp add: demo_zip_def demo_file_def new_entry_def maxZipEntrySize_def)
  ultimately show ?thesis
    using export_passes_check [OF z fs(1), of "\<lambda>_. Some (fst exported)" "\<lambda>raw. raw = ''{}''"] z by (auto simp: b maxManifestSize_def)
qed

text \<open>
  The collectors take every SHA-256 checksum for the name of a stored blob. A distribution or format that lives elsewhere may
  carry one too; then there is no blob to open and the product cannot be exported at all.
\<close>

lemma export_fails_for_external_content:
  "isl (Export encode order (Open ''d'' (\<lambda>_. None)) export_db 0 ''p1'')" if "\<And>xs. set (order xs) = set xs"
proof (rule ccontr)
  assume "\<not> isl (Export encode order (Open ''d'' (\<lambda>_. None)) export_db 0 ''p1'')"
  then obtain zr where "Export encode order (Open ''d'' (\<lambda>_. None)) export_db 0 ''p1'' = Inr zr" by (auto simp: isl_def) (metis sum.exhaust)
  then obtain m hashes where m: "buildManifest export_db 0 ''p1'' = Inr (m, hashes)"
    and ok: "\<forall>h \<in> set (order (remdups hashes)). \<not> isl (Open ''d'' (\<lambda>_. None) h)" by (rule Export_Inr)
  from m exported_hashes have "hashes = [demo_hash]" by (simp add: exported_def)
  with ok that have "\<not> isl (Open ''d'' (\<lambda>_. None) demo_hash)" by simp
  then show False by (simp add: Open_def split: sum.splits)
qed

end
