(* ===== verification/Semver.thy ===== *)
theory Semver
  imports Api
begin

text \<open>
  Version precedence of the client (\<open>pkg/teaclient/semver.go\<close>): parsing, the comparison of SemVer 2.0.0
  section 11, and the choice of the highest version client and endpoint share. The comparison is proved
  to be the comparison of keys in a linear order, so it is a total preorder, and, on versions written as
  the specification has them, to be the specification's precedence, stated apart from the code.
\<close>

section \<open>Parsing and comparing\<close>

record semVer =
  sv_major :: int
  sv_minor :: int
  sv_patch :: int
  sv_preRelease :: "string list"
  sv_valid :: bool

definition invalid_semVer :: semVer where
  "invalid_semVer = \<lparr>sv_major = 0, sv_minor = 0, sv_patch = 0, sv_preRelease = [], sv_valid = False\<rparr>"

fun parseNums :: "string list \<Rightarrow> int list option" where
  "parseNums [] = Some []"
| "parseNums (p # ps) =
     (case Atoi p of None \<Rightarrow> None | Some n \<Rightarrow>
      if n < 0 then None else (case parseNums ps of None \<Rightarrow> None | Some ns \<Rightarrow> Some (n # ns)))"

definition parseSemVer :: "string \<Rightarrow> semVer" where
  "parseSemVer s =
     (let (s, _, _) = cut (CHR ''+'') s; (core, pre, hasPre) = cut (CHR ''-'') s; parts = split_at (CHR ''.'') core in
      if length parts < 2 \<or> length parts > 3 then invalid_semVer
      else case parseNums parts of
             None \<Rightarrow> invalid_semVer
           | Some nums \<Rightarrow>
               \<lparr>sv_major = nums ! 0, sv_minor = nums ! 1, sv_patch = (if length nums > 2 then nums ! 2 else 0),
                sv_preRelease = (if hasPre then split_at (CHR ''.'') pre else []), sv_valid = True\<rparr>)"

definition compareInt :: "int \<Rightarrow> int \<Rightarrow> int" where
  "compareInt a b = (if a < b then -1 else if a > b then 1 else 0)"

text \<open>\<open>strings.Compare\<close>: lexicographic by bytes.\<close>

definition compareStrings :: "string \<Rightarrow> string \<Rightarrow> int" where
  "compareStrings a b = (if a = b then 0 else if a < b then -1 else 1)"

definition comparePreReleaseField :: "string \<Rightarrow> string \<Rightarrow> int" where
  "comparePreReleaseField a b =
     (case (Atoi a, Atoi b) of
        (Some na, Some nb) \<Rightarrow> compareInt na nb
      | (Some _, None) \<Rightarrow> -1
      | (None, Some _) \<Rightarrow> 1
      | (None, None) \<Rightarrow> compareStrings a b)"

text \<open>The loop over the shared fields, then the comparison of the lengths.\<close>

fun compareFields :: "string list \<Rightarrow> string list \<Rightarrow> int" where
  "compareFields (a # as) (b # bs) =
     (let c = comparePreReleaseField a b in if c \<noteq> 0 then c else compareFields as bs)"
| "compareFields as bs = compareInt (int (length as)) (int (length bs))"

definition comparePreRelease :: "string list \<Rightarrow> string list \<Rightarrow> int" where
  "comparePreRelease a b =
     (if length a = 0 \<and> length b = 0 then 0 else if length a = 0 then 1 else if length b = 0 then -1
      else compareFields a b)"

definition compareSemVer :: "string \<Rightarrow> string \<Rightarrow> int" where
  "compareSemVer a b =
     (let va = parseSemVer a; vb = parseSemVer b in
      if sv_valid va \<noteq> sv_valid vb then (if sv_valid va then 1 else -1)
      else if \<not> sv_valid va then 0
      else let c = compareInt (sv_major va) (sv_major vb) in if c \<noteq> 0 then c
      else let c = compareInt (sv_minor va) (sv_minor vb) in if c \<noteq> 0 then c
      else let c = compareInt (sv_patch va) (sv_patch vb) in if c \<noteq> 0 then c
      else comparePreRelease (sv_preRelease va) (sv_preRelease vb))"

definition semVerEqual :: "semVer \<Rightarrow> semVer \<Rightarrow> bool" where
  "semVerEqual a b \<longleftrightarrow>
     sv_major a = sv_major b \<and> sv_minor a = sv_minor b \<and> sv_patch a = sv_patch b
     \<and> length (sv_preRelease a) = length (sv_preRelease b)
     \<and> list_all2 (=) (sv_preRelease a) (sv_preRelease b)"

text \<open>The two nested loops with the best version so far; \<open>None\<close> while nothing was found.\<close>

fun mutualInner :: "semVer \<Rightarrow> string list \<Rightarrow> string option \<Rightarrow> string option" where
  "mutualInner cv [] best = best"
| "mutualInner cv (e # es) best =
     (let ev = parseSemVer e in
      if \<not> sv_valid ev \<or> \<not> semVerEqual cv ev then mutualInner cv es best
      else mutualInner cv es
             (case best of None \<Rightarrow> Some e | Some b \<Rightarrow> if compareSemVer e b > 0 then Some e else Some b))"

fun mutualOuter :: "string list \<Rightarrow> string list \<Rightarrow> string option \<Rightarrow> string option" where
  "mutualOuter [] endpoint best = best"
| "mutualOuter (c # cs) endpoint best =
     (let cv = parseSemVer c in
      if \<not> sv_valid cv then mutualOuter cs endpoint best
      else mutualOuter cs endpoint (mutualInner cv endpoint best))"

definition highestMutualVersion :: "string list \<Rightarrow> string list \<Rightarrow> string option" where
  "highestMutualVersion client endpoint = mutualOuter client endpoint None"

section \<open>The order behind the comparison\<close>

definition sign_of :: "'a::linorder \<Rightarrow> 'a \<Rightarrow> int" where
  "sign_of x y = (if x < y then -1 else if y < x then 1 else 0)"

text \<open>A numeric field ranks below every other one; a release, with no fields, above every pre-release.\<close>

definition field_key :: "string \<Rightarrow> nat \<times> int \<times> string" where
  "field_key f = (case Atoi f of Some n \<Rightarrow> (0, n, []) | None \<Rightarrow> (1, 0, f))"

type_synonym version_key = "nat \<times> int \<times> int \<times> int \<times> nat \<times> (nat \<times> int \<times> string) list"

definition semver_key :: "string \<Rightarrow> version_key" where
  "semver_key s =
     (let v = parseSemVer s in
      if \<not> sv_valid v then (0, 0, 0, 0, 0, [])
      else (1, sv_major v, sv_minor v, sv_patch v, (if sv_preRelease v = [] then 1 else 0), map field_key (sv_preRelease v)))"

lemma sign_of_simps [simp]: "sign_of x x = 0" "sign_of x y = 0 \<longleftrightarrow> x = y"
  by (auto simp: sign_of_def)

lemma sign_of_pair: "sign_of (a, b) (c, d) = (if sign_of a c \<noteq> 0 then sign_of a c else sign_of b d)"
  by (auto simp: sign_of_def less_prod_def')

lemma sign_of_swap: "sign_of y x = - sign_of x y"
  by (auto simp: sign_of_def)

lemma compareInt_sign: "compareInt a b = sign_of a b"
  by (simp add: compareInt_def sign_of_def)

lemma compareField_sign: "comparePreReleaseField a b = sign_of (field_key a) (field_key b)"
  by (auto simp: comparePreReleaseField_def field_key_def sign_of_pair compareInt_sign compareStrings_def sign_of_def split: option.splits)

lemma Nil_less: "[] < xs \<longleftrightarrow> (xs :: 'a::linorder list) \<noteq> []"
  by (cases xs) auto

lemma compareFields_sign: "compareFields as bs = sign_of (map field_key as) (map field_key bs)"
proof (induction as bs rule: compareFields.induct)
  case (1 a as b bs)
  then show ?case by (auto simp: compareField_sign sign_of_def Let_def)
qed (auto simp: compareInt_def sign_of_def Nil_less)

lemma comparePreRelease_sign:
  "comparePreRelease a b = sign_of (if a = [] then 1 else 0 :: nat, map field_key a) (if b = [] then 1 else 0, map field_key b)"
  by (auto simp: comparePreRelease_def compareFields_sign sign_of_pair) (auto simp: sign_of_def)

lemma compareSemVer_sign: "compareSemVer a b = sign_of (semver_key a) (semver_key b)"
  unfolding compareSemVer_def semver_key_def
  by (auto simp: Let_def compareInt_sign comparePreRelease_sign sign_of_pair) (auto simp: sign_of_def)

lemma compareSemVer_le: "compareSemVer a b \<le> 0 \<longleftrightarrow> semver_key a \<le> semver_key b"
  and compareSemVer_gt: "compareSemVer a b > 0 \<longleftrightarrow> semver_key b < semver_key a"
  by (auto simp: compareSemVer_sign sign_of_def simp del: less_prod_simp less_eq_prod_simp split: if_splits)

text \<open>The laws of a total preorder.\<close>

lemma compareSemVer_refl: "compareSemVer a a = 0"
  unfolding compareSemVer_sign by simp

lemma compareSemVer_swap: "compareSemVer b a = - compareSemVer a b"
  unfolding compareSemVer_sign by (rule sign_of_swap)

lemma compareSemVer_trans: "compareSemVer a b \<le> 0 \<Longrightarrow> compareSemVer b c \<le> 0 \<Longrightarrow> compareSemVer a c \<le> 0"
  unfolding compareSemVer_le by (rule order_trans)

lemma semver_examples:
  "list_all (\<lambda>(a, b). compareSemVer a b = -1)
     [(''1.0.0-alpha'', ''1.0.0-alpha.1''), (''1.0.0-alpha.1'', ''1.0.0-alpha.beta''), (''1.0.0-alpha.beta'', ''1.0.0-beta''),
      (''1.0.0-beta'', ''1.0.0-beta.2''), (''1.0.0-beta.2'', ''1.0.0-beta.11''), (''1.0.0-beta.11'', ''1.0.0-rc.1''), (''1.0.0-rc.1'', ''1.0.0'')]"
  by code_simp

section \<open>The highest shared version\<close>

definition shared :: "string list \<Rightarrow> string list \<Rightarrow> string \<Rightarrow> bool" where
  "shared client endpoint e \<longleftrightarrow> e \<in> set endpoint \<and> sv_valid (parseSemVer e)
     \<and> (\<exists>c \<in> set client. sv_valid (parseSemVer c) \<and> semVerEqual (parseSemVer c) (parseSemVer e))"

text \<open>\<open>best\<close> is a highest element of the versions \<open>S\<close> seen so far.\<close>

definition best_of :: "string set \<Rightarrow> string option \<Rightarrow> bool" where
  "best_of S best \<longleftrightarrow>
     (case best of None \<Rightarrow> S = {} | Some b \<Rightarrow> b \<in> S \<and> (\<forall>e \<in> S. compareSemVer e b \<le> 0))"

lemma best_of_insert:
  assumes "best_of S best"
  shows "best_of (insert e S) (case best of None \<Rightarrow> Some e | Some b \<Rightarrow> if compareSemVer e b > 0 then Some e else Some b)"
  using assms unfolding best_of_def compareSemVer_le compareSemVer_gt
  by (auto split: option.splits simp: not_less simp del: less_prod_simp less_eq_prod_simp intro: order_trans less_imp_le)

lemma mutualInner_best:
  "best_of S best \<Longrightarrow> best_of (S \<union> {e \<in> set es. sv_valid (parseSemVer e) \<and> semVerEqual cv (parseSemVer e)}) (mutualInner cv es best)"
proof (induction es arbitrary: S best)
  case Nil
  then show ?case by simp
next
  case (Cons e es)
  show ?case
  proof (cases "sv_valid (parseSemVer e) \<and> semVerEqual cv (parseSemVer e)")
    case True
    then have "S \<union> {x \<in> set (e # es). sv_valid (parseSemVer x) \<and> semVerEqual cv (parseSemVer x)} =
        insert e S \<union> {x \<in> set es. sv_valid (parseSemVer x) \<and> semVerEqual cv (parseSemVer x)}" by auto
    with Cons.IH [OF best_of_insert [OF Cons.prems, of e]] True show ?thesis by (simp add: Let_def)
  next
    case False
    then have "{x \<in> set (e # es). sv_valid (parseSemVer x) \<and> semVerEqual cv (parseSemVer x)} =
        {x \<in> set es. sv_valid (parseSemVer x) \<and> semVerEqual cv (parseSemVer x)}" by auto
    with Cons.IH [OF Cons.prems] False show ?thesis by (auto simp: Let_def)
  qed
qed

lemma mutualOuter_best:
  "best_of S best \<Longrightarrow> best_of (S \<union> {e. shared client endpoint e}) (mutualOuter client endpoint best)"
proof (induction client arbitrary: S best)
  case Nil
  then show ?case by (simp add: shared_def)
next
  case (Cons c cs)
  let ?new = "{e \<in> set endpoint. sv_valid (parseSemVer e) \<and> semVerEqual (parseSemVer c) (parseSemVer e)}"
  show ?case
  proof (cases "sv_valid (parseSemVer c)")
    case True
    then have "S \<union> {e. shared (c # cs) endpoint e} = (S \<union> ?new) \<union> {e. shared cs endpoint e}"
      by (auto simp: shared_def)
    with Cons.IH [OF mutualInner_best [OF Cons.prems, of endpoint "parseSemVer c"]] True show ?thesis by (simp add: Let_def)
  next
    case False
    then have "{e. shared (c # cs) endpoint e} = {e. shared cs endpoint e}" by (auto simp: shared_def)
    with Cons.IH [OF Cons.prems] False show ?thesis by (simp add: Let_def)
  qed
qed

lemma highestMutual_key:
  "case highestMutualVersion client endpoint of
     None \<Rightarrow> \<not> (\<exists>e. shared client endpoint e)
   | Some best \<Rightarrow> shared client endpoint best \<and> \<not> (\<exists>e. shared client endpoint e \<and> compareSemVer e best > 0)"
  using mutualOuter_best [of "{}" None client endpoint]
  by (auto simp: best_of_def highestMutualVersion_def not_less split: option.splits)

section \<open>SemVer 2.0.0\<close>

text \<open>
  Versions and their precedence as the specification has them (sections 2, 9, 10 and 11): identifiers
  that consist only of digits compare numerically, others in ASCII order, numeric ones below the others;
  of two pre-releases that agree on the shared fields the longer ranks higher; a release ranks above its
  pre-releases.
\<close>

datatype ident = Numeric nat | Alphanumeric string

record version =
  ver_major :: nat
  ver_minor :: nat
  ver_patch :: nat
  ver_pre :: "ident list"

fun identifier_less :: "ident \<Rightarrow> ident \<Rightarrow> bool" where
  "identifier_less (Numeric m) (Numeric n) \<longleftrightarrow> m < n"
| "identifier_less (Numeric _) (Alphanumeric _) \<longleftrightarrow> True"
| "identifier_less (Alphanumeric _) (Numeric _) \<longleftrightarrow> False"
| "identifier_less (Alphanumeric a) (Alphanumeric b) \<longleftrightarrow> a < b"

fun fields_less :: "ident list \<Rightarrow> ident list \<Rightarrow> bool" where
  "fields_less [] bs \<longleftrightarrow> bs \<noteq> []"
| "fields_less (a # as) [] \<longleftrightarrow> False"
| "fields_less (a # as) (b # bs) \<longleftrightarrow> identifier_less a b \<or> a = b \<and> fields_less as bs"

definition lower_precedence :: "version \<Rightarrow> version \<Rightarrow> bool" where
  "lower_precedence v w \<longleftrightarrow>
     ver_major v < ver_major w
     \<or> ver_major v = ver_major w \<and> (ver_minor v < ver_minor w
     \<or> ver_minor v = ver_minor w \<and> (ver_patch v < ver_patch w
     \<or> ver_patch v = ver_patch w \<and> ver_pre v \<noteq> [] \<and> (ver_pre w = [] \<or> fields_less (ver_pre v) (ver_pre w))))"

text \<open>
  How a version is written: decimal numbers without leading zeros, dots, a hyphen before the pre-release
  fields, any build metadata after a plus sign; the patch number may be left out when it is zero, as the
  discovery document allows.
\<close>

definition identifier_char :: "char \<Rightarrow> bool" where
  "identifier_char c \<longleftrightarrow> is_digit c \<or> c = CHR ''-'' \<or> (65 \<le> (of_char c :: nat) \<and> (of_char c :: nat) \<le> 90)
     \<or> (97 \<le> (of_char c :: nat) \<and> (of_char c :: nat) \<le> 122)"

fun identifier_ok :: "ident \<Rightarrow> bool" where
  "identifier_ok (Numeric _) \<longleftrightarrow> True"
| "identifier_ok (Alphanumeric f) \<longleftrightarrow> f \<noteq> [] \<and> list_all identifier_char f \<and> \<not> list_all is_digit f"

fun identifier_text :: "ident \<Rightarrow> string" where
  "identifier_text (Numeric n) = decimal n"
| "identifier_text (Alphanumeric f) = f"

fun dotted :: "string list \<Rightarrow> string" where
  "dotted [] = []"
| "dotted [f] = f"
| "dotted (f # fs) = f @ CHR ''.'' # dotted fs"

definition core_texts :: "version \<Rightarrow> string list" where
  "core_texts v =
     dotted (map decimal [ver_major v, ver_minor v, ver_patch v])
     # (if ver_patch v = 0 then [dotted (map decimal [ver_major v, ver_minor v])] else [])"

definition pre_text :: "version \<Rightarrow> string" where
  "pre_text v = (if ver_pre v = [] then [] else CHR ''-'' # dotted (map identifier_text (ver_pre v)))"

definition spells :: "version \<Rightarrow> string \<Rightarrow> bool" where
  "spells v s \<longleftrightarrow> list_all identifier_ok (ver_pre v)
     \<and> (\<exists>core build. s = core @ pre_text v @ build \<and> core \<in> set (core_texts v)
          \<and> (build = [] \<or> (\<exists>rest. build = CHR ''+'' # rest)))"

text \<open>
  What the client reads as the specification does: numbers of 63 bits, and no alphanumeric identifier
  that is a hyphen followed by digits (\<open>hyphen_field_ranks_low\<close>).
\<close>

fun identifier_readable :: "ident \<Rightarrow> bool" where
  "identifier_readable (Numeric n) \<longleftrightarrow> int n \<le> 9223372036854775807"
| "identifier_readable (Alphanumeric f) \<longleftrightarrow> \<not> (take 1 f = ''-'' \<and> drop 1 f \<noteq> [] \<and> list_all is_digit (drop 1 f))"

definition readable :: "version \<Rightarrow> bool" where
  "readable v \<longleftrightarrow> list_all (\<lambda>n. int n \<le> 9223372036854775807) [ver_major v, ver_minor v, ver_patch v]
     \<and> list_all identifier_readable (ver_pre v)"

subsection \<open>Reading a version back\<close>

declare decimal.simps [simp del]

lemma cut_found: "c \<notin> set xs \<Longrightarrow> cut c (xs @ c # ys) = (xs, ys, True)"
  and cut_missing: "c \<notin> set xs \<Longrightarrow> cut c xs = (xs, [], False)"
  by (induction xs) auto

lemma split_dotted: "\<forall>f \<in> set fs. CHR ''.'' \<notin> set f \<Longrightarrow> fs \<noteq> [] \<Longrightarrow> split_at (CHR ''.'') (dotted fs) = fs"
  by (induction fs rule: dotted.induct) (simp_all add: split_at_free split_at_append)

lemma set_dotted: "set (dotted fs) \<subseteq> insert (CHR ''.'') (\<Union>f \<in> set fs. set f)"
  by (induction fs rule: dotted.induct) auto

lemma decimal_nonempty: "decimal n \<noteq> []"
  by (subst decimal.simps) simp

lemma Atoi_itoa:
  assumes "0 \<le> n" and "n \<le> 9223372036854775807"
  shows "Atoi (itoa n) = Some n"
proof -
  obtain c cs where d: "decimal (nat n) = c # cs" using decimal_nonempty [of "nat n"] by (cases "decimal (nat n)") auto
  have "is_digit c" using decimal_is_digit [of c "nat n"] unfolding d by simp
  then have "c \<noteq> CHR ''-''" "c \<noteq> CHR ''+''" by (auto simp: is_digit_def)
  moreover have "list_all is_digit (c # cs)" using decimal_is_digit [of _ "nat n"] by (simp add: list_all_iff d)
  moreover have "digits_value (c # cs) = n" using digits_value_decimal [of "nat n"] assms(1) unfolding d by simp
  ultimately show ?thesis using assms by (simp add: Atoi_def itoa_def d Let_def)
qed

lemma Atoi_decimal: "int n \<le> 9223372036854775807 \<Longrightarrow> Atoi (decimal n) = Some (int n)"
  using Atoi_itoa [of "int n"] by (simp add: itoa_def)

lemma decimal_inj: "decimal m = decimal n \<longleftrightarrow> m = n"
  by (metis digits_value_decimal of_nat_eq_iff)

lemma decimal_free: "\<not> is_digit c \<Longrightarrow> c \<notin> set (decimal n)"
  using decimal_is_digit by blast

lemma identifier_text_chars: "identifier_ok i \<Longrightarrow> c \<in> set (identifier_text i) \<Longrightarrow> identifier_char c"
  by (cases i) (auto simp: list_all_iff identifier_char_def simp del: decimal.simps dest: decimal_is_digit)

lemma separators: "\<not> is_digit (CHR ''.'')" "\<not> is_digit (CHR ''-'')" "\<not> is_digit (CHR ''+'')"
  "\<not> identifier_char (CHR ''.'')" "\<not> identifier_char (CHR ''+'')"
  by (simp_all add: is_digit_def identifier_char_def)

lemma identifier_text_inj:
  assumes "identifier_ok i" "identifier_ok j" "identifier_text i = identifier_text j"
  shows "i = j"
proof -
  have digits: "list_all is_digit (decimal n)" for n by (simp add: list_all_iff decimal_is_digit)
  show ?thesis using assms digits
    by (cases i; cases j) (auto simp: decimal_inj)
qed

lemma core_free:
  "\<forall>f \<in> set (map decimal ns). CHR ''.'' \<notin> set f" "CHR ''-'' \<notin> set (dotted (map decimal ns))"
  "CHR ''+'' \<notin> set (dotted (map decimal ns))"
proof -
  show "\<forall>f \<in> set (map decimal ns). CHR ''.'' \<notin> set f"
    using decimal_free [OF separators(1)] by (simp)
  have "c \<notin> set (dotted (map decimal ns))" if "\<not> is_digit c" "c \<noteq> CHR ''.''" for c
    using set_dotted [of "map decimal ns"] decimal_free [OF that(1)] that(2) by auto
  then show "CHR ''-'' \<notin> set (dotted (map decimal ns))" "CHR ''+'' \<notin> set (dotted (map decimal ns))"
    using separators by simp_all
qed

text \<open>The parts of a spelling, which the two cuts and the splits at the dots find.\<close>

lemma spelled_parts:
  assumes "spells v s"
  obtains ns core where "ns = [ver_patch v] \<or> (ver_patch v = 0 \<and> ns = [])"
    "fst (cut (CHR ''+'') s) = core @ pre_text v"
    "cut (CHR ''-'') (core @ pre_text v) = (core, dotted (map identifier_text (ver_pre v)), ver_pre v \<noteq> [])"
    "split_at (CHR ''.'') core = map decimal (ver_major v # ver_minor v # ns)"
    "ver_pre v \<noteq> [] \<Longrightarrow> split_at (CHR ''.'') (dotted (map identifier_text (ver_pre v))) = map identifier_text (ver_pre v)"
proof -
  obtain core build where s: "s = core @ pre_text v @ build" and core: "core \<in> set (core_texts v)"
    and build: "build = [] \<or> (\<exists>rest. build = CHR ''+'' # rest)" and ok: "list_all identifier_ok (ver_pre v)"
    using assms by (auto simp: spells_def)
  from core obtain ns where ns: "core = dotted (map decimal (ver_major v # ver_minor v # ns))"
    and cs: "ns = [ver_patch v] \<or> (ver_patch v = 0 \<and> ns = [])"
  proof (cases "core = dotted (map decimal [ver_major v, ver_minor v, ver_patch v])")
    case True
    then show thesis by (intro that [of "[ver_patch v]"]) simp_all
  next
    case False
    with core have "ver_patch v = 0" "core = dotted (map decimal [ver_major v, ver_minor v])"
      by (simp_all add: core_texts_def del: dotted.simps split: if_splits)
    then show thesis by (intro that [of "[]"]) simp_all
  qed
  note free = core_free [of "ver_major v # ver_minor v # ns", folded ns]
  have chars: "\<forall>f \<in> set (map identifier_text (ver_pre v)). \<forall>x \<in> set f. identifier_char x"
    using ok identifier_text_chars by (auto simp: list_all_iff)
  then have "CHR ''+'' \<notin> set (dotted (map identifier_text (ver_pre v)))"
    using set_dotted [of "map identifier_text (ver_pre v)"] separators by fastforce
  with free have "CHR ''+'' \<notin> set (core @ pre_text v)" by (auto simp: pre_text_def)
  then have plus: "fst (cut (CHR ''+'') s) = core @ pre_text v"
    using build cut_found [of "CHR ''+''" "core @ pre_text v"] cut_missing [of "CHR ''+''" "core @ pre_text v"] s by auto
  have split: "split_at (CHR ''.'') (dotted (map identifier_text (ver_pre v))) = map identifier_text (ver_pre v)" if "ver_pre v \<noteq> []"
    using chars separators that by (intro split_dotted) auto
  have minus: "cut (CHR ''-'') (core @ pre_text v) = (core, dotted (map identifier_text (ver_pre v)), ver_pre v \<noteq> [])"
    using free by (simp add: pre_text_def cut_found cut_missing)
  have "split_at (CHR ''.'') core = map decimal (ver_major v # ver_minor v # ns)"
    unfolding ns by (rule split_dotted [OF core_free(1)]) simp
  with cs plus minus split show thesis by (intro that) auto
qed

lemma identifier_texts_inj:
  assumes "list_all identifier_ok is" "list_all identifier_ok js"
  shows "map identifier_text is = map identifier_text js \<longleftrightarrow> is = js"
  using assms by (intro inj_on_map_eq_map inj_onI) (auto simp: list_all_iff intro: identifier_text_inj)

lemma spells_unique:
  assumes v: "spells v s" and w: "spells w s"
  shows "v = w"
proof -
  obtain ns core where v': "ns = [ver_patch v] \<or> (ver_patch v = 0 \<and> ns = [])" "fst (cut (CHR ''+'') s) = core @ pre_text v"
    "cut (CHR ''-'') (core @ pre_text v) = (core, dotted (map identifier_text (ver_pre v)), ver_pre v \<noteq> [])"
    "split_at (CHR ''.'') core = map decimal (ver_major v # ver_minor v # ns)"
    "ver_pre v \<noteq> [] \<Longrightarrow> split_at (CHR ''.'') (dotted (map identifier_text (ver_pre v))) = map identifier_text (ver_pre v)"
    using spelled_parts [OF v] by blast
  obtain ms core' where w': "ms = [ver_patch w] \<or> (ver_patch w = 0 \<and> ms = [])" "fst (cut (CHR ''+'') s) = core' @ pre_text w"
    "cut (CHR ''-'') (core' @ pre_text w) = (core', dotted (map identifier_text (ver_pre w)), ver_pre w \<noteq> [])"
    "split_at (CHR ''.'') core' = map decimal (ver_major w # ver_minor w # ms)"
    "ver_pre w \<noteq> [] \<Longrightarrow> split_at (CHR ''.'') (dotted (map identifier_text (ver_pre w))) = map identifier_text (ver_pre w)"
    using spelled_parts [OF w] by blast
  have "cut (CHR ''-'') (core @ pre_text v) = cut (CHR ''-'') (core' @ pre_text w)" using v'(2) w'(2) by simp
  then have "(core, dotted (map identifier_text (ver_pre v)), ver_pre v \<noteq> []) =
      (core', dotted (map identifier_text (ver_pre w)), ver_pre w \<noteq> [])"
    unfolding v'(3) w'(3) .
  then have same: "core = core'" "dotted (map identifier_text (ver_pre v)) = dotted (map identifier_text (ver_pre w))"
    "ver_pre v = [] \<longleftrightarrow> ver_pre w = []"
    by blast+
  have "map identifier_text (ver_pre v) = map identifier_text (ver_pre w)"
  proof (cases "ver_pre v = []")
    case True
    with same(3) show ?thesis by simp
  next
    case False
    with same(3) have "ver_pre w \<noteq> []" by blast
    from v'(5) [OF False] w'(5) [OF this] same(2) show ?thesis by argo
  qed
  then have "ver_pre v = ver_pre w" using v w by (simp add: identifier_texts_inj spells_def)
  moreover have "map decimal (ver_major v # ver_minor v # ns) = map decimal (ver_major w # ver_minor w # ms)"
    using v'(4) w'(4) same(1) by simp
  then have "ver_major v # ver_minor v # ns = ver_major w # ver_minor w # ms"
    by (rule inj_onD [OF inj_mapI [OF injI, of decimal], rotated]) (simp_all add: decimal_inj)
  ultimately show ?thesis using v'(1) w'(1) by (cases v; cases w) auto
qed

lemma parseNums_decimals: "\<forall>n \<in> set ns. int n \<le> 9223372036854775807 \<Longrightarrow> parseNums (map decimal ns) = Some (map int ns)"
  by (induction ns) (simp_all add: Atoi_decimal)

lemma parse_spelled:
  assumes "spells v s" and "readable v"
  shows "parseSemVer s = \<lparr>sv_major = int (ver_major v), sv_minor = int (ver_minor v), sv_patch = int (ver_patch v),
     sv_preRelease = map identifier_text (ver_pre v), sv_valid = True\<rparr>"
proof -
  obtain ns core where p: "ns = [ver_patch v] \<or> (ver_patch v = 0 \<and> ns = [])" "fst (cut (CHR ''+'') s) = core @ pre_text v"
    "cut (CHR ''-'') (core @ pre_text v) = (core, dotted (map identifier_text (ver_pre v)), ver_pre v \<noteq> [])"
    "split_at (CHR ''.'') core = map decimal (ver_major v # ver_minor v # ns)"
    "ver_pre v \<noteq> [] \<Longrightarrow> split_at (CHR ''.'') (dotted (map identifier_text (ver_pre v))) = map identifier_text (ver_pre v)"
    using spelled_parts [OF assms(1)] by blast
  have "\<forall>n \<in> set (ver_major v # ver_minor v # ns). int n \<le> 9223372036854775807"
    using assms(2) p(1) by (auto simp: readable_def)
  then have nums: "parseNums (split_at (CHR ''.'') core) = Some (map int (ver_major v # ver_minor v # ns))"
    unfolding p(4) by (rule parseNums_decimals)
  obtain y z where "cut (CHR ''+'') s = (core @ pre_text v, y, z)" using p(2) by (cases "cut (CHR ''+'') s") auto
  moreover have "length (split_at (CHR ''.'') core) = Suc (Suc (length ns))" using p(4) by simp
  ultimately show ?thesis using nums p(1,3,5)
    by (auto simp: parseSemVer_def simp del: parseNums.simps)
qed

subsection \<open>The comparison is the specification's precedence\<close>

fun identifier_key :: "ident \<Rightarrow> nat \<times> int \<times> string" where
  "identifier_key (Numeric n) = (0, int n, [])"
| "identifier_key (Alphanumeric f) = (1, 0, f)"

lemma field_key_text:
  assumes "identifier_ok i" and "identifier_readable i"
  shows "field_key (identifier_text i) = identifier_key i"
proof (cases i)
  case (Numeric n)
  with assms show ?thesis by (simp add: field_key_def Atoi_decimal)
next
  case (Alphanumeric f)
  then obtain c cs where f: "f = c # cs" using assms(1) by (cases f) auto
  have "c \<noteq> CHR ''+''" using assms(1) Alphanumeric separators f by auto
  then have "Atoi f = None" using assms Alphanumeric f by (auto simp: Atoi_def)
  with Alphanumeric show ?thesis by (simp add: field_key_def)
qed

lemma identifier_key_less: "identifier_key i < identifier_key j \<longleftrightarrow> identifier_less i j"
  by (cases i; cases j) (auto simp: less_prod_def')

lemma identifier_key_inj: "identifier_key i = identifier_key j \<longleftrightarrow> i = j"
  by (cases i; cases j) auto

lemma fields_key_less: "map identifier_key as < map identifier_key bs \<longleftrightarrow> fields_less as bs"
  by (induction as bs rule: fields_less.induct)
     (auto simp: Nil_less identifier_key_less identifier_key_inj simp del: less_prod_simp)

lemma spelled_key:
  assumes "spells v s" and "readable v"
  shows "semver_key s = (1, int (ver_major v), int (ver_minor v), int (ver_patch v), if ver_pre v = [] then 1 else 0, map identifier_key (ver_pre v))"
proof -
  have "\<forall>i \<in> set (ver_pre v). identifier_ok i \<and> identifier_readable i"
    using assms by (simp add: spells_def readable_def list_all_iff)
  then have "map field_key (map identifier_text (ver_pre v)) = map identifier_key (ver_pre v)"
    by (simp add: field_key_text)
  then show ?thesis by (simp add: semver_key_def parse_spelled [OF assms])
qed

lemma spelled_precedence:
  assumes "spells v s" "readable v" "spells w t" "readable w"
  shows "compareSemVer t s > 0 \<longleftrightarrow> lower_precedence v w"
  unfolding compareSemVer_gt spelled_key [OF assms(1,2)] spelled_key [OF assms(3,4)]
  by (auto simp: less_prod_def' fields_key_less lower_precedence_def)

lemma spelled_equal:
  assumes "spells v s" "readable v" "spells w t" "readable w"
  shows "semVerEqual (parseSemVer s) (parseSemVer t) \<longleftrightarrow> v = w"
  using assms(1,3) unfolding parse_spelled [OF assms(1,2)] parse_spelled [OF assms(3,4)] semVerEqual_def list_all2_eq [symmetric]
  by (auto simp: identifier_texts_inj spells_def dest: map_eq_imp_length_eq)

text \<open>A version both sides know, in the endpoint's spelling; and lists of versions the client can read.\<close>

definition mutual :: "string list \<Rightarrow> string list \<Rightarrow> version \<Rightarrow> string \<Rightarrow> bool" where
  "mutual client endpoint v e \<longleftrightarrow> e \<in> set endpoint \<and> spells v e \<and> (\<exists>c \<in> set client. spells v c)"

definition legible :: "string list \<Rightarrow> bool" where
  "legible texts \<longleftrightarrow> (\<forall>s \<in> set texts. \<exists>v. spells v s \<and> readable v)"

lemma legible_readable: "legible texts \<Longrightarrow> s \<in> set texts \<Longrightarrow> spells v s \<Longrightarrow> readable v"
  unfolding legible_def using spells_unique by blast

lemma shared_mutual:
  assumes "legible client" "legible endpoint"
  shows "shared client endpoint e \<longleftrightarrow> (\<exists>v. mutual client endpoint v e)"
proof
  assume "shared client endpoint e"
  then obtain c where c: "c \<in> set client" "e \<in> set endpoint" "semVerEqual (parseSemVer c) (parseSemVer e)"
    by (auto simp: shared_def)
  with assms obtain v w where vw: "spells v c" "readable v" "spells w e" "readable w"
    unfolding legible_def by blast
  with spelled_equal [OF vw] c show "\<exists>v. mutual client endpoint v e" unfolding mutual_def by blast
next
  assume "\<exists>v. mutual client endpoint v e"
  then obtain v c where v: "e \<in> set endpoint" "spells v e" "c \<in> set client" "spells v c" by (auto simp: mutual_def)
  then have r: "readable v" using legible_readable [OF assms(1)] by blast
  have "sv_valid (parseSemVer c)" "sv_valid (parseSemVer e)" "semVerEqual (parseSemVer c) (parseSemVer e)"
    using spelled_equal [OF v(4) r v(2) r] parse_spelled [OF v(4) r] parse_spelled [OF v(2) r] by simp_all
  with v show "shared client endpoint e" unfolding shared_def by blast
qed

text \<open>
  C20. The client picks the version the discovery specification asks for. When the versions on both sides
  are written as SemVer 2.0.0 has them (a zero patch number may be missing), with numbers of at most 63
  bits and no pre-release identifier that is a hyphen followed by digits, the client finds a version
  exactly when the endpoint advertises one it supports, and then picks one, in the endpoint's spelling,
  such that no other version both support has higher precedence by section 11 of the specification.
\<close>

theorem highestMutualVersion_best:
  assumes "legible client" and "legible endpoint"
  shows "case highestMutualVersion client endpoint of
     None \<Rightarrow> \<not> (\<exists>v e. mutual client endpoint v e)
   | Some best \<Rightarrow> \<exists>v. mutual client endpoint v best
       \<and> \<not> (\<exists>w e. mutual client endpoint w e \<and> lower_precedence v w)"
proof (cases "highestMutualVersion client endpoint")
  case None
  then show ?thesis using highestMutual_key [of client endpoint] shared_mutual [OF assms] by auto
next
  case (Some best)
  then have best: "shared client endpoint best" "\<And>e. shared client endpoint e \<Longrightarrow> \<not> compareSemVer e best > 0"
    using highestMutual_key [of client endpoint] by auto
  then obtain v where v: "mutual client endpoint v best" using shared_mutual [OF assms] by blast
  have "\<not> lower_precedence v w" if w: "mutual client endpoint w e" for w e
  proof -
    have "spells v best" "readable v" "spells w e" "readable w"
      using v w legible_readable [OF assms(2)] by (auto simp: mutual_def)
    from spelled_precedence [OF this] best(2) [of e] w shared_mutual [OF assms] show ?thesis by blast
  qed
  with Some v show ?thesis by auto
qed

text \<open>Release candidates 2 and 10, a numeric comparison, and the release only the endpoint has.\<close>

definition rc :: "nat \<Rightarrow> version" where
  "rc n = \<lparr>ver_major = 1, ver_minor = 0, ver_patch = 0, ver_pre = [Alphanumeric ''rc'', Numeric n]\<rparr>"

lemma spellsI:
  "list_all identifier_ok (ver_pre v) \<Longrightarrow> core \<in> set (core_texts v) \<Longrightarrow> build = [] \<or> build = CHR ''+'' # tl build \<Longrightarrow>
   s = core @ pre_text v @ build \<Longrightarrow> spells v s"
  unfolding spells_def by blast

lemma core_two: "ver_patch v = 0 \<Longrightarrow> dotted (map decimal [ver_major v, ver_minor v]) \<in> set (core_texts v)"
  and core_three: "dotted (map decimal [ver_major v, ver_minor v, ver_patch v]) \<in> set (core_texts v)"
  by (simp_all add: core_texts_def)

lemma rc_ok: "list_all identifier_ok (ver_pre (rc n))"
  by (simp add: rc_def identifier_char_def is_digit_def)

lemma spells_examples:
  "spells (rc 2) ''1.0.0-rc.2''" "spells (rc 10) ''1.0.0-rc.10''" "spells (rc 10) ''1.0-rc.10+build''"
  "spells \<lparr>ver_major = 1, ver_minor = 0, ver_patch = 0, ver_pre = []\<rparr> ''1.0''"
proof -
  show "spells (rc 2) ''1.0.0-rc.2''" "spells (rc 10) ''1.0.0-rc.10''"
    by (rule spellsI [OF rc_ok core_three, of "[]"]; code_simp)+
  show "spells (rc 10) ''1.0-rc.10+build''"
    by (rule spellsI [OF rc_ok core_two, of _ "''+build''"]; code_simp)
  show "spells \<lparr>ver_major = 1, ver_minor = 0, ver_patch = 0, ver_pre = []\<rparr> ''1.0''"
    by (rule spellsI [OF _ core_two, of _ "[]"]; code_simp)
qed

theorem highestMutualVersion_best_witness:
  "\<exists>v. mutual [''1.0.0-rc.2'', ''1.0.0-rc.10''] [''1.0.0-rc.2'', ''1.0-rc.10+build'', ''1.0''] v ''1.0-rc.10+build''
     \<and> \<not> (\<exists>w e. mutual [''1.0.0-rc.2'', ''1.0.0-rc.10''] [''1.0.0-rc.2'', ''1.0-rc.10+build'', ''1.0''] w e \<and> lower_precedence v w)"
proof -
  let ?client = "[''1.0.0-rc.2'', ''1.0.0-rc.10'']" and ?endpoint = "[''1.0.0-rc.2'', ''1.0-rc.10+build'', ''1.0'']"
  have "readable (rc 2)" "readable (rc 10)" "readable \<lparr>ver_major = 1, ver_minor = 0, ver_patch = 0, ver_pre = []\<rparr>"
    by (simp_all add: readable_def rc_def)
  then have l: "legible ?client" "legible ?endpoint" using spells_examples by (auto simp: legible_def)
  have "highestMutualVersion ?client ?endpoint = Some ''1.0-rc.10+build''" by code_simp
  with highestMutualVersion_best [OF l] show ?thesis by simp
qed

text \<open>A two-part version an endpoint advertises is the three-part one of the client, in the endpoint's spelling.\<close>

lemma mutual_example:
  "highestMutualVersion [''0.9.0'', ''1.0.0''] [''0.9.0'', ''1.0'', ''2.0.0''] = Some ''1.0''"
  by code_simp


text \<open>
  A pre-release field with a leading hyphen is alphanumeric by the specification, so it ranks above every
  numeric one; \<open>strconv.Atoi\<close> reads it as a negative number, and it ranks below.
\<close>

lemma hyphen_field_ranks_low: "compareSemVer ''1.0.0-rc.-5'' ''1.0.0-rc.1'' = -1"
  by code_simp

end
