(* ===== verification/Teaclient.thy ===== *)
theory Teaclient
  imports Semver Downloads
begin

text \<open>
  The client library (\<open>pkg/teaclient\<close>): requests with an optional bearer token, redirects, retries with
  back-off, bootstrap discovery from an identifier to a server, the choice of the host to connect to, listings
  over all pages, and verified downloads.

  The network is a function of the requests sent so far and the next request, so that a history records every
  request and its headers. URL parsing, JSON, media type parsing, the digests and DNS are parameters.
\<close>

section \<open>Requests and responses\<close>

text \<open>The host and port to connect to are those of the URL unless a dialer overrides them.\<close>

record http_request =
  rq_method :: string
  rq_url :: string
  rq_query :: "(string \<times> string) list"
  rq_authorization :: "string option"
  rq_dial :: "(string \<times> int) option"

text \<open>A response whose body yields \<open>rs_body\<close> and then ends, or fails when not \<open>rs_complete\<close>.\<close>

record http_response =
  rs_status :: int
  rs_content_type :: string
  rs_body :: string
  rs_complete :: bool

record APIError =
  ae_StatusCode :: int
  ae_ContentType :: string
  ae_Body :: string

datatype client_error =
    ClientAPIError APIError
  | CertificateVerificationError
  | WellKnownRedirect
  | TransportError string
  | ContextDone
  | ClientOther string

type_synonym network = "http_request list \<Rightarrow> http_request \<Rightarrow> client_error + http_response"
type_synonym 'a client_op = "http_request list \<Rightarrow> (client_error + 'a) \<times> http_request list"

definition send_request :: "network \<Rightarrow> http_request \<Rightarrow> http_response client_op" where
  "send_request net req hist = (net hist req, hist @ [req])"

definition maxResponseBody :: nat where "maxResponseBody = 10 * 2 ^ 20"

text \<open>\<open>io.ReadAll\<close> of a reader limited to one byte more than allowed.\<close>

definition readBody :: "http_response \<Rightarrow> client_error + string" where
  "readBody resp =
     (if length (rs_body resp) > maxResponseBody then Inl (ClientOther ''response body exceeds limit'')
      else if \<not> rs_complete resp then Inl (ClientOther ''unexpected EOF'')
      else Inr (rs_body resp))"

section \<open>Errors (\<open>errors.go\<close>)\<close>

definition hasStatus :: "client_error \<Rightarrow> int \<Rightarrow> bool" where
  "hasStatus e status \<longleftrightarrow> (case e of ClientAPIError a \<Rightarrow> ae_StatusCode a = status | _ \<Rightarrow> False)"

definition IsNotFound :: "client_error \<Rightarrow> bool" where "IsNotFound e = hasStatus e 404"
definition IsUnauthorized :: "client_error \<Rightarrow> bool" where "IsUnauthorized e = hasStatus e 401"
definition IsForbidden :: "client_error \<Rightarrow> bool" where "IsForbidden e = hasStatus e 403"
definition IsBadRequest :: "client_error \<Rightarrow> bool" where "IsBadRequest e = hasStatus e 400"

text \<open>
  \<open>mediatype\<close> is \<open>mime.ParseMediaType\<close>; \<open>errorOf\<close> decodes a JSON object and gives its \<open>error\<close> property, empty when it
  has none.
\<close>

definition TEAErrorCode :: "(string \<Rightarrow> string option) \<Rightarrow> (string \<Rightarrow> string option) \<Rightarrow> client_error \<Rightarrow> string option" where
  "TEAErrorCode mediatype errorOf e =
     (case e of
        ClientAPIError a \<Rightarrow>
          (case mediatype (ae_ContentType a) of
             None \<Rightarrow> None
           | Some mt \<Rightarrow>
               if \<not> EqualFold mt ''application/json'' then None
               else (case errorOf (ae_Body a) of None \<Rightarrow> None | Some code \<Rightarrow> if code = [] then None else Some code))
      | _ \<Rightarrow> None)"

section \<open>The client (\<open>client.go\<close>)\<close>

record Client =
  cl_baseURL :: string
  cl_bearerToken :: string

definition trimRightSlash :: "string \<Rightarrow> string" where
  "trimRightSlash s = rev (dropWhile (\<lambda>c. c = CHR ''/'') (rev s))"

definition NewClient :: "string \<Rightarrow> string \<Rightarrow> Client" where
  "NewClient baseURL token = \<lparr>cl_baseURL = trimRightSlash baseURL, cl_bearerToken = token\<rparr>"

definition bearer_header :: "Client \<Rightarrow> string option" where
  "bearer_header c = (if cl_bearerToken c \<noteq> [] then Some (''Bearer '' @ cl_bearerToken c) else None)"

definition apiError :: "http_response \<Rightarrow> string \<Rightarrow> client_error" where
  "apiError resp body = ClientAPIError \<lparr>ae_StatusCode = rs_status resp, ae_ContentType = rs_content_type resp, ae_Body = body\<rparr>"

definition is_success :: "http_response \<Rightarrow> bool" where
  "is_success resp \<longleftrightarrow> 200 \<le> rs_status resp \<and> rs_status resp < 300"

text \<open>\<open>decode\<close> is the JSON decoder of the result type and \<open>zero\<close> the value left alone by an empty body.\<close>

definition clientDo ::
  "network \<Rightarrow> (string \<Rightarrow> 'a option) \<Rightarrow> 'a \<Rightarrow> Client \<Rightarrow> string \<Rightarrow> string \<Rightarrow> (string \<times> string) list \<Rightarrow> 'a client_op" where
  "clientDo net decode zero c meth path query hist =
     (case send_request net \<lparr>rq_method = meth, rq_url = cl_baseURL c @ path, rq_query = query,
             rq_authorization = bearer_header c, rq_dial = None\<rparr> hist of
        (Inl e, hist) \<Rightarrow> (Inl e, hist)
      | (Inr resp, hist) \<Rightarrow>
          (case readBody resp of
             Inl e \<Rightarrow> (Inl e, hist)
           | Inr body \<Rightarrow>
               if \<not> is_success resp then (Inl (apiError resp body), hist)
               else if length body = 0 then (Inr zero, hist)
               else (case decode body of None \<Rightarrow> (Inl (ClientOther ''json''), hist) | Some out \<Rightarrow> (Inr out, hist))))"

text \<open>The loop over pages: it ends when a page has no successor or fails; otherwise it may run for ever.\<close>

partial_function (option) ListAll_from ::
  "('t \<Rightarrow> 'e + ('a list \<times> bool \<times> 't)) \<Rightarrow> 'a list \<Rightarrow> 't \<Rightarrow> ('e + 'a list) option" where
  "ListAll_from fetch found token =
     (case fetch token of
        Inl e \<Rightarrow> Some (Inl e)
      | Inr (results, hasNext, next_token) \<Rightarrow>
          if \<not> hasNext then Some (Inr (found @ results)) else ListAll_from fetch (found @ results) next_token)"

definition ListAll :: "('t \<Rightarrow> 'e + ('a list \<times> bool \<times> 't)) \<Rightarrow> 't \<Rightarrow> ('e + 'a list) option" where
  "ListAll fetch empty_token = ListAll_from fetch [] empty_token"

section \<open>Redirects\<close>

record url_parts =
  u_Scheme :: string
  u_Host :: string

definition same_origin :: "url_parts \<Rightarrow> url_parts \<Rightarrow> bool" where
  "same_origin a b \<longleftrightarrow> EqualFold (u_Scheme a) (u_Scheme b) \<and> EqualFold (u_Host a) (u_Host b)"

text \<open>\<open>via\<close> are the requests made so far, the first one first; the second component is the Authorization header.\<close>

definition crossOriginCheckRedirect :: "(url_parts \<times> string option) list \<Rightarrow> url_parts \<times> string option \<Rightarrow> client_error + (url_parts \<times> string option)" where
  "crossOriginCheckRedirect via req =
     (if length via \<ge> 10 then Inl (ClientOther ''teaclient: stopped after 10 redirects'')
      else if \<not> same_origin (fst (hd via)) (fst req) then Inr (fst req, None) else Inr req)"

text \<open>
  \<open>net/http\<close> follows the redirects of a response: each further request starts with the headers of the first one,
  from which the library may already have removed the credentials (\<open>keeps\<close>), and is submitted to the check.
\<close>

fun follow_redirects ::
  "(url_parts \<Rightarrow> bool) \<Rightarrow> string option \<Rightarrow> (url_parts \<times> string option) list \<Rightarrow> url_parts list \<Rightarrow> (url_parts \<times> string option) list" where
  "follow_redirects keeps auth via [] = via"
| "follow_redirects keeps auth via (target # targets) =
     (case crossOriginCheckRedirect via (target, if keeps target then auth else None) of
        Inl _ \<Rightarrow> via
      | Inr req \<Rightarrow> follow_redirects keeps auth (via @ [req]) targets)"

section \<open>Retries\<close>

definition retryBackoffDelays :: "nat list" where "retryBackoffDelays = [200, 400, 800]"

text \<open>
  The loop of \<open>retryWithBackoff\<close> at one attempt, with the error of the one before; \<open>cancelled\<close> says whether the context
  is done while it waits for the given attempt.
\<close>

function retry_from ::
  "'a client_op \<Rightarrow> (client_error \<Rightarrow> bool) \<Rightarrow> (nat \<Rightarrow> bool) \<Rightarrow> nat \<Rightarrow> client_error \<Rightarrow> 'a client_op" where
  "retry_from fn shouldRetry cancelled attempt lastErr hist =
     (if attempt > 0 \<and> \<not> shouldRetry lastErr then (Inl lastErr, hist)
      else if attempt > 0 \<and> cancelled attempt then (Inl ContextDone, hist)
      else case fn hist of
             (Inr result, hist) \<Rightarrow> (Inr result, hist)
           | (Inl err, hist) \<Rightarrow>
               if attempt \<ge> length retryBackoffDelays then (Inl err, hist)
               else retry_from fn shouldRetry cancelled (attempt + 1) err hist)"
  by pat_completeness auto

termination
  by (relation "measure (\<lambda>(fn, shouldRetry, cancelled, attempt, lastErr, hist). length retryBackoffDelays - attempt)") auto

definition retryWithBackoff :: "(nat \<Rightarrow> bool) \<Rightarrow> 'a client_op \<Rightarrow> (client_error \<Rightarrow> bool) \<Rightarrow> 'a client_op" where
  "retryWithBackoff cancelled fn shouldRetry = retry_from fn shouldRetry cancelled 0 ContextDone"

definition isRetryableError :: "client_error \<Rightarrow> bool" where
  "isRetryableError e =
     (case e of
        CertificateVerificationError \<Rightarrow> False
      | WellKnownRedirect \<Rightarrow> False
      | ClientAPIError a \<Rightarrow> ae_StatusCode a \<ge> 500
      | TransportError _ \<Rightarrow> True
      | _ \<Rightarrow> False)"

section \<open>The authority of an identifier (\<open>pkg/tea/tei.go\<close>)\<close>

text \<open>\<open>url.Parse\<close> gives the scheme, the host with its port, and the port.\<close>

record parsed_url =
  pu_Scheme :: string
  pu_Host :: string
  pu_Port :: string

datatype tei_error = NotAURL | WrongScheme string | MissingAuthority | PortInAuthority

definition ExtractTEIAuthority :: "(string \<Rightarrow> parsed_url option) \<Rightarrow> string \<Rightarrow> tei_error + string" where
  "ExtractTEIAuthority parse tei =
     (case parse tei of
        None \<Rightarrow> Inl NotAURL
      | Some u \<Rightarrow>
          if pu_Scheme u \<noteq> ''tei'' then Inl (WrongScheme (pu_Scheme u))
          else if pu_Host u = [] then Inl MissingAuthority
          else if pu_Port u \<noteq> [] then Inl PortInAuthority
          else Inr (pu_Host u))"

section \<open>The host to connect to (\<open>svcb.go\<close>)\<close>

definition defaultWellKnownPort :: int where "defaultWellKnownPort = 443"

text \<open>An HTTPS record with the ports among its parameters, in order; other records are only passed over.\<close>

record https_rr =
  hr_Name :: string
  hr_Priority :: nat
  hr_Target :: string
  hr_Ports :: "nat list"

datatype dns_rr = HTTPS https_rr | OtherRR

text \<open>
  \<open>answers\<close> is the exchange with the resolver: the records of a successful answer. The shuffle before the stable
  sort is a parameter.
\<close>

definition queryHTTPS :: "(string \<Rightarrow> dns_rr list option) \<Rightarrow> (https_rr list \<Rightarrow> https_rr list) \<Rightarrow> string \<Rightarrow> https_rr option" where
  "queryHTTPS answers shuffle name =
     (case answers name of
        None \<Rightarrow> None
      | Some rrs \<Rightarrow>
          (let candidates = List.map_filter (\<lambda>rr. case rr of HTTPS h \<Rightarrow> Some h | OtherRR \<Rightarrow> None) rrs in
           if candidates = [] then None else Some (hd (sort_key hr_Priority (shuffle candidates)))))"

text \<open>\<open>net.SplitHostPort\<close>: everything before the last colon, brackets removed, and what follows it.\<close>

definition last_colon :: "string \<Rightarrow> (string \<times> string) option" where
  "last_colon s =
     (if CHR '':'' \<notin> set s then None
      else let port = takeWhile (\<lambda>c. c \<noteq> CHR '':'') (rev s) in Some (take (length s - length port - 1) s, rev port))"

definition splitHostPort :: "string \<Rightarrow> (string \<times> string) option" where
  "splitHostPort hostport =
     (case last_colon hostport of
        None \<Rightarrow> None
      | Some (before, port) \<Rightarrow>
          if hostport \<noteq> [] \<and> hd hostport = CHR ''['' then
            (let inside = takeWhile (\<lambda>c. c \<noteq> CHR '']'') (tl hostport) in
             if before \<noteq> CHR ''['' # inside @ '']'' \<or> CHR ''['' \<in> set inside \<or> CHR ''['' \<in> set port \<or> CHR '']'' \<in> set port then None
             else Some (inside, port))
          else if CHR '':'' \<in> set before \<or> CHR ''['' \<in> set hostport \<or> CHR '']'' \<in> set hostport then None
          else Some (before, port))"

definition trimDot :: "string \<Rightarrow> string" where
  "trimDot s = (if s \<noteq> [] \<and> last s = CHR ''.'' then butlast s else s)"

text \<open>\<open>fqdn\<close> is \<open>dns.Fqdn\<close>.\<close>

definition resolveWellKnownTargetWithConfig ::
  "(string \<Rightarrow> dns_rr list option) \<Rightarrow> (https_rr list \<Rightarrow> https_rr list) \<Rightarrow> (string \<Rightarrow> string) \<Rightarrow> string \<Rightarrow> string \<times> int \<times> bool" where
  "resolveWellKnownTargetWithConfig answers shuffle fqdn authority =
     (let (fallbackHost, fallbackPort) =
            (case splitHostPort authority of
               None \<Rightarrow> (authority, defaultWellKnownPort)
             | Some (h, p) \<Rightarrow> (h, case Atoi p of None \<Rightarrow> defaultWellKnownPort | Some n \<Rightarrow> n));
          fallback = (fallbackHost, fallbackPort, False);
          chosen = (\<lambda>rr. (trimDot (if hr_Target rr \<noteq> ''.'' \<and> hr_Target rr \<noteq> [] then hr_Target rr else hr_Name rr),
                          if hr_Ports rr = [] then defaultWellKnownPort else int (last (hr_Ports rr)), True))
      in case queryHTTPS answers shuffle (fqdn fallbackHost) of
           None \<Rightarrow> fallback
         | Some rr \<Rightarrow>
             if hr_Priority rr \<noteq> 0 then chosen rr
             else if hr_Target rr = ''.'' \<or> hr_Target rr = [] then fallback
             else (case queryHTTPS answers shuffle (fqdn (trimDot (hr_Target rr))) of
                     None \<Rightarrow> fallback
                   | Some follow \<Rightarrow> if hr_Priority follow = 0 then fallback else chosen follow))"

section \<open>Bootstrap discovery (\<open>wellknown.go\<close>)\<close>

record WellKnownEndpoint =
  we_URL :: string
  we_Versions :: "string list"
  we_Priority :: "real option"

record WellKnownDocument =
  wd_SchemaVersion :: int
  wd_Endpoints :: "WellKnownEndpoint list"

record ServerInfo =
  si_RootURL :: string
  si_Versions :: "string list"
  si_Priority :: "real option"

record DiscoveryInfo =
  di_ProductReleaseUUID :: uuid
  di_Servers :: "ServerInfo list"

definition endpointPriority :: "WellKnownEndpoint \<Rightarrow> real" where
  "endpointPriority ep = (case we_Priority ep of None \<Rightarrow> 1 | Some p \<Rightarrow> p)"

definition sortEndpointsByPriority :: "WellKnownEndpoint list \<Rightarrow> WellKnownEndpoint list" where
  "sortEndpointsByPriority endpoints = sort_key (\<lambda>ep. - endpointPriority ep) endpoints"

definition doFetchWellKnown ::
  "network \<Rightarrow> (string \<Rightarrow> WellKnownDocument option) \<Rightarrow> string \<times> int \<Rightarrow> string \<Rightarrow> WellKnownDocument client_op" where
  "doFetchWellKnown net decode dial reqURL hist =
     (case send_request net \<lparr>rq_method = ''GET'', rq_url = reqURL, rq_query = [], rq_authorization = None, rq_dial = Some dial\<rparr> hist of
        (Inl e, hist) \<Rightarrow> (Inl e, hist)
      | (Inr resp, hist) \<Rightarrow>
          (case readBody resp of
             Inl e \<Rightarrow> (Inl e, hist)
           | Inr body \<Rightarrow>
               if \<not> is_success resp
               then (Inl (ClientAPIError \<lparr>ae_StatusCode = rs_status resp, ae_ContentType = [], ae_Body = body\<rparr>), hist)
               else (case decode body of
                       None \<Rightarrow> (Inl (ClientOther ''parse''), hist)
                     | Some doc \<Rightarrow>
                         if wd_SchemaVersion doc \<noteq> 1 then (Inl (ClientOther ''schemaVersion''), hist)
                         else if length (wd_Endpoints doc) = 0 then (Inl (ClientOther ''no endpoints''), hist)
                         else (Inr doc, hist))))"

definition fetchWellKnown ::
  "network \<Rightarrow> (nat \<Rightarrow> bool) \<Rightarrow> (string \<Rightarrow> WellKnownDocument option) \<Rightarrow> (string \<Rightarrow> string \<times> int \<times> bool) \<Rightarrow> string \<Rightarrow> WellKnownDocument client_op" where
  "fetchWellKnown net cancelled decode resolve authority =
     (let (host, port, _) = resolve authority;
          reqURL = ''https://'' @ authority @ ''/.well-known/tea''
      in retryWithBackoff cancelled (doFetchWellKnown net decode (host, port) reqURL) isRetryableError)"

definition discover :: "network \<Rightarrow> (string \<Rightarrow> DiscoveryInfo list option) \<Rightarrow> Client \<Rightarrow> (string \<times> string) list \<Rightarrow> DiscoveryInfo list client_op" where
  "discover net decode c query hist =
     (case clientDo net decode [] c ''GET'' ''/discovery'' query hist of
        (Inl e, hist) \<Rightarrow> (Inl e, hist)
      | (Inr out, hist) \<Rightarrow> if length out = 0 then (Inl (ClientOther ''empty result''), hist) else (Inr out, hist))"

definition Discover :: "network \<Rightarrow> (string \<Rightarrow> DiscoveryInfo list option) \<Rightarrow> Client \<Rightarrow> string \<Rightarrow> DiscoveryInfo list client_op" where
  "Discover net decode c tei = discover net decode c [(''tei'', tei)]"

definition DiscoverByPURL :: "network \<Rightarrow> (string \<Rightarrow> DiscoveryInfo list option) \<Rightarrow> Client \<Rightarrow> string \<Rightarrow> DiscoveryInfo list client_op" where
  "DiscoverByPURL net decode c packageURL = discover net decode c [(''purl'', packageURL)]"

definition SupportedVersions :: "string list" where "SupportedVersions = [''1.0.0'']"

record BootstrapDiscoverResult =
  br_ServerURL :: string
  br_Info :: "DiscoveryInfo list"

datatype bootstrap_error =
    BadTEI tei_error
  | WellKnownFailed client_error
  | AuthenticationStopped string client_error
  | NotResolved string string
  | AllFailed "(string \<times> client_error option) list"

text \<open>
  Everything the flow is given: the network, the decoders, URL parsing and the caller's bearer token, and when the context
  is cancelled, per candidate (the well-known fetch is number 0) and attempt.
\<close>

record bootstrap_env =
  be_net :: network
  be_cancelled :: "nat \<Rightarrow> nat \<Rightarrow> bool"
  be_wellknown :: "string \<Rightarrow> WellKnownDocument option"
  be_discovery :: "string \<Rightarrow> DiscoveryInfo list option"
  be_parse :: "string \<Rightarrow> parsed_url option"
  be_mediatype :: "string \<Rightarrow> string option"
  be_errorOf :: "string \<Rightarrow> string option"
  be_resolve :: "string \<Rightarrow> string \<times> int \<times> bool"
  be_token :: string

definition stops_failover :: "bootstrap_env \<Rightarrow> string \<Rightarrow> client_error \<Rightarrow> bootstrap_error option" where
  "stops_failover env serverURL err =
     (if IsUnauthorized err \<or> IsForbidden err then Some (AuthenticationStopped serverURL err)
      else case TEAErrorCode (be_mediatype env) (be_errorOf env) err of
             Some code \<Rightarrow> if IsNotFound err then Some (NotResolved serverURL code) else None
           | None \<Rightarrow> None)"

text \<open>The server URL a candidate is tried under, unless it is passed over.\<close>

definition candidate_url :: "bootstrap_env \<Rightarrow> WellKnownEndpoint \<Rightarrow> string option" where
  "candidate_url env ep =
     (case be_parse env (we_URL ep) of
        None \<Rightarrow> None
      | Some u \<Rightarrow>
          if \<not> EqualFold (pu_Scheme u) ''https'' then None
          else (case highestMutualVersion SupportedVersions (we_Versions ep) of
                  None \<Rightarrow> None | Some version \<Rightarrow> Some (trimRightSlash (we_URL ep) @ ''/v'' @ version)))"

definition try_candidate :: "bootstrap_env \<Rightarrow> nat \<Rightarrow> string \<Rightarrow> string \<Rightarrow> DiscoveryInfo list client_op" where
  "try_candidate env i tei serverURL =
     retryWithBackoff (be_cancelled env i) (Discover (be_net env) (be_discovery env) (NewClient serverURL (be_token env)) tei)
       (\<lambda>e. \<not> IsUnauthorized e \<and> \<not> IsForbidden e \<and> isRetryableError e)"

fun tryEndpoints ::
  "bootstrap_env \<Rightarrow> string \<Rightarrow> nat \<Rightarrow> WellKnownEndpoint list \<Rightarrow> (string \<times> client_error option) list \<Rightarrow> http_request list
     \<Rightarrow> (bootstrap_error + BootstrapDiscoverResult) \<times> http_request list" where
  "tryEndpoints env tei i [] errs hist = (Inl (AllFailed errs), hist)"
| "tryEndpoints env tei i (ep # eps) errs hist =
     (case candidate_url env ep of
        None \<Rightarrow> tryEndpoints env tei (Suc i) eps (errs @ [(we_URL ep, None)]) hist
      | Some serverURL \<Rightarrow>
          (case try_candidate env i tei serverURL hist of
             (Inr info, hist) \<Rightarrow> (Inr \<lparr>br_ServerURL = serverURL, br_Info = info\<rparr>, hist)
           | (Inl err, hist) \<Rightarrow>
               (case stops_failover env serverURL err of
                  Some stop \<Rightarrow> (Inl stop, hist)
                | None \<Rightarrow> tryEndpoints env tei (Suc i) eps (errs @ [(serverURL, Some err)]) hist)))"

definition bootstrapDiscoverWithAuthority ::
  "bootstrap_env \<Rightarrow> string \<Rightarrow> string \<Rightarrow> http_request list \<Rightarrow> (bootstrap_error + BootstrapDiscoverResult) \<times> http_request list" where
  "bootstrapDiscoverWithAuthority env authority tei hist =
     (case fetchWellKnown (be_net env) (be_cancelled env 0) (be_wellknown env) (be_resolve env) authority hist of
        (Inl err, hist) \<Rightarrow> (Inl (WellKnownFailed err), hist)
      | (Inr doc, hist) \<Rightarrow> tryEndpoints env tei 1 (sortEndpointsByPriority (wd_Endpoints doc)) [] hist)"

definition BootstrapDiscover ::
  "bootstrap_env \<Rightarrow> string \<Rightarrow> http_request list \<Rightarrow> (bootstrap_error + BootstrapDiscoverResult) \<times> http_request list" where
  "BootstrapDiscover env tei hist =
     (case ExtractTEIAuthority (be_parse env) tei of
        Inl err \<Rightarrow> (Inl (BadTEI err), hist)
      | Inr authority \<Rightarrow> bootstrapDiscoverWithAuthority env authority tei hist)"

section \<open>Verified downloads (\<open>artifacts.go\<close>)\<close>

text \<open>\<open>digest\<close> gives the hash function of each algorithm the client has, as bytes to bytes.\<close>

definition supportedAlgorithms :: "string list" where
  "supportedAlgorithms = [''MD5'', ''SHA-1'', ''SHA-256'', ''SHA-384'', ''SHA-512'', ''SHA3-256'', ''SHA3-384'', ''SHA3-512'',
     ''BLAKE2b-256'', ''BLAKE2b-384'', ''BLAKE2b-512'']"

definition newHasher :: "(string \<Rightarrow> string \<Rightarrow> string) \<Rightarrow> string \<Rightarrow> client_error + (string \<Rightarrow> string)" where
  "newHasher digest algType =
     (if List.member supportedAlgorithms algType then Inr (digest algType) else Inl (ClientOther ''unsupported checksum algorithm''))"

definition newChecksumHashers :: "(string \<Rightarrow> string \<Rightarrow> string) \<Rightarrow> Checksum list \<Rightarrow> client_error + (Checksum \<times> (string \<Rightarrow> string)) list" where
  "newChecksumHashers digest checksums =
     mapE (\<lambda>c. case newHasher digest (AlgType c) of Inl e \<Rightarrow> Inl e | Inr h \<Rightarrow> Inr (c, h)) checksums"

text \<open>
  The request and the checks, for a destination that takes at most \<open>limit\<close> bytes (\<open>None\<close>: any number) and the bytes that
  reached it. \<open>escape\<close> is \<open>url.QueryEscape\<close>.
\<close>

definition downloadContentAndVerifyTo ::
  "network \<Rightarrow> (string \<Rightarrow> string \<Rightarrow> string) \<Rightarrow> (string \<Rightarrow> string) \<Rightarrow> nat option \<Rightarrow> Client \<Rightarrow> string \<Rightarrow> ArtifactFormat \<Rightarrow> string client_op" where
  "downloadContentAndVerifyTo net digest escape limit c selfHostedPath f hist =
     (case newChecksumHashers digest (fmt_Checksums f) of
        Inl e \<Rightarrow> (Inl e, hist)
      | Inr hashers \<Rightarrow>
          (let req = (if fmt_URL f \<noteq> []
                      then \<lparr>rq_method = ''GET'', rq_url = fmt_URL f, rq_query = [], rq_authorization = None, rq_dial = None\<rparr>
                      else \<lparr>rq_method = ''GET'', rq_url = cl_baseURL c @ selfHostedPath @ ''?mediaType='' @ escape (fmt_MediaType f), rq_query = [],
                            rq_authorization = bearer_header c, rq_dial = None\<rparr>) in
           case send_request net req hist of
             (Inl e, hist) \<Rightarrow> (Inl e, hist)
           | (Inr resp, hist) \<Rightarrow>
               if \<not> is_success resp then (Inl (apiError resp (take maxResponseBody (rs_body resp))), hist)
               else if (case limit of None \<Rightarrow> False | Some n \<Rightarrow> length (rs_body resp) > n) then (Inl (ClientOther ''response exceeds limit''), hist)
               else if \<not> rs_complete resp then (Inl (ClientOther ''unexpected EOF''), hist)
               else (case find_row (\<lambda>(cksum, hash). \<not> EqualFold (hexEncode (hash (rs_body resp))) (AlgValue cksum)) hashers of
                       Some (cksum, _) \<Rightarrow> (Inl (ClientOther (AlgType cksum @ '' checksum mismatch'')), hist)
                     | None \<Rightarrow> (Inr (rs_body resp), hist))))"

definition DownloadAndVerify ::
  "network \<Rightarrow> (string \<Rightarrow> string \<Rightarrow> string) \<Rightarrow> (string \<Rightarrow> string) \<Rightarrow> Client \<Rightarrow> uuid \<Rightarrow> int \<Rightarrow> ArtifactFormat \<Rightarrow> string client_op" where
  "DownloadAndVerify net digest escape c artifactUUID version f =
     downloadContentAndVerifyTo net digest escape (Some maxResponseBody) c
       (''/artifact/'' @ artifactUUID @ ''/'' @ itoa version @ ''/download'') f"

definition DownloadAndVerifyTo ::
  "network \<Rightarrow> (string \<Rightarrow> string \<Rightarrow> string) \<Rightarrow> (string \<Rightarrow> string) \<Rightarrow> Client \<Rightarrow> uuid \<Rightarrow> int \<Rightarrow> ArtifactFormat \<Rightarrow> string client_op" where
  "DownloadAndVerifyTo net digest escape c artifactUUID version f =
     downloadContentAndVerifyTo net digest escape None c (''/artifact/'' @ artifactUUID @ ''/'' @ itoa version @ ''/download'') f"

definition DownloadLatestAndVerifyTo ::
  "network \<Rightarrow> (string \<Rightarrow> string \<Rightarrow> string) \<Rightarrow> (string \<Rightarrow> string) \<Rightarrow> Client \<Rightarrow> uuid \<Rightarrow> ArtifactFormat \<Rightarrow> string client_op" where
  "DownloadLatestAndVerifyTo net digest escape c artifactUUID f =
     downloadContentAndVerifyTo net digest escape None c (''/artifact/'' @ artifactUUID @ ''/latest/download'') f"

definition downloadSignature :: "network \<Rightarrow> (string \<Rightarrow> string) \<Rightarrow> Client \<Rightarrow> string \<Rightarrow> ArtifactFormat \<Rightarrow> string client_op" where
  "downloadSignature net escape c selfHostedPath f hist =
     (let req = (if fmt_SignatureURL f \<noteq> []
                 then \<lparr>rq_method = ''GET'', rq_url = fmt_SignatureURL f, rq_query = [], rq_authorization = None, rq_dial = None\<rparr>
                 else \<lparr>rq_method = ''GET'', rq_url = cl_baseURL c @ selfHostedPath @ ''?mediaType='' @ escape (fmt_MediaType f), rq_query = [],
                       rq_authorization = bearer_header c, rq_dial = None\<rparr>) in
      case send_request net req hist of
        (Inl e, hist) \<Rightarrow> (Inl e, hist)
      | (Inr resp, hist) \<Rightarrow>
          (case readBody resp of
             Inl e \<Rightarrow> (Inl e, hist)
           | Inr body \<Rightarrow> if \<not> is_success resp then (Inl (apiError resp body), hist) else (Inr body, hist)))"

definition DownloadSignature :: "network \<Rightarrow> (string \<Rightarrow> string) \<Rightarrow> Client \<Rightarrow> uuid \<Rightarrow> int \<Rightarrow> ArtifactFormat \<Rightarrow> string client_op" where
  "DownloadSignature net escape c artifactUUID version f =
     downloadSignature net escape c (''/artifact/'' @ artifactUUID @ ''/'' @ itoa version @ ''/signature/download'') f"

definition DownloadLatestSignature :: "network \<Rightarrow> (string \<Rightarrow> string) \<Rightarrow> Client \<Rightarrow> uuid \<Rightarrow> ArtifactFormat \<Rightarrow> string client_op" where
  "DownloadLatestSignature net escape c artifactUUID f =
     downloadSignature net escape c (''/artifact/'' @ artifactUUID @ ''/latest/signature/download'') f"

section \<open>Retries are bounded\<close>

text \<open>The history after a number of calls.\<close>

primrec after_calls :: "'a client_op \<Rightarrow> nat \<Rightarrow> http_request list \<Rightarrow> http_request list" where
  "after_calls fn 0 hist = hist"
| "after_calls fn (Suc n) hist = after_calls fn n (snd (fn hist))"

text \<open>The result of the last of \<open>n\<close> calls, and what each call before it did.\<close>

definition call_result :: "'a client_op \<Rightarrow> nat \<Rightarrow> http_request list \<Rightarrow> client_error + 'a" where
  "call_result fn n hist = fst (fn (after_calls fn n hist))"

definition all_retryable :: "'a client_op \<Rightarrow> (client_error \<Rightarrow> bool) \<Rightarrow> nat \<Rightarrow> http_request list \<Rightarrow> bool" where
  "all_retryable fn shouldRetry n hist \<longleftrightarrow> (\<forall>j < n. \<exists>e. call_result fn j hist = Inl e \<and> shouldRetry e)"

lemma all_retryable_Suc:
  "all_retryable fn sh (Suc n) hist \<longleftrightarrow> (\<exists>e. fst (fn hist) = Inl e \<and> sh e) \<and> all_retryable fn sh n (snd (fn hist))"
  by (auto simp: all_retryable_def call_result_def less_Suc_eq_0_disj)

text \<open>How a run of the loop ends: with a success, with an error it does not retry, after the last attempt, or cancelled.\<close>

definition retry_ends :: "(client_error \<Rightarrow> bool) \<Rightarrow> (nat \<Rightarrow> bool) \<Rightarrow> nat \<Rightarrow> client_error + 'a \<Rightarrow> client_error + 'a \<Rightarrow> bool" where
  "retry_ends shouldRetry cancelled attempts last_result r \<longleftrightarrow>
     r = last_result \<and> (\<forall>e. r = Inl e \<longrightarrow> attempts = 4 \<or> \<not> shouldRetry e) \<or> r = Inl ContextDone \<and> cancelled attempts"

declare retry_from.simps [simp del]

lemma retry_from_runs:
  assumes "attempt \<le> 3" "attempt > 0 \<longrightarrow> shouldRetry lastErr \<and> \<not> cancelled attempt"
  shows "\<exists>n. attempt + Suc n \<le> 4 \<and> all_retryable fn shouldRetry n hist
     \<and> snd (retry_from fn shouldRetry cancelled attempt lastErr hist) = after_calls fn (Suc n) hist
     \<and> retry_ends shouldRetry cancelled (attempt + Suc n) (call_result fn n hist) (fst (retry_from fn shouldRetry cancelled attempt lastErr hist))"
  using assms
proof (induction fn shouldRetry cancelled attempt lastErr hist rule: retry_from.induct)
  case (1 fn shouldRetry cancelled attempt lastErr hist)
  obtain r hist1 where f: "fn hist = (r, hist1)" by force
  show ?case
  proof (cases r)
    case (Inr x)
    with f 1(2,3) show ?thesis
      by (intro exI [of _ 0]) (auto simp: retry_from.simps [of _ _ _ attempt] all_retryable_def call_result_def retry_ends_def)
  next
    case (Inl e)
    show ?thesis
    proof (cases "attempt = 3")
      case True
      with f Inl 1(2,3) show ?thesis
        by (intro exI [of _ 0])
          (auto simp: retry_from.simps [of _ _ _ 3] all_retryable_def call_result_def retry_ends_def retryBackoffDelays_def)
    next
      case less: False
      let ?rest = "retry_from fn shouldRetry cancelled (attempt + 1) e hist1"
      have eq: "retry_from fn shouldRetry cancelled attempt lastErr hist = ?rest"
        using f Inl 1(2,3) less by (auto simp: retry_from.simps [of _ _ _ attempt] retryBackoffDelays_def)
      show ?thesis
      proof (cases "shouldRetry e \<and> \<not> cancelled (attempt + 1)")
        case True
        with 1(1) [OF _ _ f [symmetric] Inl] 1(2,3) less obtain n where n: "attempt + 1 + Suc n \<le> 4" "all_retryable fn shouldRetry n hist1"
          "snd ?rest = after_calls fn (Suc n) hist1"
          "retry_ends shouldRetry cancelled (attempt + 1 + Suc n) (call_result fn n hist1) (fst ?rest)"
          by (auto simp: retryBackoffDelays_def)
        with True f Inl show ?thesis
          unfolding eq by (intro exI [of _ "Suc n"]) (simp add: all_retryable_Suc call_result_def)
      next
        case False
        then have "?rest = (if shouldRetry e then Inl ContextDone else Inl e, hist1)"
          by (auto simp: retry_from.simps [of _ _ _ "Suc attempt"])
        with False f Inl less 1(2) show ?thesis
          unfolding eq by (intro exI [of _ 0]) (auto simp: all_retryable_def call_result_def retry_ends_def)
      qed
    qed
  qed
qed

text \<open>
  C38. The retry loop ends: it makes between one and four attempts and goes on only after an error worth retrying. It
  returns what the last attempt returned (a success, an error that is not retried, or the fourth error in a row), unless
  the context is cancelled during a wait, when it returns the context's error instead.
\<close>

theorem retry_bounded:
  "\<exists>n. Suc n \<le> 4 \<and> all_retryable fn shouldRetry n hist
     \<and> snd (retryWithBackoff cancelled fn shouldRetry hist) = after_calls fn (Suc n) hist
     \<and> retry_ends shouldRetry cancelled (Suc n) (call_result fn n hist) (fst (retryWithBackoff cancelled fn shouldRetry hist))"
  using retry_from_runs [of 0 shouldRetry ContextDone cancelled fn hist] by (simp add: retryWithBackoff_def)

section \<open>What bootstrap discovery sends\<close>

lemma send_request_snd [simp]: "snd (send_request net req hist) = hist @ [req]"
  by (simp add: send_request_def)

definition discover_request :: "string \<Rightarrow> string \<Rightarrow> string \<Rightarrow> http_request" where
  "discover_request token serverURL tei =
     \<lparr>rq_method = ''GET'', rq_url = trimRightSlash serverURL @ ''/discovery'', rq_query = [(''tei'', tei)],
      rq_authorization = (if token = [] then None else Some (''Bearer '' @ token)), rq_dial = None\<rparr>"

definition wellknown_request :: "string \<times> int \<Rightarrow> string \<Rightarrow> http_request" where
  "wellknown_request dial authority =
     \<lparr>rq_method = ''GET'', rq_url = ''https://'' @ authority @ ''/.well-known/tea'', rq_query = [], rq_authorization = None, rq_dial = Some dial\<rparr>"

lemma Discover_sends: "snd (Discover net decode (NewClient serverURL token) tei hist) = hist @ [discover_request token serverURL tei]"
  by (auto simp: Discover_def discover_def clientDo_def discover_request_def NewClient_def bearer_header_def send_request_def
      split: sum.splits prod.splits option.splits if_splits)

lemma doFetchWellKnown_sends:
  "snd (doFetchWellKnown net decode dial (''https://'' @ authority @ ''/.well-known/tea'') hist) = hist @ [wellknown_request dial authority]"
  by (auto simp: doFetchWellKnown_def wellknown_request_def send_request_def split: sum.splits prod.splits option.splits if_splits)

lemma after_calls_one:
  assumes "\<And>h. snd (fn h) = h @ [q]"
  shows "after_calls fn n hist = hist @ replicate n q"
  by (induction n arbitrary: hist) (simp_all add: assms)

text \<open>A retried call that sends one request sends it one to four times.\<close>

lemma retry_sends:
  assumes "\<And>h. snd (fn h) = h @ [q]"
  shows "\<exists>n. n \<le> 4 \<and> snd (retryWithBackoff cancelled fn sh hist) = hist @ replicate n q"
proof -
  obtain n where "Suc n \<le> 4" "snd (retryWithBackoff cancelled fn sh hist) = after_calls fn (Suc n) hist"
    using retry_bounded by blast
  then show ?thesis unfolding after_calls_one [OF assms] by blast
qed

definition sends_only :: "(http_request \<Rightarrow> bool) \<Rightarrow> nat \<Rightarrow> http_request list \<Rightarrow> http_request list \<Rightarrow> bool" where
  "sends_only ok n hist hist' \<longleftrightarrow> (\<exists>new. hist' = hist @ new \<and> length new \<le> n \<and> (\<forall>q \<in> set new. ok q))"

lemma sends_only_refl: "sends_only ok n hist hist"
  by (auto simp: sends_only_def)

lemma sends_only_trans: "sends_only ok m h1 h2 \<Longrightarrow> sends_only ok n h2 h3 \<Longrightarrow> sends_only ok (m + n) h1 h3"
  by (fastforce simp: sends_only_def)

lemma sends_only_replicate: "n \<le> m \<Longrightarrow> ok q \<Longrightarrow> sends_only ok m hist (hist @ replicate n q)"
  by (auto simp: sends_only_def)

lemma sends_only_mono: "sends_only ok n h1 h2 \<Longrightarrow> n \<le> m \<Longrightarrow> (\<And>q. ok q \<Longrightarrow> ok' q) \<Longrightarrow> sends_only ok' m h1 h2"
  by (fastforce simp: sends_only_def)

text \<open>The requests to the candidates of a list of endpoints.\<close>

definition candidate_request :: "bootstrap_env \<Rightarrow> string \<Rightarrow> WellKnownEndpoint set \<Rightarrow> http_request \<Rightarrow> bool" where
  "candidate_request env tei eps q \<longleftrightarrow>
     (\<exists>ep \<in> eps. \<exists>serverURL. candidate_url env ep = Some serverURL \<and> q = discover_request (be_token env) serverURL tei)"

lemma tryEndpoints_sends:
  "sends_only (candidate_request env tei (set eps)) (4 * length eps) hist (snd (tryEndpoints env tei i eps errs hist))"
proof (induction eps arbitrary: i errs hist)
  case (Cons ep eps)
  have more: "sends_only (candidate_request env tei (set (ep # eps))) (4 * length eps) h (snd (tryEndpoints env tei j eps errs' h))" for h j errs'
    by (rule sends_only_mono [OF Cons]) (auto simp: candidate_request_def)
  show ?case
  proof (cases "candidate_url env ep")
    case None
    then show ?thesis using sends_only_mono [OF more, of "4 * length (ep # eps)"] by simp
  next
    case (Some serverURL)
    obtain r h1 where t: "try_candidate env i tei serverURL hist = (r, h1)" by force
    obtain n where n: "n \<le> 4" "h1 = hist @ replicate n (discover_request (be_token env) serverURL tei)"
      using retry_sends [OF Discover_sends [of "be_net env" "be_discovery env" serverURL "be_token env" tei]] t
      unfolding try_candidate_def by (metis snd_conv)
    have first: "sends_only (candidate_request env tei (set (ep # eps))) 4 hist h1"
      unfolding n(2) by (rule sends_only_replicate [OF n(1)]) (use Some in \<open>auto simp: candidate_request_def\<close>)
    then have stop: "sends_only (candidate_request env tei (set (ep # eps))) (4 * length (ep # eps)) hist h1"
      by (rule sends_only_mono) simp_all
    have on: "sends_only (candidate_request env tei (set (ep # eps))) (4 * length (ep # eps)) hist (snd (tryEndpoints env tei j eps errs' h1))" for j errs'
      using sends_only_trans [OF first more] by simp
    show ?thesis using Some t stop on by (auto split: sum.splits option.splits)
  qed
qed (simp add: sends_only_refl)

lemma fetchWellKnown_sends:
  "sends_only (\<lambda>q. \<exists>dial. q = wellknown_request dial authority) 4 hist (snd (fetchWellKnown net cancelled decode resolve authority hist))"
proof -
  obtain host port b where r: "resolve authority = (host, port, b)" by (metis prod_cases3)
  let ?url = "''https://'' @ authority @ ''/.well-known/tea''"
  obtain n where n: "n \<le> 4" "snd (retryWithBackoff cancelled (doFetchWellKnown net decode (host, port) ?url) isRetryableError hist)
      = hist @ replicate n (wellknown_request (host, port) authority)"
    using retry_sends [of "doFetchWellKnown net decode (host, port) ?url" "wellknown_request (host, port) authority"] doFetchWellKnown_sends by blast
  have "snd (fetchWellKnown net cancelled decode resolve authority hist) = hist @ replicate n (wellknown_request (host, port) authority)"
    using n(2) by (simp only: fetchWellKnown_def r Let_def prod.case)
  with n(1) show ?thesis by (auto intro: sends_only_replicate)
qed

text \<open>The document a fetch gives was decoded from an answer.\<close>

lemma retry_success:
  assumes "retryWithBackoff cancelled fn sh hist = (Inr x, hist')"
  shows "\<exists>h. fst (fn h) = Inr x"
proof -
  obtain n where "retry_ends sh cancelled (Suc n) (call_result fn n hist) (Inr x)" using retry_bounded [of fn sh hist cancelled] assms by auto
  then show ?thesis by (auto simp: retry_ends_def call_result_def)
qed

lemma fetchWellKnown_decoded:
  assumes "fetchWellKnown net cancelled decode resolve authority hist = (Inr doc, hist')"
  shows "wd_SchemaVersion doc = 1 \<and> wd_Endpoints doc \<noteq> [] \<and> (\<exists>body. decode body = Some doc)"
proof -
  obtain host port b where r: "resolve authority = (host, port, b)" by (metis prod_cases3)
  have "retryWithBackoff cancelled (doFetchWellKnown net decode (host, port) (''https://'' @ authority @ ''/.well-known/tea'')) isRetryableError hist = (Inr doc, hist')"
    using assms by (simp only: fetchWellKnown_def r Let_def prod.case)
  from retry_success [OF this] obtain h where
    "fst (doFetchWellKnown net decode (host, port) (''https://'' @ authority @ ''/.well-known/tea'') h) = Inr doc" by blast
  then show ?thesis
    by (auto simp: doFetchWellKnown_def send_request_def split: sum.splits prod.splits option.splits if_splits)
qed

definition asks_endpoint :: "bootstrap_env \<Rightarrow> WellKnownEndpoint \<Rightarrow> http_request \<Rightarrow> bool" where
  "asks_endpoint env ep q \<longleftrightarrow>
     (\<exists>u version. be_parse env (we_URL ep) = Some u \<and> EqualFold (pu_Scheme u) ''https'' \<and> version \<in> set (we_Versions ep)
        \<and> rq_url q = trimRightSlash (trimRightSlash (we_URL ep) @ ''/v'' @ version) @ ''/discovery'')"

lemma mutualInner_in: "mutualInner cv es best = Some v \<Longrightarrow> v \<in> set es \<or> best = Some v"
proof (induction es arbitrary: best)
  case (Cons e es)
  then show ?case by (fastforce simp: Let_def split: if_splits option.splits)
qed simp

lemma mutualOuter_in: "mutualOuter cs es best = Some v \<Longrightarrow> v \<in> set es \<or> best = Some v"
proof (induction cs arbitrary: best)
  case (Cons c cs)
  then show ?case using mutualInner_in by (fastforce simp: Let_def split: if_splits)
qed simp

lemma candidate_request_asks: "candidate_request env tei eps q \<Longrightarrow> \<exists>ep \<in> eps. asks_endpoint env ep q"
  using mutualOuter_in [of SupportedVersions _ None]
  by (fastforce simp: candidate_request_def candidate_url_def asks_endpoint_def discover_request_def highestMutualVersion_def
      split: option.splits if_splits)

text \<open>
  C36. Bootstrap discovery keeps the bearer token on https and within bounds: whatever the network answers, the flow sends at
  most four requests for the well-known document, over https and without the token, and then at most four to each endpoint the
  document lists, and only to endpoints with an https URL under a version the endpoint advertises.
\<close>

theorem bootstrap_token_contained:
  assumes "BootstrapDiscover env tei hist = (r, hist')"
  shows "\<exists>authority eps fetches asks. hist' = hist @ fetches @ asks \<and> length fetches \<le> 4 \<and> length asks \<le> 4 * length eps
    \<and> (\<forall>q \<in> set fetches. rq_authorization q = None \<and> rq_url q = ''https://'' @ authority @ ''/.well-known/tea'')
    \<and> (\<forall>q \<in> set asks. \<exists>ep \<in> set eps. asks_endpoint env ep q)
    \<and> (eps = [] \<or> (\<exists>body doc. be_wellknown env body = Some doc \<and> wd_Endpoints doc = eps))"
proof (cases "ExtractTEIAuthority (be_parse env) tei")
  case (Inl e)
  then have "hist' = hist" using assms by (simp add: BootstrapDiscover_def)
  then show ?thesis by (intro exI [of _ "[]"]) simp
next
  case authority: (Inr authority)
  obtain x mid where f: "fetchWellKnown (be_net env) (be_cancelled env 0) (be_wellknown env) (be_resolve env) authority hist = (x, mid)" by force
  obtain fetches where fetches: "mid = hist @ fetches" "length fetches \<le> 4"
    "\<forall>q \<in> set fetches. rq_authorization q = None \<and> rq_url q = ''https://'' @ authority @ ''/.well-known/tea''"
    using fetchWellKnown_sends [of authority hist "be_net env" "be_cancelled env 0" "be_wellknown env" "be_resolve env"]
    unfolding f sends_only_def by (fastforce simp: wellknown_request_def)
  show ?thesis
  proof (cases x)
    case (Inl e)
    with assms authority f have "hist' = mid" by (simp add: BootstrapDiscover_def bootstrapDiscoverWithAuthority_def)
    with fetches show ?thesis by (intro exI [of _ authority] exI [of _ "[]"] exI [of _ fetches]) simp
  next
    case (Inr doc)
    let ?eps = "wd_Endpoints doc"
    from assms authority f Inr have "hist' = snd (tryEndpoints env tei 1 (sortEndpointsByPriority ?eps) [] mid)"
      by (simp add: BootstrapDiscover_def bootstrapDiscoverWithAuthority_def)
    then have "sends_only (candidate_request env tei (set ?eps)) (4 * length ?eps) mid hist'"
      using tryEndpoints_sends [of env tei "sortEndpointsByPriority ?eps" mid 1 "[]"] by (simp add: sortEndpointsByPriority_def)
    then obtain asks where "hist' = mid @ asks" "length asks \<le> 4 * length ?eps" "\<forall>q \<in> set asks. \<exists>ep \<in> set ?eps. asks_endpoint env ep q"
      unfolding sends_only_def using candidate_request_asks by blast
    with fetches fetchWellKnown_decoded [OF f [unfolded Inr]] show ?thesis
      by (intro exI [of _ authority] exI [of _ ?eps] exI [of _ fetches] exI [of _ asks]) auto
  qed
qed

section \<open>Failover\<close>

text \<open>On a steady network, one whose answers depend on the request alone, retries change no result.\<close>

definition steady :: "'a client_op \<Rightarrow> bool" where
  "steady fn \<longleftrightarrow> (\<forall>h h'. fst (fn h) = fst (fn h'))"

lemma retry_steady:
  assumes "steady fn" "\<And>k. \<not> cancelled k"
  shows "fst (retryWithBackoff cancelled fn sh hist) = fst (fn h)"
proof -
  obtain n where "retry_ends sh cancelled (Suc n) (call_result fn n hist) (fst (retryWithBackoff cancelled fn sh hist))"
    using retry_bounded [of fn sh hist cancelled] by auto
  with assms show ?thesis by (auto simp: retry_ends_def call_result_def steady_def)
qed

lemma Discover_steady: "steady (Discover (\<lambda>_. server) decode c tei)"
  unfolding steady_def Discover_def discover_def clientDo_def send_request_def
  by (cases "server \<lparr>rq_method = ''GET'', rq_url = cl_baseURL c @ ''/discovery'', rq_query = [(''tei'', tei)], rq_authorization = bearer_header c, rq_dial = None\<rparr>")
    (simp_all split: sum.split option.split)

text \<open>What one candidate contributes: a result, or a reason to stop; \<open>None\<close> when the next one is tried.\<close>

definition decides :: "bootstrap_env \<Rightarrow> string \<Rightarrow> WellKnownEndpoint \<Rightarrow> (bootstrap_error + BootstrapDiscoverResult) option" where
  "decides env tei ep =
     (case candidate_url env ep of
        None \<Rightarrow> None
      | Some serverURL \<Rightarrow>
          (case fst (Discover (be_net env) (be_discovery env) (NewClient serverURL (be_token env)) tei []) of
             Inr info \<Rightarrow> Some (Inr \<lparr>br_ServerURL = serverURL, br_Info = info\<rparr>)
           | Inl err \<Rightarrow> map_option Inl (stops_failover env serverURL err)))"

lemma tryEndpoints_decides:
  assumes "be_net env = (\<lambda>_. server)" "\<And>i k. \<not> be_cancelled env i k"
  shows "\<exists>all_errs. fst (tryEndpoints env tei i eps errs hist) =
     (case find_row (\<lambda>ep. decides env tei ep \<noteq> None) eps of
        Some ep \<Rightarrow> the (decides env tei ep) | None \<Rightarrow> Inl (AllFailed all_errs))"
proof (induction eps arbitrary: i errs hist)
  case Nil
  show ?case by simp
next
  case (Cons ep eps)
  show ?case
  proof (cases "candidate_url env ep")
    case None
    with Cons show ?thesis by (simp add: decides_def)
  next
    case (Some u)
    obtain x h1 where t: "try_candidate env i tei u hist = (x, h1)" by force
    have "fst (try_candidate env i tei u hist) = fst (Discover (be_net env) (be_discovery env) (NewClient u (be_token env)) tei [])"
      unfolding try_candidate_def by (rule retry_steady) (simp_all add: assms Discover_steady)
    with t Some have d: "decides env tei ep =
        (case x of Inr info \<Rightarrow> Some (Inr \<lparr>br_ServerURL = u, br_Info = info\<rparr>) | Inl err \<Rightarrow> map_option Inl (stops_failover env u err))"
      by (simp add: decides_def)
    show ?thesis
    proof (cases "decides env tei ep")
      case None
      with d obtain e where "x = Inl e" "stops_failover env u e = None" by (auto split: sum.splits)
      with Some t None Cons show ?thesis by simp
    next
      case (Some r)
      with t d \<open>candidate_url env ep = Some u\<close> show ?thesis by (auto split: sum.splits option.splits)
    qed
  qed
qed

text \<open>
  The specification. What an endpoint's answer means, read off the HTTP response: it resolves the identifier, it rejects the
  caller (401 or 403), it says with a TEA error that it does not know the identifier (404, JSON, a nonempty error code), or it
  fails, which is everything else: no answer, a body that is too long or cut off, any other status, a result that is empty or
  does not decode.
\<close>

datatype endpoint_answer = Resolves "DiscoveryInfo list" | Rejects int | DoesNotKnow string | Fails

definition endpoint_answer_of :: "bootstrap_env \<Rightarrow> (http_request \<Rightarrow> client_error + http_response) \<Rightarrow> string \<Rightarrow> string \<Rightarrow> endpoint_answer" where
  "endpoint_answer_of env server tei url =
     (case server (discover_request (be_token env) url tei) of
        Inl _ \<Rightarrow> Fails
      | Inr resp \<Rightarrow>
          if length (rs_body resp) > 10 * 2 ^ 20 \<or> \<not> rs_complete resp then Fails
          else if 200 \<le> rs_status resp \<and> rs_status resp \<le> 299
          then (if rs_body resp = [] then Fails
                else case be_discovery env (rs_body resp) of Some (i # is) \<Rightarrow> Resolves (i # is) | _ \<Rightarrow> Fails)
          else if rs_status resp = 401 \<or> rs_status resp = 403 then Rejects (rs_status resp)
          else if rs_status resp = 404
          then (case (be_mediatype env (rs_content_type resp), be_errorOf env (rs_body resp)) of
                  (Some mt, Some (c # cs)) \<Rightarrow> if EqualFold mt ''application/json'' then DoesNotKnow (c # cs) else Fails
                | _ \<Rightarrow> Fails)
          else Fails)"

text \<open>An endpoint that may not be used (no https, no common version) fails. The priority is 1 where the document gives none.\<close>

definition answer_of :: "bootstrap_env \<Rightarrow> (http_request \<Rightarrow> client_error + http_response) \<Rightarrow> string \<Rightarrow> WellKnownEndpoint \<Rightarrow> endpoint_answer" where
  "answer_of env server tei ep = (case candidate_url env ep of None \<Rightarrow> Fails | Some url \<Rightarrow> endpoint_answer_of env server tei url)"

definition rank :: "WellKnownEndpoint \<Rightarrow> real" where
  "rank ep = (if we_Priority ep = None then 1 else the (we_Priority ep))"

text \<open>How the caller is told.\<close>

fun reported :: "string \<Rightarrow> endpoint_answer \<Rightarrow> (bootstrap_error + BootstrapDiscoverResult) \<Rightarrow> bool" where
  "reported url (Resolves info) r \<longleftrightarrow> r = Inr \<lparr>br_ServerURL = url, br_Info = info\<rparr>"
| "reported url (Rejects status) r \<longleftrightarrow> (\<exists>a. r = Inl (AuthenticationStopped url (ClientAPIError a)) \<and> ae_StatusCode a = status)"
| "reported url (DoesNotKnow code) r \<longleftrightarrow> r = Inl (NotResolved url code)"
| "reported url Fails r \<longleftrightarrow> False"

lemma endpoint_answer_decides:
  fixes url tei :: string
  assumes "be_net env = (\<lambda>_. server)" and "\<And>q a. server q \<noteq> Inl (ClientAPIError a)"
  defines "x \<equiv> fst (Discover (be_net env) (be_discovery env) (NewClient url (be_token env)) tei [])"
  shows "case endpoint_answer_of env server tei url of
      Resolves info \<Rightarrow> x = Inr info
    | Rejects status \<Rightarrow> (\<exists>a. x = Inl (ClientAPIError a) \<and> ae_StatusCode a = status \<and> (status = 401 \<or> status = 403))
    | DoesNotKnow code \<Rightarrow> (\<exists>a. x = Inl (ClientAPIError a) \<and> ae_StatusCode a = 404
        \<and> TEAErrorCode (be_mediatype env) (be_errorOf env) (ClientAPIError a) = Some code)
    | Fails \<Rightarrow> (\<exists>e. x = Inl e \<and> stops_failover env url e = None)"
proof -
  let ?q = "discover_request (be_token env) url tei"
  have req: "\<lparr>rq_method = ''GET'', rq_url = cl_baseURL (NewClient url (be_token env)) @ ''/discovery'', rq_query = [(''tei'', tei)],
      rq_authorization = bearer_header (NewClient url (be_token env)), rq_dial = None\<rparr> = ?q"
    by (simp add: discover_request_def NewClient_def bearer_header_def)
  note flow = x_def [unfolded Discover_def discover_def clientDo_def send_request_def req assms(1)]
  note errs = stops_failover_def IsUnauthorized_def IsForbidden_def IsNotFound_def hasStatus_def
  show ?thesis
  proof (cases "server ?q")
    case (Inl e)
    with assms(2) have "stops_failover env url e = None" by (cases e) (auto simp: errs TEAErrorCode_def)
    with Inl show ?thesis using flow by (simp add: endpoint_answer_of_def)
  next
    case (Inr resp)
    show ?thesis
    proof (cases "readBody resp")
      case (Inl e)
      with Inr flow show ?thesis
        by (auto simp: endpoint_answer_of_def readBody_def maxResponseBody_def errs TEAErrorCode_def split: if_splits)
    next
      case body: (Inr body)
      then have fits: "\<not> (length (rs_body resp) > 10 * 2 ^ 20 \<or> \<not> rs_complete resp)" "body = rs_body resp"
        by (auto simp: readBody_def maxResponseBody_def split: if_splits)
      show ?thesis
      proof (cases "is_success resp")
        case True
        then have ok: "200 \<le> rs_status resp \<and> rs_status resp \<le> 299" by (auto simp: is_success_def)
        show ?thesis using flow Inr body True ok fits unfolding endpoint_answer_of_def
          by (cases "rs_body resp = []"; cases "be_discovery env (rs_body resp)")
             (auto simp: errs TEAErrorCode_def split: list.splits)
      next
        case False
        then have "\<not> (200 \<le> rs_status resp \<and> rs_status resp \<le> 299)" by (auto simp: is_success_def)
        moreover have "x = Inl (apiError resp (rs_body resp))" using flow Inr body False fits by simp
        ultimately show ?thesis using Inr fits unfolding endpoint_answer_of_def
          by (cases "be_mediatype env (rs_content_type resp)"; cases "be_errorOf env (rs_body resp)")
             (auto simp: apiError_def errs TEAErrorCode_def split: list.splits)
      qed
    qed
  qed
qed

lemma decides_answer:
  assumes "be_net env = (\<lambda>_. server)" and "\<And>q a. server q \<noteq> Inl (ClientAPIError a)"
  shows "if answer_of env server tei ep = Fails then decides env tei ep = None
    else \<exists>url r. candidate_url env ep = Some url \<and> decides env tei ep = Some r \<and> reported url (answer_of env server tei ep) r"
proof (cases "candidate_url env ep")
  case None
  then show ?thesis by (simp add: answer_of_def decides_def)
next
  case (Some url)
  with endpoint_answer_decides [OF assms, of url tei] show ?thesis
    by (cases "endpoint_answer_of env server tei url")
       (auto simp: answer_of_def decides_def stops_failover_def IsUnauthorized_def IsForbidden_def IsNotFound_def hasStatus_def)
qed

text \<open>The first row of a stable sort that has a property: every other one with it has a larger key, or the same key and comes later.\<close>

lemma first_by_key:
  assumes "find_row P (sort_key f xs) = Some x"
  shows "P x \<and> (\<exists>before after. xs = before @ x # after
     \<and> (\<forall>y \<in> set before. P y \<longrightarrow> f x < f y) \<and> (\<forall>y \<in> set after. P y \<longrightarrow> f x \<le> f y))"
proof -
  define ys where "ys = sort_key f (filter P xs)"
  have find: "find_row P zs = (case filter P zs of [] \<Rightarrow> None | z # _ \<Rightarrow> Some z)" for zs
    by (induction zs) auto
  from assms obtain rest where ys: "ys = x # rest" unfolding find filter_sort ys_def by (auto split: list.splits)
  have set: "{y \<in> set xs. P y} = set (x # rest)" using arg_cong [OF ys, of set] by (simp add: ys_def)
  have "sorted (map f ys)" unfolding ys_def by simp
  then have "\<forall>y \<in> set (x # rest). f x \<le> f y" unfolding ys by simp
  with set have least: "\<forall>y \<in> set xs. P y \<longrightarrow> f x \<le> f y" by blast
  have "filter (\<lambda>y. f y = f x) (filter P xs) = filter (\<lambda>y. f y = f x) ys"
    unfolding ys_def by (rule sort_key_stable [symmetric])
  then have "filter (\<lambda>y. f y = f x \<and> P y) xs = x # filter (\<lambda>y. f y = f x) rest"
    by (simp add: ys conj_commute)
  then obtain before after where "xs = before @ x # after" "\<forall>y \<in> set before. \<not> (f y = f x \<and> P y)" "P x"
    unfolding filter_eq_Cons_iff by blast
  with least show ?thesis by fastforce
qed


section \<open>Redirects keep the credentials at home\<close>

lemma same_origin_refl: "same_origin a a"
  by (simp add: same_origin_def EqualFold_def)

theorem redirects_contained:
  assumes "(u, Some header) \<in> set (follow_redirects keeps auth [(start, auth)] targets)"
  shows "same_origin start u \<and> length (follow_redirects keeps auth [(start, auth)] targets) \<le> 10"
proof -
  have "(\<forall>q \<in> set (follow_redirects keeps auth via targets). snd q \<noteq> None \<longrightarrow> same_origin start (fst q))
      \<and> length (follow_redirects keeps auth via targets) \<le> 10"
    if "\<forall>q \<in> set via. snd q \<noteq> None \<longrightarrow> same_origin start (fst q)" "via \<noteq> []" "fst (hd via) = start" "length via \<le> 10" for via
    using that
  proof (induction targets arbitrary: via)
    case (Cons t ts)
    define a where "a = (if same_origin start t then if keeps t then auth else None else None)"
    have "crossOriginCheckRedirect via (t, if keeps t then auth else None) =
        (if length via \<ge> 10 then Inl (ClientOther ''teaclient: stopped after 10 redirects'') else Inr (t, a))"
      using Cons.prems(3) by (simp add: crossOriginCheckRedirect_def a_def)
    moreover have "a \<noteq> None \<longrightarrow> same_origin start t" by (simp add: a_def)
    ultimately show ?case using Cons.prems Cons.IH [of "via @ [(t, a)]"] by auto
  qed simp
  from this [of "[(start, auth)]"] assms show ?thesis by (force simp: same_origin_refl)
qed

section \<open>Verified downloads\<close>

lemma newChecksumHashers_eq:
  "newChecksumHashers digest checksums =
     (if \<forall>c \<in> set checksums. AlgType c \<in> set supportedAlgorithms then Inr (map (\<lambda>c. (c, digest (AlgType c))) checksums)
      else Inl (ClientOther ''unsupported checksum algorithm''))"
  by (induction checksums) (simp_all add: newChecksumHashers_def newHasher_def)

lemma mapE_hashers:
  "newChecksumHashers digest checksums = Inr hs \<longleftrightarrow>
     (\<forall>c \<in> set checksums. AlgType c \<in> set supportedAlgorithms) \<and> hs = map (\<lambda>c. (c, digest (AlgType c))) checksums"
  by (auto simp: newChecksumHashers_eq)


section \<open>Examples\<close>

text \<open>Three endpoints: one without https, one that answers, and one that is down.\<close>

definition ok_response :: "string \<Rightarrow> http_response" where
  "ok_response body = \<lparr>rs_status = 200, rs_content_type = ''application/json'', rs_body = body, rs_complete = True\<rparr>"

definition demo_server :: "http_request \<Rightarrow> client_error + http_response" where
  "demo_server q =
     (if rq_url q = ''https://ex/.well-known/tea'' then Inr (ok_response ''doc'')
      else if rq_url q = ''https://b/v1.0.0/discovery'' then Inr (ok_response ''found'')
      else Inr \<lparr>rs_status = 503, rs_content_type = [], rs_body = [], rs_complete = True\<rparr>)"

definition demo_doc :: WellKnownDocument where
  "demo_doc = \<lparr>wd_SchemaVersion = 1, wd_Endpoints =
     [\<lparr>we_URL = ''http://a'', we_Versions = [''1.0.0''], we_Priority = Some 3\<rparr>,
      \<lparr>we_URL = ''https://b/'', we_Versions = [''1.0.0''], we_Priority = None\<rparr>,
      \<lparr>we_URL = ''https://c'', we_Versions = [''1.0.0''], we_Priority = Some 2\<rparr>]\<rparr>"

definition demo_info :: "DiscoveryInfo list" where
  "demo_info = [\<lparr>di_ProductReleaseUUID = ''pr1'', di_Servers = []\<rparr>]"

definition demo_env :: bootstrap_env where
  "demo_env =
     \<lparr>be_net = (\<lambda>_. demo_server), be_cancelled = (\<lambda>_ _. False), be_wellknown = (\<lambda>b. if b = ''doc'' then Some demo_doc else None),
      be_discovery = (\<lambda>b. if b = ''found'' then Some demo_info else None),
      be_parse = (\<lambda>u. Some (if u = ''tei://ex/p'' then \<lparr>pu_Scheme = ''tei'', pu_Host = ''ex'', pu_Port = []\<rparr>
        else if take 5 u = ''https'' then \<lparr>pu_Scheme = ''https'', pu_Host = ''h'', pu_Port = []\<rparr>
        else \<lparr>pu_Scheme = ''http'', pu_Host = ''h'', pu_Port = []\<rparr>)),
      be_mediatype = Some, be_errorOf = (\<lambda>_. None), be_resolve = (\<lambda>a. (a, 443, False)), be_token = ''secret''\<rparr>"

lemma demo_authority: "ExtractTEIAuthority (be_parse demo_env) ''tei://ex/p'' = Inr ''ex''"
  by (simp add: ExtractTEIAuthority_def demo_env_def)

lemma demo_fetch:
  "fetchWellKnown (be_net demo_env) (be_cancelled demo_env 0) (be_wellknown demo_env) (be_resolve demo_env) ''ex'' [] =
     (Inr demo_doc, [wellknown_request (''ex'', 443) ''ex''])"
  by (simp add: fetchWellKnown_def demo_env_def retryWithBackoff_def retry_from.simps doFetchWellKnown_def send_request_def demo_server_def
      ok_response_def readBody_def maxResponseBody_def is_success_def demo_doc_def wellknown_request_def)

text \<open>
  A mirror with the lowest priority that would resolve the identifier, a plain http endpoint, one that is down, and one of default
  priority that rejects the caller, which is what discovery reports.
\<close>

definition strict_server :: "http_request \<Rightarrow> client_error + http_response" where
  "strict_server q =
     (if rq_url q = ''https://ex/.well-known/tea'' then Inr (ok_response ''doc'')
      else if rq_url q = ''https://mirror/v1.0.0/discovery'' then Inr (ok_response ''found'')
      else Inr \<lparr>rs_status = (if rq_url q = ''https://main/v1.0.0/discovery'' then 403 else 503), rs_content_type = [], rs_body = [], rs_complete = True\<rparr>)"

definition endpoint_at :: "string \<Rightarrow> real option \<Rightarrow> WellKnownEndpoint" where
  "endpoint_at url priority = \<lparr>we_URL = url, we_Versions = [''1.0.0''], we_Priority = priority\<rparr>"

definition strict_doc :: WellKnownDocument where
  "strict_doc = \<lparr>wd_SchemaVersion = 1, wd_Endpoints =
     [endpoint_at ''https://mirror'' (Some (1/2)), endpoint_at ''http://plain'' (Some 3), endpoint_at ''https://down'' (Some 2),
      endpoint_at ''https://main/'' None]\<rparr>"

definition strict_env :: bootstrap_env where
  "strict_env = demo_env\<lparr>be_net := (\<lambda>_. strict_server), be_wellknown := (\<lambda>b. if b = ''doc'' then Some strict_doc else None)\<rparr>"

lemma strict_fetch:
  "fetchWellKnown (be_net strict_env) (be_cancelled strict_env 0) (be_wellknown strict_env) (be_resolve strict_env) ''ex'' [] =
     (Inr strict_doc, [wellknown_request (''ex'', 443) ''ex''])"
  by (simp add: fetchWellKnown_def strict_env_def demo_env_def retryWithBackoff_def retry_from.simps doFetchWellKnown_def send_request_def
      strict_server_def ok_response_def readBody_def maxResponseBody_def is_success_def strict_doc_def wellknown_request_def)

lemma demo_version: "highestMutualVersion SupportedVersions [''1.0.0''] = Some ''1.0.0''"
  by code_simp

lemma strict_urls:
  "candidate_url strict_env (endpoint_at ''https://mirror'' p) = Some ''https://mirror/v1.0.0''"
  "candidate_url strict_env (endpoint_at ''http://plain'' p) = None"
  "candidate_url strict_env (endpoint_at ''https://down'' p) = Some ''https://down/v1.0.0''"
  "candidate_url strict_env (endpoint_at ''https://main/'' p) = Some ''https://main/v1.0.0''"
proof -
  have "EqualFold ''https'' ''https''" "\<not> EqualFold ''http'' ''https''" by (simp_all add: EqualFold_def)
  then show "candidate_url strict_env (endpoint_at ''https://mirror'' p) = Some ''https://mirror/v1.0.0''"
    "candidate_url strict_env (endpoint_at ''http://plain'' p) = None"
    "candidate_url strict_env (endpoint_at ''https://down'' p) = Some ''https://down/v1.0.0''"
    "candidate_url strict_env (endpoint_at ''https://main/'' p) = Some ''https://main/v1.0.0''"
    by (simp_all add: candidate_url_def strict_env_def demo_env_def endpoint_at_def demo_version trimRightSlash_def)
qed

lemma rank_at: "rank (endpoint_at url p) = (case p of None \<Rightarrow> 1 | Some q \<Rightarrow> q)"
  by (simp add: rank_def endpoint_at_def split: option.split)

lemma strict_answers:
  "answer_of strict_env strict_server t (endpoint_at ''https://mirror'' p) = Resolves demo_info"
  "answer_of strict_env strict_server t (endpoint_at ''http://plain'' p) = Fails"
  "answer_of strict_env strict_server t (endpoint_at ''https://down'' p) = Fails"
  "answer_of strict_env strict_server t (endpoint_at ''https://main/'' p) = Rejects 403"
  unfolding answer_of_def strict_urls
  by (simp_all add: endpoint_answer_of_def discover_request_def trimRightSlash_def strict_server_def ok_response_def demo_info_def
      strict_env_def demo_env_def)


theorem bootstrap_token_contained_witness:
  "\<exists>r hist' authority eps fetches asks. BootstrapDiscover demo_env ''tei://ex/p'' [] = (r, hist') \<and> hist' = fetches @ asks
     \<and> length fetches \<le> 4 \<and> length asks \<le> 4 * length eps \<and> list_all (\<lambda>q. list_ex (\<lambda>ep. asks_endpoint demo_env ep q) eps) asks
     \<and> list_all (\<lambda>q. rq_url q = ''https://'' @ authority @ ''/.well-known/tea'') fetches"
proof -
  obtain r hist' where b: "BootstrapDiscover demo_env ''tei://ex/p'' [] = (r, hist')" by force
  from bootstrap_token_contained [OF b] b show ?thesis by (simp add: list_all_iff list_ex_iff) blast
qed

text \<open>A download with one checksum; a digest that gives the bytes themselves stands in for the algorithms.\<close>

definition demo_format :: ArtifactFormat where
  "demo_format = \<lparr>fmt_MediaType = ''text/plain'', fmt_Description = [], fmt_URL = [], fmt_SignatureURL = [],
     fmt_Checksums = [\<lparr>AlgType = ''SHA-256'', AlgValue = ''666F''\<rparr>], fmt_EvidenceBundle = None, fmt_EvidenceBundleRef = None\<rparr>"


text \<open>An error body whose code is empty is not taken for a TEA error, so a 404 with it fails over.\<close>

lemma empty_code_is_no_TEA_error: "errorOf body = Some [] \<Longrightarrow>
    TEAErrorCode mt errorOf (ClientAPIError \<lparr>ae_StatusCode = 404, ae_ContentType = ct, ae_Body = body\<rparr>) = None"
  by (auto simp: TEAErrorCode_def split: option.splits)

end
