(* ===== verification/Discovery.thy ===== *)
theory Discovery
  imports Teaclient
begin

text \<open>
  Discovery on the server (\<open>internal/api/discovery.go\<close>, \<open>internal/repo/discovery.go\<close>) and the client and the server
  together: what \<open>teaclient\<close> learns from this server's discovery and list endpoints over HTTP.
\<close>

section \<open>The lookup and the handler\<close>

definition carries :: "string \<Rightarrow> string \<Rightarrow> identifier_row \<Rightarrow> bool" where
  "carries idType v i \<longleftrightarrow> idr_owner_type i = OwnerProductRelease \<and> idr_type i = idType \<and> idr_value i = v"

definition FindProductReleaseUUIDByTEI :: "db \<Rightarrow> string \<Rightarrow> repo_error + uuid" where
  "FindProductReleaseUUIDByTEI s tei =
     (case find_row (carries ''TEI'' tei) (tbl_identifier s) of None \<Rightarrow> Inl ErrNotFound | Some i \<Rightarrow> Inr (idr_owner i))"

definition FindProductReleaseUUIDByPURL :: "db \<Rightarrow> string \<Rightarrow> repo_error + uuid" where
  "FindProductReleaseUUIDByPURL s packageURL =
     (case find_row (carries ''PURL'' packageURL) (tbl_identifier s) of None \<Rightarrow> Inl ErrNotFound | Some i \<Rightarrow> Inr (idr_owner i))"

abbreviation CapReleaseDiscover :: Capability where "CapReleaseDiscover \<equiv> ''release.discover''"

text \<open>\<open>rootURL\<close> and \<open>versions\<close> are those of the server's configuration; the answer carries no cache headers.\<close>

definition discovery :: "string \<Rightarrow> string list \<Rightarrow> db \<Rightarrow> web_request \<Rightarrow> DiscoveryInfo list response" where
  "discovery rootURL versions s r =
     (let tei = req_query (web_params r) ''tei''; packageURL = req_query (web_params r) ''purl'' in
      if tei = [] \<and> packageURL = [] then BadRequestTyped ''exactly one of the tei or purl query parameters is required''
      else if tei \<noteq> [] \<and> packageURL \<noteq> [] then BadRequestTyped ''tei and purl query parameters are mutually exclusive''
      else fetched (if tei \<noteq> [] then FindProductReleaseUUIDByTEI s tei else FindProductReleaseUUIDByPURL s packageURL) (\<lambda>u.
           authorize s r CapReleaseDiscover (no_resource\<lparr>ProductReleaseUUID := u\<rparr>)
             (OK [] [] [\<lparr>di_ProductReleaseUUID = u, di_Servers = [\<lparr>si_RootURL = rootURL, si_Versions = versions, si_Priority = None\<rparr>]\<rparr>])))"

section \<open>What discovery answers\<close>

text \<open>The request for one identifier of a kind, the other parameter being absent.\<close>

definition looks_up :: "string \<Rightarrow> string \<Rightarrow> web_request \<Rightarrow> bool" where
  "looks_up idType v r \<longleftrightarrow> v \<noteq> []
     \<and> (idType = ''TEI'' \<and> req_query (web_params r) ''tei'' = v \<and> req_query (web_params r) ''purl'' = []
        \<or> idType = ''PURL'' \<and> req_query (web_params r) ''purl'' = v \<and> req_query (web_params r) ''tei'' = [])"

definition server_info :: "string \<Rightarrow> string list \<Rightarrow> uuid \<Rightarrow> DiscoveryInfo list" where
  "server_info rootURL versions u = [\<lparr>di_ProductReleaseUUID = u, di_Servers = [\<lparr>si_RootURL = rootURL, si_Versions = versions, si_Priority = None\<rparr>]\<rparr>]"

definition live_release :: "db \<Rightarrow> uuid \<Rightarrow> bool" where
  "live_release s u \<longleftrightarrow> u \<noteq> [] \<and> u \<in> rl_uuid ` set (tbl_product_release s)"

lemma discovery_cases:
  assumes "looks_up idType v r"
  shows "discovery rootURL versions s r =
     (case find_row (carries idType v) (tbl_identifier s) of
        None \<Rightarrow> NotFound
      | Some i \<Rightarrow> authorize s r CapReleaseDiscover (no_resource\<lparr>ProductReleaseUUID := idr_owner i\<rparr>) (OK [] [] (server_info rootURL versions (idr_owner i))))"
  using assms
  by (auto simp: looks_up_def discovery_def FindProductReleaseUUIDByTEI_def FindProductReleaseUUIDByPURL_def fetched_def server_info_def Let_def
      split: option.splits)

text \<open>The verdict on an identifier, in terms of the policy.\<close>

lemma discovery_verdict:
  assumes "looks_up idType v r" and "\<forall>i. find_row (carries idType v) (tbl_identifier s) = Some i \<longrightarrow> live_release s (idr_owner i)"
  shows "discovery rootURL versions s r =
     (case find_row (carries idType v) (tbl_identifier s) of
        None \<Rightarrow> NotFound
      | Some i \<Rightarrow> if may s r CapReleaseDiscover (no_resource\<lparr>ProductReleaseUUID := idr_owner i\<rparr>)
                  then OK [] [] (server_info rootURL versions (idr_owner i)) else writeAuthzDenial r)"
  using assms
  by (auto simp: discovery_cases [OF assms(1)] authorize_def decide_release live_release_def split: option.splits)

section \<open>Responses on the wire (\<open>httpx/respond.go\<close>)\<close>

text \<open>
  The JSON of an error body with a given code, whatever its message, and of a body with a message alone. A header that goes
  with a status is not part of what the client reads.
\<close>

record encoders =
  en_error :: "string \<Rightarrow> string"
  en_message :: "string \<Rightarrow> string"

definition WriteJSON :: "int \<Rightarrow> string \<Rightarrow> http_response" where
  "WriteJSON status body = \<lparr>rs_status = status, rs_content_type = ''application/json'', rs_body = body, rs_complete = True\<rparr>"

definition writeBadRequestTyped :: "encoders \<Rightarrow> string \<Rightarrow> http_response" where
  "writeBadRequestTyped en errType = WriteJSON 400 (en_error en errType)"

definition writeNotFound :: "encoders \<Rightarrow> http_response" where
  "writeNotFound en = WriteJSON 404 (en_error en ''OBJECT_UNKNOWN'')"

definition writeUnauthorizedBearer :: "encoders \<Rightarrow> string \<Rightarrow> http_response" where
  "writeUnauthorizedBearer en message = WriteJSON 401 (en_message en message)"

definition writeInternalError :: "encoders \<Rightarrow> http_response" where
  "writeInternalError en = WriteJSON 500 (en_message en ''internal server error'')"

lemmas respond_defs = WriteJSON_def writeBadRequestTyped_def writeNotFound_def writeUnauthorizedBearer_def writeInternalError_def

definition writeResponse :: "('a \<Rightarrow> string) \<Rightarrow> encoders \<Rightarrow> 'a response \<Rightarrow> http_response" where
  "writeResponse encode en resp =
     (case resp of
        OK _ _ x \<Rightarrow> WriteJSON 200 (encode x)
      | NotModified _ _ \<Rightarrow> \<lparr>rs_status = 304, rs_content_type = [], rs_body = [], rs_complete = True\<rparr>
      | BadRequestTyped _ \<Rightarrow> writeBadRequestTyped en ''INVALID_REQUEST''
      | InvalidPage e \<Rightarrow> writeBadRequestTyped en
          (if e = MalformedToken \<or> e = TokenSortMismatch \<or> e = TokenScopeMismatch then ''INVALID_PAGE_TOKEN'' else ''INVALID_REQUEST'')
      | NotFound \<Rightarrow> writeNotFound en
      | UnauthorizedBearer _ \<Rightarrow> writeUnauthorizedBearer en []
      | InternalError _ \<Rightarrow> writeInternalError en)"

text \<open>
  This server as a network for the discovery endpoint under a base URL: \<open>who\<close> is the authentication middleware, which turns the
  header into a caller and the mark of an invalid token.
\<close>

definition received :: "(string option \<Rightarrow> Principal \<times> bool) \<Rightarrow> time \<Rightarrow> http_request \<Rightarrow> web_request" where
  "received who now q =
     \<lparr>web_params = \<lparr>req_path = (\<lambda>_. []), req_query = (\<lambda>k. case map_of (rq_query q) k of None \<Rightarrow> [] | Some v \<Rightarrow> v)\<rparr>,
      web_token = None, web_principal = fst (who (rq_authorization q)), web_invalid_bearer = snd (who (rq_authorization q)),
      web_if_none_match = [], web_now = now\<rparr>"

definition discovery_server ::
  "(DiscoveryInfo list \<Rightarrow> string) \<Rightarrow> encoders \<Rightarrow> (string option \<Rightarrow> Principal \<times> bool) \<Rightarrow> string \<Rightarrow> string list \<Rightarrow> string \<Rightarrow> db \<Rightarrow> time \<Rightarrow> network" where
  "discovery_server encode en who rootURL versions baseURL s now hist q =
     (if rq_url q = baseURL @ ''/discovery''
      then Inr (writeResponse encode en (discovery rootURL versions s (received who now q)))
      else Inl (TransportError ''no route''))"

section \<open>Client and server together\<close>

text \<open>What the JSON of the server must do for the client: a result reads back, is not empty and fits; error codes can be read.\<close>

record codecs =
  co_mediatype :: "string \<Rightarrow> string option"
  co_errorOf :: "string \<Rightarrow> string option"

definition fits :: "string \<Rightarrow> bool" where "fits body \<longleftrightarrow> length body \<le> maxResponseBody"

definition reads_back :: "('a \<Rightarrow> string) \<Rightarrow> (string \<Rightarrow> 'a option) \<Rightarrow> 'a \<Rightarrow> bool" where
  "reads_back encode decode x \<longleftrightarrow> decode (encode x) = Some x \<and> encode x \<noteq> [] \<and> fits (encode x)"

definition errors_agree :: "encoders \<Rightarrow> codecs \<Rightarrow> bool" where
  "errors_agree en c \<longleftrightarrow> fits (en_error en ''OBJECT_UNKNOWN'') \<and> fits (en_message en [])
     \<and> co_errorOf c (en_error en ''OBJECT_UNKNOWN'') = Some ''OBJECT_UNKNOWN'' \<and> co_mediatype c ''application/json'' = Some ''application/json''"

definition unknown_error :: "encoders \<Rightarrow> client_error" where
  "unknown_error en = ClientAPIError \<lparr>ae_StatusCode = 404, ae_ContentType = ''application/json'', ae_Body = en_error en ''OBJECT_UNKNOWN''\<rparr>"

definition unauthorized_error :: "encoders \<Rightarrow> client_error" where
  "unauthorized_error en = ClientAPIError \<lparr>ae_StatusCode = 401, ae_ContentType = ''application/json'', ae_Body = en_message en []\<rparr>"

lemma unknown_error_class:
  assumes "errors_agree en c"
  shows "IsNotFound (unknown_error en)" "TEAErrorCode (co_mediatype c) (co_errorOf c) (unknown_error en) = Some ''OBJECT_UNKNOWN''"
  using assms by (simp_all add: unknown_error_def IsNotFound_def hasStatus_def TEAErrorCode_def errors_agree_def EqualFold_def)

lemma unauthorized_error_class: "IsUnauthorized (unauthorized_error en)"
  by (simp add: unauthorized_error_def IsUnauthorized_def hasStatus_def)

text \<open>The answer of a handler, as the client's \<open>do\<close> hands it on.\<close>

definition client_result :: "encoders \<Rightarrow> 'a response \<Rightarrow> client_error + 'a" where
  "client_result en resp =
     (case resp of
        OK _ _ x \<Rightarrow> Inr x
      | NotFound \<Rightarrow> Inl (unknown_error en)
      | UnauthorizedBearer _ \<Rightarrow> Inl (unauthorized_error en)
      | _ \<Rightarrow> (let w = writeResponse (\<lambda>_. []) en resp in Inl (apiError w (rs_body w))))"

lemma clientDo_result:
  assumes "net hist \<lparr>rq_method = ''GET'', rq_url = cl_baseURL c @ path, rq_query = query, rq_authorization = bearer_header c, rq_dial = None\<rparr> =
       Inr (writeResponse encode en resp)"
    and "fits (rs_body (writeResponse encode en resp))" and "\<forall>etag cc x. resp = OK etag cc x \<longrightarrow> reads_back encode decode x"
  shows "fst (clientDo net decode zero c ''GET'' path query hist) = client_result en resp"
  using assms
  by (cases resp)
     (simp_all add: clientDo_def send_request_def client_result_def writeResponse_def respond_defs readBody_def is_success_def reads_back_def
       fits_def not_less apiError_def unknown_error_def unauthorized_error_def Let_def)

lemma Discover_result:
  assumes "net hist (discover_request token serverURL tei) = Inr (writeResponse encode en resp)"
    and "fits (rs_body (writeResponse encode en resp))" and "\<forall>etag cc x. resp = OK etag cc x \<longrightarrow> reads_back encode decode x"
  shows "fst (Discover net decode (NewClient serverURL token) tei hist) =
    (case client_result en resp of Inl e \<Rightarrow> Inl e | Inr out \<Rightarrow> if length out = 0 then Inl (ClientOther ''empty result'') else Inr out)"
proof -
  have "bearer_header (NewClient serverURL token) = (if token = [] then None else Some (''Bearer '' @ token))"
    "cl_baseURL (NewClient serverURL token) = trimRightSlash serverURL"
    by (simp_all add: bearer_header_def NewClient_def)
  with clientDo_result [of net hist "NewClient serverURL token" "''/discovery''" "[(''tei'', tei)]" encode en resp decode "[]"] assms
  show ?thesis by (auto simp: Discover_def discover_def discover_request_def split: prod.splits sum.splits)
qed

text \<open>
  C35. Discovery end to end, for a TEI that nothing carries or that a release carries which still exists: a client that looks it up
  at this server, over any JSON encoding that reads back, gets that release and the server's address if the policy lets the caller
  discover the release. If it does not, an authenticated caller gets exactly the error of a TEI the server does not know, a 404 with
  the code OBJECT_UNKNOWN, and an anonymous caller gets a 401. (A TEI left behind by a deleted release is answered with a 500, see
  \<open>deleted_product_breaks_discovery\<close>.)
\<close>

theorem client_discovers:
  assumes "tei \<noteq> []" and "\<forall>i. find_row (carries ''TEI'' tei) (tbl_identifier s) = Some i \<longrightarrow>
           live_release s (idr_owner i) \<and> reads_back encode decode (server_info rootURL versions (idr_owner i))"
    and "errors_agree en c" and "r = received who now (discover_request token serverURL tei)"
    and "x = fst (Discover (discovery_server encode en who rootURL versions (trimRightSlash serverURL) s now)
           decode (NewClient serverURL token) tei hist)"
  shows "case find_row (carries ''TEI'' tei) (tbl_identifier s) of
      None \<Rightarrow> \<exists>e. x = Inl e \<and> IsNotFound e \<and> TEAErrorCode (co_mediatype c) (co_errorOf c) e = Some ''OBJECT_UNKNOWN'' \<and> e = unknown_error en
    | Some i \<Rightarrow>
        if may s r CapReleaseDiscover (no_resource\<lparr>ProductReleaseUUID := idr_owner i\<rparr>) then x = Inr (server_info rootURL versions (idr_owner i))
        else if IsAuthenticated (web_principal r) then x = Inl (unknown_error en)
        else \<exists>e. x = Inl e \<and> IsUnauthorized e"
proof -
  let ?resp = "discovery rootURL versions s r"
  have lk: "looks_up ''TEI'' tei r" using assms(1,4) by (simp add: looks_up_def received_def discover_request_def)
  have "\<forall>i. find_row (carries ''TEI'' tei) (tbl_identifier s) = Some i \<longrightarrow> live_release s (idr_owner i)" using assms(2) by simp
  note verdict = discovery_verdict [OF lk this, of rootURL versions]
  have ok: "reads_back encode decode info" if "?resp = OK etag cc info" for etag cc info
    using verdict that assms(2) by (auto simp: writeAuthzDenial_def split: option.splits if_splits)
  have fit: "fits (rs_body (writeResponse encode en ?resp))"
    using verdict ok assms(3)
    by (auto simp: writeAuthzDenial_def writeResponse_def respond_defs errors_agree_def reads_back_def split: option.splits if_splits)
  have "x = (case client_result en ?resp of Inl e \<Rightarrow> Inl e | Inr out \<Rightarrow> if length out = 0 then Inl (ClientOther ''empty result'') else Inr out)"
    unfolding assms(5)
    by (rule Discover_result [where encode = encode, OF _ fit]) (use ok assms(4) in \<open>auto simp: discovery_server_def discover_request_def\<close>)
  with verdict unknown_error_class [OF assms(3)] unauthorized_error_class [of en] show ?thesis
    by (auto simp: client_result_def writeAuthzDenial_def server_info_def split: option.splits if_splits)
qed

section \<open>A single product, end to end\<close>

text \<open>The product endpoint under a base URL.\<close>

definition product_server ::
  "(Product \<Rightarrow> string) \<Rightarrow> encoders \<Rightarrow> (string option \<Rightarrow> Principal \<times> bool) \<Rightarrow> string \<Rightarrow> uuid \<Rightarrow> db \<Rightarrow> time \<Rightarrow> network" where
  "product_server encode en who baseURL u s now hist q =
     (if rq_url q = baseURL @ ''/product/'' @ u
      then Inr (writeResponse encode en (getProduct s (let r = received who now q in r\<lparr>web_params := (web_params r)\<lparr>req_path := (\<lambda>_. u)\<rparr>\<rparr>)))
      else Inl (TransportError ''no route''))"

definition client_GetProduct where "client_GetProduct net decode zero c u = clientDo net decode zero c ''GET'' (''/product/'' @ u) []"

text \<open>
  Fetching a product as a client: it gets the product exactly if the product exists and the policy lets the caller read it. An
  unknown product and one an authenticated caller may not read give the same error.
\<close>

theorem client_reads_product:
  assumes "Valid u" and "errors_agree en c" and "\<forall>p. getProductTx s u = Inr p \<longrightarrow> reads_back encode decode p"
    and "caller = fst (who (bearer_header (NewClient serverURL token)))"
    and "r = \<lparr>web_params = \<lparr>req_path = (\<lambda>_. u), req_query = (\<lambda>_. [])\<rparr>, web_token = None, web_principal = caller,
           web_invalid_bearer = snd (who (bearer_header (NewClient serverURL token))), web_if_none_match = [], web_now = now\<rparr>"
    and "x = fst (client_GetProduct (product_server encode en who (trimRightSlash serverURL) u s now) decode zero (NewClient serverURL token) u hist)"
  shows "case getProductTx s u of
      Inl _ \<Rightarrow> x = Inl (unknown_error en)
    | Inr p \<Rightarrow>
        if may s r CapProductRead (no_resource\<lparr>ProductUUID := u\<rparr>) then x = Inr p
        else if IsAuthenticated caller then x = Inl (unknown_error en) else x = Inl (unauthorized_error en)"
proof -
  let ?q = "\<lparr>rq_method = ''GET'', rq_url = cl_baseURL (NewClient serverURL token) @ ''/product/'' @ u, rq_query = [],
       rq_authorization = bearer_header (NewClient serverURL token), rq_dial = None\<rparr>"
  have path: "PathUUID (web_params r) ''uuid'' = Inr u" using assms(1,5) by (simp add: PathUUID_def)
  have fresh: "conditional s r base parts rest = rest (BuildETag (parts @ [authzCacheSuffix s caller])) (cacheControlFor caller base)" for base parts rest
    using assms(5) by (simp add: conditional_def MatchesIfNoneMatch_def)
  have verdict: "case getProductTx s u of Inl _ \<Rightarrow> getProduct s r = NotFound
    | Inr p \<Rightarrow> (if may s r CapProductRead (no_resource\<lparr>ProductUUID := u\<rparr>) then \<exists>etag cc. getProduct s r = OK etag cc p
        else getProduct s r = writeAuthzDenial r)"
    using getProduct_cases [OF path, of s]
    by (auto simp: getProductTx_def fresh fetched_def find_row_None split: option.splits dest: find_row_SomeD)
  have received: "(let r = received who now ?q in r\<lparr>web_params := (web_params r)\<lparr>req_path := (\<lambda>_. u)\<rparr>\<rparr>) = r"
    using assms(4,5) by (simp add: received_def Let_def)
  have ok: "reads_back encode decode p" if "getProduct s r = OK etag cc p" for etag cc p
    using verdict that assms(3) by (auto simp: writeAuthzDenial_def split: sum.splits if_splits)
  have fit: "fits (rs_body (writeResponse encode en (getProduct s r)))"
    using verdict ok assms(2)
    by (auto simp: writeAuthzDenial_def writeResponse_def respond_defs errors_agree_def reads_back_def split: sum.splits if_splits)
  have "x = client_result en (getProduct s r)"
    unfolding assms(6) client_GetProduct_def
    by (rule clientDo_result [where encode = encode, OF _ fit])
       (use ok received in \<open>auto simp: product_server_def NewClient_def\<close>)
  with verdict assms(5) show ?thesis
    by (auto simp: client_result_def writeAuthzDenial_def split: sum.splits if_splits)
qed

section \<open>List parameters (\<open>teaclient/params.go\<close>)\<close>

record ListParams =
  lp_PageSize :: int
  lp_PageToken :: string
  lp_SortField :: string
  lp_SortOrder :: string
  lp_IDType :: string
  lp_IDValue :: string

definition list_values :: "ListParams \<Rightarrow> (string \<times> string) list" where
  "list_values p =
     (if lp_PageSize p > 0 then [(''pageSize'', itoa (lp_PageSize p))] else [])
     @ (if lp_PageToken p \<noteq> [] then [(''pageToken'', lp_PageToken p)] else [])
     @ (if lp_SortField p \<noteq> [] then [(''sortField'', lp_SortField p)] else [])
     @ (if lp_SortOrder p \<noteq> [] then [(''sortOrder'', lp_SortOrder p)] else [])
     @ (if lp_IDType p \<noteq> [] then [(''idType'', lp_IDType p)] else [])
     @ (if lp_IDValue p \<noteq> [] then [(''idValue'', lp_IDValue p)] else [])"

definition query_value :: "(string \<times> string) list \<Rightarrow> string \<Rightarrow> string" where
  "query_value vs k = (case map_of vs k of None \<Rightarrow> [] | Some v \<Rightarrow> v)"

text \<open>
  The request a list call makes, as a handler reads it: \<open>readToken\<close> is the text of a page token as the server sees it, which
  the model keeps apart from the other parameters; \<open>path\<close> are the path values.
\<close>

definition list_request :: "(string \<Rightarrow> page_token) \<Rightarrow> (string \<Rightarrow> string) \<Rightarrow> ListParams \<Rightarrow> Principal \<Rightarrow> bool \<Rightarrow> time \<Rightarrow> web_request" where
  "list_request readToken path p who invalid now =
     \<lparr>web_params = \<lparr>req_path = path, req_query = (\<lambda>k. if k = ''pageToken'' then [] else query_value (list_values p) k)\<rparr>,
      web_token = (let t = query_value (list_values p) ''pageToken'' in if t = [] then None else Some (readToken t)),
      web_principal = who, web_invalid_bearer = invalid, web_if_none_match = [], web_now = now\<rparr>"

lemma query_values [simp]:
  "query_value (list_values p) ''pageSize'' = (if lp_PageSize p > 0 then itoa (lp_PageSize p) else [])"
  "query_value (list_values p) ''pageToken'' = lp_PageToken p"
  "query_value (list_values p) ''sortField'' = lp_SortField p"
  "query_value (list_values p) ''sortOrder'' = lp_SortOrder p"
  "query_value (list_values p) ''idType'' = lp_IDType p"
  "query_value (list_values p) ''idValue'' = lp_IDValue p"
  by (simp_all add: list_values_def query_value_def map_of_append map_add_def)

lemma itoa_nonempty [simp]: "itoa n \<noteq> []"
  using decimal_nonempty by (simp add: itoa_def del: decimal.simps)

definition acceptable :: "string list \<Rightarrow> ListParams \<Rightarrow> bool" where
  "acceptable allowed p \<longleftrightarrow> lp_PageSize p \<le> 100 \<and> List.member ([] # allowed) (lp_SortField p)
     \<and> List.member [[], ''asc'', ''desc''] (lp_SortOrder p) \<and> List.member ([] # identifierTypes) (lp_IDType p)"

definition page_size_of :: "ListParams \<Rightarrow> int" where "page_size_of p = (if lp_PageSize p > 0 then lp_PageSize p else 25)"
definition sort_field_of :: "string list \<Rightarrow> ListParams \<Rightarrow> string" where "sort_field_of allowed p = (if lp_SortField p = [] then hd allowed else lp_SortField p)"
definition sort_order_of :: "ListParams \<Rightarrow> string" where "sort_order_of p = (if lp_SortOrder p = [] then ''asc'' else lp_SortOrder p)"

lemma params_arrive:
  assumes "acceptable (f # allowed) p"
  shows "PageSize (web_params (list_request readToken path p who invalid now)) = Inr (page_size_of p)"
    and "SortField (web_params (list_request readToken path p who invalid now)) (f # allowed) = Inr (sort_field_of (f # allowed) p)"
    and "SortOrder (web_params (list_request readToken path p who invalid now)) = Inr (sort_order_of p)"
    and "IDFilter (web_params (list_request readToken path p who invalid now)) = Inr (lp_IDType p, lp_IDValue p)"
  using assms
  by (auto simp: acceptable_def list_request_def PageSize_def SortField_def SortOrder_def IDFilter_def Let_def Atoi_itoa page_size_of_def
      sort_field_of_def sort_order_of_def)

text \<open>
  The client's list parameters arrive as they were set: for a page size the server allows, a sort field of the endpoint, a
  sort order and an identifier type it knows, the handler reads back each parameter, the default for each one left empty, and
  the page token if there is one.
\<close>

theorem list_params_read_back:
  assumes "acceptable (f # allowed) p" and "r = list_request readToken path p who invalid now"
  shows "parsePageParams (web_params r) (web_token r) (f # allowed) scope =
     (let params = \<lparr>pp_PageSize = if lp_PageSize p > 0 then lp_PageSize p else 25, pp_SortField = if lp_SortField p = [] then f else lp_SortField p,
            pp_SortOrder = if lp_SortOrder p = [] then ''asc'' else lp_SortOrder p, pp_Cursor = None\<rparr>
      in if lp_PageToken p = [] then Inr params
         else case Decode (readToken (lp_PageToken p)) of
             Inl _ \<Rightarrow> Inl MalformedToken
           | Inr c \<Rightarrow>
               if cur_SortField c \<noteq> pp_SortField params \<or> cur_SortOrder c \<noteq> pp_SortOrder params then Inl TokenSortMismatch
               else if cur_Scope c \<noteq> scope then Inl TokenScopeMismatch
               else Inr (params\<lparr>pp_Cursor := Some c\<rparr>))
    \<and> IDFilter (web_params r) = Inr (lp_IDType p, lp_IDValue p)"
proof -
  have "web_token r = (if lp_PageToken p = [] then None else Some (readToken (lp_PageToken p)))"
    by (simp add: assms(2) list_request_def Let_def)
  with params_arrive [OF assms(1), of readToken path who invalid now] show ?thesis
    by (auto simp: assms(2) parsePageParams_def Let_def page_size_of_def sort_field_of_def sort_order_of_def split: sum.splits)
qed

section \<open>The client's page loop against the list handlers\<close>

text \<open>
  One page request of the client: the results, whether there are more, and the token for the next page; any other answer is
  an error. \<open>showToken\<close> writes a page token; \<open>request\<close> is the request with a given token text.
\<close>

definition page_fetch ::
  "(page_token \<Rightarrow> string) \<Rightarrow> (web_request \<Rightarrow> 'a paginated response option) \<Rightarrow> (string \<Rightarrow> web_request) \<Rightarrow> string
   \<Rightarrow> 'a paginated response option + ('a list \<times> bool \<times> string)" where
  "page_fetch showToken handler request token =
     (case handler (request token) of
        Some (OK _ _ pg) \<Rightarrow> Inr (pg_Results pg, pg_HasNext pg, case pg_NextPageToken pg of None \<Rightarrow> [] | Some t \<Rightarrow> showToken t)
      | other \<Rightarrow> Inl other)"

definition pages_flagged :: "(web_request \<Rightarrow> 'a paginated response option) \<Rightarrow> bool" where
  "pages_flagged handler \<longleftrightarrow> (\<forall>r etag cc pg. handler r = Some (OK etag cc pg) \<longrightarrow> pg_HasNext pg = (pg_NextPageToken pg \<noteq> None))"

lemma walk_ListAll_from:
  assumes "client_walk handler (request token) pages" and "pages_flagged handler"
    and "\<And>t tok. request (showToken t) = (request tok)\<lparr>web_token := Some t\<rparr>"
  shows "ListAll_from (page_fetch showToken handler request) found token = Some (Inr (found @ concat pages))"
  using assms(1)
proof (induction "request token" pages arbitrary: found token)
  case (no_more etag cc pg)
  then show ?case using assms(2) by (subst ListAll_from.simps) (auto simp: page_fetch_def pages_flagged_def)
next
  case (follow etag cc pg t rest)
  have "page_fetch showToken handler request token = Inr (pg_Results pg, True, showToken t)"
    using follow.hyps(1,2) assms(2) by (auto simp: page_fetch_def pages_flagged_def)
  with follow.hyps(4) [OF assms(3) [symmetric], of "found @ pg_Results pg"] show ?case by (subst ListAll_from.simps) simp
qed

lemma walk_ListAll:
  assumes "\<exists>pages. (\<forall>ps. client_walk handler (request []) ps \<longleftrightarrow> ps = pages) \<and> concat pages = xs \<and> Q pages" and "pages_flagged handler"
    and "\<And>t tok. request (showToken t) = (request tok)\<lparr>web_token := Some t\<rparr>"
  shows "ListAll (page_fetch showToken handler request) [] = Some (Inr xs)"
proof -
  from assms(1) obtain pages where "client_walk handler (request []) pages" "concat pages = xs" by blast
  with walk_ListAll_from [of handler request "[]" pages showToken "[]"] assms(2,3) show ?thesis by (simp add: ListAll_def)
qed

lemma writePage_flagged:
  "writePage fetch sortValue uid auth pp scope etag cc = Some (OK etag' cc' pg) \<Longrightarrow> pg_HasNext pg = (pg_NextPageToken pg \<noteq> None)"
  by (auto simp: writePage_def nextPageToken_def split: option.splits sum.splits prod.splits if_splits)

lemma conditionalList_answer:
  "conditionalList s r parts rest = Some (OK etag cc pg) \<Longrightarrow> \<exists>etag' cc'. rest etag' cc' = Some (OK etag cc pg)"
  by (auto simp: conditionalList_def split: response.splits)

lemma queryProducts_flagged: "pages_flagged (queryProducts s)"
  by (auto simp: pages_flagged_def queryProducts_def withPageParams_def Let_def split: sum.splits prod.splits
      dest!: conditionalList_answer writePage_flagged)

lemma queryComponents_flagged: "pages_flagged (queryComponents s)"
  by (auto simp: pages_flagged_def queryComponents_def withPageParams_def Let_def split: sum.splits prod.splits
      dest!: conditionalList_answer writePage_flagged)

text \<open>The request for a page of a list, by the text of its token.\<close>

definition paged_request :: "(string \<Rightarrow> page_token) \<Rightarrow> ListParams \<Rightarrow> Principal \<Rightarrow> bool \<Rightarrow> time \<Rightarrow> string \<Rightarrow> web_request" where
  "paged_request readToken p who invalid now token = list_request readToken (\<lambda>_. []) (p\<lparr>lp_PageToken := token\<rparr>) who invalid now"

definition tokens_read_back :: "(page_token \<Rightarrow> string) \<Rightarrow> (string \<Rightarrow> page_token) \<Rightarrow> bool" where
  "tokens_read_back showToken readToken \<longleftrightarrow> (\<forall>t. showToken t \<noteq> [] \<and> readToken (showToken t) = t)"

lemma list_values_token: "k \<noteq> ''pageToken'' \<Longrightarrow> query_value (list_values (p\<lparr>lp_PageToken := token\<rparr>)) k = query_value (list_values p) k"
  by (simp add: query_value_def list_values_def map_of_append map_add_def)

lemma paged_request_token:
  assumes "tokens_read_back showToken readToken"
  shows "paged_request readToken p who invalid now (showToken t) = (paged_request readToken p who invalid now tok)\<lparr>web_token := Some t\<rparr>"
  using assms by (auto simp: paged_request_def list_request_def tokens_read_back_def list_values_token fun_eq_iff Let_def)

lemma list_page_request:
  assumes "acceptable (f # allowed) p"
  shows "page_request (paged_request readToken p who invalid now []) (f # allowed) (page_size_of p) (sort_field_of (f # allowed) p) (sort_order_of p)
    \<and> IDFilter (web_params (paged_request readToken p who invalid now [])) = Inr (lp_IDType p, lp_IDValue p)
    \<and> web_token (paged_request readToken p who invalid now []) = None"
proof -
  have a: "acceptable (f # allowed) (p\<lparr>lp_PageToken := []\<rparr>)" using assms(1) by (simp add: acceptable_def)
  show ?thesis
    using params_arrive [OF a, of readToken "\<lambda>_. []" who invalid now]
    by (simp add: paged_request_def page_request_def page_size_of_def sort_field_of_def sort_order_of_def)
       (simp add: list_request_def)
qed

text \<open>
  C33. The client's page loop against the server: with parameters the server accepts, a page size of at most 100 or the default one
  among them, and while the database does not change between the pages, listing everything over GET /products ends and returns
  exactly the products matching the client's filter that the caller may read, each once and in the order asked for.
\<close>

theorem client_lists_products:
  assumes "catalog_wf s" and "\<forall>pr \<in> set (tbl_product s). p_uuid pr \<noteq> []" and "acceptable [''name''] p"
    and "tokens_read_back showToken readToken" and "request = paged_request readToken p who invalid now"
  shows "ListAll (page_fetch showToken (queryProducts s) request) [] =
     Some (Inr (filter (\<lambda>pr. may s (request []) CapProductRead (no_resource\<lparr>ProductUUID := prod_UUID pr\<rparr>))
       (product_listing (lp_IDType p) (lp_IDValue p) (if lp_SortOrder p = [] then ''asc'' else lp_SortOrder p) s)))"
proof -
  have "sort_field_of [''name''] p = ''name''" using assms(3) by (auto simp: acceptable_def sort_field_of_def)
  with list_page_request [OF assms(3), of readToken who invalid now]
  have "asks_products (lp_IDType p) (lp_IDValue p) (sort_order_of p) (page_size_of p) s (request [])" "web_token (request []) = None"
    by (simp_all add: assms(5) asks_products_def)
  from walk_ListAll [where request = request, OF products_walk_complete [OF assms(1,2) this] queryProducts_flagged, of showToken]
  show ?thesis using paged_request_token [OF assms(4)] by (simp add: assms(5) sort_order_of_def)
qed

text \<open>The same for GET /components.\<close>

lemma client_lists_components:
  assumes "catalog_wf s" and "\<forall>c \<in> set (tbl_component s). co_uuid c \<noteq> []" and "acceptable [''name''] p"
    and "tokens_read_back showToken readToken" and "request = paged_request readToken p who invalid now"
  shows "ListAll (page_fetch showToken (queryComponents s) request) [] =
     Some (Inr (filter (\<lambda>c. may s (request []) CapProductRead (no_resource\<lparr>ComponentUUID := comp_UUID c\<rparr>))
       (component_listing (lp_IDType p) (lp_IDValue p) (if lp_SortOrder p = [] then ''asc'' else lp_SortOrder p) s)))"
proof -
  have "sort_field_of [''name''] p = ''name''" using assms(3) by (auto simp: acceptable_def sort_field_of_def)
  with list_page_request [OF assms(3), of readToken who invalid now]
  have "asks_products (lp_IDType p) (lp_IDValue p) (sort_order_of p) (page_size_of p) s (request [])" "web_token (request []) = None"
    by (simp_all add: assms(5) asks_products_def)
  from walk_ListAll [where request = request, OF components_walk_complete [OF assms(1,2) this] queryComponents_flagged, of showToken]
  show ?thesis using paged_request_token [OF assms(4)] by (simp add: assms(5) sort_order_of_def)
qed

section \<open>The token exchange (\<open>teaclient/token.go\<close> against \<open>api/token.go\<close>)\<close>

lemma hex_value_upper: "k < 16 \<Longrightarrow> hex_value (upper_hex k) = Some k"
proof -
  have "list_all (\<lambda>k. hex_value (upper_hex k) = Some k) [0..<16]" by code_simp
  then show "k < 16 \<Longrightarrow> hex_value (upper_hex k) = Some k" by (simp add: list_all_iff)
qed

lemma upper_hex_mod: "upper_hex (n mod 16) = upper_hex n"
  by (simp add: upper_hex_def)

lemma upper_hex_no_colon: "upper_hex k \<noteq> CHR '':''"
proof -
  have "list_all (\<lambda>k. upper_hex k \<noteq> CHR '':'') [0..<16]" by code_simp
  then have "upper_hex (k mod 16) \<noteq> CHR '':''" by (simp add: list_all_iff)
  then show ?thesis by (simp add: upper_hex_mod)
qed

lemma of_char_div: "(of_char c :: nat) div 16 < 16"
proof -
  have "(of_char c :: nat) = of_char c mod 256" by (metis char_of_char of_char_of)
  then have "(of_char c :: nat) < 16 * 16" by (metis mod_less_divisor zero_less_numeral mult_numeral_1 numeral_times_numeral semiring_norm(11,12,13,14,2))
  then show ?thesis by (rule less_mult_imp_div_less)
qed

definition escape_char :: "char \<Rightarrow> string" where
  "escape_char c = (if c = CHR '' '' then ''+'' else if unreserved c then [c] else [CHR ''%'', upper_hex (of_char c div 16), upper_hex (of_char c)])"

lemma QueryEscape_Cons: "QueryEscape (c # s) = escape_char c @ QueryEscape s"
  by (simp add: QueryEscape_def escape_char_def)

lemma unreserved_plain: "unreserved c \<Longrightarrow> c \<noteq> CHR ''%'' \<and> c \<noteq> CHR ''+'' \<and> c \<noteq> CHR '':''"
  by (auto simp: unreserved_def)

lemma QueryUnescape_escape_char: "QueryUnescape (escape_char c @ s) = map_option (Cons c) (QueryUnescape s)"
proof -
  have h: "hex_value (upper_hex (of_char c div 16)) = Some (of_char c div 16)" "hex_value (upper_hex (of_char c)) = Some (of_char c mod 16)"
    using hex_value_upper [OF of_char_div] hex_value_upper [of "of_char c mod 16"] by (simp_all add: upper_hex_mod)
  have "char_of (16 * (of_char c div 16) + of_char c mod 16 :: nat) = c" by simp
  with h unreserved_plain [of c] show ?thesis by (simp add: escape_char_def)
qed

lemma QueryUnescape_QueryEscape [simp]: "QueryUnescape (QueryEscape s) = Some s"
  by (induction s) (simp_all add: QueryEscape_Cons QueryUnescape_escape_char, simp add: QueryEscape_def)

lemma QueryEscape_no_colon: "CHR '':'' \<notin> set (QueryEscape s)"
proof -
  have "CHR '':'' \<notin> set (escape_char c)" for c
    using unreserved_plain [of c] upper_hex_no_colon [of "of_char c div 16"] upper_hex_no_colon [of "of_char c"] by (auto simp: escape_char_def)
  then show ?thesis by (induction s) (auto simp: QueryEscape_Cons, simp add: QueryEscape_def)
qed

text \<open>
  HTTP Basic: the header carries the base64 of the two parts joined by a colon, and \<open>r.BasicAuth\<close> splits what it decodes at
  the first one. The credentials here are the text under the base64 encoding.
\<close>

definition basic_credentials :: "string \<Rightarrow> string \<Rightarrow> string" where
  "basic_credentials u p = u @ CHR '':'' # p"

definition BasicAuth :: "string \<Rightarrow> (string \<times> string) option" where
  "BasicAuth credentials =
     (case dropWhile (\<lambda>c. c \<noteq> CHR '':'') credentials of
        [] \<Rightarrow> None
      | _ # p \<Rightarrow> Some (takeWhile (\<lambda>c. c \<noteq> CHR '':'') credentials, p))"

lemma BasicAuth_credentials: "CHR '':'' \<notin> set u \<Longrightarrow> BasicAuth (basic_credentials u p) = Some (u, p)"
proof -
  assume "CHR '':'' \<notin> set u"
  then have "\<forall>c \<in> set u. c \<noteq> CHR '':''" by auto
  then show ?thesis by (simp add: BasicAuth_def basic_credentials_def dropWhile_append2 takeWhile_append2)
qed

record TokenResponse =
  tr_AccessToken :: string
  tr_TokenType :: string
  tr_ExpiresIn :: int

text \<open>\<open>post\<close> sends a form with a grant type to a URL under Basic credentials; \<open>decode\<close> is the JSON decoder of the answer.\<close>

definition ExchangeToken ::
  "(string \<Rightarrow> string \<Rightarrow> string \<Rightarrow> client_error + http_response) \<Rightarrow> (string \<Rightarrow> TokenResponse option) \<Rightarrow> Client \<Rightarrow> string \<Rightarrow> string
   \<Rightarrow> client_error + TokenResponse" where
  "ExchangeToken post decode c keyID secret =
     (case post (cl_baseURL c @ ''/token'') (basic_credentials (QueryEscape keyID) (QueryEscape secret)) ''client_credentials'' of
        Inl e \<Rightarrow> Inl e
      | Inr resp \<Rightarrow>
          (case readBody resp of
             Inl e \<Rightarrow> Inl e
           | Inr body \<Rightarrow>
               if \<not> is_success resp then Inl (apiError resp body)
               else (case decode body of None \<Rightarrow> Inl (ClientOther ''json'') | Some out \<Rightarrow> Inr out)))"

text \<open>The token endpoint of this server, its answers written by \<open>httpx.TokenIssued\<close>, \<open>TokenError\<close> and \<open>InternalError\<close>.\<close>

definition token_request_of :: "string \<Rightarrow> string \<Rightarrow> token_request" where
  "token_request_of credentials grant = \<lparr>tkr_basic = BasicAuth credentials, tkr_grant_type = Some grant\<rparr>"

definition writeTokenIssued :: "(TokenResponse \<Rightarrow> string) \<Rightarrow> TokenResponse \<Rightarrow> http_response" where
  "writeTokenIssued encode resp = WriteJSON 200 (encode resp)"

definition writeTokenError :: "encoders \<Rightarrow> int \<Rightarrow> string \<Rightarrow> http_response" where
  "writeTokenError en status errCode = WriteJSON status (en_error en errCode)"

definition writeTokenResponse :: "(TokenResponse \<Rightarrow> string) \<Rightarrow> encoders \<Rightarrow> token_response \<Rightarrow> http_response" where
  "writeTokenResponse encode en x =
     (case x of
        TokenIssued token expires \<Rightarrow> writeTokenIssued encode \<lparr>tr_AccessToken = token, tr_TokenType = ''Bearer'', tr_ExpiresIn = expires\<rparr>
      | TokenError status code \<Rightarrow> writeTokenError en (int status) code
      | TokenFault _ \<Rightarrow> writeInternalError en)"

definition token_server ::
  "(TokenResponse \<Rightarrow> string) \<Rightarrow> encoders \<Rightarrow> string \<Rightarrow> (string \<Rightarrow> string) \<Rightarrow> string \<Rightarrow> time \<Rightarrow> int \<Rightarrow> db \<Rightarrow> string \<Rightarrow> string \<Rightarrow> string
   \<Rightarrow> client_error + http_response" where
  "token_server encode en baseURL sha256 fresh now ttl s u credentials grant =
     (if u = baseURL @ ''/token''
      then Inr (writeTokenResponse encode en (fst (requestToken sha256 fresh now ttl (token_request_of credentials grant) s)))
      else Inl (TransportError ''no route''))"

lemma credentials_arrive: "basicAuthUnescaped (token_request_of (basic_credentials (QueryEscape keyID) (QueryEscape secret)) grant) = Some (keyID, secret)"
  by (simp add: basicAuthUnescaped_def token_request_of_def BasicAuth_credentials QueryEscape_no_colon)

text \<open>
  C40. The token exchange end to end: a client holding a valid API key, whatever characters its two parts contain, obtains a
  token from this server, provided the hash of the random token is not that of a stored one. On the database the exchange leaves, a
  client made with that token acts as the key's user up to one second before the end of the token's lifetime, and as nobody once
  the lifetime is over. (Within its last second the token may already be refused, since the end is stored in whole seconds: see
  \<open>token_refused_early\<close>.)
\<close>

theorem client_token_login:
  assumes "VerifyAPIKey sha256 s keyID secret = Inr user" "0 \<le> ttl" "fresh \<noteq> []"
    and "\<forall>x \<in> set (tbl_access_token s). at_token_hash x \<noteq> hashToken sha256 fresh"
    and "reads_back encode decode \<lparr>tr_AccessToken = fresh, tr_TokenType = ''Bearer'', tr_ExpiresIn = ttl div 1000000000\<rparr>"
    and "s1 = snd (requestToken sha256 fresh now ttl
           (token_request_of (basic_credentials (QueryEscape keyID) (QueryEscape secret)) ''client_credentials'') s)"
  shows "ExchangeToken (token_server encode en (trimRightSlash serverURL) sha256 fresh now ttl s) decode (NewClient serverURL []) keyID secret =
       Inr \<lparr>tr_AccessToken = fresh, tr_TokenType = ''Bearer'', tr_ExpiresIn = ttl div 1000000000\<rparr>
    \<and> (\<forall>q. bearer_header (NewClient serverURL fresh) = Some (ar_authorization q) \<and> ar_path q \<noteq> tokenPath \<longrightarrow>
         (ar_now q \<le> now + ttl - 1000000000 \<longrightarrow> resolvePrincipal sha256 s1 tokenPath q = (\<lparr>UserUUID = usr_UUID user\<rparr>, False))
       \<and> (ar_now q > now + ttl \<longrightarrow> resolvePrincipal sha256 s1 tokenPath q = (\<lparr>UserUUID = []\<rparr>, True)))"
proof -
  let ?r = "token_request_of (basic_credentials (QueryEscape keyID) (QueryEscape secret)) ''client_credentials''"
  have "tkr_grant_type ?r = Some ''client_credentials''" by (simp add: token_request_of_def)
  from token_exchange [OF credentials_arrive this assms(1-4), of now tokenPath] assms(6)
  have issued: "fst (requestToken sha256 fresh now ttl ?r s) = TokenIssued fresh (ttl div 1000000000)"
    and later: "\<forall>q. ar_authorization q = ''Bearer '' @ fresh \<and> ar_path q \<noteq> tokenPath \<longrightarrow>
         (ar_now q \<le> now + ttl - 1000000000 \<longrightarrow> resolvePrincipal sha256 s1 tokenPath q = (\<lparr>UserUUID = usr_UUID user\<rparr>, False))
       \<and> (ar_now q > now + ttl \<longrightarrow> resolvePrincipal sha256 s1 tokenPath q = (\<lparr>UserUUID = []\<rparr>, True))"
    by auto
  have "ExchangeToken (token_server encode en (trimRightSlash serverURL) sha256 fresh now ttl s) decode (NewClient serverURL []) keyID secret =
       Inr \<lparr>tr_AccessToken = fresh, tr_TokenType = ''Bearer'', tr_ExpiresIn = ttl div 1000000000\<rparr>"
    using assms(5) by (simp add: ExchangeToken_def token_server_def NewClient_def issued writeTokenResponse_def writeTokenIssued_def writeTokenError_def respond_defs readBody_def
        is_success_def reads_back_def fits_def not_less)
  with later show ?thesis using assms(3) by (auto simp: bearer_header_def NewClient_def)
qed

text \<open>A wrong key or secret leaves the server as it was and is a 401 with the code \<open>invalid_client\<close> for the client.\<close>

theorem client_token_refused:
  assumes "VerifyAPIKey sha256 s keyID secret = Inl ErrNotFound" and "fits (en_error en ''invalid_client'')"
  shows "ExchangeToken (token_server encode en (trimRightSlash serverURL) sha256 fresh now ttl s) decode (NewClient serverURL []) keyID secret =
       Inl (ClientAPIError \<lparr>ae_StatusCode = 401, ae_ContentType = ''application/json'', ae_Body = en_error en ''invalid_client''\<rparr>)
    \<and> snd (requestToken sha256 fresh now ttl (token_request_of (basic_credentials (QueryEscape keyID) (QueryEscape secret)) ''client_credentials'') s) = s"
  using assms credentials_arrive [of keyID secret "''client_credentials''"]
  by (simp add: ExchangeToken_def token_server_def NewClient_def requestToken_def token_request_of_def [where grant = "''client_credentials''"]
      writeTokenResponse_def writeTokenIssued_def writeTokenError_def respond_defs readBody_def is_success_def fits_def not_less apiError_def)

section \<open>The read methods of the client\<close>

text \<open>Each is one GET under the base URL; \<open>decode\<close> and \<open>zero\<close> are those of its result type.\<close>

definition client_QueryProducts where "client_QueryProducts net decode zero c p = clientDo net decode zero c ''GET'' ''/products'' (list_values p)"
definition client_ListReleasesByProduct where
  "client_ListReleasesByProduct net decode zero c u p = clientDo net decode zero c ''GET'' (''/product/'' @ u @ ''/releases'') (list_values p)"
definition client_GetComponent where "client_GetComponent net decode zero c u = clientDo net decode zero c ''GET'' (''/component/'' @ u) []"
definition client_QueryComponents where "client_QueryComponents net decode zero c p = clientDo net decode zero c ''GET'' ''/components'' (list_values p)"
definition client_ListReleasesByComponent where
  "client_ListReleasesByComponent net decode zero c u p = clientDo net decode zero c ''GET'' (''/component/'' @ u @ ''/releases'') (list_values p)"

definition client_GetProductReleaseWithCollection where
  "client_GetProductReleaseWithCollection net decode zero c u = clientDo net decode zero c ''GET'' (''/productRelease/'' @ u) []"
definition client_QueryProductReleases where
  "client_QueryProductReleases net decode zero c p = clientDo net decode zero c ''GET'' ''/productReleases'' (list_values p)"
definition client_GetLatestCollectionForProductRelease where
  "client_GetLatestCollectionForProductRelease net decode zero c u =
     clientDo net decode zero c ''GET'' (''/productRelease/'' @ u @ ''/collection/latest'') []"
definition client_GetCollectionForProductRelease where
  "client_GetCollectionForProductRelease net decode zero c u version =
     clientDo net decode zero c ''GET'' (''/productRelease/'' @ u @ ''/collection/'' @ itoa version) []"
definition client_ListCollectionsForProductRelease where
  "client_ListCollectionsForProductRelease net decode zero c u p =
     clientDo net decode zero c ''GET'' (''/productRelease/'' @ u @ ''/collections'') (list_values p)"

definition client_GetComponentReleaseWithCollection where
  "client_GetComponentReleaseWithCollection net decode zero c u = clientDo net decode zero c ''GET'' (''/componentRelease/'' @ u) []"
definition client_QueryComponentReleases where
  "client_QueryComponentReleases net decode zero c p = clientDo net decode zero c ''GET'' ''/componentReleases'' (list_values p)"
definition client_GetLatestCollectionForComponentRelease where
  "client_GetLatestCollectionForComponentRelease net decode zero c u =
     clientDo net decode zero c ''GET'' (''/componentRelease/'' @ u @ ''/collection/latest'') []"
definition client_GetCollectionForComponentRelease where
  "client_GetCollectionForComponentRelease net decode zero c u version =
     clientDo net decode zero c ''GET'' (''/componentRelease/'' @ u @ ''/collection/'' @ itoa version) []"
definition client_ListCollectionsForComponentRelease where
  "client_ListCollectionsForComponentRelease net decode zero c u p =
     clientDo net decode zero c ''GET'' (''/componentRelease/'' @ u @ ''/collections'') (list_values p)"

definition client_GetCLEByProduct where "client_GetCLEByProduct net decode zero c u = clientDo net decode zero c ''GET'' (''/product/'' @ u @ ''/cle'') []"
definition client_GetCLEByProductRelease where
  "client_GetCLEByProductRelease net decode zero c u = clientDo net decode zero c ''GET'' (''/productRelease/'' @ u @ ''/cle'') []"
definition client_GetCLEByComponent where
  "client_GetCLEByComponent net decode zero c u = clientDo net decode zero c ''GET'' (''/component/'' @ u @ ''/cle'') []"
definition client_GetCLEByComponentRelease where
  "client_GetCLEByComponentRelease net decode zero c u = clientDo net decode zero c ''GET'' (''/componentRelease/'' @ u @ ''/cle'') []"
definition client_GetLatestArtifact where
  "client_GetLatestArtifact net decode zero c u = clientDo net decode zero c ''GET'' (''/artifact/'' @ u @ ''/latest'') []"
definition client_GetArtifactByVersion where
  "client_GetArtifactByVersion net decode zero c u version = clientDo net decode zero c ''GET'' (''/artifact/'' @ u @ ''/'' @ itoa version) []"

section \<open>Identifiers that outlive their release\<close>

text \<open>An identifier whose release is gone makes discovery fail with a server error, where the specification asks for a 404.\<close>

lemma dangling_identifier_fails:
  assumes "looks_up idType v r" and "find_row (carries idType v) (tbl_identifier s) = Some i" and "idr_owner i \<noteq> []"
    and "idr_owner i \<notin> rl_uuid ` set (tbl_product_release s)"
  shows "\<exists>e. discovery rootURL versions s r = InternalError e"
proof -
  let ?res = "no_resource\<lparr>ProductReleaseUUID := idr_owner i\<rparr>"
  have t: "target_of ?res = Some (TRelease (idr_owner i))" using assms(3) by (simp add: target_of_def no_resource_def)
  have "\<not> resolvable s (TRelease (idr_owner i))" using assms(4) by (force simp: resolvable.simps release_exists_def)
  with t CandidateRules_error [of s "web_now r" "web_principal r" CapReleaseDiscover ?res]
  have "\<exists>e. decide s r CapReleaseDiscover ?res = Inl e" by (auto simp: decide_def Decide_def)
  then show ?thesis using discovery_cases [OF assms(1), of rootURL versions s] assms(2) by (auto simp: authorize_def)
qed

text \<open>Deleting a product deletes its releases, by cascade, but not their identifiers, which only the release's own deletion removes.\<close>

lemma find_row_delete_rows: "find_row P xs = Some x \<Longrightarrow> (\<And>y. P y \<Longrightarrow> \<not> Q y) \<Longrightarrow> find_row P (delete_rows Q xs) = Some x"
  by (induction xs) (auto simp: delete_rows_def split: if_splits)

theorem deleted_product_breaks_discovery:
  assumes "DeleteProduct u s = (Inr (), s1)" and "looks_up idType v r"
    and "find_row (carries idType v) (tbl_identifier s) = Some i" and "idr_owner i \<noteq> []"
    and "\<forall>pr \<in> set (tbl_product_release s). rl_uuid pr = idr_owner i \<longrightarrow> rl_parent pr = u"
  shows "\<exists>e. discovery rootURL versions s1 r = InternalError e"
proof (rule dangling_identifier_fails [OF assms(2) _ assms(4)])
  have s1: "s1 = bumpWatermark WatermarkProducts (deleteOwnerScoped OwnerProduct u (delete_product u s))" using assms(1) by (simp add: DeleteProduct_Inr)
  have ids: "tbl_identifier s1 = delete_rows (\<lambda>r. idr_owner_type r = OwnerProduct \<and> idr_owner r = u) (tbl_identifier s)"
    by (simp add: s1 deleteOwnerScoped_def delete_product_def delete_product_releases_def delete_cle_events_def bumpCLERevision_def bumpWatermark_def Let_def)
  show "find_row (carries idType v) (tbl_identifier s1) = Some i"
    unfolding ids using assms(3) by (rule find_row_delete_rows) (auto simp: carries_def)
  have "tbl_product_release s1 = delete_rows (\<lambda>r. rl_parent r = u) (tbl_product_release s)"
    by (simp add: s1 deleteOwnerScoped_def delete_product_def delete_product_releases_def delete_cle_events_def bumpCLERevision_def bumpWatermark_def Let_def)
  with assms(5) show "idr_owner i \<notin> rl_uuid ` set (tbl_product_release s1)" by (auto simp: delete_rows_def)
qed

section \<open>Examples\<close>

text \<open>
  The two shops of the read API and of the accounts. Stand-ins for the JSON encodings: an error body is its code, a result
  body is a fixed text, which reads back as the one result of the example.
\<close>

definition plain_errors :: encoders where "plain_errors = \<lparr>en_error = id, en_message = id\<rparr>"
definition plain_codecs :: codecs where "plain_codecs = \<lparr>co_mediatype = Some, co_errorOf = Some\<rparr>"

lemma plain_agree: "errors_agree plain_errors plain_codecs"
  by (simp add: errors_agree_def plain_errors_def plain_codecs_def fits_def maxResponseBody_def)

lemma constant_reads_back: "reads_back (\<lambda>_. ''body'') (\<lambda>_. Some x) x"
  by (simp add: reads_back_def fits_def maxResponseBody_def)

definition tei_db :: db where
  "tei_db = shop_db\<lparr>
     tbl_identifier := [\<lparr>idr_owner_type = OwnerProductRelease, idr_owner = ''r1'', idr_type = ''TEI'', idr_value = ''urn:tei:1''\<rparr>,
                        \<lparr>idr_owner_type = OwnerProductRelease, idr_owner = ''r3'', idr_type = ''TEI'', idr_value = ''urn:tei:3''\<rparr>],
     tbl_template_rule := tbl_template_rule shop_db @ [rule_of ''t1'' CapReleaseDiscover ''allow'', rule_of ''t2'' CapReleaseDiscover ''deny'']\<rparr>"

definition nobody :: "string option \<Rightarrow> Principal \<times> bool" where "nobody _ = (\<lparr>UserUUID = []\<rparr>, False)"

abbreviation tei_lookup :: "string \<Rightarrow> client_error + DiscoveryInfo list" where
  "tei_lookup tei \<equiv> fst (Discover (discovery_server (\<lambda>_. ''body'') plain_errors nobody ''https://x'' [''1.0.0''] (trimRightSlash ''https://x/v1'') tei_db 0)
     (\<lambda>_. Some (server_info ''https://x'' [''1.0.0''] ''r1'')) (NewClient ''https://x/v1'' []) tei [])"

lemma tei_rows:
  "find_row (carries ''TEI'' ''urn:tei:1'') (tbl_identifier tei_db) =
     Some \<lparr>idr_owner_type = OwnerProductRelease, idr_owner = ''r1'', idr_type = ''TEI'', idr_value = ''urn:tei:1''\<rparr>"
  "find_row (carries ''TEI'' ''urn:tei:2'') (tbl_identifier tei_db) = None"
  "live_release tei_db ''r1''"
  by (simp_all add: tei_db_def carries_def live_release_def shop_defs release_of_def)

lemma tei_decided:
  "decide tei_db (received nobody 0 (discover_request [] ''https://x/v1'' ''urn:tei:1'')) CapReleaseDiscover (no_resource\<lparr>ProductReleaseUUID := ''r1''\<rparr>) = Inr True"
  by code_simp

theorem client_discovers_witness:
  "tei_lookup ''urn:tei:1'' = Inr (server_info ''https://x'' [''1.0.0''] ''r1'') \<and> tei_lookup ''urn:tei:2'' = Inl (unknown_error plain_errors)"
proof
  have "may tei_db (received nobody 0 (discover_request [] ''https://x/v1'' ''urn:tei:1'')) CapReleaseDiscover (no_resource\<lparr>ProductReleaseUUID := ''r1''\<rparr>)"
    using decide_may [OF tei_decided] by simp
  with client_discovers [of "''urn:tei:1''" tei_db "\<lambda>_. ''body''" "\<lambda>_. Some (server_info ''https://x'' [''1.0.0''] ''r1'')" "''https://x''" "[''1.0.0'']"
      plain_errors plain_codecs _ nobody 0 "[]" "''https://x/v1''" _ "[]", OF _ _ plain_agree refl refl] tei_rows(1,3)
  show "tei_lookup ''urn:tei:1'' = Inr (server_info ''https://x'' [''1.0.0''] ''r1'')" by (simp add: constant_reads_back)
  from client_discovers [of "''urn:tei:2''" tei_db "\<lambda>_. ''body''" "\<lambda>_. Some (server_info ''https://x'' [''1.0.0''] ''r1'')" "''https://x''" "[''1.0.0'']"
      plain_errors plain_codecs _ nobody 0 "[]" "''https://x/v1''" _ "[]", OF _ _ plain_agree refl refl] tei_rows(2)
  show "tei_lookup ''urn:tei:2'' = Inl (unknown_error plain_errors)" by simp
qed

lemma tei_deleted: "DeleteProduct uuid1 tei_db = (Inr (), snd (DeleteProduct uuid1 tei_db))"
  by (simp add: DeleteProduct_def tei_db_def shop_defs runInTx_def bindR_def execR_def)

theorem deleted_product_breaks_discovery_example:
  "\<exists>e. discovery ''https://x'' [''1.0.0''] (snd (DeleteProduct uuid1 tei_db)) (received nobody 0 (discover_request [] ''https://x/v1'' ''urn:tei:1'')) = InternalError e"
proof -
  have "looks_up ''TEI'' ''urn:tei:1'' (received nobody 0 (discover_request [] ''https://x/v1'' ''urn:tei:1''))"
    by (simp add: looks_up_def received_def discover_request_def)
  from deleted_product_breaks_discovery [OF tei_deleted this tei_rows(1)] show ?thesis
    by (simp add: tei_db_def shop_defs release_of_def)
qed

definition widget :: Product where "widget = \<lparr>prod_UUID = uuid1, prod_Name = ''Widget'', prod_Identifiers = []\<rparr>"

definition anonymous :: "uuid \<Rightarrow> web_request" where
  "anonymous u = \<lparr>web_params = \<lparr>req_path = (\<lambda>_. u), req_query = (\<lambda>_. [])\<rparr>, web_token = None, web_principal = \<lparr>UserUUID = []\<rparr>,
     web_invalid_bearer = False, web_if_none_match = [], web_now = 0\<rparr>"

lemma shop_widget: "getProductTx shop_db uuid1 = Inr widget" "Valid uuid1"
  by code_simp+

lemma anonymous_reads: "may shop_db (anonymous uuid1) CapProductRead (no_resource\<lparr>ProductUUID := uuid1\<rparr>)"
proof -
  have "decide shop_db (anonymous uuid1) CapProductRead (no_resource\<lparr>ProductUUID := uuid1\<rparr>) = Inr True" by code_simp
  then show ?thesis using decide_may by blast
qed

theorem client_reads_product_witness:
  "fst (client_GetProduct (product_server (\<lambda>_. ''body'') plain_errors nobody (trimRightSlash ''https://x/v1'') uuid1 shop_db 0) (\<lambda>_. Some widget)
     widget (NewClient ''https://x/v1'' []) uuid1 []) = Inr widget"
  using client_reads_product [OF shop_widget(2) plain_agree, of shop_db "\<lambda>_. ''body''" "\<lambda>_. Some widget" _ nobody "''https://x/v1''" "[]"
      "anonymous uuid1" 0 _ widget "[]"] anonymous_reads
  by (simp add: shop_widget(1) constant_reads_back nobody_def anonymous_def)

text \<open>A text for page tokens that reads back: each character of a field after an \<open>x\<close>, a dot after each field.\<close>

definition show_field :: "string \<Rightarrow> string" where "show_field f = concat (map (\<lambda>c. [CHR ''x'', c]) f) @ ''.''"

fun read_field :: "string \<Rightarrow> string \<times> string" where
  "read_field (a # c # rest) = (if a = CHR ''x'' then (let (f, r) = read_field rest in (c # f, r)) else ([], c # rest))"
| "read_field [a] = ([], [])"
| "read_field [] = ([], [])"

lemma read_show_field: "read_field (show_field f @ rest) = (f, rest)"
proof (induction f)
  case Nil
  then show ?case by (cases rest) (simp_all add: show_field_def)
qed (simp add: show_field_def)

definition show_token :: "page_token \<Rightarrow> string" where
  "show_token t =
     (case t of
        None \<Rightarrow> ''-''
      | Some c \<Rightarrow> show_field (cur_SortField c) @ show_field (cur_SortOrder c) @ show_field (cur_LastValue c) @ show_field (cur_LastUUID c)
          @ show_field (cur_Scope c))"

definition read_token :: "string \<Rightarrow> page_token" where
  "read_token s =
     (if s = ''-'' then None
      else (let (a, s1) = read_field s; (b, s2) = read_field s1; (c, s3) = read_field s2; (d, s4) = read_field s3; (e, _) = read_field s4
            in Some \<lparr>cur_SortField = a, cur_SortOrder = b, cur_LastValue = c, cur_LastUUID = d, cur_Scope = e\<rparr>))"

lemma show_tokens_read_back: "tokens_read_back show_token read_token"
proof -
  have "show_field f @ rest \<noteq> ''-''" "show_field f @ rest \<noteq> []" for f rest by (cases f; simp add: show_field_def)+
  moreover have "read_field (show_field f) = (f, [])" for f using read_show_field [of f "[]"] by simp
  ultimately show ?thesis
    by (auto simp: tokens_read_back_def show_token_def read_token_def read_show_field split: option.splits)
qed

definition by_one :: ListParams where
  "by_one = \<lparr>lp_PageSize = 1, lp_PageToken = [], lp_SortField = [], lp_SortOrder = [], lp_IDType = [], lp_IDValue = []\<rparr>"

lemma may_visitor: "may s (paged_request read_token by_one \<lparr>UserUUID = []\<rparr> False 0 []) cap res = may s (visitor u) cap res"
  by (simp add: may_def paged_request_def list_request_def visitor_def)

theorem client_lists_products_witness:
  "ListAll (page_fetch show_token (queryProducts shop_db) (paged_request read_token by_one \<lparr>UserUUID = []\<rparr> False 0)) [] = Some (Inr [widget])"
proof -
  have "acceptable [''name''] by_one" by (simp add: acceptable_def by_one_def)
  from client_lists_products [OF shop_wf(1) shop_ids(1) this show_tokens_read_back refl, of "\<lparr>UserUUID = []\<rparr>" False 0]
  show ?thesis unfolding may_visitor [of _ _ _ uuid1] by (simp add: shop_visible by_one_def widget_def)
qed

theorem list_params_read_back_witness:
  "parsePageParams (web_params (list_request read_token (\<lambda>_. []) by_one \<lparr>UserUUID = []\<rparr> False 0)) None [''name''] [] =
     Inr \<lparr>pp_PageSize = 1, pp_SortField = ''name'', pp_SortOrder = ''asc'', pp_Cursor = None\<rparr>"
proof -
  have "acceptable [''name''] by_one" by (simp add: acceptable_def by_one_def)
  from list_params_read_back [OF this refl, of read_token "\<lambda>_. []" "\<lparr>UserUUID = []\<rparr>" False 0 "[]"]
  show ?thesis by (simp add: by_one_def Let_def list_request_def query_value_def list_values_def)
qed

theorem client_token_login_witness:
  "ExchangeToken (token_server (\<lambda>_. ''body'') plain_errors (trimRightSlash ''https://x/v1'') id ''fresh'' 0 3600000000000 staff_db)
      (\<lambda>_. Some \<lparr>tr_AccessToken = ''fresh'', tr_TokenType = ''Bearer'', tr_ExpiresIn = 3600\<rparr>) (NewClient ''https://x/v1'' []) ''key'' ''secret'' =
     Inr \<lparr>tr_AccessToken = ''fresh'', tr_TokenType = ''Bearer'', tr_ExpiresIn = 3600\<rparr>"
  using client_token_login [OF staff_exchange(2) _ _ _ _ refl, of 3600000000000 "''fresh''"
      "\<lambda>_. ''body''" "\<lambda>_. Some \<lparr>tr_AccessToken = ''fresh'', tr_TokenType = ''Bearer'', tr_ExpiresIn = 3600\<rparr>" plain_errors "''https://x/v1''" 0 "''/token''"]
  by (simp add: staff_exchange(3) constant_reads_back)

end
