(* ===== verification/Publisher.thy ===== *)
theory Publisher
  imports Drafts Downloads Cle
begin

text \<open>
  The publisher API (\<open>internal/publisher\<close>) with the certificate checks of \<open>internal/trust\<close>: the handlers behind
  \<open>/publisher/v1\<close>, their scopes, and what a request with either scope can and cannot do.

  X.509 and PEM parsing, Ed25519, SHA-256, base64 decoding and the canonical JSON of an artifact and of a collection are
  parameters. A request body is what JSON decoding makes of it, \<open>None\<close> when it fails. A handler sees one database from its
  first query to its last; the clock may advance between them where two readings matter.
\<close>

section \<open>Trust\<close>

text \<open>A parsed certificate; its key is \<open>None\<close> when it is not an Ed25519 key.\<close>

record certificate =
  crt_DNSNames :: "string list"
  crt_PublicKey :: "string option"
  crt_NotBefore :: time
  crt_NotAfter :: time

record trust_env =
  te_parse :: "string \<Rightarrow> certificate option"
  te_verify :: "string \<Rightarrow> string \<Rightarrow> string \<Rightarrow> bool"
  te_sha256 :: "string \<Rightarrow> string"
  te_base64 :: "string \<Rightarrow> string option"
  te_canonicalArtifact :: "Artifact \<Rightarrow> string option"
  te_canonicalCollection :: "Collection \<Rightarrow> string option"

definition SHA256Hex :: "trust_env \<Rightarrow> string \<Rightarrow> string" where
  "SHA256Hex env b = hexEncode (te_sha256 env b)"

definition FingerprintOf :: "trust_env \<Rightarrow> string \<Rightarrow> string" where
  "FingerprintOf env pub = hexEncode (te_sha256 env pub)"

definition Verify :: "trust_env \<Rightarrow> string \<Rightarrow> string \<Rightarrow> string \<Rightarrow> bool" where
  "Verify env pub objectBytes sig = te_verify env pub objectBytes sig"

definition ParseCertificatePublicKey :: "trust_env \<Rightarrow> string \<Rightarrow> time \<Rightarrow> string option" where
  "ParseCertificatePublicKey env certPEM instant =
     (case te_parse env certPEM of
        None \<Rightarrow> None
      | Some cert \<Rightarrow>
          (case crt_PublicKey cert of
             None \<Rightarrow> None
           | Some pub \<Rightarrow> if instant < crt_NotBefore cert \<or> instant > crt_NotAfter cert then None else Some pub))"

text \<open>The name is cut at its first dot, which is neither its first nor its last character.\<close>

definition ParseCertificateSubject :: "trust_env \<Rightarrow> string \<Rightarrow> string \<Rightarrow> (string \<times> string) option" where
  "ParseCertificateSubject env certPEM pub =
     (case te_parse env certPEM of
        None \<Rightarrow> None
      | Some cert \<Rightarrow>
          (case crt_DNSNames cert of
             [san] \<Rightarrow>
               (let claimed = takeWhile (\<lambda>c. c \<noteq> CHR ''.'') san; rest = dropWhile (\<lambda>c. c \<noteq> CHR ''.'') san;
                    computed = FingerprintOf env pub in
                if claimed = [] \<or> length rest \<le> 1 then None
                else if claimed \<noteq> computed then None
                else Some (computed, drop 1 rest))
           | _ \<Rightarrow> None))"

section \<open>Answers (\<open>httperror.go\<close>)\<close>

text \<open>A result with its status, an error with its status, code and whether a retry may help, or 204.\<close>

datatype 'a pub_answer = Answered int 'a | Refused int string bool | NoBody

definition writeError :: "int \<Rightarrow> string \<Rightarrow> bool \<Rightarrow> 'a pub_answer" where
  "writeError status code retryable = Refused status code retryable"

definition badRequest :: "string \<Rightarrow> 'a pub_answer" where "badRequest code = writeError 400 code False"
definition notFoundErr :: "'a pub_answer" where "notFoundErr = writeError 404 ''NOT_FOUND'' False"
definition conflictErr :: "string \<Rightarrow> 'a pub_answer" where "conflictErr code = writeError 409 code False"
definition forbiddenErr :: "string \<Rightarrow> 'a pub_answer" where "forbiddenErr code = writeError 403 code False"
definition unauthorizedErr :: "'a pub_answer" where "unauthorizedErr = writeError 401 ''UNAUTHORIZED'' False"
definition internalErr :: "'a pub_answer" where "internalErr = writeError 500 ''INTERNAL_ERROR'' True"

lemmas answer_defs = badRequest_def notFoundErr_def conflictErr_def forbiddenErr_def unauthorizedErr_def internalErr_def writeError_def

definition writeIdentifierValidationError :: "repo_error \<Rightarrow> 'a pub_answer option" where
  "writeIdentifierValidationError err =
     (if err = ErrComplianceDocumentWrongOwner \<or> err = ErrInvalidComplianceDocumentType then Some (badRequest ''INVALID_FIELD'') else None)"

section \<open>Evidence (\<open>evidence.go\<close>)\<close>

record EvidenceSubmission =
  es_ObjectDigestValue :: string
  es_ObjectMediaType :: string
  es_ObjectLocation :: string
  es_SignatureFormat :: string
  es_SignatureValue :: string
  es_CertificatePEM :: string
  es_CertificateChain :: "string list"

definition validSignatureFormats :: "string list" where "validSignatureFormats = [''jws-detached'']"

text \<open>The checks both submission handlers make of a body before they look at the object, and the decoded digest and signature.\<close>

definition submission_bytes :: "trust_env \<Rightarrow> EvidenceSubmission \<Rightarrow> 'a pub_answer + (string \<times> string)" where
  "submission_bytes env req =
     (if es_ObjectDigestValue req = [] then Inl (badRequest ''MISSING_FIELD'')
      else if \<not> List.member validSignatureFormats (es_SignatureFormat req) then Inl (badRequest ''UNSUPPORTED_SIGNATURE_FORMAT'')
      else if es_SignatureValue req = [] then Inl (badRequest ''MISSING_FIELD'')
      else if es_CertificatePEM req = [] then Inl (badRequest ''MISSING_FIELD'')
      else case hexDecode (es_ObjectDigestValue req) of
             None \<Rightarrow> Inl (badRequest ''INVALID_FIELD'')
           | Some digestBytes \<Rightarrow>
               (case te_base64 env (es_SignatureValue req) of
                  None \<Rightarrow> Inl (badRequest ''INVALID_FIELD'')
                | Some sigBytes \<Rightarrow> Inr (digestBytes, sigBytes)))"

text \<open>The checks against the object: the digest, the certificate, the signature, the name in the certificate.\<close>

definition verified_subject ::
  "trust_env \<Rightarrow> time \<Rightarrow> EvidenceSubmission \<Rightarrow> string \<times> string \<Rightarrow> string option \<Rightarrow> 'a pub_answer + (string \<times> string)" where
  "verified_subject env now req = (\<lambda>(digestBytes, sigBytes) canonical.
     case canonical of
       None \<Rightarrow> Inl internalErr
     | Some bytes \<Rightarrow>
         if \<not> EqualFold (SHA256Hex env bytes) (es_ObjectDigestValue req) then Inl (badRequest ''DIGEST_MISMATCH'')
         else case ParseCertificatePublicKey env (es_CertificatePEM req) now of
                None \<Rightarrow> Inl (badRequest ''CERTIFICATE_INVALID'')
              | Some pub \<Rightarrow>
                  if \<not> Verify env pub digestBytes sigBytes then Inl (badRequest ''SIGNATURE_INVALID'')
                  else (case ParseCertificateSubject env (es_CertificatePEM req) pub of
                          None \<Rightarrow> Inl (badRequest ''CERTIFICATE_INVALID'')
                        | Some subject \<Rightarrow> Inr subject))"

definition withPathVersion :: "request \<Rightarrow> (uuid \<Rightarrow> int \<Rightarrow> 'a pub_answer \<times> 's) \<Rightarrow> 's \<Rightarrow> 'a pub_answer \<times> 's" where
  "withPathVersion r rest s =
     (case PathUUID r ''uuid'' of
        Inl _ \<Rightarrow> (badRequest ''INVALID_PATH_PARAMETER'', s)
      | Inr u \<Rightarrow> (case PathPositiveInt r ''version'' of Inl _ \<Rightarrow> (badRequest ''INVALID_PATH_PARAMETER'', s) | Inr v \<Rightarrow> rest u v))"

definition prepareArtifactEvidence :: "trust_env \<Rightarrow> request \<Rightarrow> db \<Rightarrow> (string \<times> Artifact) pub_answer \<times> db" where
  "prepareArtifactEvidence env r s =
     withPathVersion r (\<lambda>u v.
       case getArtifactByVersionTx s u v of
         Inl err \<Rightarrow> (if err = ErrNotFound then notFoundErr else internalErr, s)
       | Inr artifact \<Rightarrow>
           (case te_canonicalArtifact env artifact of
              None \<Rightarrow> (internalErr, s)
            | Some canonical \<Rightarrow> (Answered 200 (SHA256Hex env canonical, artifact), s))) s"

definition artifact_evidence :: "uuid \<Rightarrow> int \<Rightarrow> EvidenceSubmission \<Rightarrow> string \<times> string \<Rightarrow> EvidenceBundleInput" where
  "artifact_evidence u v req subject =
     \<lparr>ein_OwnerType = ''ARTIFACT'', ein_OwnerUUID = u, ein_OwnerVersion = v, ein_ObjectType = ''artifact'',
      ein_ObjectMediaType = es_ObjectMediaType req, ein_ObjectLocation = es_ObjectLocation req,
      ein_ObjectDigestValue = es_ObjectDigestValue req, ein_SignatureFormat = es_SignatureFormat req,
      ein_SignatureValue = es_SignatureValue req, ein_SignatureDigestValue = [], ein_CertificateFormat = ''x509-pem'',
      ein_CertificateValue = es_CertificatePEM req, ein_CertificateFingerprint = fst subject,
      ein_CertificateTrustDomain = snd subject\<rparr>"

definition submitArtifactEvidence ::
  "trust_env \<Rightarrow> time \<Rightarrow> uuid \<Rightarrow> request \<Rightarrow> EvidenceSubmission option \<Rightarrow> db \<Rightarrow> EvidenceBundle pub_answer \<times> db" where
  "submitArtifactEvidence env now newid r body s =
     withPathVersion r (\<lambda>u v.
       case body of
         None \<Rightarrow> (badRequest ''INVALID_REQUEST_BODY'', s)
       | Some req \<Rightarrow>
           (case submission_bytes env req of
              Inl a \<Rightarrow> (a, s)
            | Inr bytes \<Rightarrow>
                (case getArtifactByVersionTx s u v of
                   Inl err \<Rightarrow> (if err = ErrNotFound then notFoundErr else internalErr, s)
                 | Inr artifact \<Rightarrow>
                     (case verified_subject env now req bytes (te_canonicalArtifact env artifact) of
                        Inl a \<Rightarrow> (a, s)
                      | Inr subject \<Rightarrow>
                          (case CreateEvidenceBundle Pool newid (artifact_evidence u v req subject) s of
                             (Inl err, s1) \<Rightarrow>
                               (if err = ErrNotFound then notFoundErr
                                else if err = ErrFingerprintReused then badRequest ''FINGERPRINT_REUSED'' else internalErr, s1)
                           | (Inr bundle, s1) \<Rightarrow> (Answered 201 bundle, s1)))))) s"

section \<open>Collection drafts (\<open>collectiondraft.go\<close>)\<close>

record pub_config =
  pc_DraftTTL :: time
  pc_ApprovalTTL :: time
  pc_LockTTL :: time

record CollectionDraftArtifactList =
  cdl_Actor :: string
  cdl_Artifacts :: "ArtifactRef list"
  cdl_UpdateReason :: "UpdateReason option"
  cdl_ExpectedRevision :: "int option"

record ApprovalDecision =
  ad_Actor :: string
  ad_Comment :: string

definition digestOf :: "trust_env \<Rightarrow> Collection \<Rightarrow> string option" where
  "digestOf env c = map_option (SHA256Hex env) (te_canonicalCollection env c)"

definition writeCollectionDraftResult :: "repo_error + CollectionDraft \<Rightarrow> CollectionDraft pub_answer" where
  "writeCollectionDraftResult x =
     (case x of
        Inl err \<Rightarrow>
          if err = ErrNotFound then notFoundErr
          else if err = ErrDraftLocked then conflictErr ''CONFLICT''
          else if err = ErrDraftRevisionConflict then conflictErr ''REVISION_CONFLICT'' else internalErr
      | Inr draft \<Rightarrow> Answered 200 draft)"

definition withOwner :: "request \<Rightarrow> (uuid \<Rightarrow> 'a pub_answer \<times> 's) \<Rightarrow> 's \<Rightarrow> 'a pub_answer \<times> 's" where
  "withOwner r rest s =
     (case PathUUID r ''uuid'' of Inl _ \<Rightarrow> (badRequest ''INVALID_PATH_PARAMETER'', s) | Inr u \<Rightarrow> rest u)"

definition putCollectionDraftForOwner ::
  "pub_config \<Rightarrow> PublisherCredential \<Rightarrow> time \<Rightarrow> string \<Rightarrow> request \<Rightarrow> CollectionDraftArtifactList option \<Rightarrow> db
     \<Rightarrow> CollectionDraft pub_answer \<times> db" where
  "putCollectionDraftForOwner cfg cred now ownerType r body s =
     withOwner r (\<lambda>u.
       case body of
         None \<Rightarrow> (badRequest ''INVALID_REQUEST_BODY'', s)
       | Some req \<Rightarrow>
           if cdl_Actor req = [] then (badRequest ''MISSING_FIELD'', s)
           else (case PutCollectionDraft Pool now ownerType u (cdl_Actor req) (pcr_UUID cred) (cdl_Artifacts req) (cdl_UpdateReason req)
                       (pc_DraftTTL cfg) (cdl_ExpectedRevision req) s of
                   (x, s1) \<Rightarrow> (writeCollectionDraftResult x, s1))) s"

definition getCollectionDraftForOwner :: "string \<Rightarrow> request \<Rightarrow> db \<Rightarrow> CollectionDraft pub_answer \<times> db" where
  "getCollectionDraftForOwner ownerType r s =
     withOwner r (\<lambda>u. (writeCollectionDraftResult (getCollectionDraftTx s ownerType u), s)) s"

definition deleteCollectionDraftForOwner :: "string \<Rightarrow> request \<Rightarrow> db \<Rightarrow> unit pub_answer \<times> db" where
  "deleteCollectionDraftForOwner ownerType r s =
     withOwner r (\<lambda>u.
       case DeleteCollectionDraft ownerType u s of
         (Inl err, s1) \<Rightarrow> (if err = ErrNotFound then notFoundErr else internalErr, s1)
       | (Inr _, s1) \<Rightarrow> (NoBody, s1)) s"

definition decideCollectionDraftForOwner ::
  "pub_config \<Rightarrow> PublisherCredential \<Rightarrow> time \<Rightarrow> string \<Rightarrow> bool \<Rightarrow> request \<Rightarrow> ApprovalDecision option \<Rightarrow> db
     \<Rightarrow> CollectionDraft pub_answer \<times> db" where
  "decideCollectionDraftForOwner cfg cred now ownerType approve r body s =
     withOwner r (\<lambda>u.
       case body of
         None \<Rightarrow> (badRequest ''INVALID_REQUEST_BODY'', s)
       | Some req \<Rightarrow>
           if ad_Actor req = [] then (badRequest ''MISSING_FIELD'', s)
           else (case DecideCollectionDraft Pool now ownerType u (ad_Actor req) (pcr_UUID cred) (ad_Comment req) approve (pc_ApprovalTTL cfg) s of
                   (x, s1) \<Rightarrow> (if x = Inl ErrSelfApproval then forbiddenErr ''SELF_APPROVAL'' else writeCollectionDraftResult x, s1))) s"

definition prepareCollectionCommitForOwner ::
  "trust_env \<Rightarrow> pub_config \<Rightarrow> time \<Rightarrow> string \<Rightarrow> request \<Rightarrow> db \<Rightarrow> (string \<times> Collection) pub_answer \<times> db" where
  "prepareCollectionCommitForOwner env cfg now ownerType r s =
     withOwner r (\<lambda>u.
       case PrepareCollectionCommit Pool now ownerType u (pc_LockTTL cfg) s of
         (Inl err, s1) \<Rightarrow>
           (if err = ErrApprovalRequired then conflictErr ''APPROVAL_REQUIRED'' else if err = ErrNotFound then notFoundErr else internalErr, s1)
       | (Inr wouldBe, s1) \<Rightarrow>
           (case digestOf env wouldBe of None \<Rightarrow> (internalErr, s1) | Some d \<Rightarrow> (Answered 200 (d, wouldBe), s1))) s"

definition cancelPrepareCollectionCommitForOwner :: "time \<Rightarrow> string \<Rightarrow> request \<Rightarrow> db \<Rightarrow> unit pub_answer \<times> db" where
  "cancelPrepareCollectionCommitForOwner now ownerType r s =
     withOwner r (\<lambda>u.
       case CancelPrepareCollectionCommit now ownerType u s of
         (Inl err, s1) \<Rightarrow> (if err = ErrNotFound \<or> err = ErrLockNotHeld then notFoundErr else internalErr, s1)
       | (Inr _, s1) \<Rightarrow> (NoBody, s1)) s"

definition commit_evidence_of :: "EvidenceSubmission \<Rightarrow> string \<times> string \<Rightarrow> CommitEvidenceInput" where
  "commit_evidence_of req subject =
     \<lparr>cei_ObjectMediaType = es_ObjectMediaType req, cei_ObjectLocation = es_ObjectLocation req,
      cei_ObjectDigestValue = es_ObjectDigestValue req, cei_SignatureFormat = es_SignatureFormat req,
      cei_SignatureValue = es_SignatureValue req, cei_CertificateFormat = ''x509-pem'', cei_CertificateValue = es_CertificatePEM req,
      cei_CertificateFingerprint = fst subject, cei_CertificateTrustDomain = snd subject\<rparr>"

text \<open>
  The handler looks at the draft and verifies at \<open>now\<close>; the commit is a transaction of its own, at the time \<open>later\<close> and on
  whatever database \<open>s1\<close> it finds. \<open>commitCollectionDraftForOwner\<close> is the handler when no other request comes in between.
\<close>

definition verify_commit ::
  "trust_env \<Rightarrow> time \<Rightarrow> string \<Rightarrow> request \<Rightarrow> EvidenceSubmission option \<Rightarrow> db \<Rightarrow> Collection pub_answer + (uuid \<times> CommitEvidenceInput)" where
  "verify_commit env now ownerType r body s =
     (case PathUUID r ''uuid'' of
        Inl _ \<Rightarrow> Inl (badRequest ''INVALID_PATH_PARAMETER'')
      | Inr u \<Rightarrow>
     (case body of
        None \<Rightarrow> Inl (badRequest ''INVALID_REQUEST_BODY'')
      | Some req \<Rightarrow>
     (case submission_bytes env req of
        Inl a \<Rightarrow> Inl a
      | Inr bytes \<Rightarrow>
     (case PeekCollectionDraftCommit s now ownerType u of
        Inl err \<Rightarrow> Inl (if err = ErrApprovalRequired then conflictErr ''APPROVAL_REQUIRED''
                        else if err = ErrNotFound \<or> err = ErrLockNotHeld then notFoundErr else internalErr)
      | Inr wouldBe \<Rightarrow>
     (case verified_subject env now req bytes (te_canonicalCollection env wouldBe) of
        Inl a \<Rightarrow> Inl a
      | Inr subject \<Rightarrow> Inr (u, commit_evidence_of req subject))))))"

definition finish_commit :: "time \<Rightarrow> uuid \<Rightarrow> string \<Rightarrow> uuid \<times> CommitEvidenceInput \<Rightarrow> db \<Rightarrow> Collection pub_answer \<times> db" where
  "finish_commit later newid ownerType = (\<lambda>(u, ev) s1.
     case CommitCollectionDraft Pool later newid ownerType u ev s1 of
       (Inl err, s2) \<Rightarrow>
         (if err = ErrFingerprintReused then badRequest ''FINGERPRINT_REUSED''
          else if err = ErrApprovalRequired then conflictErr ''APPROVAL_REQUIRED''
          else if err = ErrNotFound \<or> err = ErrLockNotHeld then notFoundErr else internalErr, s2)
     | (Inr collection, s2) \<Rightarrow> (Answered 201 collection, s2))"

definition commitCollectionDraftForOwner ::
  "trust_env \<Rightarrow> time \<Rightarrow> time \<Rightarrow> uuid \<Rightarrow> string \<Rightarrow> request \<Rightarrow> EvidenceSubmission option \<Rightarrow> db \<Rightarrow> Collection pub_answer \<times> db" where
  "commitCollectionDraftForOwner env now later newid ownerType r body s =
     (case verify_commit env now ownerType r body s of Inl a \<Rightarrow> (a, s) | Inr ev \<Rightarrow> finish_commit later newid ownerType ev s)"

section \<open>Artifacts (\<open>artifact.go\<close>)\<close>

record ArtifactFormatCreate =
  afc_MediaType :: string
  afc_Description :: string

record ArtifactCreate =
  acr_Name :: string
  acr_Type :: string
  acr_DistributionIDs :: "uuid list"
  acr_Formats :: "ArtifactFormatCreate list"

record ArtifactVersionCreate = ArtifactCreate +
  avc_PreviousVersion :: "int option"

definition validArtifactTypes :: "string list" where
  "validArtifactTypes = [''ATTESTATION'', ''BOM'', ''BUILD_META'', ''CERTIFICATION'', ''FORMULATION'', ''LICENSE'', ''RELEASE_NOTES'',
     ''SECURITY_TXT'', ''THREAT_MODEL'', ''VULNERABILITIES'', ''OTHER'']"

definition maxArtifactFormats :: nat where "maxArtifactFormats = 50"

definition validateArtifactFields :: "string \<Rightarrow> ArtifactFormatCreate list \<Rightarrow> 'a pub_answer + ArtifactFormatInput list" where
  "validateArtifactFields artifactType formats =
     (if \<not> List.member validArtifactTypes artifactType then Inl (badRequest ''INVALID_FIELD'')
      else if formats = [] then Inl (badRequest ''MISSING_FIELD'')
      else if length formats > maxArtifactFormats then Inl (badRequest ''LIMIT_EXCEEDED'')
      else if list_ex (\<lambda>f. afc_MediaType f = []) formats then Inl (badRequest ''MISSING_FIELD'')
      else Inr (map (\<lambda>f. \<lparr>fin_MediaType = afc_MediaType f, fin_Description = afc_Description f\<rparr>) formats))"

definition writeArtifactCreated :: "Artifact \<Rightarrow> db \<Rightarrow> (Artifact \<times> uuid list) pub_answer \<times> db" where
  "writeArtifactCreated a s = (Answered 201 (a, ArtifactFormatIDs s (art_UUID a) (art_Version a)), s)"

definition artifact_input :: "time \<Rightarrow> ('x :: type) ArtifactCreate_scheme \<Rightarrow> ArtifactFormatInput list \<Rightarrow> ArtifactInput" where
  "artifact_input now req formats =
     \<lparr>ain_Name = acr_Name req, ain_Type = acr_Type req, ain_CreatedDate = Some now, ain_DistributionIDs = acr_DistributionIDs req,
      ain_Formats = formats\<rparr>"

definition pub_createArtifact ::
  "time \<Rightarrow> uuid \<Rightarrow> (nat \<Rightarrow> uuid) \<Rightarrow> ArtifactCreate option \<Rightarrow> db \<Rightarrow> (Artifact \<times> uuid list) pub_answer \<times> db" where
  "pub_createArtifact now newid gen body s =
     (case body of
        None \<Rightarrow> (badRequest ''INVALID_REQUEST_BODY'', s)
      | Some req \<Rightarrow>
          (case validateArtifactFields (acr_Type req) (acr_Formats req) of
             Inl a \<Rightarrow> (a, s)
           | Inr formats \<Rightarrow>
               (case CreateArtifact Pool newid gen (artifact_input now req formats) s of
                  (Inl _, s1) \<Rightarrow> (internalErr, s1)
                | (Inr a, s1) \<Rightarrow> writeArtifactCreated a s1)))"

definition pub_createArtifactVersion ::
  "time \<Rightarrow> (nat \<Rightarrow> uuid) \<Rightarrow> request \<Rightarrow> ArtifactVersionCreate option \<Rightarrow> db \<Rightarrow> (Artifact \<times> uuid list) pub_answer \<times> db" where
  "pub_createArtifactVersion now gen r body s =
     withOwner r (\<lambda>u.
       case body of
         None \<Rightarrow> (badRequest ''INVALID_REQUEST_BODY'', s)
       | Some req \<Rightarrow>
           (case validateArtifactFields (acr_Type req) (acr_Formats req) of
              Inl a \<Rightarrow> (a, s)
            | Inr formats \<Rightarrow>
                (case CreateArtifactVersion Pool u (avc_PreviousVersion req) gen (artifact_input now req formats) s of
                   (Inl err, s1) \<Rightarrow>
                     (if err = ErrNotFound then notFoundErr
                      else if err = ErrVersionConflict then conflictErr ''REVISION_CONFLICT'' else internalErr, s1)
                 | (Inr a, s1) \<Rightarrow> writeArtifactCreated a s1))) s"

text \<open>The multipart form of an upload: a format id, a media type, and a file with its declared type.\<close>

record pub_form =
  pf_formatId :: string
  pf_mediaType :: string
  pf_file :: "(string \<times> string) option"

fun resolve_loop :: "string \<Rightarrow> nat \<Rightarrow> nat option \<Rightarrow> ArtifactFormat list \<Rightarrow> 'a pub_answer + nat" where
  "resolve_loop mediaType i found [] = (case found of None \<Rightarrow> Inl notFoundErr | Some k \<Rightarrow> Inr k)"
| "resolve_loop mediaType i found (f # fs) =
     (if fmt_MediaType f \<noteq> mediaType then resolve_loop mediaType (Suc i) found fs
      else if found \<noteq> None then Inl (badRequest ''AMBIGUOUS_FORMAT'')
      else resolve_loop mediaType (Suc i) (Some i) fs)"

definition resolveArtifactFormatIndex :: "Artifact \<Rightarrow> string \<Rightarrow> 'a pub_answer + nat" where
  "resolveArtifactFormatIndex artifact mediaType = resolve_loop mediaType 0 None (art_Formats artifact)"

definition resolveArtifactFormat :: "db \<Rightarrow> pub_form \<Rightarrow> Artifact \<Rightarrow> uuid \<Rightarrow> int \<Rightarrow> 'a pub_answer + nat" where
  "resolveArtifactFormat s form artifact u v =
     (if pf_formatId form \<noteq> []
      then (case ArtifactFormatIndexByID s u v (pf_formatId form) of
              Inl err \<Rightarrow> Inl (if err = ErrNotFound then notFoundErr else internalErr)
            | Inr i \<Rightarrow> Inr i)
      else if pf_mediaType form = [] then Inl (badRequest ''MISSING_FIELD'')
      else resolveArtifactFormatIndex artifact (pf_mediaType form))"

definition receiveUploadedFile ::
  "(string \<Rightarrow> fs \<Rightarrow> (repo_error + (string \<times> nat)) \<times> fs) \<Rightarrow> pub_form \<Rightarrow> db \<times> fs
     \<Rightarrow> ('a pub_answer + (string \<times> nat)) \<times> (db \<times> fs)" where
  "receiveUploadedFile put form = (\<lambda>(s, f).
     case pf_file form of
       None \<Rightarrow> (Inl (badRequest ''MISSING_FIELD''), (s, f))
     | Some (bytes, contentType) \<Rightarrow>
         (case put bytes f of
            (Inl _, f1) \<Rightarrow> (Inl internalErr, (s, f1))
          | (Inr (sha256Hex, n), f1) \<Rightarrow>
              (case UpsertBlob sha256Hex (int n) contentType s of
                 (Inl _, s1) \<Rightarrow> (Inl internalErr, (s1, f1))
               | (Inr _, s1) \<Rightarrow> (Inr (sha256Hex, n), (s1, f1)))))"

text \<open>What the two uploads share once the artifact is found and may be changed; \<open>attach\<close> records the file.\<close>

definition upload_to_format ::
  "(uuid \<Rightarrow> int \<Rightarrow> int \<Rightarrow> string \<Rightarrow> Artifact repo_op) \<Rightarrow> (string \<Rightarrow> fs \<Rightarrow> (repo_error + (string \<times> nat)) \<times> fs)
     \<Rightarrow> pub_form option \<Rightarrow> Artifact \<Rightarrow> uuid \<Rightarrow> int \<Rightarrow> db \<times> fs \<Rightarrow> (string \<times> nat) pub_answer \<times> (db \<times> fs)" where
  "upload_to_format attach put body artifact u v = (\<lambda>(s, f).
     case body of
       None \<Rightarrow> (badRequest ''INVALID_REQUEST_BODY'', (s, f))
     | Some form \<Rightarrow>
         (case resolveArtifactFormat s form artifact u v of
            Inl a \<Rightarrow> (a, (s, f))
          | Inr formatIndex \<Rightarrow>
              (case receiveUploadedFile put form (s, f) of
                 (Inl a, st) \<Rightarrow> (a, st)
               | (Inr (sha256Hex, n), (s1, f1)) \<Rightarrow>
                   (case attach u v (int formatIndex) sha256Hex s1 of
                      (Inl err, s2) \<Rightarrow> (if err = ErrNotFound then notFoundErr else internalErr, (s2, f1))
                    | (Inr _, s2) \<Rightarrow> (Answered 200 (sha256Hex, n), (s2, f1))))))"

definition pub_uploadArtifactFile ::
  "(string \<Rightarrow> fs \<Rightarrow> (repo_error + (string \<times> nat)) \<times> fs) \<Rightarrow> request \<Rightarrow> pub_form option \<Rightarrow> db \<times> fs
     \<Rightarrow> (string \<times> nat) pub_answer \<times> (db \<times> fs)" where
  "pub_uploadArtifactFile put r body st =
     withPathVersion r (\<lambda>u v.
       case getArtifactByVersionTx (fst st) u v of
         Inl err \<Rightarrow> (if err = ErrNotFound then notFoundErr else internalErr, st)
       | Inr artifact \<Rightarrow>
           (case GetEvidenceBundleForOwner (fst st) ''ARTIFACT'' u v of
              Inr _ \<Rightarrow> (conflictErr ''EVIDENCE_ALREADY_SUBMITTED'', st)
            | Inl err \<Rightarrow>
                if err \<noteq> ErrNotFound then (internalErr, st)
                else upload_to_format (SetArtifactFormatFile Pool) put body artifact u v st)) st"

definition pub_uploadArtifactSignatureFile ::
  "(string \<Rightarrow> fs \<Rightarrow> (repo_error + (string \<times> nat)) \<times> fs) \<Rightarrow> request \<Rightarrow> pub_form option \<Rightarrow> db \<times> fs
     \<Rightarrow> (string \<times> nat) pub_answer \<times> (db \<times> fs)" where
  "pub_uploadArtifactSignatureFile put r body st =
     withPathVersion r (\<lambda>u v.
       case getArtifactByVersionTx (fst st) u v of
         Inl err \<Rightarrow> (if err = ErrNotFound then notFoundErr else internalErr, st)
       | Inr artifact \<Rightarrow> upload_to_format (SetArtifactFormatSignatureFile Pool) put body artifact u v st) st"

section \<open>Catalogue and lifecycle (\<open>product.go\<close>, \<open>component.go\<close>, \<open>cle.go\<close>)\<close>

record NamedCreate =
  ncr_Name :: string
  ncr_Identifiers :: "Identifier list"

record ReleaseCreate =
  rcr_Version :: string
  rcr_ReleaseDate :: "time option"
  rcr_PreRelease :: "bool option"
  rcr_Identifiers :: "Identifier list"

definition answer_created :: "repo_error + 'a \<Rightarrow> 'a pub_answer" where
  "answer_created x =
     (case x of
        Inl err \<Rightarrow>
          if err = ErrNotFound then notFoundErr
          else (case writeIdentifierValidationError err of Some a \<Rightarrow> a | None \<Rightarrow> internalErr)
      | Inr a \<Rightarrow> Answered 201 a)"

definition pub_createProduct :: "uuid \<Rightarrow> NamedCreate option \<Rightarrow> db \<Rightarrow> Product pub_answer \<times> db" where
  "pub_createProduct newid body s =
     (case body of
        None \<Rightarrow> (badRequest ''INVALID_REQUEST_BODY'', s)
      | Some req \<Rightarrow>
          if ncr_Name req = [] then (badRequest ''MISSING_FIELD'', s)
          else (case CreateProduct newid (ncr_Name req) (ncr_Identifiers req) s of
                  (Inl err, s1) \<Rightarrow> (case writeIdentifierValidationError err of Some a \<Rightarrow> a | None \<Rightarrow> internalErr, s1)
                | (Inr p, s1) \<Rightarrow> (Answered 201 p, s1)))"

definition release_input :: "time \<Rightarrow> ReleaseCreate \<Rightarrow> ReleaseInput" where
  "release_input now req =
     \<lparr>rin_Version = rcr_Version req, rin_CreatedDate = now, rin_ReleaseDate = rcr_ReleaseDate req,
      rin_PreRelease = (case rcr_PreRelease req of None \<Rightarrow> False | Some b \<Rightarrow> b), rin_Identifiers = rcr_Identifiers req\<rparr>"

definition pub_createProductRelease ::
  "time \<Rightarrow> uuid \<Rightarrow> request \<Rightarrow> ReleaseCreate option \<Rightarrow> db \<Rightarrow> ProductRelease pub_answer \<times> db" where
  "pub_createProductRelease now newid r body s =
     withOwner r (\<lambda>u.
       case body of
         None \<Rightarrow> (badRequest ''INVALID_REQUEST_BODY'', s)
       | Some req \<Rightarrow>
           if rcr_Version req = [] then (badRequest ''MISSING_FIELD'', s)
           else (case CreateProductRelease now newid u (release_input now req) s of (x, s1) \<Rightarrow> (answer_created x, s1))) s"

definition pub_linkComponent :: "request \<Rightarrow> ComponentRef option \<Rightarrow> db \<Rightarrow> ProductRelease pub_answer \<times> db" where
  "pub_linkComponent r body s =
     withOwner r (\<lambda>u.
       case body of
         None \<Rightarrow> (badRequest ''INVALID_REQUEST_BODY'', s)
       | Some ref \<Rightarrow>
           if ref_UUID ref = [] then (badRequest ''MISSING_FIELD'', s)
           else (case LinkComponent Pool u ref s of
                   (Inl err, s1) \<Rightarrow> (if err = ErrNotFound then notFoundErr else internalErr, s1)
                 | (Inr pr, s1) \<Rightarrow> (Answered 200 pr, s1))) s"

definition findComponentsLimit :: int where "findComponentsLimit = 1000"

definition pub_findComponents :: "request \<Rightarrow> db \<Rightarrow> (Component list \<times> bool) pub_answer \<times> db" where
  "pub_findComponents r s = (Answered 200 (SearchComponents s (req_query r ''q'') findComponentsLimit), s)"

definition pub_createComponent :: "uuid \<Rightarrow> NamedCreate option \<Rightarrow> db \<Rightarrow> Component pub_answer \<times> db" where
  "pub_createComponent newid body s =
     (case body of
        None \<Rightarrow> (badRequest ''INVALID_REQUEST_BODY'', s)
      | Some req \<Rightarrow>
          if ncr_Name req = [] then (badRequest ''MISSING_FIELD'', s)
          else (case CreateComponent newid (ncr_Name req) (ncr_Identifiers req) s of
                  (Inl (err, existing), s1) \<Rightarrow>
                    (if err = ErrComponentIdentifierConflict
                     then (case existing of Some c \<Rightarrow> Answered 409 c | None \<Rightarrow> internalErr)
                     else (case writeIdentifierValidationError err of Some a \<Rightarrow> a | None \<Rightarrow> internalErr), s1)
                | (Inr c, s1) \<Rightarrow> (Answered 201 c, s1)))"

definition pub_createComponentRelease ::
  "time \<Rightarrow> uuid \<Rightarrow> request \<Rightarrow> ReleaseCreate option \<Rightarrow> db \<Rightarrow> ComponentRelease pub_answer \<times> db" where
  "pub_createComponentRelease now newid r body s =
     withOwner r (\<lambda>u.
       case body of
         None \<Rightarrow> (badRequest ''INVALID_REQUEST_BODY'', s)
       | Some req \<Rightarrow>
           if rcr_Version req = [] then (badRequest ''MISSING_FIELD'', s)
           else (case CreateComponentRelease now newid u (release_input now req) s of (x, s1) \<Rightarrow> (answer_created x, s1))) s"

text \<open>A body with the dates it has; a missing date is the zero time, \<open>None\<close> here.\<close>

record CLEEventCreate =
  cec_Effective :: "time option"
  cec_Published :: "time option"
  cec_Rest :: CLEEventInput

definition pub_createCLEEventForOwner :: "string \<Rightarrow> request \<Rightarrow> CLEEventCreate option \<Rightarrow> db \<Rightarrow> CLEEvent pub_answer \<times> db" where
  "pub_createCLEEventForOwner ownerType r body s =
     withOwner r (\<lambda>u.
       case body of
         None \<Rightarrow> (badRequest ''INVALID_REQUEST_BODY'', s)
       | Some req \<Rightarrow>
           if CLEEventInput.cei_Type (cec_Rest req) = [] then (badRequest ''MISSING_FIELD'', s)
           else (case (cec_Effective req, cec_Published req) of
                   (Some effective, Some published) \<Rightarrow>
                     (case CreateCLEEvent Pool ownerType u ((cec_Rest req)\<lparr>cei_Effective := effective, cei_Published := published\<rparr>) s of
                        (Inl err, s1) \<Rightarrow> (case writeIdentifierValidationError err of Some a \<Rightarrow> a | None \<Rightarrow> internalErr, s1)
                      | (Inr e, s1) \<Rightarrow> (Answered 201 e, s1))
                 | _ \<Rightarrow> (badRequest ''MISSING_FIELD'', s))) s"

section \<open>The router and its scopes (\<open>router.go\<close>)\<close>

text \<open>A call names its endpoint and carries the body and what the operation draws: identifiers, and the later time of a commit.\<close>

datatype pub_call =
    CreateProductCall uuid "NamedCreate option"
  | CreateProductReleaseCall uuid "ReleaseCreate option"
  | FindComponentsCall
  | CreateComponentCall uuid "NamedCreate option"
  | CreateComponentReleaseCall uuid "ReleaseCreate option"
  | LinkComponentCall "ComponentRef option"
  | CreateArtifactCall uuid "nat \<Rightarrow> uuid" "ArtifactCreate option"
  | CreateArtifactVersionCall "nat \<Rightarrow> uuid" "ArtifactVersionCreate option"
  | UploadFileCall "pub_form option"
  | UploadSignatureCall "pub_form option"
  | PrepareEvidenceCall
  | SubmitEvidenceCall uuid "EvidenceSubmission option"
  | CLEEventCall string "CLEEventCreate option"
  | PutDraftCall string "CollectionDraftArtifactList option"
  | GetDraftCall string
  | DeleteDraftCall string
  | DecideDraftCall string bool "ApprovalDecision option"
  | PrepareCommitCall string
  | CancelPrepareCall string
  | CommitCall string uuid time "EvidenceSubmission option"

definition route_scope :: "pub_call \<Rightarrow> string" where
  "route_scope call =
     (case call of
        CreateProductCall _ _ \<Rightarrow> PublisherScopeFull
      | CreateProductReleaseCall _ _ \<Rightarrow> PublisherScopeFull
      | FindComponentsCall \<Rightarrow> PublisherScopeFull
      | CreateComponentCall _ _ \<Rightarrow> PublisherScopeFull
      | CreateComponentReleaseCall _ _ \<Rightarrow> PublisherScopeFull
      | LinkComponentCall _ \<Rightarrow> PublisherScopeFull
      | CLEEventCall _ _ \<Rightarrow> PublisherScopeFull
      | DecideDraftCall _ _ _ \<Rightarrow> PublisherScopeFull
      | _ \<Rightarrow> PublisherScopeCICD)"

text \<open>The status of an answer, with the new state.\<close>

definition status_of :: "'a pub_answer \<Rightarrow> int" where
  "status_of a = (case a of Answered n _ \<Rightarrow> n | Refused n _ _ \<Rightarrow> n | NoBody \<Rightarrow> 204)"

definition on_db :: "fs \<Rightarrow> 'a pub_answer \<times> db \<Rightarrow> int \<times> (db \<times> fs)" where
  "on_db f = (\<lambda>(a, s). (status_of a, (s, f)))"

definition on_both :: "'a pub_answer \<times> (db \<times> fs) \<Rightarrow> int \<times> (db \<times> fs)" where
  "on_both = (\<lambda>(a, st). (status_of a, st))"

type_synonym blob_put = "string \<Rightarrow> fs \<Rightarrow> (repo_error + (string \<times> nat)) \<times> fs"

definition run_call ::
  "trust_env \<Rightarrow> pub_config \<Rightarrow> blob_put \<Rightarrow> PublisherCredential \<Rightarrow> time \<Rightarrow> request \<Rightarrow> pub_call \<Rightarrow> db \<times> fs \<Rightarrow> int \<times> (db \<times> fs)" where
  "run_call env cfg put cred now r call = (\<lambda>(s, f).
     case call of
       CreateProductCall newid body \<Rightarrow> on_db f (pub_createProduct newid body s)
     | CreateProductReleaseCall newid body \<Rightarrow> on_db f (pub_createProductRelease now newid r body s)
     | FindComponentsCall \<Rightarrow> on_db f (pub_findComponents r s)
     | CreateComponentCall newid body \<Rightarrow> on_db f (pub_createComponent newid body s)
     | CreateComponentReleaseCall newid body \<Rightarrow> on_db f (pub_createComponentRelease now newid r body s)
     | LinkComponentCall body \<Rightarrow> on_db f (pub_linkComponent r body s)
     | CreateArtifactCall newid gen body \<Rightarrow> on_db f (pub_createArtifact now newid gen body s)
     | CreateArtifactVersionCall gen body \<Rightarrow> on_db f (pub_createArtifactVersion now gen r body s)
     | UploadFileCall body \<Rightarrow> on_both (pub_uploadArtifactFile put r body (s, f))
     | UploadSignatureCall body \<Rightarrow> on_both (pub_uploadArtifactSignatureFile put r body (s, f))
     | PrepareEvidenceCall \<Rightarrow> on_db f (prepareArtifactEvidence env r s)
     | SubmitEvidenceCall newid body \<Rightarrow> on_db f (submitArtifactEvidence env now newid r body s)
     | CLEEventCall ot body \<Rightarrow> on_db f (pub_createCLEEventForOwner ot r body s)
     | PutDraftCall ot body \<Rightarrow> on_db f (putCollectionDraftForOwner cfg cred now ot r body s)
     | GetDraftCall ot \<Rightarrow> on_db f (getCollectionDraftForOwner ot r s)
     | DeleteDraftCall ot \<Rightarrow> on_db f (deleteCollectionDraftForOwner ot r s)
     | DecideDraftCall ot approve body \<Rightarrow> on_db f (decideCollectionDraftForOwner cfg cred now ot approve r body s)
     | PrepareCommitCall ot \<Rightarrow> on_db f (prepareCollectionCommitForOwner env cfg now ot r s)
     | CancelPrepareCall ot \<Rightarrow> on_db f (cancelPrepareCollectionCommitForOwner now ot r s)
     | CommitCall ot newid later body \<Rightarrow> on_db f (commitCollectionDraftForOwner env now later newid ot r body s))"

record pub_env =
  px_trust :: trust_env
  px_config :: pub_config
  px_put :: blob_put

record pub_request =
  pq_auth :: auth_request
  pq_params :: request
  pq_call :: pub_call

definition publisher_handle :: "pub_env \<Rightarrow> pub_request \<Rightarrow> db \<times> fs \<Rightarrow> int \<times> (db \<times> fs)" where
  "publisher_handle px q st =
     (case requireScope (te_sha256 (px_trust px)) (fst st) (route_scope (pq_call q)) (pq_auth q) of
        Proceed cred \<Rightarrow> run_call (px_trust px) (px_config px) (px_put px) cred (ar_now (pq_auth q)) (pq_params q) (pq_call q) st
      | Unauthorized _ \<Rightarrow> (401, st)
      | Forbidden _ \<Rightarrow> (403, st)
      | SeeOther _ \<Rightarrow> (303, st)
      | GateError _ \<Rightarrow> (500, st))"

section \<open>What a commit has checked\<close>

lemma hex_value_fold: "hex_value (fold_char c) = hex_value c"
  by (simp add: hex_value_def fold_char_def Let_def)

lemma hexDecode_fold: "hexDecode (map fold_char x) = hexDecode x"
  by (induction x rule: hexDecode.induct) (simp_all add: hex_value_fold split: option.splits)

lemma hexDecode_EqualFold: "EqualFold a b \<Longrightarrow> hexDecode a = hexDecode b"
  by (metis EqualFold_def hexDecode_fold)

lemma hex_value_digit: "hex_value (hex_digit n) = Some (n mod 16)"
proof -
  have "\<forall>i \<in> set [0..<16]. hex_value (hex_digit i) = Some i" by code_simp
  then have "hex_value (hex_digit (n mod 16)) = Some (n mod 16)" by simp
  then show ?thesis by (simp add: hex_digit_def)
qed

lemma hexDecode_hexEncode: "hexDecode (hexEncode b) = Some b"
proof (induction b)
  case (Cons c b)
  have "of_char c div 16 < (16 :: nat)" by (rule less_mult_imp_div_less) simp
  then have "char_of (16 * (of_char c div 16 mod 16) + of_char c mod 16 :: nat) = c" by simp
  with Cons show ?case by (simp add: hexEncode_def hex_value_digit)
qed (simp add: hexEncode_def)

lemma submission_bytes_Inr:
  "submission_bytes env req = Inr (d, sig) \<longleftrightarrow> es_ObjectDigestValue req \<noteq> [] \<and> List.member validSignatureFormats (es_SignatureFormat req)
     \<and> es_SignatureValue req \<noteq> [] \<and> es_CertificatePEM req \<noteq> [] \<and> hexDecode (es_ObjectDigestValue req) = Some d
     \<and> te_base64 env (es_SignatureValue req) = Some sig"
  by (auto simp: submission_bytes_def split: option.splits)

lemma cut_at_dot:
  assumes "1 < length (dropWhile (\<lambda>c. c \<noteq> CHR ''.'') san)"
  shows "san = takeWhile (\<lambda>c. c \<noteq> CHR ''.'') san @ CHR ''.'' # drop 1 (dropWhile (\<lambda>c. c \<noteq> CHR ''.'') san)"
proof -
  from assms obtain x rest where x: "dropWhile (\<lambda>c. c \<noteq> CHR ''.'') san = x # rest" by (cases "dropWhile (\<lambda>c. c \<noteq> CHR ''.'') san") auto
  then have "x = CHR ''.''" using hd_dropWhile [of "\<lambda>c. c \<noteq> CHR ''.''" san] by auto
  with x show ?thesis using takeWhile_dropWhile_id [of "\<lambda>c. c \<noteq> CHR ''.''" san] by simp
qed

lemma ParseCertificateSubject_Some:
  assumes "ParseCertificateSubject env pem pub = Some (fp, td)"
  obtains cert where "te_parse env pem = Some cert" "crt_DNSNames cert = [fp @ CHR ''.'' # td]" "fp = FingerprintOf env pub"
proof -
  from assms obtain cert san where c: "te_parse env pem = Some cert" "crt_DNSNames cert = [san]" "fp = FingerprintOf env pub"
      "takeWhile (\<lambda>c. c \<noteq> CHR ''.'') san = fp" "1 < length (dropWhile (\<lambda>c. c \<noteq> CHR ''.'') san)"
      "td = drop 1 (dropWhile (\<lambda>c. c \<noteq> CHR ''.'') san)"
    by (auto simp: ParseCertificateSubject_def Let_def split: option.splits list.splits if_splits)
  with cut_at_dot [OF c(5)] show thesis by (intro that) simp_all
qed

lemma verified_subject_Inr:
  assumes "submission_bytes env req = Inr bytes" and "verified_subject env now req bytes canonical = Inr (fp, td)"
  obtains doc cert pub sig where "canonical = Some doc" "hexDecode (es_ObjectDigestValue req) = Some (te_sha256 env doc)"
    "te_base64 env (es_SignatureValue req) = Some sig" "te_verify env pub (te_sha256 env doc) sig"
    "te_parse env (es_CertificatePEM req) = Some cert" "crt_PublicKey cert = Some pub" "crt_NotBefore cert \<le> now" "now \<le> crt_NotAfter cert"
    "fp = hexEncode (te_sha256 env pub)" "crt_DNSNames cert = [fp @ CHR ''.'' # td]"
proof -
  obtain d sig where b: "bytes = (d, sig)" by force
  from assms(2) obtain doc pub where doc: "canonical = Some doc" "EqualFold (SHA256Hex env doc) (es_ObjectDigestValue req)"
      "ParseCertificatePublicKey env (es_CertificatePEM req) now = Some pub" "te_verify env pub d sig"
      "ParseCertificateSubject env (es_CertificatePEM req) pub = Some (fp, td)"
    by (auto simp: b verified_subject_def Verify_def split: option.splits if_splits)
  from doc(2) have h: "hexDecode (es_ObjectDigestValue req) = Some (te_sha256 env doc)"
    using hexDecode_EqualFold hexDecode_hexEncode unfolding SHA256Hex_def by metis
  with assms(1) have d: "d = te_sha256 env doc" "te_base64 env (es_SignatureValue req) = Some sig"
    by (auto simp: b submission_bytes_Inr)
  from doc(5) obtain cert where c: "te_parse env (es_CertificatePEM req) = Some cert" "crt_DNSNames cert = [fp @ CHR ''.'' # td]"
      "fp = FingerprintOf env pub" by (rule ParseCertificateSubject_Some)
  from doc(3) c(1) have "crt_PublicKey cert = Some pub" "crt_NotBefore cert \<le> now" "now \<le> crt_NotAfter cert"
    by (auto simp: ParseCertificatePublicKey_def split: option.splits if_splits)
  with doc(1,4) h d c show thesis by (intro that) (auto simp: FingerprintOf_def)
qed

text \<open>
  Under the lock, the document depends neither on when it is asked for nor on anything but the draft, the release's
  versions and the artifacts.
\<close>

definition same_draft_content :: "uuid \<Rightarrow> db \<Rightarrow> db \<Rightarrow> bool" where
  "same_draft_content u s s1 \<longleftrightarrow> tbl_draft s1 = tbl_draft s \<and> tbl_draft_artifact s1 = tbl_draft_artifact s
     \<and> collection_versions u s1 = collection_versions u s \<and> getArtifactByVersionTx s1 = getArtifactByVersionTx s"

lemma same_draft_content_refl: "same_draft_content u s s"
  by (simp add: same_draft_content_def)

lemma locked_would_be_unique:
  assumes "buildWouldBeCollectionTx s now ot u True = Inr c" "buildWouldBeCollectionTx s1 later ot u True = Inr c'"
    and "same_draft_content u s s1"
  shows "c = c'"
proof -
  have "listCollectionDraftArtifactsTx s1 ot u = listCollectionDraftArtifactsTx s ot u" "next_version u s1 = next_version u s"
    using assms(3) by (simp_all add: same_draft_content_def listCollectionDraftArtifactsTx_def next_version_def)
  with assms show ?thesis unfolding buildWouldBe_Inr same_draft_content_def by auto
qed

lemma finish_commit_201:
  "finish_commit later newid ot (u, ev) s = (Answered 201 c, s') \<longleftrightarrow> CommitCollectionDraft Pool later newid ot u ev s = (Inr c, s')"
  by (auto simp: finish_commit_def answer_defs split: prod.splits sum.splits if_splits)

lemma verify_commit_Inr:
  assumes "verify_commit env now ot r (Some req) s = Inr (u, ev)"
  obtains wouldBe fp td bytes where "PathUUID r ''uuid'' = Inr u" "buildWouldBeCollectionTx s now ot u True = Inr wouldBe"
    "submission_bytes env req = (Inr bytes :: Collection pub_answer + _)"
    "verified_subject env now req bytes (te_canonicalCollection env wouldBe) = (Inr (fp, td) :: Collection pub_answer + _)"
    "ev = commit_evidence_of req (fp, td)"
  using assms by (auto simp: verify_commit_def PeekCollectionDraftCommit_def split: sum.splits)

lemma submission_bytes_Inl: "submission_bytes env req = Inl a \<Longrightarrow> \<exists>code. a = Refused 400 code False"
  by (auto simp: submission_bytes_def answer_defs split: option.splits if_splits)

lemma verified_subject_Inl: "verified_subject env now req bytes canonical = Inl a \<Longrightarrow> a = internalErr \<or> (\<exists>code. a = Refused 400 code False)"
  by (cases bytes) (auto simp: verified_subject_def badRequest_def writeError_def split: option.splits if_splits)

lemma verify_commit_refuses: "verify_commit env now ot r body s \<noteq> Inl (Answered n c)"
proof
  assume "verify_commit env now ot r body s = Inl (Answered n c)"
  then show False
    by (auto simp: verify_commit_def answer_defs split: sum.splits option.splits if_splits
        dest!: submission_bytes_Inl verified_subject_Inl)
qed

lemma fingerprint_recorded:
  assumes "CreateEvidenceBundle conn i inp s = (Inr b, s')"
  shows "ein_CertificateFingerprint inp \<in> fp_fingerprint ` set (tbl_fingerprint s')"
  using assms by (auto simp: CreateEvidenceBundle_Inr with_evidence_def update_rows_def split: if_splits)

text \<open>
  C6. A published collection is signed, and the signature is the one the release's certificate makes, as long as what was
  verified is what is committed. The handler verifies the evidence on the database it finds and commits in a transaction
  of its own; in between other requests may change the database, but not the draft, the release's collection versions
  or the artifacts. When it answers with 201, the collection it answers with is the release's new version as stored;
  the digest submitted is that of the collection's canonical form; the signature verifies over this digest under the
  key of the certificate submitted, which is valid at the time of the request and carries the key's own fingerprint as
  its host name; and the evidence stored for this version has the digest, the signature and the fingerprint.
  (An artifact replaced in between is published under the old signature: \<open>commit_publishes_unsigned\<close>.)
\<close>

theorem signed_commit:
  assumes "verify_commit env now ot r (Some req) s = Inr (u, ev)" and "same_draft_content u s s1" and "collection_wf s1"
    and "finish_commit later newid ot (u, ev) s1 = (Answered 201 c, s')"
  shows "\<exists>doc cert pub sig td.
     PathUUID r ''uuid'' = Inr u \<and> getCollectionByVersionTx s' u (coll_Version c) ot = Inr c
     \<and> te_canonicalCollection env c = Some doc \<and> hexDecode (es_ObjectDigestValue req) = Some (te_sha256 env doc)
     \<and> te_base64 env (es_SignatureValue req) = Some sig \<and> te_verify env pub (te_sha256 env doc) sig
     \<and> te_parse env (es_CertificatePEM req) = Some cert \<and> crt_PublicKey cert = Some pub
     \<and> crt_NotBefore cert \<le> now \<and> now \<le> crt_NotAfter cert \<and> crt_DNSNames cert = [FingerprintOf env pub @ CHR ''.'' # td]
     \<and> (\<exists>e \<in> set (tbl_evidence s'). er_owner_type e = ''COLLECTION'' \<and> er_owner e = u \<and> er_owner_version e = coll_Version c
          \<and> er_object_digest e = es_ObjectDigestValue req \<and> er_signature_value e = es_SignatureValue req)
     \<and> FingerprintOf env pub \<in> fp_fingerprint ` set (tbl_fingerprint s')"
proof -
  from assms(4) have c: "CommitCollectionDraft Pool later newid ot u ev s1 = (Inr c, s')" by (simp add: finish_commit_201)
  from assms(1) obtain wb fp td bytes where u: "PathUUID r ''uuid'' = Inr u" and wb: "buildWouldBeCollectionTx s now ot u True = Inr wb"
    and b: "submission_bytes env req = (Inr bytes :: Collection pub_answer + _)"
    and vs: "verified_subject env now req bytes (te_canonicalCollection env wb) = (Inr (fp, td) :: Collection pub_answer + _)"
    and ev: "ev = commit_evidence_of req (fp, td)" by (rule verify_commit_Inr)
  obtain b s2 s3 where
    wb': "buildWouldBeCollectionTx s1 later ot u True = Inr c"
    and ok: "insertable u (next_version u s1) ot (coll_UpdateReason c) (cin_Artifacts (commit_input c)) s1"
    and s2: "s2 = with_collection u (next_version u s1) (coll_CreatedDate c) ot (coll_UpdateReason c) (cin_Artifacts (commit_input c)) s1"
    and e: "CreateEvidenceBundle InTx newid (collection_evidence u (coll_Version c) ev) s2 = (Inr b, s3)"
    and s': "s' = delete_draft ot u s3" by (rule commit_steps [OF assms(3) c])
  have "wb = c" by (rule locked_would_be_unique [OF wb wb' assms(2)])
  moreover from wb' have "coll_Version c = next_version u s1" by (auto simp: buildWouldBe_Inr)
  then have "getCollectionByVersionTx s' u (coll_Version c) ot = Inr c"
    unfolding s' evidence_keeps_collections(1) [OF e] using wouldBe_created [OF assms(3) wb' ok] by (simp add: s2)
  moreover have "fp \<in> fp_fingerprint ` set (tbl_fingerprint s')"
    using fingerprint_recorded [OF e] by (simp add: s' delete_draft_def collection_evidence_def ev commit_evidence_of_def)
  moreover have "tbl_evidence s' = tbl_evidence s3" by (simp add: s' delete_draft_def)
  ultimately show ?thesis
    using u evidence_recorded [OF e] by (rule_tac verified_subject_Inr [OF b vs]) (auto simp: collection_evidence_def ev commit_evidence_of_def FingerprintOf_def)
qed

text \<open>The handler is the case of no other request in between.\<close>

lemma handler_201:
  assumes "commitCollectionDraftForOwner env now later newid ot r (Some req) s = (Answered 201 c, s')"
  obtains u ev where "verify_commit env now ot r (Some req) s = Inr (u, ev)" "finish_commit later newid ot (u, ev) s = (Answered 201 c, s')"
  using assms by (auto simp: commitCollectionDraftForOwner_def verify_commit_refuses split: sum.splits)

section \<open>What the operations behind the narrow scope write\<close>

text \<open>A view of the database that artifacts, collections, evidence, blobs and the lock of a draft have no part in.\<close>

locale artifact_frame = db_view +
  assumes view_artifact: "view (s\<lparr>tbl_artifact := a\<rparr>) = view s"
    and view_format: "view (s\<lparr>tbl_artifact_format := b\<rparr>) = view s"
    and view_checksum: "view (s\<lparr>tbl_checksum := c\<rparr>) = view s"
    and view_artifact_distribution: "view (s\<lparr>tbl_artifact_distribution := d\<rparr>) = view s"
    and view_blob: "view (s\<lparr>tbl_blob := e\<rparr>) = view s"
    and view_fingerprint: "view (s\<lparr>tbl_fingerprint := f\<rparr>) = view s"
    and view_evidence: "view (s\<lparr>tbl_evidence := g\<rparr>) = view s"
    and view_collection: "view (s\<lparr>tbl_collection := h\<rparr>) = view s"
    and view_collection_artifact: "view (s\<lparr>tbl_collection_artifact := i\<rparr>) = view s"
    and view_watermark: "view (s\<lparr>tbl_watermark := j\<rparr>) = view s"
    and view_lock: "view (s\<lparr>tbl_draft := update_rows p (\<lambda>d. d\<lparr>d_lock_expires_at := k, d_lock_date := l\<rparr>) (tbl_draft s)\<rparr>) = view s"
begin

lemmas view_updates = view_artifact view_format view_checksum view_artifact_distribution view_blob view_fingerprint view_evidence
  view_collection view_collection_artifact view_watermark view_lock

lemma view_bumps: "view (bumpWatermark w s) = view s" "view (bump_artifact_revision u v s) = view s"
  by (simp_all add: bumpWatermark_def bump_artifact_revision_def view_updates)

lemma leaves_inserts:
  "leaves (insert_artifact u v n ty t)" "leaves (insert_artifact_distribution u v di)" "leaves (insert_artifact_format i u v mt de ur su)"
  "leaves (insert_checksum ot u ck)" "leaves (UpsertBlob h nb mt)" "leaves (insert_fingerprint fp td)" "leaves (insert_evidence i inp)"
  "leaves (insert_collection u v stamp b rt rc)" "leaves (insert_collection_artifact u v ar)"
  by (rule leavesI, simp add: insert_artifact_def insert_artifact_distribution_def insert_artifact_format_def insert_checksum_def
      UpsertBlob_def insert_fingerprint_def insert_evidence_def insert_collection_def insert_collection_artifact_def view_updates)+

lemmas leaves_rules = leaves_bind leaves_for leaves_return leaves_fail leaves_read leaves_exec leaves_inserts view_bumps view_updates

lemma leaves_artifacts:
  "leaves (insertArtifactTx gen u v inp)" "leaves (CreateArtifact conn i gen inp)" "leaves (CreateArtifactVersion conn u prev gen inp)"
  "leaves (SetArtifactFormatFile conn u v k h)" "leaves (SetArtifactFormatSignatureFile conn u v k h)"
proof -
  show ins: "leaves (insertArtifactTx gen u v inp)" for gen u v inp
    unfolding insertArtifactTx_def by (auto intro!: leaves_rules)
  show "leaves (CreateArtifact conn i gen inp)" unfolding CreateArtifact_def
    by (rule leaves_tx) (auto intro!: leavesD leaves_rules ins)
  show "leaves (CreateArtifactVersion conn u prev gen inp)" unfolding CreateArtifactVersion_def
    by (rule leaves_tx) (auto intro!: leavesD leaves_rules ins simp: Let_def split: option.splits)
  have upload: "leaves (bindR (execR (\<lambda>s. s\<lparr>tbl_checksum := delete_rows p (tbl_checksum s)\<rparr>)) (\<lambda>_. bindR (insertChecksums ot x cks)
      (\<lambda>_. bindR (execR (bump_artifact_revision u v)) (\<lambda>_. readR q))))" for p ot x cks and q :: "db \<Rightarrow> repo_error + Artifact"
    unfolding insertChecksums_def by (intro leaves_rules)
  show "leaves (SetArtifactFormatFile conn u v k h)"
    unfolding SetArtifactFormatFile_def by (rule leaves_tx) (simp add: Let_def leavesD [OF upload])
  have sig: "leaves (bindR (execR (\<lambda>s. s\<lparr>tbl_artifact_format := update_rows p g (tbl_artifact_format s)\<rparr>))
      (\<lambda>_. bindR (execR (bump_artifact_revision u v)) (\<lambda>_. readR q)))" for p g and q :: "db \<Rightarrow> repo_error + Artifact"
    by (intro leaves_rules)
  show "leaves (SetArtifactFormatSignatureFile conn u v k h)"
    unfolding SetArtifactFormatSignatureFile_def by (rule leaves_tx) (simp add: Let_def leavesD [OF sig])
qed

lemma leaves_evidence: "leaves (CreateEvidenceBundle conn i inp)"
  unfolding CreateEvidenceBundle_def
proof (rule leaves_tx)
  fix s
  have after: "view (snd (bindR (insert_evidence i inp) (\<lambda>_. bindR (execR (\<lambda>s. s\<lparr>tbl_fingerprint := update_rows p g (tbl_fingerprint s)\<rparr>))
      (\<lambda>_. readR q)) s1)) = view s1" for p g q s1
    by (intro leavesD leaves_rules)
  show "view (snd (case ownerExistsTx s (ein_OwnerType inp) (ein_OwnerUUID inp) (ein_OwnerVersion inp) of
         Inl err \<Rightarrow> (Inl err, s)
       | Inr found \<Rightarrow>
           if \<not> found then (Inl ErrNotFound, s)
           else (case insert_fingerprint (ein_CertificateFingerprint inp) (ein_CertificateTrustDomain inp) s of
              (Inl err, s1) \<Rightarrow>
                if err = ErrUniqueConstraint
                then (case identicalEvidenceBundleByFingerprintTx s1 inp of
                        Inl err' \<Rightarrow> (Inl err', s1)
                      | Inr (Some existing) \<Rightarrow> (Inr existing, s1)
                      | Inr None \<Rightarrow> (Inl ErrFingerprintReused, s1))
                else (Inl err, s1)
            | (Inr _, s1) \<Rightarrow>
                bindR (insert_evidence i inp) (\<lambda>_.
                bindR (execR (\<lambda>s. s\<lparr>tbl_fingerprint :=
                         update_rows (\<lambda>f. fp_fingerprint f = ein_CertificateFingerprint inp)
                           (\<lambda>f. f\<lparr>fp_bundle := Some i\<rparr>) (tbl_fingerprint s)\<rparr>)) (\<lambda>_.
                readR (\<lambda>s. getEvidenceBundleTx s i))) s1))) = view s"
    using leavesD [OF leaves_inserts(6), of "ein_CertificateFingerprint inp" "ein_CertificateTrustDomain inp" s]
    by (auto simp: after split: sum.splits prod.splits option.splits)
qed

lemma leaves_collections:
  "leaves (createCollection conn now u bt inp)" "leaves (CreateCollectionForComponentRelease conn now u inp)"
  "leaves (CreateCollectionForProductRelease conn now u inp)"
proof -
  show cc: "leaves (createCollection conn now u bt inp)" for bt
  proof -
    have body: "leaves (bindR (insert_collection u v d bt x y) (\<lambda>_. bindR (forR (insert_collection_artifact u v) refs)
        (\<lambda>_. bindR (execR (bumpWatermark w)) (\<lambda>_. readR q))))" for v d x y refs w and q :: "db \<Rightarrow> repo_error + Collection"
      by (intro leaves_rules)
    show ?thesis unfolding createCollection_def by (rule leaves_tx) (simp add: Let_def leavesD [OF body] split: prod.splits)
  qed
  show "leaves (CreateCollectionForComponentRelease conn now u inp)" "leaves (CreateCollectionForProductRelease conn now u inp)"
    by (rule leavesI, simp add: CreateCollectionForComponentRelease_def CreateCollectionForProductRelease_def leavesD [OF cc])+
qed

lemma leaves_locks: "leaves (PrepareCollectionCommit conn now ot u ttl)" "leaves (CancelPrepareCollectionCommit now ot u)"
proof -
  show "leaves (PrepareCollectionCommit conn now ot u ttl)"
    unfolding PrepareCollectionCommit_def by (rule leaves_tx) (intro leavesD leaves_rules)
  show "leaves (CancelPrepareCollectionCommit now ot u)"
    by (rule leavesI) (auto simp: CancelPrepareCollectionCommit_def view_updates split: sum.splits)
qed

end

locale draft_frame = artifact_frame +
  assumes view_draft: "view (s\<lparr>tbl_draft := m\<rparr>) = view s"
    and view_draft_artifact: "view (s\<lparr>tbl_draft_artifact := n\<rparr>) = view s"
begin

lemma view_delete_draft: "view (delete_draft ot u s) = view s"
  by (simp add: delete_draft_def view_draft view_draft_artifact)

lemma leaves_drafts:
  "leaves (PutCollectionDraft conn now ot u actor cred arts reason ttl expected)" "leaves (DeleteCollectionDraft ot u)"
  "leaves (CommitCollectionDraft conn now i ot u ev)"
proof -
  have "leaves (upsert_draft row)" "leaves (insert_draft_artifact ot u a)" for row a
    by (rule leavesI, simp add: upsert_draft_def insert_draft_artifact_def view_draft view_draft_artifact)+
  then have body: "leaves (bindR (upsert_draft row) (\<lambda>_. bindR (execR (\<lambda>s. s\<lparr>tbl_draft_artifact := delete_rows p (tbl_draft_artifact s)\<rparr>))
      (\<lambda>_. bindR (forR (insert_draft_artifact ot u) refs) (\<lambda>_. readR q))))" for row p refs and q :: "db \<Rightarrow> repo_error + CollectionDraft"
    by (intro leaves_rules view_draft_artifact)
  show "leaves (PutCollectionDraft conn now ot u actor cred arts reason ttl expected)" unfolding PutCollectionDraft_def
    by (rule leaves_tx) (simp add: Let_def leavesD [OF body] split: sum.splits prod.splits)
  show "leaves (DeleteCollectionDraft ot u)" by (rule leavesI) (simp add: DeleteCollectionDraft_def view_delete_draft)
  show "leaves (CommitCollectionDraft conn now i ot u ev)" unfolding CommitCollectionDraft_def
    by (rule leaves_with_tx) (auto intro!: leaves_rules leaves_collections leaves_evidence view_delete_draft simp: Let_def)
qed

end

text \<open>Everything a pipeline must not reach, and the decisions taken on drafts.\<close>

definition authority_view where
  "authority_view s = ((tbl_user s, tbl_session s, tbl_api_key s, tbl_access_token s, tbl_credential s),
     (tbl_template s, tbl_template_revision s, tbl_template_rule s, tbl_product_group s, tbl_product_group_member s,
      tbl_release_group s, tbl_release_group_member s, tbl_entitlement s),
     (tbl_product s, tbl_component s, tbl_product_release s, tbl_component_release s, tbl_release_component s, tbl_distribution s,
      tbl_identifier s),
     (tbl_cle_event s, tbl_cle_version s, tbl_cle_identifier s, tbl_cle_reference s, tbl_cle_support s, tbl_cle_revision s),
     (tbl_evidence_timestamp s, tbl_evidence_transparency s, tbl_evidence_ref s))"

definition decision_of where
  "decision_of d = (d_owner_type d, d_owner d, d_revision d, d_approval_status d, d_decided_by d, d_decided_by_credential d,
     d_decided_at d, d_decided_at_revision d, d_approval_expires_at d)"

definition decisions where
  "decisions s = decision_of ` set (filter (\<lambda>d. d_approval_status d \<noteq> ''none'') (tbl_draft s))"

interpretation authority: draft_frame authority_view
  by unfold_locales (simp_all add: authority_view_def)

lemma decisions_lock:
  "decisions (s\<lparr>tbl_draft := update_rows p (\<lambda>d. d\<lparr>d_lock_expires_at := k, d_lock_date := l\<rparr>) (tbl_draft s)\<rparr>) = decisions s"
proof -
  define g where "g d = (if p d then d\<lparr>d_lock_expires_at := k, d_lock_date := l\<rparr> else d)" for d
  have "decision_of (g d) = decision_of d" "d_approval_status (g d) = d_approval_status d" for d
    by (simp_all add: decision_of_def g_def)
  then have "decision_of ` set (filter (\<lambda>d. d_approval_status d \<noteq> ''none'') (map g rows)) =
      decision_of ` set (filter (\<lambda>d. d_approval_status d \<noteq> ''none'') rows)" for rows
    by (simp add: filter_map comp_def image_image)
  then show ?thesis by (simp add: decisions_def update_rows_def g_def [abs_def])
qed

interpretation decided: artifact_frame decisions
  by unfold_locales (fact decisions_lock | simp add: decisions_def)+

lemma decisions_delete: "decisions (delete_draft ot u s) \<subseteq> decisions s"
  by (auto simp: decisions_def delete_draft_def delete_rows_def)

lemma decisions_put: "decisions (snd (PutCollectionDraft Pool now ot u actor cred arts reason ttl expected s)) \<subseteq> decisions s"
proof (rule put_op.invariant_from_success [where I = "\<lambda>s'. decisions s' \<subseteq> decisions s"])
  fix x s'
  assume "PutCollectionDraft Pool now ot u actor cred arts reason ttl expected s = (Inr x, s')"
  then show "decisions s' \<subseteq> decisions s"
    by (cases rule: PutCollectionDraft_Inr) (auto simp: decisions_def new_draft_def update_rows_def split: if_splits)
qed simp

lemma decisions_commit: "decisions (snd (CommitCollectionDraft Pool now i ot u ev s)) \<subseteq> decisions s"
proof (rule commit_op.invariant_from_success [where I = "\<lambda>s'. decisions s' \<subseteq> decisions s"])
  fix c s'
  assume "CommitCollectionDraft Pool now i ot u ev s = (Inr c, s')"
  then show "decisions s' \<subseteq> decisions s"
  proof (rule CommitCollectionDraft_Inr)
    fix wb b s1 s2
    assume c: "createCollection InTx now u ot \<lparr>cin_UpdateReason = coll_UpdateReason wb,
        cin_Artifacts = map (\<lambda>a. \<lparr>aref_UUID = art_UUID a, aref_Version = art_Version a\<rparr>) (coll_Artifacts wb),
        cin_CreatedDate = Some (coll_CreatedDate wb)\<rparr> s = (Inr c, s1)"
      and e: "CreateEvidenceBundle InTx i (collection_evidence u (coll_Version c) ev) s1 = (Inr b, s2)"
      and s': "s' = delete_draft ot u s2"
    have "decisions s1 = decisions s" "decisions s2 = decisions s1"
      using decided.leavesD [OF decided.leaves_collections(1)] decided.leavesD [OF decided.leaves_evidence] c e by (metis snd_conv)+
    then show ?thesis unfolding s' using decisions_delete by metis
  qed
qed simp

text \<open>A database that a pipeline may have left behind \<open>s\<close>.\<close>

definition confined :: "db \<Rightarrow> db \<Rightarrow> bool" where
  "confined s s' \<longleftrightarrow> authority_view s' = authority_view s \<and> decisions s' \<subseteq> decisions s"

lemma confined_refl [simp]: "confined s s"
  by (simp add: confined_def)

lemma confined_trans: "confined s s1 \<Longrightarrow> confined s1 s2 \<Longrightarrow> confined s s2"
  by (auto simp: confined_def)

lemma confined_op: "authority.leaves op \<Longrightarrow> decided.leaves op \<Longrightarrow> op s = (r, s') \<Longrightarrow> confined s s'"
  using authority.leavesD [of op s] decided.leavesD [of op s] by (simp add: confined_def)

lemma confined_draft_op: "authority.leaves op \<Longrightarrow> decisions (snd (op s)) \<subseteq> decisions s \<Longrightarrow> op s = (r, s') \<Longrightarrow> confined s s'"
  using authority.leavesD [of op s] by (simp add: confined_def)

lemma decisions_remove: "decisions (snd (DeleteCollectionDraft ot u s)) \<subseteq> decisions s"
  using decisions_delete by (simp add: DeleteCollectionDraft_def)

lemmas confined_ops =
  confined_draft_op [OF authority.leaves_drafts(1) decisions_put] confined_draft_op [OF authority.leaves_drafts(2) decisions_remove]
  confined_draft_op [OF authority.leaves_drafts(3) decisions_commit]
  confined_op [OF authority.leaves_locks(1) decided.leaves_locks(1)] confined_op [OF authority.leaves_locks(2) decided.leaves_locks(2)]
  confined_op [OF authority.leaves_evidence decided.leaves_evidence]
  confined_op [OF authority.leaves_artifacts(2) decided.leaves_artifacts(2)]
  confined_op [OF authority.leaves_artifacts(3) decided.leaves_artifacts(3)]
  confined_op [OF authority.leaves_artifacts(4) decided.leaves_artifacts(4)]
  confined_op [OF authority.leaves_artifacts(5) decided.leaves_artifacts(5)]
  confined_op [OF authority.leaves_inserts(5) decided.leaves_inserts(5)]

lemma confined_upload:
  assumes "\<And>u v k h s x s'. attach u v k h s = (x, s') \<Longrightarrow> confined s s'" and "upload_to_format attach put body a u v st = (r, st')"
  shows "confined (fst st) (fst st')"
proof -
  obtain s f where st: "st = (s, f)" by force
  show ?thesis using assms(2) unfolding st
    by (auto simp: upload_to_format_def receiveUploadedFile_def split: option.splits sum.splits prod.splits
        dest!: confined_ops(11) assms(1) intro: confined_trans)
qed

lemma confined_draft_calls:
  "putCollectionDraftForOwner cfg cred now ot r b1 s = (x1, s') \<Longrightarrow> confined s s'"
  "deleteCollectionDraftForOwner ot r s = (x2, s') \<Longrightarrow> confined s s'"
  "getCollectionDraftForOwner ot r s = (x1, s') \<Longrightarrow> confined s s'"
  "prepareCollectionCommitForOwner env cfg now ot r s = (x3, s') \<Longrightarrow> confined s s'"
  "cancelPrepareCollectionCommitForOwner now ot r s = (x2, s') \<Longrightarrow> confined s s'"
  "commitCollectionDraftForOwner env now later i ot r b4 s = (x4, s') \<Longrightarrow> confined s s'"
  by (auto simp: putCollectionDraftForOwner_def deleteCollectionDraftForOwner_def getCollectionDraftForOwner_def
      prepareCollectionCommitForOwner_def cancelPrepareCollectionCommitForOwner_def commitCollectionDraftForOwner_def finish_commit_def
      withOwner_def split: sum.splits option.splits prod.splits if_splits dest: confined_ops)

lemma confined_artifact_calls:
  "pub_createArtifact now i gen b1 s = (x1, s') \<Longrightarrow> confined s s'"
  "pub_createArtifactVersion now gen r b2 s = (x2, s') \<Longrightarrow> confined s s'"
  "prepareArtifactEvidence env r s = (x3, s') \<Longrightarrow> confined s s'"
  "submitArtifactEvidence env now i r b4 s = (x4, s') \<Longrightarrow> confined s s'"
  by (auto simp: pub_createArtifact_def pub_createArtifactVersion_def prepareArtifactEvidence_def submitArtifactEvidence_def
      withOwner_def withPathVersion_def writeArtifactCreated_def split: sum.splits option.splits prod.splits if_splits dest: confined_ops)

lemma confined_uploads:
  "pub_uploadArtifactFile put r b st = (x, st') \<Longrightarrow> confined (fst st) (fst st')"
  "pub_uploadArtifactSignatureFile put r b st = (x, st') \<Longrightarrow> confined (fst st) (fst st')"
  by (auto simp: pub_uploadArtifactFile_def pub_uploadArtifactSignatureFile_def withPathVersion_def
      split: sum.splits if_splits dest: confined_upload [rotated] intro: confined_ops(9,10))

lemma confined_call:
  assumes "route_scope call \<noteq> PublisherScopeFull" and "run_call env cfg put cred now r call st = (code, st')"
  shows "confined (fst st) (fst st')"
  using assms by (cases call)
    (auto simp: run_call_def route_scope_def on_db_def on_both_def split: prod.splits
      dest: confined_draft_calls confined_artifact_calls confined_uploads)

text \<open>
  C8. What a pipeline's credential can reach. A request whose credential does not pass the gate of the full scope, a
  CI/CD credential among them, changes no account, session or credential, no template, group or entitlement, no
  product, component or release, and no lifecycle record; it can withdraw a decision on a draft but never adds or
  alters one, so it cannot approve. A request without any valid credential changes nothing at all.
\<close>

theorem cicd_confined:
  assumes "\<not> (\<exists>cred. requireScope (te_sha256 (px_trust px)) s PublisherScopeFull (pq_auth q) = Proceed cred)"
    and "publisher_handle px q (s, f) = (code, (s', f'))"
  shows "authority_view s' = authority_view s \<and> decisions s' \<subseteq> decisions s
     \<and> ((\<exists>cred. requireScope (te_sha256 (px_trust px)) s PublisherScopeCICD (pq_auth q) = Proceed cred)
        \<or> (s' = s \<and> f' = f \<and> code \<in> {401, 403, 500}))"
proof (cases "requireScope (te_sha256 (px_trust px)) s (route_scope (pq_call q)) (pq_auth q)")
  case (Proceed cred)
  with assms(1) have "route_scope (pq_call q) \<noteq> PublisherScopeFull" by auto
  moreover from this have "route_scope (pq_call q) = PublisherScopeCICD" by (auto simp: route_scope_def split: pub_call.splits)
  moreover from assms(2) Proceed have "run_call (px_trust px) (px_config px) (px_put px) cred (ar_now (pq_auth q)) (pq_params q) (pq_call q)
      (s, f) = (code, (s', f'))" by (simp add: publisher_handle_def)
  ultimately show ?thesis using Proceed confined_call by (fastforce simp: confined_def)
qed (use assms(2) in \<open>auto simp: publisher_handle_def requireScope_def split: option.splits sum.splits if_splits\<close>)

section \<open>Signed artifacts stay as they were signed\<close>

text \<open>A view that the catalogue, the lifecycle records, collections, drafts and evidence have no part in.\<close>

locale catalogue_frame = db_view +
  assumes view_product: "view (s\<lparr>tbl_product := a\<rparr>) = view s"
    and view_component: "view (s\<lparr>tbl_component := b\<rparr>) = view s"
    and view_product_release: "view (s\<lparr>tbl_product_release := c\<rparr>) = view s"
    and view_component_release: "view (s\<lparr>tbl_component_release := d\<rparr>) = view s"
    and view_link: "view (s\<lparr>tbl_release_component := e\<rparr>) = view s"
    and view_identifier: "view (s\<lparr>tbl_identifier := f\<rparr>) = view s"
    and view_collection: "view (s\<lparr>tbl_collection := g\<rparr>) = view s"
    and view_collection_artifact: "view (s\<lparr>tbl_collection_artifact := h\<rparr>) = view s"
    and view_cle_event: "view (s\<lparr>tbl_cle_event := i\<rparr>) = view s"
    and view_cle_version: "view (s\<lparr>tbl_cle_version := j\<rparr>) = view s"
    and view_cle_identifier: "view (s\<lparr>tbl_cle_identifier := k\<rparr>) = view s"
    and view_cle_reference: "view (s\<lparr>tbl_cle_reference := l\<rparr>) = view s"
    and view_cle_revision: "view (s\<lparr>tbl_cle_revision := m\<rparr>) = view s"
    and view_watermark: "view (s\<lparr>tbl_watermark := n\<rparr>) = view s"
    and view_draft: "view (s\<lparr>tbl_draft := p\<rparr>) = view s"
    and view_draft_artifact: "view (s\<lparr>tbl_draft_artifact := q\<rparr>) = view s"
    and view_blob: "view (s\<lparr>tbl_blob := r\<rparr>) = view s"
begin

lemmas view_updates = view_product view_component view_product_release view_component_release view_link view_identifier
  view_collection view_collection_artifact view_cle_event view_cle_version view_cle_identifier view_cle_reference view_cle_revision
  view_watermark view_draft view_draft_artifact view_blob

lemma view_bumps: "view (bumpWatermark w s) = view s" "view (bump_product_release u s) = view s" "view (bumpCLERevision ot u s) = view s"
  "view (delete_draft ot u s) = view s"
  by (simp_all add: bumpWatermark_def bump_product_release_def bumpCLERevision_def delete_draft_def view_updates)

lemma leaves_inserts:
  "leaves (insert_product u name)" "leaves (insert_component u name)" "leaves (insert_product_release row)"
  "leaves (insert_component_release row)" "leaves (upsert_link li)" "leaves (insert_identifier ot u idn)"
  "leaves (insert_collection u v stamp bt rt rc)" "leaves (insert_collection_artifact u v ar)" "leaves (insert_cle_event er)"
  "leaves (insert_cle_version ot u num vs)" "leaves (insert_cle_identifier ot u num idn)" "leaves (insert_cle_reference ot u num uri)"
  "leaves (upsert_draft dr)" "leaves (insert_draft_artifact ot u ar)" "leaves (UpsertBlob hash nb mt)" "leaves (DeleteCollectionDraft ot u)"
  by (rule leavesI, simp add: insert_product_def insert_component_def insert_product_release_def insert_component_release_def
      upsert_link_def insert_identifier_def insert_collection_def insert_collection_artifact_def insert_cle_event_def
      insert_cle_version_def insert_cle_identifier_def insert_cle_reference_def upsert_draft_def insert_draft_artifact_def
      UpsertBlob_def DeleteCollectionDraft_def view_bumps view_updates)+

lemmas leaves_rules = leaves_bind leaves_for leaves_return leaves_fail leaves_read leaves_exec leaves_inserts view_bumps view_updates

lemma leaves_parts: "leaves (insertIdentifiers ot u ids)" "leaves (insertCLEEvent ot u num ce)"
  unfolding insertIdentifiers_def insertCLEEvent_def insertCLEEventIdentifiers_def
  by (auto intro!: leaves_rules split: option.splits)

lemma leaves_collections:
  "leaves (createCollection conn now u bt inp)" "leaves (CreateCollectionForComponentRelease conn now u inp)"
  "leaves (CreateCollectionForProductRelease conn now u inp)"
proof -
  have body: "leaves (bindR (insert_collection u v x0 bt x y) (\<lambda>_. bindR (forR (insert_collection_artifact u v) refs)
      (\<lambda>_. bindR (execR (bumpWatermark w)) (\<lambda>_. readR qu))))" for v x0 bt x y refs w and qu :: "db \<Rightarrow> repo_error + Collection"
    by (intro leaves_rules)
  show cc: "leaves (createCollection conn now u bt inp)" for bt
    unfolding createCollection_def by (rule leaves_tx) (simp add: Let_def leavesD [OF body] split: prod.splits)
  show "leaves (CreateCollectionForComponentRelease conn now u inp)" "leaves (CreateCollectionForProductRelease conn now u inp)"
    by (rule leavesI, simp add: CreateCollectionForComponentRelease_def CreateCollectionForProductRelease_def leavesD [OF cc])+
qed

lemma leaves_catalogue:
  "leaves (CreateProduct u name ids)" "leaves (CreateProductRelease now u pu rin)" "leaves (CreateComponentRelease now u pu rin)"
  "leaves (LinkComponent conn u ref)" "leaves (CreateCLEEvent conn ot u ce)"
proof -
  show "leaves (CreateProduct u name ids)" unfolding CreateProduct_def
    by (rule leaves_tx) (intro leavesD leaves_rules leaves_parts)
  have pr: "leaves (bindR (WithTx Pool (\<lambda>tx. bindR (insert_product_release row) (\<lambda>_. bindR (insertIdentifiers ot u ids)
      (\<lambda>_. bindR (execR (bumpWatermark w)) (\<lambda>_. CreateCollectionForProductRelease tx now u ci))))) (\<lambda>_. readR qu))"
    for row ot ids w ci and qu :: "db \<Rightarrow> repo_error + ProductRelease"
    by (intro leaves_rules leaves_with_tx leaves_parts leaves_collections)
  show "leaves (CreateProductRelease now u pu rin)"
    by (rule leavesI) (simp add: CreateProductRelease_def leavesD [OF pr] split: option.splits)
  have cr: "leaves (bindR (WithTx Pool (\<lambda>tx. bindR (insert_component_release row) (\<lambda>_. bindR (insertIdentifiers ot u ids)
      (\<lambda>_. bindR (execR (bumpWatermark w)) (\<lambda>_. CreateCollectionForComponentRelease tx now u ci))))) (\<lambda>_. readR qu))"
    for row ot ids w ci and qu :: "db \<Rightarrow> repo_error + ComponentRelease"
    by (intro leaves_rules leaves_with_tx leaves_parts leaves_collections)
  show "leaves (CreateComponentRelease now u pu rin)"
    by (rule leavesI) (simp add: CreateComponentRelease_def leavesD [OF cr] split: option.splits)
  show "leaves (LinkComponent conn u ref)" unfolding LinkComponent_def
    by (rule leaves_tx) (intro leavesD leaves_rules leaves_parts)
  show "leaves (CreateCLEEvent conn ot u ce)" unfolding CreateCLEEvent_def Let_def
    by (rule leaves_tx) (intro leavesD leaves_rules leaves_parts)
qed

lemma view_CreateComponent: "view (snd (CreateComponent u name ids s)) = view s"
proof -
  have "leaves (runInTx Pool (bindR (insert_component u name) (\<lambda>_. bindR (insertIdentifiers ot u ids)
      (\<lambda>_. bindR (execR (bumpWatermark w)) (\<lambda>_. returnR co)))))" for ot w and co :: Component
    by (rule leaves_tx) (intro leavesD leaves_rules leaves_parts)
  from leavesD [OF this, of OwnerComponent WatermarkComponents "\<lparr>comp_UUID = u, comp_Name = name, comp_Identifiers = ids\<rparr>" s]
  show ?thesis by (auto simp: CreateComponent_def Let_def view_bumps view_updates split: sum.splits prod.splits)
qed

lemma leaves_drafts:
  "leaves (PutCollectionDraft conn now ot u actor cred arts reason ttl expected)"
  "leaves (DecideCollectionDraft conn now ot u actor cred comment approve ttl)"
  "leaves (PrepareCollectionCommit conn now ot u ttl)" "leaves (CancelPrepareCollectionCommit now ot u)"
proof -
  have put: "leaves (bindR (upsert_draft row) (\<lambda>_. bindR (execR (\<lambda>s. s\<lparr>tbl_draft_artifact := delete_rows t (tbl_draft_artifact s)\<rparr>))
      (\<lambda>_. bindR (forR (insert_draft_artifact ot u) refs) (\<lambda>_. readR qu))))" for row t refs and qu :: "db \<Rightarrow> repo_error + CollectionDraft"
    by (intro leaves_rules)
  show "leaves (PutCollectionDraft conn now ot u actor cred arts reason ttl expected)" unfolding PutCollectionDraft_def
    by (rule leaves_tx) (simp add: Let_def leavesD [OF put] split: sum.splits prod.splits)
  have dec: "leaves (bindR (execR (\<lambda>s. s\<lparr>tbl_draft := update_rows t g (tbl_draft s)\<rparr>)) (\<lambda>_. readR qu))"
    for t g and qu :: "db \<Rightarrow> repo_error + CollectionDraft"
    by (intro leaves_rules)
  show "leaves (DecideCollectionDraft conn now ot u actor cred comment approve ttl)" unfolding DecideCollectionDraft_def
    by (rule leaves_tx) (simp add: Let_def leavesD [OF dec] split: sum.splits)
  show "leaves (PrepareCollectionCommit conn now ot u ttl)" unfolding PrepareCollectionCommit_def
    by (rule leaves_tx) (intro leavesD leaves_rules)
  show "leaves (CancelPrepareCollectionCommit now ot u)"
    by (rule leavesI) (simp add: CancelPrepareCollectionCommit_def view_updates split: sum.splits)
qed

end

definition stored_view where
  "stored_view s = (tbl_artifact s, tbl_artifact_distribution s, tbl_artifact_format s, tbl_checksum s, tbl_evidence s)"

interpretation stored: catalogue_frame stored_view
  by unfold_locales (simp_all add: stored_view_def)

definition evidenced :: "db \<Rightarrow> uuid \<Rightarrow> int \<Rightarrow> bool" where
  "evidenced s u v \<longleftrightarrow> has_row (\<lambda>e. er_owner_type e = ''ARTIFACT'' \<and> er_owner e = u \<and> er_owner_version e = v) (tbl_evidence s)"

definition distinct_formats :: "db \<Rightarrow> bool" where
  "distinct_formats s \<longleftrightarrow> distinct (map af_id (tbl_artifact_format s))"

text \<open>A step under which evidence stays, and the artifacts that have it read as before.\<close>

definition keeps_sealed :: "db \<Rightarrow> db \<Rightarrow> bool" where
  "keeps_sealed s s' \<longleftrightarrow> (distinct_formats s \<longrightarrow> distinct_formats s' \<and> set (tbl_evidence s) \<subseteq> set (tbl_evidence s')
     \<and> (\<forall>u v a. evidenced s u v \<and> getArtifactByVersionTx s u v = Inr a \<longrightarrow> getArtifactByVersionTx s' u v = Inr a))"

lemma sealed_refl [simp]: "keeps_sealed s s"
  by (simp add: keeps_sealed_def)

lemma evidenced_mono: "set (tbl_evidence s) \<subseteq> set (tbl_evidence s') \<Longrightarrow> evidenced s u v \<Longrightarrow> evidenced s' u v"
  by (auto simp: evidenced_def)

lemma sealed_trans: "keeps_sealed s s1 \<Longrightarrow> keeps_sealed s1 s2 \<Longrightarrow> keeps_sealed s s2"
  unfolding keeps_sealed_def using evidenced_mono by (metis subset_trans)

lemma sealed_content:
  assumes "tbl_artifact s' = tbl_artifact s" "tbl_artifact_distribution s' = tbl_artifact_distribution s"
    "tbl_artifact_format s' = tbl_artifact_format s" "tbl_checksum s' = tbl_checksum s" "set (tbl_evidence s) \<subseteq> set (tbl_evidence s')"
  shows "keeps_sealed s s'"
  using assms(3,5) getArtifact_cong [OF assms(1-4)] by (simp add: keeps_sealed_def distinct_formats_def)

lemma sealed_view: "stored_view s' = stored_view s \<Longrightarrow> keeps_sealed s s'"
  by (rule sealed_content) (simp_all add: stored_view_def)

lemma sealed_op: "stored.leaves op \<Longrightarrow> op s = (r, s') \<Longrightarrow> keeps_sealed s s'"
  using stored.leavesD [of op s] by (intro sealed_view) simp

lemma sealed_component: "CreateComponent u name ids s = (r, s') \<Longrightarrow> keeps_sealed s s'"
  using stored.view_CreateComponent [of u name ids s] by (intro sealed_view) simp

lemma sealed_evidence_Inr: "CreateEvidenceBundle conn i inp s = (Inr b, s') \<Longrightarrow> keeps_sealed s s'"
  by (rule sealed_content) (auto simp: CreateEvidenceBundle_Inr split: if_splits)

lemma sealed_evidence:
  assumes "CreateEvidenceBundle Pool i inp s = (r, s')"
  shows "keeps_sealed s s'"
proof (cases r)
  case (Inl e)
  with assms have "s' = s" unfolding CreateEvidenceBundle_def by (auto intro: tx.rollback)
  then show ?thesis by simp
next
  case (Inr b)
  with assms show ?thesis by (auto intro: sealed_evidence_Inr)
qed

lemma sealed_commit:
  assumes "CommitCollectionDraft Pool now i ot u ev s = (r, s')"
  shows "keeps_sealed s s'"
proof (cases r)
  case (Inl e)
  with assms commit_op.rollback have "s' = s" by blast
  then show ?thesis by simp
next
  case (Inr c)
  with assms obtain wb b s1 s2 ci where c: "createCollection InTx now u ot ci s = (Inr c, s1)"
    and e: "CreateEvidenceBundle InTx i (collection_evidence u (coll_Version c) ev) s1 = (Inr b, s2)" and s': "s' = delete_draft ot u s2"
    by (auto elim: CommitCollectionDraft_Inr)
  have "keeps_sealed s s1" by (rule sealed_op [OF stored.leaves_collections(1) c])
  moreover have "keeps_sealed s1 s2" by (rule sealed_evidence_Inr [OF e])
  moreover have "keeps_sealed s2 s'" unfolding s' by (rule sealed_view) (rule stored.view_bumps(4))
  ultimately show ?thesis by (metis sealed_trans)
qed

lemma formats_stay_distinct:
  assumes "insertArtifactTx gen u v inp s = (Inr (), s')" and "distinct_formats s"
  shows "distinct_formats s'"
proof -
  from assms(1) obtain s1 s2 where "insert_artifact u v (ain_Name inp) (ain_Type inp) (ain_CreatedDate inp) s = (Inr (), s1)"
    and s2: "forR (insert_artifact_distribution u v) (ain_DistributionIDs inp) s1 = (Inr (), s2)"
    and s': "forR (\<lambda>(k, f). insert_artifact_format (gen k) u v (fin_MediaType f) (fin_Description f) None None)
        (enumerate 0 (ain_Formats inp)) s2 = (Inr (), s')"
    unfolding insertArtifactTx_def by auto
  then have "tbl_artifact_format s2 = tbl_artifact_format s" using insert_distributions_Inr [OF s2] by simp
  with assms(2) have "distinct_formats s2" by (simp add: distinct_formats_def)
  then show ?thesis
    by (rule forR_preserves [OF s', rotated])
      (fastforce simp: insert_artifact_format_def distinct_formats_def split: if_splits prod.splits)
qed

lemma sealed_insert:
  assumes "insertArtifactTx gen u v inp s = (Inr (), s')"
  shows "keeps_sealed s s'"
proof -
  have new: "getArtifactByVersionTx s u v = Inl ErrNotFound" and ev: "tbl_evidence s' = tbl_evidence s"
    using insertArtifactTx_Inr [OF assms] by (auto simp: getArtifactByVersionTx_def find_row_None split: option.splits dest: find_row_SomeD)
  then have "getArtifactByVersionTx s' u' v' = Inr a" if "getArtifactByVersionTx s u' v' = Inr a" for u' v' a
    using that insertArtifactTx_other [OF assms, of u' v'] by (cases "(u', v') = (u, v)") auto
  with ev show ?thesis using formats_stay_distinct [OF assms] by (simp add: keeps_sealed_def)
qed

lemma sealed_create:
  "CreateArtifact Pool i gen inp s = (r, s') \<Longrightarrow> keeps_sealed s s'"
  "CreateArtifactVersion Pool u prev gen inp s = (r, s') \<Longrightarrow> keeps_sealed s s'"
proof -
  show "keeps_sealed s s'" if c: "CreateArtifact Pool i gen inp s = (r, s')"
  proof (cases r)
    case (Inl e)
    with c have "s' = s" unfolding CreateArtifact_def by (auto intro: tx.rollback)
    then show ?thesis by simp
  next
    case (Inr a)
    with c show ?thesis unfolding CreateArtifact_def by (auto intro: sealed_insert)
  qed
  show "keeps_sealed s s'" if c: "CreateArtifactVersion Pool u prev gen inp s = (r, s')"
  proof (cases r)
    case (Inl e)
    with c have "s' = s" unfolding CreateArtifactVersion_def by (auto intro: tx.rollback)
    then show ?thesis by simp
  next
    case (Inr a)
    with c show ?thesis unfolding CreateArtifactVersion_def
      by (auto intro: sealed_insert simp: Let_def split: option.splits if_splits)
  qed
qed

text \<open>Both uploads attach to a format that no other artifact version has; an upload of content needs one without evidence.\<close>

lemma format_ids_apart:
  assumes "distinct_formats s" and "k < length (ArtifactFormatIDs s u v)" and "(u', v') \<noteq> (u, v)"
    and "f \<in> set (filter (is_format_of u' v') (tbl_artifact_format s))"
  shows "af_id f \<noteq> ArtifactFormatIDs s u v ! k"
proof
  assume eq: "af_id f = ArtifactFormatIDs s u v ! k"
  let ?F = "filter (is_format_of u v) (tbl_artifact_format s)"
  from assms(2) have "?F ! k \<in> set ?F" and id: "ArtifactFormatIDs s u v ! k = af_id (?F ! k)"
    by (auto simp: ArtifactFormatIDs_def simp del: set_filter intro: nth_mem)
  then have g: "?F ! k \<in> set (tbl_artifact_format s)" "is_format_of u v (?F ! k)" by auto
  from assms(4) have f: "f \<in> set (tbl_artifact_format s)" "is_format_of u' v' f" by auto
  from assms(1) f(1) g(1) eq id have "f = ?F ! k" by (metis distinct_formats_def distinct_map inj_onD)
  with f(2) g(2) assms(3) show False by (auto simp: is_format_of_def)
qed

lemma get_bumped:
  assumes "listArtifactFormats s' u' v' = listArtifactFormats s u' v'"
    and "tbl_artifact s' = update_rows P (\<lambda>a. a\<lparr>a_revision := a_revision a + 1\<rparr>) (tbl_artifact s)"
    and "tbl_artifact_distribution s' = tbl_artifact_distribution s"
  shows "getArtifactByVersionTx s' u' v' = getArtifactByVersionTx s u' v'"
  using assms
  by (auto simp: getArtifactByVersionTx_def listArtifactDistributionIDs_def find_row_update_rows is_version_def split: option.splits)

lemma upload_elsewhere:
  assumes "distinct_formats s" and "k < length (ArtifactFormatIDs s u v)" and "(u', v') \<noteq> (u, v)"
  shows "getArtifactByVersionTx (with_file (ArtifactFormatIDs s u v ! k) u v sha s) u' v' = getArtifactByVersionTx s u' v'"
proof -
  let ?s = "with_file (ArtifactFormatIDs s u v ! k) u v sha s"
  have "listChecksums ?s OwnerArtifactFormat (af_id f) = listChecksums s OwnerArtifactFormat (af_id f)"
    if "f \<in> set (filter (is_format_of u' v') (tbl_artifact_format s))" for f
    using format_ids_apart [OF assms that] by (simp add: with_file_checksums)
  then have "listArtifactFormats ?s u' v' = listArtifactFormats s u' v'"
    by (simp add: listArtifactFormats_def)
  moreover have "tbl_artifact ?s = update_rows (is_version u v) (\<lambda>a. a\<lparr>a_revision := a_revision a + 1\<rparr>) (tbl_artifact s)"
    "tbl_artifact_distribution ?s = tbl_artifact_distribution s" by simp_all
  ultimately show ?thesis by (rule get_bumped)
qed

lemma sealed_file:
  assumes "SetArtifactFormatFile Pool u v k h s = (r, s')" and "\<not> evidenced s u v"
  shows "keeps_sealed s s'"
proof (cases r)
  case (Inl e)
  with assms have "s' = s" unfolding SetArtifactFormatFile_def by (auto intro: tx.rollback)
  then show ?thesis by simp
next
  case (Inr a)
  with assms(1) have s': "s' = with_file (ArtifactFormatIDs s u v ! nat k) u v h s" "nat k < length (ArtifactFormatIDs s u v)"
    by (auto simp: SetArtifactFormatFile_Inr)
  have "getArtifactByVersionTx s' u' v' = Inr a'" if "distinct_formats s" "evidenced s u' v'" "getArtifactByVersionTx s u' v' = Inr a'" for u' v' a'
    using that assms(2) upload_elsewhere [OF that(1) s'(2), of u' v' h] s'(1) by (cases "(u', v') = (u, v)") auto
  then show ?thesis
    by (auto simp: keeps_sealed_def s'(1) distinct_formats_def) (simp add: with_file_def bump_artifact_revision_def)
qed

lemma sealed_signature:
  assumes "SetArtifactFormatSignatureFile Pool u v k h s = (r, s')"
  shows "keeps_sealed s s'"
proof (cases r)
  case (Inl e)
  with assms have "s' = s" unfolding SetArtifactFormatSignatureFile_def by (auto intro: tx.rollback)
  then show ?thesis by simp
next
  case (Inr a)
  with assms obtain fid where s': "s' = bump_artifact_revision u v (s\<lparr>tbl_artifact_format :=
      update_rows (\<lambda>f. af_id f = fid) (\<lambda>f. f\<lparr>af_signature_sha256 := Some h\<rparr>) (tbl_artifact_format s)\<rparr>)"
    unfolding SetArtifactFormatSignatureFile_def by (auto simp: Let_def split: if_splits)
  have "listArtifactFormats s' u' v' = listArtifactFormats s u' v'" for u' v'
  proof -
    have "listChecksums s' = listChecksums s" by (rule listChecksums_cong) (simp add: s' bump_artifact_revision_def)
    moreover have "filter (is_format_of u' v') (tbl_artifact_format s') =
        update_rows (\<lambda>f. af_id f = fid) (\<lambda>f. f\<lparr>af_signature_sha256 := Some h\<rparr>) (filter (is_format_of u' v') (tbl_artifact_format s))"
      by (simp add: s' bump_artifact_revision_def filter_update_rows is_format_of_def)
    ultimately show ?thesis by (simp add: listArtifactFormats_def)
  qed
  then have "getArtifactByVersionTx s' u' v' = getArtifactByVersionTx s u' v'" for u' v'
    by (rule get_bumped) (simp_all add: s' bump_artifact_revision_def)
  then show ?thesis by (simp add: keeps_sealed_def distinct_formats_def s' bump_artifact_revision_def)
qed

lemmas sealed_ops =
  sealed_op [OF stored.leaves_catalogue(1)] sealed_op [OF stored.leaves_catalogue(2)] sealed_op [OF stored.leaves_catalogue(3)]
  sealed_op [OF stored.leaves_catalogue(4)] sealed_op [OF stored.leaves_catalogue(5)] sealed_op [OF stored.leaves_drafts(1)]
  sealed_op [OF stored.leaves_drafts(2)] sealed_op [OF stored.leaves_drafts(3)] sealed_op [OF stored.leaves_drafts(4)]
  sealed_op [OF stored.leaves_inserts(16)] sealed_component sealed_evidence sealed_commit sealed_create

lemma sealed_upload:
  assumes "\<And>k h s1 x s2. tbl_evidence s1 = tbl_evidence (fst st) \<Longrightarrow> attach u v k h s1 = (x, s2) \<Longrightarrow> keeps_sealed s1 s2"
    and "upload_to_format attach put body a u v st = (r, st')"
  shows "keeps_sealed (fst st) (fst st')"
proof -
  obtain s f where st: "st = (s, f)" by force
  have blob: "keeps_sealed s s1 \<and> tbl_evidence s1 = tbl_evidence s" if "UpsertBlob h n mt s = (x, s1)" for h n mt x s1
    using stored.leavesD [OF stored.leaves_inserts(15), of h n mt s] that sealed_view by (simp add: stored_view_def)
  have att: "attach u v k h s1 = (x, s2) \<Longrightarrow> tbl_evidence s1 = tbl_evidence s \<Longrightarrow> keeps_sealed s1 s2" for k h s1 x s2
    using assms(1) by (simp add: st)
  show ?thesis using assms(2) unfolding st
    by (auto simp: upload_to_format_def receiveUploadedFile_def split: option.splits sum.splits prod.splits
        dest!: blob intro: sealed_trans [OF _ att])
qed

lemma no_evidence: "GetEvidenceBundleForOwner s ''ARTIFACT'' u v = Inl e \<Longrightarrow> \<not> evidenced s u v"
  by (auto simp: GetEvidenceBundleForOwner_def getEvidenceBundleTx_def evidenced_def find_row_None split: option.splits dest: find_row_SomeD)

lemma sealed_uploads:
  "pub_uploadArtifactFile put r b st = (x, st') \<Longrightarrow> keeps_sealed (fst st) (fst st')"
  "pub_uploadArtifactSignatureFile put r b st = (x, st') \<Longrightarrow> keeps_sealed (fst st) (fst st')"
proof -
  { fix u v a and y :: "(string \<times> nat) pub_answer" and st1
    assume e: "GetEvidenceBundleForOwner (fst st) ''ARTIFACT'' u v = Inl ErrNotFound"
      and up: "upload_to_format (SetArtifactFormatFile Pool) put b a u v st = (y, st1)"
    have "\<not> evidenced s1 u v" if "tbl_evidence s1 = tbl_evidence (fst st)" for s1
      using no_evidence [OF e] that by (simp add: evidenced_def)
    with up have "keeps_sealed (fst st) (fst st1)" by (auto intro: sealed_upload sealed_file) }
  then show "pub_uploadArtifactFile put r b st = (x, st') \<Longrightarrow> keeps_sealed (fst st) (fst st')"
    by (auto simp: pub_uploadArtifactFile_def withPathVersion_def split: sum.splits if_splits)
  show "pub_uploadArtifactSignatureFile put r b st = (x, st') \<Longrightarrow> keeps_sealed (fst st) (fst st')"
    by (auto simp: pub_uploadArtifactSignatureFile_def withPathVersion_def split: sum.splits if_splits
        intro: sealed_upload sealed_signature)
qed

lemma sealed_draft_calls:
  "putCollectionDraftForOwner cfg cred now ot r b1 s = (x1, s') \<Longrightarrow> keeps_sealed s s'"
  "deleteCollectionDraftForOwner ot r s = (x2, s') \<Longrightarrow> keeps_sealed s s'"
  "getCollectionDraftForOwner ot r s = (x1, s') \<Longrightarrow> keeps_sealed s s'"
  "decideCollectionDraftForOwner cfg cred now ot ok r b3 s = (x1, s') \<Longrightarrow> keeps_sealed s s'"
  "prepareCollectionCommitForOwner env cfg now ot r s = (x3, s') \<Longrightarrow> keeps_sealed s s'"
  "cancelPrepareCollectionCommitForOwner now ot r s = (x2, s') \<Longrightarrow> keeps_sealed s s'"
  "commitCollectionDraftForOwner env now later i ot r b4 s = (x4, s') \<Longrightarrow> keeps_sealed s s'"
  by (auto simp: putCollectionDraftForOwner_def deleteCollectionDraftForOwner_def getCollectionDraftForOwner_def
      decideCollectionDraftForOwner_def prepareCollectionCommitForOwner_def cancelPrepareCollectionCommitForOwner_def
      commitCollectionDraftForOwner_def finish_commit_def withOwner_def split: sum.splits option.splits prod.splits if_splits
      dest: sealed_ops)

lemma sealed_artifact_calls:
  "pub_createArtifact now i gen b1 s = (x1, s') \<Longrightarrow> keeps_sealed s s'"
  "pub_createArtifactVersion now gen r b2 s = (x2, s') \<Longrightarrow> keeps_sealed s s'"
  "prepareArtifactEvidence env r s = (x3, s') \<Longrightarrow> keeps_sealed s s'"
  "submitArtifactEvidence env now i r b4 s = (x4, s') \<Longrightarrow> keeps_sealed s s'"
  by (auto simp: pub_createArtifact_def pub_createArtifactVersion_def prepareArtifactEvidence_def submitArtifactEvidence_def
      withOwner_def withPathVersion_def writeArtifactCreated_def split: sum.splits option.splits prod.splits if_splits dest: sealed_ops)

lemma sealed_catalogue_calls:
  "pub_createProduct i b1 s = (x1, s') \<Longrightarrow> keeps_sealed s s'"
  "pub_createProductRelease now i r b2 s = (x2, s') \<Longrightarrow> keeps_sealed s s'"
  "pub_linkComponent r b3 s = (x2, s') \<Longrightarrow> keeps_sealed s s'"
  "pub_findComponents r s = (x4, s') \<Longrightarrow> keeps_sealed s s'"
  "pub_createComponent i b1 s = (x5, s') \<Longrightarrow> keeps_sealed s s'"
  "pub_createComponentRelease now i r b2 s = (x6, s') \<Longrightarrow> keeps_sealed s s'"
  "pub_createCLEEventForOwner ot r b7 s = (x7, s') \<Longrightarrow> keeps_sealed s s'"
  by (auto simp: pub_createProduct_def pub_createProductRelease_def pub_linkComponent_def pub_findComponents_def pub_createComponent_def
      pub_createComponentRelease_def pub_createCLEEventForOwner_def withOwner_def split: sum.splits option.splits prod.splits if_splits
      dest: sealed_ops)

lemma sealed_handle: "publisher_handle px q st = (code, st') \<Longrightarrow> keeps_sealed (fst st) (fst st')"
  by (cases "pq_call q")
    (auto simp: publisher_handle_def run_call_def on_db_def on_both_def split: prod.splits gate.splits
      dest: sealed_draft_calls sealed_artifact_calls sealed_catalogue_calls sealed_uploads)

text \<open>A history of requests, each handled on the state the one before left.\<close>

fun pub_run :: "pub_env \<Rightarrow> pub_request list \<Rightarrow> db \<times> fs \<Rightarrow> db \<times> fs" where
  "pub_run px [] st = st"
| "pub_run px (q # qs) st = pub_run px qs (snd (publisher_handle px q st))"

lemma sealed_run: "keeps_sealed (fst st) (fst (pub_run px qs st))"
proof (induction qs arbitrary: st)
  case (Cons q qs)
  have "keeps_sealed (fst st) (fst (snd (publisher_handle px q st)))"
    using sealed_handle [of px q st] by (metis prod.collapse)
  from sealed_trans [OF this Cons.IH] show ?case by simp
qed simp

lemma submit_201:
  assumes "submitArtifactEvidence env now newid r (Some req) s = (Answered 201 b, s1)"
  obtains u v a bytes fp td where "PathUUID r ''uuid'' = Inr u" "PathPositiveInt r ''version'' = Inr v"
    "submission_bytes env req = (Inr bytes :: EvidenceBundle pub_answer + _)" "getArtifactByVersionTx s u v = Inr a"
    "verified_subject env now req bytes (te_canonicalArtifact env a) = (Inr (fp, td) :: EvidenceBundle pub_answer + _)"
    "CreateEvidenceBundle Pool newid (artifact_evidence u v req (fp, td)) s = (Inr b, s1)"
  using assms
  by (auto simp: submitArtifactEvidence_def withPathVersion_def answer_defs split: sum.splits prod.splits if_splits
      dest!: submission_bytes_Inl verified_subject_Inl)


section \<open>A release, signed\<close>

text \<open>
  A component release and an SBOM with one file; a pipeline's credential and an operator's. The certificate's key signs by
  appending itself, and an artifact's canonical form is the list of its checksums.
\<close>

definition checksums_of :: "Artifact \<Rightarrow> string" where
  "checksums_of a = concat (map (\<lambda>f. concat (map AlgValue (fmt_Checksums f))) (art_Formats a))"

definition demo_trust :: trust_env where
  "demo_trust =
     \<lparr>te_parse = (\<lambda>p. if p = ''pem''
        then Some \<lparr>crt_DNSNames = [hexEncode ''pk'' @ ''.td''], crt_PublicKey = Some ''pk'', crt_NotBefore = 0, crt_NotAfter = 9000000000\<rparr>
        else None),
      te_verify = (\<lambda>pub d sig. sig = d @ pub), te_sha256 = (\<lambda>b. b), te_base64 = Some,
      te_canonicalArtifact = (\<lambda>a. Some (checksums_of a)),
      te_canonicalCollection = (\<lambda>c. Some (concat (map checksums_of (coll_Artifacts c))))\<rparr>"

definition signing_db :: db where
  "signing_db = (snd (SetArtifactFormatFile Pool uuid2 1 0 ''aa'' (snd (CreateArtifact Pool uuid2 (\<lambda>_. ''f1'') bom_input empty_db))))
     \<lparr>tbl_component_release := [\<lparr>rl_uuid = uuid1, rl_parent = ''k'', rl_parent_name = None, rl_version = ''1'', rl_created_date = 0,
        rl_release_date = None, rl_pre_release = False, rl_revision = 1\<rparr>],
      tbl_credential := [\<lparr>cred_uuid = ''c1'', cred_label = ''ci'', cred_token_hash = hexEncode ''t1'', cred_scope = PublisherScopeCICD,
         cred_created_at = 0, cred_revoked_at = None\<rparr>,
        \<lparr>cred_uuid = ''c2'', cred_label = ''ops'', cred_token_hash = hexEncode ''t2'', cred_scope = PublisherScopeFull,
         cred_created_at = 0, cred_revoked_at = None\<rparr>]\<rparr>"

definition signing_drafted :: db where
  "signing_drafted = snd (PutCollectionDraft Pool 1000000000 BelongsToComponentRelease uuid1 ''alice'' ''c1''
     [\<lparr>aref_UUID = uuid2, aref_Version = 1\<rparr>] (Some \<lparr>reason_Type = ''INITIAL_RELEASE'', reason_Comment = []\<rparr>)
     86400000000000 None signing_db)"

definition signing_prepared :: db where
  "signing_prepared = snd (PrepareCollectionCommit Pool 3000000000 BelongsToComponentRelease uuid1 600000000000
     (snd (DecideCollectionDraft Pool 2000000000 BelongsToComponentRelease uuid1 ''bob'' ''c2'' [] True 3600000000000 signing_drafted)))"

definition path_of :: "uuid \<Rightarrow> request" where
  "path_of u = \<lparr>req_path = (\<lambda>name. if name = ''uuid'' then u else ''1''), req_query = (\<lambda>_. [])\<rparr>"

definition signing_evidence :: EvidenceSubmission where
  "signing_evidence = \<lparr>es_ObjectDigestValue = hexEncode ''aa'', es_ObjectMediaType = ''application/json'', es_ObjectLocation = [],
     es_SignatureFormat = ''jws-detached'', es_SignatureValue = ''aapk'', es_CertificatePEM = ''pem'', es_CertificateChain = []\<rparr>"

abbreviation signing_commit :: "Collection pub_answer \<times> db" where
  "signing_commit \<equiv> commitCollectionDraftForOwner demo_trust 4000000000 5000000000 ''e1'' BelongsToComponentRelease (path_of uuid1)
     (Some signing_evidence) signing_prepared"

abbreviation signing_upload :: "db \<Rightarrow> (string \<times> nat) pub_answer \<times> (db \<times> fs)" where
  "signing_upload s \<equiv> pub_uploadArtifactFile (Put pad32 ''/blobs'' ''/blobs/t'') (path_of uuid2)
     (Some \<lparr>pf_formatId = ''f1'', pf_mediaType = [], pf_file = Some (''other'', ''application/json'')\<rparr>) (s, Map.empty)"

lemma signing_wf: "collection_wf signing_prepared"
proof -
  have "tbl_collection signing_prepared = []" "tbl_collection_artifact signing_prepared = []" by code_simp+
  then show ?thesis by (simp add: collection_wf_def)
qed

text \<open>Between the verification and the commit, a product is registered.\<close>

abbreviation signing_meanwhile :: db where
  "signing_meanwhile \<equiv> signing_prepared\<lparr>tbl_product := [\<lparr>p_uuid = ''p1'', p_name = ''Beta''\<rparr>]\<rparr>"

lemma signing_finishes:
  "case verify_commit demo_trust 4000000000 BelongsToComponentRelease (path_of uuid1) (Some signing_evidence) signing_prepared of
     Inl _ \<Rightarrow> False
   | Inr ev \<Rightarrow> (case fst (finish_commit 5000000000 ''e1'' BelongsToComponentRelease ev signing_meanwhile) of
       Answered n c \<Rightarrow> fst ev = uuid1 \<and> n = 201 \<and> coll_Version c = 1 | _ \<Rightarrow> False)"
  by code_simp

theorem signed_commit_witness:
  "\<exists>ev c s'. verify_commit demo_trust 4000000000 BelongsToComponentRelease (path_of uuid1) (Some signing_evidence) signing_prepared = Inr ev
     \<and> finish_commit 5000000000 ''e1'' BelongsToComponentRelease ev signing_meanwhile = (Answered 201 c, s')
     \<and> getCollectionByVersionTx s' uuid1 1 BelongsToComponentRelease = Inr c
     \<and> (\<exists>doc. te_canonicalCollection demo_trust c = Some doc \<and> te_verify demo_trust ''pk'' (te_sha256 demo_trust doc) ''aapk'')"
proof -
  let ?verify = "verify_commit demo_trust 4000000000 BelongsToComponentRelease (path_of uuid1) (Some signing_evidence) signing_prepared"
  obtain ev where v: "?verify = Inr (uuid1, ev)"
    and f: "case fst (finish_commit 5000000000 ''e1'' BelongsToComponentRelease (uuid1, ev) signing_meanwhile) of
       Answered n c \<Rightarrow> n = 201 \<and> coll_Version c = 1 | _ \<Rightarrow> False"
    using signing_finishes by (cases ?verify) (auto split: pub_answer.splits)
  then obtain c s' where c: "finish_commit 5000000000 ''e1'' BelongsToComponentRelease (uuid1, ev) signing_meanwhile = (Answered 201 c, s')"
    "coll_Version c = 1"
    by (cases "finish_commit 5000000000 ''e1'' BelongsToComponentRelease (uuid1, ev) signing_meanwhile") (auto split: pub_answer.splits)
  have same: "same_draft_content uuid1 signing_prepared signing_meanwhile"
    by (auto simp: same_draft_content_def collection_versions_def intro!: getArtifact_cong)
  have wf: "collection_wf signing_meanwhile" using signing_wf by (simp add: collection_wf_def)
  have "te_base64 demo_trust (es_SignatureValue signing_evidence) = Some ''aapk''" by code_simp
  moreover have "te_parse demo_trust p = Some cert \<Longrightarrow> crt_PublicKey cert = Some pub \<Longrightarrow> pub = ''pk''" for p cert pub
    by (auto simp: demo_trust_def split: if_splits)
  ultimately show ?thesis using signed_commit [OF v same wf c(1)] v c by auto
qed

lemma answered_cases: "(case x of (Answered n c, s) \<Rightarrow> P n c s | _ \<Rightarrow> False) \<Longrightarrow> \<exists>n c s. x = (Answered n c, s) \<and> P n c s"
  by (cases x; cases "fst x") auto

lemma found_cases: "(case x of Inl _ \<Rightarrow> False | Inr y \<Rightarrow> P y) \<Longrightarrow> \<exists>y. x = Inr y \<and> P y"
  by (cases x) auto

text \<open>
  A collection's signature does not freeze its artifacts. After the signed commit above, the content of the SBOM can
  still be replaced, as the SBOM has no evidence of its own: the published collection then reads differently from what
  was signed, under the same version and with the same evidence.
\<close>

theorem collection_signature_outdated:
  "\<exists>c s1 s2 c2 b answer f. signing_commit = (Answered 201 c, s1) \<and> signing_upload s1 = (Answered 200 answer, (s2, f))
     \<and> getCollectionByVersionTx s2 uuid1 1 BelongsToComponentRelease = Inr c2 \<and> digestOf demo_trust c2 \<noteq> digestOf demo_trust c
     \<and> GetEvidenceBundleForOwner s2 ''COLLECTION'' uuid1 1 = Inr b
     \<and> Some (dig_Value (obj_Digest (eb_Object b))) = digestOf demo_trust c"
proof -
  have "case signing_commit of (Answered n c, s1) \<Rightarrow> n = 201 \<and>
      (case signing_upload s1 of (Answered m _, (s2, _)) \<Rightarrow> m = 200 \<and>
         (case getCollectionByVersionTx s2 uuid1 1 BelongsToComponentRelease of Inl _ \<Rightarrow> False
          | Inr c2 \<Rightarrow> digestOf demo_trust c2 \<noteq> digestOf demo_trust c) \<and>
         (case GetEvidenceBundleForOwner s2 ''COLLECTION'' uuid1 1 of Inl _ \<Rightarrow> False
          | Inr b \<Rightarrow> Some (dig_Value (obj_Digest (eb_Object b))) = digestOf demo_trust c)
       | _ \<Rightarrow> False)
    | _ \<Rightarrow> False"
    by code_simp
  then show ?thesis by (force dest!: answered_cases found_cases)
qed

text \<open>
  Nor is the digest checked again where the collection is written: a file replaced between the verification of the
  signature and the transaction of the commit is published under a signature that was made over something else.
\<close>

theorem commit_publishes_unsigned:
  "\<exists>ev answer s1 f c s2. verify_commit demo_trust 4000000000 BelongsToComponentRelease (path_of uuid1) (Some signing_evidence) signing_prepared = Inr ev
     \<and> signing_upload signing_prepared = (Answered 200 answer, (s1, f))
     \<and> finish_commit 5000000000 ''e1'' BelongsToComponentRelease ev s1 = (Answered 201 c, s2)
     \<and> digestOf demo_trust c \<noteq> Some (es_ObjectDigestValue signing_evidence)"
proof -
  have "case verify_commit demo_trust 4000000000 BelongsToComponentRelease (path_of uuid1) (Some signing_evidence) signing_prepared of
      Inl _ \<Rightarrow> False
    | Inr ev \<Rightarrow>
        (case signing_upload signing_prepared of (Answered m _, (s1, _)) \<Rightarrow> m = 200 \<and>
           (case finish_commit 5000000000 ''e1'' BelongsToComponentRelease ev s1 of
              (Answered n c, _) \<Rightarrow> n = 201 \<and> digestOf demo_trust c \<noteq> Some (es_ObjectDigestValue signing_evidence)
            | _ \<Rightarrow> False)
         | _ \<Rightarrow> False)"
    by code_simp
  then show ?thesis by (force dest!: answered_cases found_cases)
qed

text \<open>The operator approves; the pipeline, with the same request, is turned away.\<close>

definition demo_px :: pub_env where
  "demo_px = \<lparr>px_trust = demo_trust,
     px_config = \<lparr>pc_DraftTTL = 86400000000000, pc_ApprovalTTL = 3600000000000, pc_LockTTL = 600000000000\<rparr>,
     px_put = Put pad32 ''/blobs'' ''/blobs/t''\<rparr>"

definition demo_request :: "string \<Rightarrow> request \<Rightarrow> pub_call \<Rightarrow> pub_request" where
  "demo_request token r call = \<lparr>pq_auth = bearer_request token 2000000000, pq_params = r, pq_call = call\<rparr>"

abbreviation approve_call :: pub_call where
  "approve_call \<equiv> DecideDraftCall BelongsToComponentRelease True (Some \<lparr>ad_Actor = ''bob'', ad_Comment = []\<rparr>)"

abbreviation redraft_call :: pub_call where
  "redraft_call \<equiv> PutDraftCall BelongsToComponentRelease
     (Some \<lparr>cdl_Actor = ''alice'', cdl_Artifacts = [], cdl_UpdateReason = None, cdl_ExpectedRevision = None\<rparr>)"

theorem cicd_confined_witness:
  "fst (publisher_handle demo_px (demo_request ''t1'' (path_of uuid1) approve_call) (signing_drafted, Map.empty)) = 403
   \<and> fst (publisher_handle demo_px (demo_request ''t2'' (path_of uuid1) approve_call) (signing_drafted, Map.empty)) = 200
   \<and> fst (publisher_handle demo_px (demo_request ''t1'' (path_of uuid1) redraft_call) (signing_drafted, Map.empty)) = 200
   \<and> authority_view (fst (snd (publisher_handle demo_px (demo_request ''t1'' (path_of uuid1) redraft_call) (signing_drafted, Map.empty))))
       = authority_view signing_drafted"
proof -
  have "case requireScope (te_sha256 demo_trust) signing_drafted PublisherScopeFull (bearer_request ''t1'' 2000000000) of
      Proceed _ \<Rightarrow> False | _ \<Rightarrow> True" by code_simp
  then have no: "\<not> (\<exists>cred. requireScope (te_sha256 (px_trust demo_px)) signing_drafted PublisherScopeFull
      (pq_auth (demo_request ''t1'' (path_of uuid1) redraft_call)) = Proceed cred)"
    by (auto simp: demo_px_def demo_request_def)
  have "authority_view (fst (snd (publisher_handle demo_px (demo_request ''t1'' (path_of uuid1) redraft_call) (signing_drafted, Map.empty))))
       = authority_view signing_drafted"
    using cicd_confined [OF no, of Map.empty _ "fst (snd _)" "snd (snd _)"] by (metis prod.collapse)
  moreover have
    "fst (publisher_handle demo_px (demo_request ''t1'' (path_of uuid1) approve_call) (signing_drafted, Map.empty)) = 403"
    "fst (publisher_handle demo_px (demo_request ''t2'' (path_of uuid1) approve_call) (signing_drafted, Map.empty)) = 200"
    "fst (publisher_handle demo_px (demo_request ''t1'' (path_of uuid1) redraft_call) (signing_drafted, Map.empty)) = 200"
    by code_simp+
  ultimately show ?thesis by blast
qed

abbreviation signing_submission :: "EvidenceBundle pub_answer \<times> db" where
  "signing_submission \<equiv> submitArtifactEvidence demo_trust 4000000000 ''e9'' (path_of uuid2) (Some signing_evidence) signing_db"

abbreviation reupload :: pub_request where
  "reupload \<equiv> demo_request ''t1'' (path_of uuid2)
     (UploadFileCall (Some \<lparr>pf_formatId = ''f1'', pf_mediaType = [], pf_file = Some (''other'', ''application/json'')\<rparr>))"


end
