(* ===== verification/Spec2Isabelle.thy ===== *)
theory Spec2Isabelle
  imports Drafts Bundle Discovery Publisher
begin

text \<open>
  This development models OpenTEA, a server for the Transparency Exchange API (TEA), and the client library that comes
  with it: a catalogue of products and components, their releases, versioned artifacts and collections, signed evidence,
  a four-eyes publication workflow, entitlements, accounts, the paged read API, downloads, bundles, and discovery.

  Everything the server stores is one SQLite database and a directory of files. \<^bold>\<open>Schema\<close> models the database as a
  record of tables (rows as records, \<open>internal/db/migrations\<close>), an operation as a function from a database to a
  result or error and a database, and the transaction wrappers \<open>runInTx\<close> and \<open>WithTx\<close> of
  \<open>internal/repo/repo.go\<close> with their rollback. A statement that can violate a constraint of the schema is
  a definition of its own (\<open>insert_product\<close>, \<open>upsert_draft\<close>, ...) with that constraint as an error branch;
  foreign keys that cascade are part of the delete operations. Every operation takes the instant it runs
  at and the identifiers it would generate as arguments. Definitions have the names of the Go functions they model.

  Foundations.
  \<^item> \<^bold>\<open>Prelude\<close>: tables as lists, SQL maximum and equality, whole-second time columns, hexadecimal.
  \<^item> \<^bold>\<open>Wire\<close>: the records of \<open>pkg/tea\<close> and \<open>pkg/teapublisher\<close> that the repository reads and writes.
  \<^item> \<^bold>\<open>Schema\<close>: the database, transactions, and three locales: \<open>atomic_op\<close> (a failed operation changes nothing),
    \<open>numbered\<close> (contiguous version numbers), \<open>db_view\<close> (operations that leave part of the database alone).
  \<^item> \<^bold>\<open>Paging\<close>: request parameters, cursors, \<open>filterAuthorized\<close> and the SQL page fragments; the locale
    \<open>keyset_source\<close> states what a list query promises, and the walk over its pages is proved there once.

  Repository (\<open>internal/repo\<close>, \<open>internal/authz\<close>).
  \<^item> \<^bold>\<open>Authz\<close>, \<^bold>\<open>AuthzStore\<close>: the decision engine over the locale \<open>policy_store\<close>, and the candidate
    queries that interpret it; what they allow the documented policy allows, and conversely where its documents and
    the ranking of the rules agree (type overrides and shared artifacts, stated as conditions). \<^bold>\<open>Entitlements\<close>: templates, groups and
    entitlements, and what editing and revoking them does to decisions.
  \<^item> \<^bold>\<open>Identifiers\<close>, \<^bold>\<open>Catalog\<close>, \<^bold>\<open>Releases\<close>: identifiers and checksums, products and components, releases
    with their initial collections, component links and distributions; referential integrity over any
    history of these operations.
  \<^item> \<^bold>\<open>Artifacts\<close>, \<^bold>\<open>Collections\<close>, \<^bold>\<open>Cle\<close>: versioned artifacts with uploads and downloads, immutable collection
    versions, lifecycle events; all three interpret \<open>numbered\<close>. \<^bold>\<open>Cle\<close> also has its read handlers.
  \<^item> \<^bold>\<open>Evidence\<close>, \<^bold>\<open>Drafts\<close>: evidence bundles, and the draft, approve, prepare, commit workflow as a
    reachability relation with its four-eyes invariant.
  \<^item> \<^bold>\<open>Accounts\<close>: users, sessions, keys, tokens and publisher credentials, with the gates and the token endpoint in
    front of them. \<^bold>\<open>LoginLimiter\<close>: the sliding window per address, with the map of addresses that is dropped when full.

  Around it.
  \<^item> \<^bold>\<open>Storage\<close>: the blob store as sequences of file system calls, an interleaving step relation with crashes, and the
    locale \<open>blob_storage\<close> that its users rely on.
  \<^item> \<^bold>\<open>Api\<close>, \<^bold>\<open>Downloads\<close>: the consumer handlers with authorization, conditional requests and content negotiation. The
    locale \<open>list_endpoint\<close> extends \<open>keyset_source\<close> by what a list handler adds.
  \<^item> \<^bold>\<open>Publisher\<close>: \<open>/publisher/v1\<close> with its scopes and the checks of \<open>internal/trust\<close>: what a commit and an evidence
    submission have verified, that accepted evidence stays true of its artifact over any history of requests, and what
    a pipeline's credential cannot reach. The frame locales \<open>artifact_frame\<close>, \<open>draft_frame\<close> and \<open>catalogue_frame\<close>
    extend \<open>db_view\<close>.
  \<^item> \<^bold>\<open>Bundle\<close>: import, check and export of a product with its files; \<open>import_frame\<close> says what an import leaves alone.
  \<^item> \<^bold>\<open>Semver\<close>, \<^bold>\<open>Teaclient\<close>, \<^bold>\<open>Discovery\<close>: the client (\<open>pkg/teaclient\<close>): version choice against a
    specification of SemVer 2.0.0, requests, retries, bootstrap discovery with failover by priority, verified downloads; the server's discovery handler; and client and server together, end to end.

  Bounds and loops. Integers are unbounded where the code uses Go's 64-bit \<open>int\<close> for counters; sums of declared sizes in
  an archive and parsed parameters are kept at their width. Times are nanoseconds since the epoch and the time columns
  whole seconds, so a stored time reads back truncated. A retried client call makes at most four attempts. The page loops
  \<open>filterAuthorized\<close> and \<open>ListAll\<close> are \<open>partial_function\<close>s in the option type and are proved to return, the second
  against this server. No definition runs on fuel.

  Parameters. SHA-256, bcrypt, Ed25519, X.509 and PEM parsing, canonical JSON, JSON decoding and the bundle's JSON schema,
  URL and media type parsing, \<open>ParseFloat\<close>, DNS and the archive reader are arguments of the definitions that use them. The
  network is a function of the requests sent so far and the next one. What a theorem needs of them it assumes by name.

  Simplifications. A history of the client holds the first request of each call; the hops of a redirect are
  \<open>follow_redirects\<close>. The end-to-end theorems on lists hand each page from the handler to the client without the size limit
  and the JSON decoding of \<open>do\<close>. Letter case and white space are those of ASCII. A page token stands for its decoded cursor.

  Not modelled: faults of the database driver and of the disk beyond those \<open>Storage\<close> names, panics, JSON and HTTP
  encoding, and changes between the queries of one read handler (a handler reads one database; the publisher's commit,
  where this matters, is modelled in two steps). The JSON handlers of the administration API are calls of one repository
  operation each and left out, except its uploads and gates; so are the web interfaces, the separate publisher web
  service (\<open>internal/openteapublisher\<close>), the command line tools, configuration, migrations, the test data generator and
  the conformance suite, which are input and output around the parts above.
\<close>

end
